(* ===== verification/Helion_Types.thy ===== *)
theory Helion_Types
  imports Prelude
begin

text \<open>
  The values of the database (\<open>src/src/storage/types.rs\<close>) and its errors
  (\<open>src/src/error.rs\<close>): data types, datums with the total order that the B-tree indexes
  use, column metadata, rows, and the conversion of a value to a column's type.

  A datum keeps its integers at their width, an \<open>f32\<close> or \<open>f64\<close> as its bit pattern
  (\<open>to_bits\<close>), a UUID as its bytes. The date types of the \<open>chrono\<close> crate are the numbers
  they are ordered by: a date is its day number, a time its second of the day and its
  nanoseconds, a timestamp the two together. What other crates and the standard library's
  float printing compute is a field of the record \<open>ext\<close>, an argument of every operation
  that uses it.
\<close>

subsection \<open>Errors\<close>

datatype helion_error =
    Parse string
  | TableNotFound string
  | ColumnNotFound string
  | AmbiguousColumn string
  | TableAlreadyExists string
  | TypeMismatch string string
  | TransactionError string
  | ConstraintViolation string
  | DuplicateKey string string
  | IndexNotFound string
  | IndexAlreadyExists string
  | Conflict u64
  | Io string
  | Serialization string
  | Protocol string
  | PermissionDenied string
  | AuthError string
  | Internal string

type_synonym 'a res = "helion_error + 'a"

fun error_display :: "helion_error \<Rightarrow> string" where
  "error_display (Parse s) = ''SQL parse error: '' @ s"
| "error_display (TableNotFound s) = ''Table '' @ quoted s @ '' not found''"
| "error_display (ColumnNotFound s) = ''Column '' @ quoted s @ '' not found''"
| "error_display (AmbiguousColumn s) =
     ''Column '' @ quoted s @ '' is ambiguous (exists in multiple tables)''"
| "error_display (TableAlreadyExists s) = ''Table '' @ quoted s @ '' already exists''"
| "error_display (TypeMismatch expected actual) =
     ''Type mismatch: expected '' @ expected @ '', got '' @ actual"
| "error_display (TransactionError s) = ''Transaction error: '' @ s"
| "error_display (ConstraintViolation s) = ''Constraint violation: '' @ s"
| "error_display (DuplicateKey ix key) =
     ''Duplicate key violation on index '' @ quoted ix @ '': '' @ key"
| "error_display (IndexNotFound s) = ''Index '' @ quoted s @ '' not found''"
| "error_display (IndexAlreadyExists s) = ''Index '' @ quoted s @ '' already exists''"
| "error_display (Conflict txid) =
     ''Optimistic lock conflict: transaction '' @ show_nat (unat txid) @
     '' aborted due to concurrent write''"
| "error_display (Io s) = ''I/O error: '' @ s"
| "error_display (Serialization s) = ''Serialization error: '' @ s"
| "error_display (Protocol s) = ''Protocol error: '' @ s"
| "error_display (PermissionDenied s) = ''Permission denied: '' @ s"
| "error_display (AuthError s) = ''Authentication error: '' @ s"
| "error_display (Internal s) = ''Internal error: '' @ s"

subsection \<open>External functions\<close>

type_synonym naive_date = int
type_synonym naive_time = "nat \<times> nat"
type_synonym naive_datetime = "int \<times> nat \<times> nat"
type_synonym uuid = "byte list"

record ext =
  ext_f32_display :: "u32 \<Rightarrow> string"
  ext_f64_display :: "u64 \<Rightarrow> string"
  ext_date_display :: "naive_date \<Rightarrow> string"
  ext_time_display :: "naive_time \<Rightarrow> string"
  ext_datetime_display :: "naive_datetime \<Rightarrow> string"
  ext_rfc3339 :: "i64 \<Rightarrow> string option"
  ext_hex_encode :: "byte list \<Rightarrow> string"
  ext_uuid_display :: "uuid \<Rightarrow> string"
  ext_uuid_version :: "uuid \<Rightarrow> nat"

subsection \<open>Data types\<close>

datatype data_type =
    TyBoolean
  | TySmallInt
  | TyUnsignedSmallInt
  | TyInteger
  | TyUnsignedInteger
  | TyBigInt
  | TyUnsignedBigInt
  | TyReal
  | TyDouble
  | TyVarChar "nat option"
  | TyChar "nat option"
  | TyText
  | TyBinary
  | TyDate
  | TyTime
  | TyTimestamp
  | TyTimestampTz
  | TyUuid
  | TyUuidV7
  | TyNull

fun type_name :: "data_type \<Rightarrow> string" where
  "type_name TyBoolean = ''BOOLEAN''"
| "type_name TySmallInt = ''SMALLINT''"
| "type_name TyUnsignedSmallInt = ''U_SMALLINT''"
| "type_name TyInteger = ''INTEGER''"
| "type_name TyUnsignedInteger = ''U_INTEGER''"
| "type_name TyBigInt = ''BIGINT''"
| "type_name TyUnsignedBigInt = ''U_BIGINT''"
| "type_name TyReal = ''REAL''"
| "type_name TyDouble = ''DOUBLE''"
| "type_name (TyVarChar _) = ''VARCHAR''"
| "type_name (TyChar _) = ''CHAR''"
| "type_name TyText = ''TEXT''"
| "type_name TyBinary = ''BINARY''"
| "type_name TyDate = ''DATE''"
| "type_name TyTime = ''TIME''"
| "type_name TyTimestamp = ''TIMESTAMP''"
| "type_name TyTimestampTz = ''TIMESTAMPTZ''"
| "type_name TyUuid = ''UUID''"
| "type_name TyUuidV7 = ''UUIDV7''"
| "type_name TyNull = ''NULL''"

subsection \<open>Datums\<close>

datatype datum =
    DBoolean bool
  | DSmallInt i16
  | DUnsignedSmallInt u16
  | DInteger i32
  | DUnsignedInteger u32
  | DBigInt i64
  | DUnsignedBigInt u64
  | DReal u32
  | DDouble u64
  | DVarChar string
  | DChar string
  | DText string
  | DBinary "byte list"
  | DDate naive_date
  | DTime naive_time
  | DTimestamp naive_datetime
  | DTimestampTz i64
  | DUuid uuid
  | DUuidV7 "byte list"
  | DNull

fun datum_type :: "datum \<Rightarrow> data_type" where
  "datum_type (DBoolean _) = TyBoolean"
| "datum_type (DSmallInt _) = TySmallInt"
| "datum_type (DUnsignedSmallInt _) = TyUnsignedSmallInt"
| "datum_type (DInteger _) = TyInteger"
| "datum_type (DUnsignedInteger _) = TyUnsignedInteger"
| "datum_type (DBigInt _) = TyBigInt"
| "datum_type (DUnsignedBigInt _) = TyUnsignedBigInt"
| "datum_type (DReal _) = TyReal"
| "datum_type (DDouble _) = TyDouble"
| "datum_type (DVarChar _) = TyVarChar None"
| "datum_type (DChar _) = TyChar None"
| "datum_type (DText _) = TyText"
| "datum_type (DBinary _) = TyBinary"
| "datum_type (DDate _) = TyDate"
| "datum_type (DTime _) = TyTime"
| "datum_type (DTimestamp _) = TyTimestamp"
| "datum_type (DTimestampTz _) = TyTimestampTz"
| "datum_type (DUuid _) = TyUuid"
| "datum_type (DUuidV7 _) = TyUuidV7"
| "datum_type DNull = TyNull"

fun display :: "ext \<Rightarrow> datum \<Rightarrow> string" where
  "display X DNull = ''NULL''"
| "display X (DBoolean b) = show_bool b"
| "display X (DSmallInt i) = show_int (sint i)"
| "display X (DUnsignedSmallInt i) = show_int (uint i)"
| "display X (DInteger i) = show_int (sint i)"
| "display X (DUnsignedInteger i) = show_int (uint i)"
| "display X (DBigInt i) = show_int (sint i)"
| "display X (DUnsignedBigInt i) = show_int (uint i)"
| "display X (DReal f) = ext_f32_display X f"
| "display X (DDouble f) = ext_f64_display X f"
| "display X (DVarChar s) = s"
| "display X (DChar s) = s"
| "display X (DText s) = s"
| "display X (DBinary b) = ext_hex_encode X b"
| "display X (DDate d) = ext_date_display X d"
| "display X (DTime t) = ext_time_display X t"
| "display X (DTimestamp ts) = ext_datetime_display X ts"
| "display X (DTimestampTz ts) =
     (case ext_rfc3339 X ts of Some s \<Rightarrow> s | None \<Rightarrow> show_int (sint ts))"
| "display X (DUuid u) = ext_uuid_display X u"
| "display X (DUuidV7 bytes) = ext_uuid_display X bytes"

definition is_null :: "datum \<Rightarrow> bool" where
  "is_null d \<longleftrightarrow> d = DNull"

lemma is_null_simps [simp]: "is_null DNull" "is_null d \<longleftrightarrow> d = DNull"
  by (auto simp: is_null_def)

subsection \<open>The total order on datums\<close>

datatype ordering = Less | Equal | Greater

definition cmp_of :: "'a::linorder \<Rightarrow> 'a \<Rightarrow> ordering" where
  "cmp_of a b = (if a < b then Less else if a = b then Equal else Greater)"

text \<open>
  \<open>f32::total_cmp\<close> and \<open>f64::total_cmp\<close> of the standard library: the bits as a signed
  integer, the bits below the sign flipped when the sign is set, compared as integers.
\<close>

definition f32_total_key :: "u32 \<Rightarrow> int" where
  "f32_total_key b = sint (xor b (drop_bit 1 (signed_drop_bit 31 b)))"

definition f64_total_key :: "u64 \<Rightarrow> int" where
  "f64_total_key b = sint (xor b (drop_bit 1 (signed_drop_bit 63 b)))"

fun variant_idx :: "datum \<Rightarrow> nat" where
  "variant_idx (DBoolean _) = 0"
| "variant_idx (DSmallInt _) = 1"
| "variant_idx (DUnsignedSmallInt _) = 2"
| "variant_idx (DInteger _) = 3"
| "variant_idx (DUnsignedInteger _) = 4"
| "variant_idx (DBigInt _) = 5"
| "variant_idx (DUnsignedBigInt _) = 6"
| "variant_idx (DReal _) = 7"
| "variant_idx (DDouble _) = 8"
| "variant_idx (DVarChar _) = 9"
| "variant_idx (DChar _) = 10"
| "variant_idx (DText _) = 11"
| "variant_idx (DBinary _) = 12"
| "variant_idx (DDate _) = 13"
| "variant_idx (DTime _) = 14"
| "variant_idx (DTimestamp _) = 15"
| "variant_idx (DTimestampTz _) = 16"
| "variant_idx (DUuid _) = 17"
| "variant_idx (DUuidV7 _) = 18"
| "variant_idx DNull = 19"

text \<open>The order of a time and of a timestamp is that of their components in turn.\<close>

definition time_cmp :: "naive_time \<Rightarrow> naive_time \<Rightarrow> ordering" where
  "time_cmp a b = cmp_of [fst a, snd a] [fst b, snd b]"

definition datetime_cmp :: "naive_datetime \<Rightarrow> naive_datetime \<Rightarrow> ordering" where
  "datetime_cmp a b = cmp_of [fst a, int (fst (snd a)), int (snd (snd a))]
                             [fst b, int (fst (snd b)), int (snd (snd b))]"

definition datum_cmp :: "datum \<Rightarrow> datum \<Rightarrow> ordering" where
  "datum_cmp self other =
     (if variant_idx self \<noteq> variant_idx other then cmp_of (variant_idx self) (variant_idx other)
      else (case (self, other) of
        (DBoolean a, DBoolean b) \<Rightarrow> cmp_of a b
      | (DSmallInt a, DSmallInt b) \<Rightarrow> cmp_of (sint a) (sint b)
      | (DUnsignedSmallInt a, DUnsignedSmallInt b) \<Rightarrow> cmp_of a b
      | (DInteger a, DInteger b) \<Rightarrow> cmp_of (sint a) (sint b)
      | (DUnsignedInteger a, DUnsignedInteger b) \<Rightarrow> cmp_of a b
      | (DBigInt a, DBigInt b) \<Rightarrow> cmp_of (sint a) (sint b)
      | (DUnsignedBigInt a, DUnsignedBigInt b) \<Rightarrow> cmp_of a b
      | (DReal a, DReal b) \<Rightarrow> cmp_of (f32_total_key a) (f32_total_key b)
      | (DDouble a, DDouble b) \<Rightarrow> cmp_of (f64_total_key a) (f64_total_key b)
      | (DVarChar a, DVarChar b) \<Rightarrow> cmp_of a b
      | (DChar a, DChar b) \<Rightarrow> cmp_of a b
      | (DText a, DText b) \<Rightarrow> cmp_of a b
      | (DBinary a, DBinary b) \<Rightarrow> cmp_of a b
      | (DDate a, DDate b) \<Rightarrow> cmp_of a b
      | (DTime a, DTime b) \<Rightarrow> time_cmp a b
      | (DTimestamp a, DTimestamp b) \<Rightarrow> datetime_cmp a b
      | (DTimestampTz a, DTimestampTz b) \<Rightarrow> cmp_of (sint a) (sint b)
      | (DUuid a, DUuid b) \<Rightarrow> cmp_of a b
      | (DUuidV7 a, DUuidV7 b) \<Rightarrow> cmp_of a b
      | (DNull, DNull) \<Rightarrow> Equal
      | _ \<Rightarrow> cmp_of (variant_idx self) (variant_idx other)))"

text \<open>
  Every comparison inside a variant is that of an integer list (the payload), so the order
  is the lexicographic order of variant index and payload; hence it is total.
\<close>

fun datum_payload :: "datum \<Rightarrow> int list" where
  "datum_payload (DBoolean b) = [of_bool b]"
| "datum_payload (DSmallInt i) = [sint i]"
| "datum_payload (DUnsignedSmallInt i) = [uint i]"
| "datum_payload (DInteger i) = [sint i]"
| "datum_payload (DUnsignedInteger i) = [uint i]"
| "datum_payload (DBigInt i) = [sint i]"
| "datum_payload (DUnsignedBigInt i) = [uint i]"
| "datum_payload (DReal f) = [f32_total_key f]"
| "datum_payload (DDouble f) = [f64_total_key f]"
| "datum_payload (DVarChar s) = map of_char s"
| "datum_payload (DChar s) = map of_char s"
| "datum_payload (DText s) = map of_char s"
| "datum_payload (DBinary b) = map uint b"
| "datum_payload (DDate d) = [d]"
| "datum_payload (DTime t) = [int (fst t), int (snd t)]"
| "datum_payload (DTimestamp t) = [fst t, int (fst (snd t)), int (snd (snd t))]"
| "datum_payload (DTimestampTz i) = [sint i]"
| "datum_payload (DUuid u) = map uint u"
| "datum_payload (DUuidV7 u) = map uint u"
| "datum_payload DNull = []"

lemma f32_key_involution:
  fixes b :: u32
  defines "g \<equiv> \<lambda>b::u32. xor b (drop_bit 1 (signed_drop_bit 31 b))"
  shows "g (g b) = b"
  unfolding g_def by (rule bit_word_eqI) (auto simp: bit_simps dest: bit_imp_le_length)

lemma f64_key_involution:
  fixes b :: u64
  defines "g \<equiv> \<lambda>b::u64. xor b (drop_bit 1 (signed_drop_bit 63 b))"
  shows "g (g b) = b"
  unfolding g_def by (rule bit_word_eqI) (auto simp: bit_simps dest: bit_imp_le_length)

lemma f32_total_key_inj: "f32_total_key a = f32_total_key b \<longleftrightarrow> a = b"
  unfolding f32_total_key_def by (metis f32_key_involution signed_word_eqI)

lemma f64_total_key_inj: "f64_total_key a = f64_total_key b \<longleftrightarrow> a = b"
  unfolding f64_total_key_def by (metis f64_key_involution signed_word_eqI)

lemma map_less_map:
  fixes f :: "'a::linorder \<Rightarrow> 'b::linorder"
  assumes "\<And>x y. f x < f y \<longleftrightarrow> x < y"
  shows "map f xs < map f ys \<longleftrightarrow> xs < ys"
proof (induction xs arbitrary: ys)
  case Nil
  then show ?case by (cases ys) auto
next
  case (Cons x xs)
  have eq: "f x = f y \<longleftrightarrow> x = y" for y
    using assms by (metis less_irrefl linorder_less_linear)
  show ?case by (cases ys) (auto simp: assms eq Cons.IH)
qed

lemma map_cmp_map:
  fixes f :: "'a::linorder \<Rightarrow> 'b::linorder"
  assumes less: "\<And>x y. f x < f y \<longleftrightarrow> x < y"
  shows "cmp_of (map f xs) (map f ys) = cmp_of xs ys"
proof -
  have "map f xs = map f ys \<longleftrightarrow> xs = ys"
    using map_less_map [of f, OF less] by (metis less_irrefl linorder_less_linear)
  then show ?thesis by (simp add: cmp_of_def map_less_map less)
qed

lemma of_char_less: "(of_char c :: int) < of_char d \<longleftrightarrow> c < d"
  by (metis less_char_def of_nat_less_iff of_nat_of_char)

lemma cmp_singleton: "cmp_of [f x] [f y] = cmp_of (f x) (f y)" for f :: "'a \<Rightarrow> 'b::linorder"
  by (simp add: cmp_of_def)

lemma cmp_uint: "cmp_of (uint a) (uint b) = cmp_of a b"
  by (simp add: cmp_of_def word_less_def word_uint_eq_iff)

lemma cmp_of_bool: "cmp_of (of_bool a :: int) (of_bool b) = cmp_of a b"
  by (cases a; cases b) (simp_all add: cmp_of_def)

lemma time_cmp_payload: "time_cmp a b = cmp_of [int (fst a), int (snd a)] [int (fst b), int (snd b)]"
  by (simp add: time_cmp_def cmp_of_def)

lemmas payload_cmp_simps =
  cmp_singleton [of "\<lambda>x. x"] cmp_uint cmp_of_bool time_cmp_payload datetime_cmp_def
  map_cmp_map [of of_char, OF of_char_less]
  map_cmp_map [of uint, OF word_less_def [symmetric]]

lemma datum_cmp_payload:
  "datum_cmp a b =
     (if variant_idx a \<noteq> variant_idx b then cmp_of (variant_idx a) (variant_idx b)
      else cmp_of (datum_payload a) (datum_payload b))"
  unfolding datum_cmp_def
  by (cases a; cases b; simp add: payload_cmp_simps; simp add: cmp_of_def)

lemma sint_eq_iff: "sint a = sint b \<longleftrightarrow> a = b"
  using signed_word_eqI by auto

lemma uint_eq_iff: "uint a = uint b \<longleftrightarrow> a = b"
  by (simp add: word_uint_eq_iff)

lemma map_of_char_eq: "map of_char s = (map of_char t :: int list) \<longleftrightarrow> s = t"
  by (metis map_less_map of_char_less less_irrefl linorder_less_linear)

lemma map_uint_eq: "map uint s = map uint t \<longleftrightarrow> s = t"
  by (simp add: inj_map_eq_map [OF injI])

lemma datum_payload_inj:
  "variant_idx a = variant_idx b \<Longrightarrow> datum_payload a = datum_payload b \<Longrightarrow> a = b"
  by (cases a; cases b)
    (auto simp: f32_total_key_inj f64_total_key_inj sint_eq_iff prod_eq_iff
      map_of_char_eq map_uint_eq uint_eq_iff)

instantiation datum :: linorder
begin

definition less_eq_datum :: "datum \<Rightarrow> datum \<Rightarrow> bool" where
  "less_eq_datum a b \<longleftrightarrow> datum_cmp a b \<noteq> Greater"

definition less_datum :: "datum \<Rightarrow> datum \<Rightarrow> bool" where
  "less_datum a b \<longleftrightarrow> datum_cmp a b = Less"

lemma less_eq_datum_key:
  "a \<le> b \<longleftrightarrow> variant_idx a < variant_idx b \<or>
     (variant_idx a = variant_idx b \<and> datum_payload a \<le> datum_payload b)"
  by (auto simp: less_eq_datum_def datum_cmp_payload cmp_of_def)

lemma less_datum_key:
  "a < b \<longleftrightarrow> variant_idx a < variant_idx b \<or>
     (variant_idx a = variant_idx b \<and> datum_payload a < datum_payload b)"
  by (auto simp: less_datum_def datum_cmp_payload cmp_of_def)

instance
proof
  fix a b c :: datum
  show "a < b \<longleftrightarrow> a \<le> b \<and> \<not> b \<le> a"
    by (auto simp: less_eq_datum_key less_datum_key)
  show "a \<le> a" by (simp add: less_eq_datum_key)
  show "a \<le> b \<Longrightarrow> b \<le> c \<Longrightarrow> a \<le> c"
    by (auto simp: less_eq_datum_key)
  show "a \<le> b \<Longrightarrow> b \<le> a \<Longrightarrow> a = b"
    by (auto simp: less_eq_datum_key intro: datum_payload_inj)
  show "a \<le> b \<or> b \<le> a"
    by (auto simp: less_eq_datum_key)
qed

end

subsection \<open>Equality of datums\<close>

text \<open>
  The derived \<open>PartialEq\<close> compares floats by IEEE equality: a NaN differs from
  everything, the two zeros are equal. On every other variant it is structural equality.
\<close>

definition f32_is_nan :: "u32 \<Rightarrow> bool" where
  "f32_is_nan b \<longleftrightarrow> and b 0x7FFFFFFF > 0x7F800000"

definition f64_is_nan :: "u64 \<Rightarrow> bool" where
  "f64_is_nan b \<longleftrightarrow> and b 0x7FFFFFFFFFFFFFFF > 0x7FF0000000000000"

definition f32_eq :: "u32 \<Rightarrow> u32 \<Rightarrow> bool" where
  "f32_eq a b \<longleftrightarrow> \<not> f32_is_nan a \<and> \<not> f32_is_nan b \<and>
     (a = b \<or> (and a 0x7FFFFFFF = 0 \<and> and b 0x7FFFFFFF = 0))"

definition f64_eq :: "u64 \<Rightarrow> u64 \<Rightarrow> bool" where
  "f64_eq a b \<longleftrightarrow> \<not> f64_is_nan a \<and> \<not> f64_is_nan b \<and>
     (a = b \<or> (and a 0x7FFFFFFFFFFFFFFF = 0 \<and> and b 0x7FFFFFFFFFFFFFFF = 0))"

definition datum_eq :: "datum \<Rightarrow> datum \<Rightarrow> bool" where
  "datum_eq a b \<longleftrightarrow> (case (a, b) of
       (DReal x, DReal y) \<Rightarrow> f32_eq x y
     | (DDouble x, DDouble y) \<Rightarrow> f64_eq x y
     | _ \<Rightarrow> a = b)"

fun is_float :: "datum \<Rightarrow> bool" where
  "is_float (DReal _) = True"
| "is_float (DDouble _) = True"
| "is_float _ = False"

lemma datum_eq_no_float: "\<not> is_float a \<Longrightarrow> datum_eq a b \<longleftrightarrow> a = b"
  by (cases a) (auto simp: datum_eq_def)

subsection \<open>Columns and rows\<close>

record foreign_key_info =
  fk_foreign_table :: string
  fk_foreign_column :: string

record column_meta =
  cm_name :: string
  cm_data_type :: data_type
  cm_nullable :: bool
  cm_is_primary_key :: bool
  cm_is_unique :: bool
  cm_default :: "datum option"
  cm_references :: "foreign_key_info option"

definition column_new :: "string \<Rightarrow> data_type \<Rightarrow> column_meta" where
  "column_new name ty =
     \<lparr>cm_name = name, cm_data_type = ty, cm_nullable = True, cm_is_primary_key = False,
      cm_is_unique = False, cm_default = None, cm_references = None\<rparr>"

definition column_references :: "string \<Rightarrow> string \<Rightarrow> column_meta \<Rightarrow> column_meta" where
  "column_references foreign_table foreign_column c =
     c\<lparr>cm_references := Some \<lparr>fk_foreign_table = foreign_table, fk_foreign_column = foreign_column\<rparr>\<rparr>"

definition column_not_null :: "column_meta \<Rightarrow> column_meta" where
  "column_not_null c = c\<lparr>cm_nullable := False\<rparr>"

definition column_primary_key :: "column_meta \<Rightarrow> column_meta" where
  "column_primary_key c = c\<lparr>cm_nullable := False, cm_is_primary_key := True, cm_is_unique := True\<rparr>"

record row =
  row_values :: "datum list"

definition row_get :: "row \<Rightarrow> nat \<Rightarrow> datum option" where
  "row_get r idx = nth_opt (row_values r) idx"

subsection \<open>Conversion to a column's type\<close>

definition coerce_datum :: "ext \<Rightarrow> datum \<Rightarrow> data_type \<Rightarrow> datum res" where
  "coerce_datum X value target =
     (let mismatch = Inl (TypeMismatch (type_name target) (type_name (datum_type value))) in
      case (value, target) of
        (DNull, _) \<Rightarrow> Inr DNull
      | (DBoolean v, TyBoolean) \<Rightarrow> Inr (DBoolean v)
      | (DSmallInt v, TySmallInt) \<Rightarrow> Inr (DSmallInt v)
      | (DSmallInt v, TyInteger) \<Rightarrow> Inr (DInteger (scast v))
      | (DSmallInt v, TyBigInt) \<Rightarrow> Inr (DBigInt (scast v))
      | (DSmallInt v, TyUnsignedSmallInt) \<Rightarrow>
          if sint v \<ge> 0 then Inr (DUnsignedSmallInt v) else mismatch
      | (DSmallInt v, TyUnsignedInteger) \<Rightarrow>
          if sint v \<ge> 0 then Inr (DUnsignedInteger (scast v)) else mismatch
      | (DSmallInt v, TyUnsignedBigInt) \<Rightarrow>
          if sint v \<ge> 0 then Inr (DUnsignedBigInt (scast v)) else mismatch
      | (DUnsignedSmallInt v, TyUnsignedSmallInt) \<Rightarrow> Inr (DUnsignedSmallInt v)
      | (DUnsignedSmallInt v, TyUnsignedInteger) \<Rightarrow> Inr (DUnsignedInteger (ucast v))
      | (DUnsignedSmallInt v, TyUnsignedBigInt) \<Rightarrow> Inr (DUnsignedBigInt (ucast v))
      | (DUnsignedSmallInt v, TyInteger) \<Rightarrow> Inr (DInteger (ucast v))
      | (DUnsignedSmallInt v, TyBigInt) \<Rightarrow> Inr (DBigInt (ucast v))
      | (DInteger v, TyInteger) \<Rightarrow> Inr (DInteger v)
      | (DInteger v, TyBigInt) \<Rightarrow> Inr (DBigInt (scast v))
      | (DInteger v, TyUnsignedInteger) \<Rightarrow>
          if sint v \<ge> 0 then Inr (DUnsignedInteger v) else mismatch
      | (DInteger v, TyUnsignedBigInt) \<Rightarrow>
          if sint v \<ge> 0 then Inr (DUnsignedBigInt (scast v)) else mismatch
      | (DUnsignedInteger v, TyUnsignedInteger) \<Rightarrow> Inr (DUnsignedInteger v)
      | (DUnsignedInteger v, TyUnsignedBigInt) \<Rightarrow> Inr (DUnsignedBigInt (ucast v))
      | (DUnsignedInteger v, TyBigInt) \<Rightarrow> Inr (DBigInt (ucast v))
      | (DUnsignedInteger v, TyInteger) \<Rightarrow>
          if uint v \<le> 2 ^ 31 - 1 then Inr (DInteger v) else mismatch
      | (DBigInt v, TyBigInt) \<Rightarrow> Inr (DBigInt v)
      | (DBigInt v, TyUnsignedBigInt) \<Rightarrow>
          if sint v \<ge> 0 then Inr (DUnsignedBigInt v) else mismatch
      | (DBigInt v, TyInteger) \<Rightarrow>
          if sint v \<ge> - (2 ^ 31) \<and> sint v \<le> 2 ^ 31 - 1 then Inr (DInteger (ucast v)) else mismatch
      | (DUnsignedBigInt v, TyUnsignedBigInt) \<Rightarrow> Inr (DUnsignedBigInt v)
      | (DUnsignedBigInt v, TyBigInt) \<Rightarrow>
          if uint v \<le> 2 ^ 63 - 1 then Inr (DBigInt v) else mismatch
      | (DUnsignedBigInt v, TyInteger) \<Rightarrow>
          if uint v \<le> 2 ^ 31 - 1 then Inr (DInteger (ucast v)) else mismatch
      | (DReal v, TyReal) \<Rightarrow> Inr (DReal v)
      | (DDouble v, TyDouble) \<Rightarrow> Inr (DDouble v)
      | (DText v, TyText) \<Rightarrow> Inr (DText v)
      | (DText v, TyVarChar _) \<Rightarrow> Inr (DVarChar v)
      | (DText v, TyChar _) \<Rightarrow> Inr (DChar v)
      | (DVarChar v, TyText) \<Rightarrow> Inr (DText v)
      | (DVarChar v, TyVarChar _) \<Rightarrow> Inr (DVarChar v)
      | (DVarChar v, TyChar _) \<Rightarrow> Inr (DChar v)
      | (DChar v, TyText) \<Rightarrow> Inr (DText v)
      | (DChar v, TyVarChar _) \<Rightarrow> Inr (DVarChar v)
      | (DChar v, TyChar _) \<Rightarrow> Inr (DChar v)
      | (DBinary v, TyBinary) \<Rightarrow> Inr (DBinary v)
      | (DDate v, TyDate) \<Rightarrow> Inr (DDate v)
      | (DTime v, TyTime) \<Rightarrow> Inr (DTime v)
      | (DTimestamp v, TyTimestamp) \<Rightarrow> Inr (DTimestamp v)
      | (DTimestampTz v, TyTimestampTz) \<Rightarrow> Inr (DTimestampTz v)
      | (DUuid v, TyUuid) \<Rightarrow> Inr (DUuid v)
      | (DUuidV7 v, TyUuidV7) \<Rightarrow> Inr (DUuidV7 v)
      | (DUuid v, TyUuidV7) \<Rightarrow> if ext_uuid_version X v = 7 then Inr (DUuidV7 v) else mismatch
      | _ \<Rightarrow> mismatch)"

fun datum_int :: "datum \<Rightarrow> int option" where
  "datum_int (DSmallInt v) = Some (sint v)"
| "datum_int (DUnsignedSmallInt v) = Some (uint v)"
| "datum_int (DInteger v) = Some (sint v)"
| "datum_int (DUnsignedInteger v) = Some (uint v)"
| "datum_int (DBigInt v) = Some (sint v)"
| "datum_int (DUnsignedBigInt v) = Some (uint v)"
| "datum_int _ = None"

fun datum_text :: "datum \<Rightarrow> string option" where
  "datum_text (DVarChar s) = Some s"
| "datum_text (DChar s) = Some s"
| "datum_text (DText s) = Some s"
| "datum_text _ = None"

text \<open>The values of an integer type.\<close>

fun int_range :: "data_type \<Rightarrow> (int \<times> int) option" where
  "int_range TySmallInt = Some (- (2 ^ 15), 2 ^ 15 - 1)"
| "int_range TyUnsignedSmallInt = Some (0, 2 ^ 16 - 1)"
| "int_range TyInteger = Some (- (2 ^ 31), 2 ^ 31 - 1)"
| "int_range TyUnsignedInteger = Some (0, 2 ^ 32 - 1)"
| "int_range TyBigInt = Some (- (2 ^ 63), 2 ^ 63 - 1)"
| "int_range TyUnsignedBigInt = Some (0, 2 ^ 64 - 1)"
| "int_range _ = None"

definition fits :: "data_type \<Rightarrow> int \<Rightarrow> bool" where
  "fits ty n = (case int_range ty of None \<Rightarrow> False | Some (lo, hi) \<Rightarrow> lo \<le> n \<and> n \<le> hi)"

text \<open>A value belongs to a column type when its own type is that type, lengths aside.\<close>

fun erase_length :: "data_type \<Rightarrow> data_type" where
  "erase_length (TyVarChar _) = TyVarChar None"
| "erase_length (TyChar _) = TyChar None"
| "erase_length ty = ty"

lemma sint_lower16: "- 32768 \<le> sint (v::16 word)" and sint_upper16: "sint (v::16 word) \<le> 32767"
  using sint_greater_eq [of v] sint_less [of v] by simp_all

lemma sint_lower32: "- 2147483648 \<le> sint (v::32 word)" and sint_upper32: "sint (v::32 word) \<le> 2147483647"
  using sint_greater_eq [of v] sint_less [of v] by simp_all

lemma sint_lower64: "- 9223372036854775808 \<le> sint (v::64 word)"
  and sint_upper64: "sint (v::64 word) \<le> 9223372036854775807"
  using sint_greater_eq [of v] sint_less [of v] by simp_all

lemma uint_upper16: "uint (v::16 word) \<le> 65535"
  using uint_bounded [of v] by simp
lemma uint_upper32: "uint (v::32 word) \<le> 4294967295"
  using uint_bounded [of v] by simp
lemma uint_upper64: "uint (v::64 word) \<le> 18446744073709551615"
  using uint_bounded [of v] by simp

lemmas word_bounds = sint_lower16 sint_upper16 sint_lower32 sint_upper32 sint_lower64 sint_upper64
  uint_upper16 uint_upper32 uint_upper64

text \<open>Casts between widths keep the value when it fits the target.\<close>

lemma sint_scast_fits:
  "sint (scast v :: 'b::len word) = sint v"
  if "- (2 ^ (LENGTH('b) - 1)) \<le> sint v" "sint v < 2 ^ (LENGTH('b) - 1)" for v :: "'a::len word"
proof -
  have "sint (scast v :: 'b word) = signed_take_bit (LENGTH('b) - 1) (sint v)"
    by transfer simp
  then show ?thesis using that by (simp add: signed_take_bit_int_eq_self)
qed

lemma sint_ucast_fits:
  "sint (ucast v :: 'b::len word) = uint v" if "uint v < 2 ^ (LENGTH('b) - 1)" for v :: "'a::len word"
proof -
  have "sint (ucast v :: 'b word) = signed_take_bit (LENGTH('b) - 1) (uint v)"
    by transfer simp
  moreover have "- (2 ^ (LENGTH('b) - 1)) \<le> uint v"
    by (rule order_trans [of _ 0]) simp_all
  ultimately show ?thesis using that by (simp add: signed_take_bit_int_eq_self)
qed

lemma uint_scast_fits:
  "uint (scast v :: 'b::len word) = sint v"
  if "0 \<le> sint v" "sint v < 2 ^ LENGTH('b)" for v :: "'a::len word"
proof -
  have "uint (scast v :: 'b word) = take_bit LENGTH('b) (sint v)"
    by transfer simp
  then show ?thesis using that by (simp add: take_bit_int_eq_self)
qed

lemma uint_ucast_fits:
  "uint (ucast v :: 'b::len word) = uint v" if "uint v < 2 ^ LENGTH('b)" for v :: "'a::len word"
proof -
  have "uint (ucast v :: 'b word) = take_bit LENGTH('b) (uint v)"
    by transfer simp
  then show ?thesis using that by (simp add: take_bit_int_eq_self)
qed

text \<open>The same width read with the other sign.\<close>

lemma uint_of_sint: "uint v = sint v" if "0 \<le> sint v" for v :: "'a::len word"
proof -
  have "sint v < 2 ^ (LENGTH('a) - 1)" using sint_less [of v] by simp
  also have "(2::int) ^ (LENGTH('a) - 1) \<le> 2 ^ LENGTH('a)" by (simp add: power_increasing)
  finally show ?thesis using uint_scast_fits [where 'b = 'a, of v] that by simp
qed

lemma sint_of_uint: "uint v < 2 ^ (LENGTH('a) - 1) \<Longrightarrow> sint v = uint v" for v :: "'a::len word"
  using sint_ucast_fits [where 'b = 'a, of v] by simp

lemma sint_ucast_of_sint:
  "sint (ucast v :: 32 word) = sint v" if "- (2 ^ 31) \<le> sint v" "sint v < 2 ^ 31" for v :: "64 word"
proof -
  have "(ucast v :: 32 word) = scast v"
    by (rule bit_word_eqI) (auto simp: bit_simps)
  then show ?thesis using sint_scast_fits [where 'b = 32, of v] that by simp
qed

lemma datum_int_fits: "datum_int v = Some n \<Longrightarrow> fits (datum_type v) n"
  by (cases v) (auto simp: fits_def word_bounds)

lemma coerce_datum_cases:
  assumes "coerce_datum X v ty = Inr w"
  shows "(v = DNull \<and> w = DNull) \<or>
    (erase_length (datum_type w) = erase_length ty \<and> datum_int w = datum_int v \<and>
     datum_text w = datum_text v \<and>
     (datum_int v = None \<and> datum_text v = None \<longrightarrow> datum_payload w = datum_payload v))"
proof (cases v)
  case (DSmallInt a)
  then show ?thesis using assms word_bounds(1,2) [of a]
    by (cases ty) (auto simp: coerce_datum_def sint_scast_fits uint_scast_fits uint_of_sint split: if_splits)
next
  case (DUnsignedSmallInt a)
  then show ?thesis using assms word_bounds(7) [of a]
    by (cases ty) (auto simp: coerce_datum_def sint_ucast_fits uint_ucast_fits split: if_splits)
next
  case (DInteger a)
  then show ?thesis using assms word_bounds(3,4) [of a]
    by (cases ty) (auto simp: coerce_datum_def sint_scast_fits uint_scast_fits uint_of_sint split: if_splits)
next
  case (DUnsignedInteger a)
  then show ?thesis using assms word_bounds(8) [of a]
    by (cases ty) (auto simp: coerce_datum_def sint_ucast_fits uint_ucast_fits sint_of_uint split: if_splits)
next
  case (DBigInt a)
  then show ?thesis using assms word_bounds(5,6) [of a]
    by (cases ty) (auto simp: coerce_datum_def sint_ucast_of_sint uint_of_sint split: if_splits)
next
  case (DUnsignedBigInt a)
  then show ?thesis using assms word_bounds(9) [of a]
    by (cases ty) (auto simp: coerce_datum_def sint_ucast_fits sint_of_uint split: if_splits)
qed (use assms in \<open>cases ty; auto simp: coerce_datum_def split: if_splits\<close>)+

lemma coerce_datum_complete:
  assumes "datum_int v = Some n" "ty \<in> {TyInteger, TyBigInt, TyUnsignedBigInt}" "fits ty n"
  shows "\<exists>w. coerce_datum X v ty = Inr w"
  using assms by (cases v) (auto simp: coerce_datum_def fits_def)

lemma coerce_datum_error:
  "coerce_datum X v ty = Inl e \<Longrightarrow> e = TypeMismatch (type_name ty) (type_name (datum_type v))"
  by (cases v; cases ty) (auto simp: coerce_datum_def split: if_splits)

lemma coerce_datum_null [simp]: "coerce_datum X DNull ty = Inr DNull"
  by (simp add: coerce_datum_def)

lemma type_name_int [simp]: "erase_length ty = TyInteger \<longleftrightarrow> ty = TyInteger"
  "erase_length ty = TyBigInt \<longleftrightarrow> ty = TyBigInt"
  "erase_length ty = TyUnsignedBigInt \<longleftrightarrow> ty = TyUnsignedBigInt"
  by (cases ty; simp)+

text \<open>An instance of the external functions on which the witnesses evaluate.\<close>

definition sample_ext :: ext where
  "sample_ext = \<lparr>ext_f32_display = (\<lambda>f. show_int (uint f)), ext_f64_display = (\<lambda>f. show_int (uint f)),
     ext_date_display = show_int, ext_time_display = (\<lambda>t. show_nat (fst t)),
     ext_datetime_display = (\<lambda>t. show_int (fst t)), ext_rfc3339 = (\<lambda>_. None),
     ext_hex_encode = concat \<circ> map (\<lambda>b. show_nat (unat b)),
     ext_uuid_display = concat \<circ> map (\<lambda>b. show_nat (unat b)),
     ext_uuid_version = (\<lambda>u. unat (u ! 6) div 16)\<rparr>"

subsection \<open>Properties\<close>

text \<open>the comparison of two datums that the B-tree indexes sort by is a total order: it is
  antisymmetric and transitive, and it says Equal on identical values only (a NaN equals
  itself and the two zeros of a float differ, since floats are compared by \<open>total_cmp\<close>).\<close>
theorem datum_cmp_total_order:
  "(datum_cmp a b = Equal \<longleftrightarrow> a = b) \<and>
   datum_cmp b a = (case datum_cmp a b of Less \<Rightarrow> Greater | Equal \<Rightarrow> Equal | Greater \<Rightarrow> Less) \<and>
   (datum_cmp a b \<noteq> Greater \<and> datum_cmp b c \<noteq> Greater \<longrightarrow> datum_cmp a c \<noteq> Greater)"
proof (intro conjI impI)
  show "datum_cmp a b = Equal \<longleftrightarrow> a = b"
    by (auto simp: datum_cmp_payload cmp_of_def intro: datum_payload_inj split: if_splits)
  show "datum_cmp b a = (case datum_cmp a b of Less \<Rightarrow> Greater | Equal \<Rightarrow> Equal | Greater \<Rightarrow> Less)"
    by (auto simp: datum_cmp_payload cmp_of_def)
  show "datum_cmp a c \<noteq> Greater" if "datum_cmp a b \<noteq> Greater \<and> datum_cmp b c \<noteq> Greater"
    using that order_trans [of a b c] by (simp add: less_eq_datum_def)
qed

theorem datum_cmp_total_order_witness:
  "datum_cmp (DReal 0x80000000) (DReal 0) = Less \<and>
   datum_cmp (DInteger (- 1)) (DText ''a'') \<noteq> Greater \<and> datum_cmp (DText ''a'') DNull \<noteq> Greater \<and>
   datum_cmp (DInteger (- 1)) DNull \<noteq> Greater"
proof -
  have "datum_cmp (DReal 0x80000000) (DReal 0) = Less" by code_simp
  moreover have "datum_cmp (DInteger (- 1)) (DText ''a'') \<noteq> Greater" by code_simp
  moreover have "datum_cmp (DText ''a'') DNull \<noteq> Greater" by code_simp
  ultimately show ?thesis
    using datum_cmp_total_order [of "DInteger (- 1)" "DText ''a''" DNull] by blast
qed

text \<open>C31: the conversion of a value to a column's type never changes what the value is: NULL
  stays NULL, and any other result has the column's type (up to the declared length) and
  the number, text or payload it had.\<close>
theorem coerce_datum_sound:
  assumes "coerce_datum X v ty = Inr w"
  shows "(v = DNull \<and> w = DNull) \<or>
    (erase_length (datum_type w) = erase_length ty \<and> datum_int w = datum_int v \<and>
     datum_text w = datum_text v \<and>
     (datum_int v = None \<and> datum_text v = None \<longrightarrow> datum_payload w = datum_payload v))"
  using coerce_datum_cases [OF assms] by auto

theorem coerce_datum_sound_witness:
  "coerce_datum sample_ext (DBigInt (- 7)) TyInteger = Inr (DInteger (- 7)) \<and>
   datum_int (DInteger (- 7)) = datum_int (DBigInt (- 7))"
proof -
  have h: "coerce_datum sample_ext (DBigInt (- 7)) TyInteger = Inr (DInteger (- 7))" by code_simp
  show ?thesis using coerce_datum_sound [OF h] h by simp
qed

text \<open>an integer of any of the six widths is accepted by an INTEGER, BIGINT or U_BIGINT
  column exactly when it lies in the range of that column's type, keeps its value there,
  and is rejected with the type mismatch error otherwise: no conversion wraps around.\<close>
theorem coerce_datum_integer:
  assumes "datum_int v = Some n" "ty \<in> {TyInteger, TyBigInt, TyUnsignedBigInt}"
  shows "if fits ty n
     then \<exists>w. coerce_datum X v ty = Inr w \<and> datum_type w = ty \<and> datum_int w = Some n
     else coerce_datum X v ty = Inl (TypeMismatch (type_name ty) (type_name (datum_type v)))"
proof (cases "coerce_datum X v ty")
  case (Inl e)
  then show ?thesis
    using coerce_datum_complete [OF assms, of X] coerce_datum_error [OF Inl] by auto
next
  case (Inr w)
  from assms(1) have "v \<noteq> DNull" by auto
  with coerce_datum_cases [OF Inr] assms
  have "datum_type w = ty" "datum_int w = Some n" by (cases w; auto)+
  with Inr datum_int_fits [of w] show ?thesis by auto
qed

theorem coerce_datum_integer_witness:
  "(\<exists>w. coerce_datum sample_ext (DUnsignedBigInt 4294967296) TyBigInt = Inr w \<and>
      datum_type w = TyBigInt \<and> datum_int w = Some 4294967296) \<and>
   coerce_datum sample_ext (DUnsignedBigInt 4294967296) TyInteger = Inl (TypeMismatch ''INTEGER'' ''U_BIGINT'')"
  using coerce_datum_integer [of "DUnsignedBigInt 4294967296" 4294967296 TyBigInt sample_ext]
    coerce_datum_integer [of "DUnsignedBigInt 4294967296" 4294967296 TyInteger sample_ext]
  by (simp add: fits_def)

end
