(* ===== verification/Ordered_Map.thy ===== *)
theory Ordered_Map
  imports Prelude
begin

text \<open>
  The standard library's \<open>BTreeMap\<close>: an association list in strictly ascending key order,
  with \<open>get\<close>, \<open>insert\<close>, \<open>remove\<close> and \<open>values\<close>. The locale \<open>ordered_map\<close> states what
  the components rely on; it is interpreted on the association lists as \<open>om\<close>, and the
  indexes, the catalog and the active set of transactions rest on its facts.
  A \<open>BTreeSet\<close> is a finite set; iterating over one is \<open>sorted_list_of_set\<close>.
\<close>

type_synonym ('k, 'v) omap = "('k \<times> 'v) list"

definition om_empty :: "('k, 'v) omap" where
  "om_empty = []"

fun om_get :: "('k, 'v) omap \<Rightarrow> 'k \<Rightarrow> 'v option" where
  "om_get [] k = None"
| "om_get ((k', v) # m) k = (if k' = k then Some v else om_get m k)"

fun om_put :: "('k::linorder, 'v) omap \<Rightarrow> 'k \<Rightarrow> 'v \<Rightarrow> ('k, 'v) omap" where
  "om_put [] k v = [(k, v)]"
| "om_put ((k', v') # m) k v =
     (if k < k' then (k, v) # (k', v') # m
      else if k = k' then (k, v) # m
      else (k', v') # om_put m k v)"

fun om_del :: "('k::linorder, 'v) omap \<Rightarrow> 'k \<Rightarrow> ('k, 'v) omap" where
  "om_del [] k = []"
| "om_del ((k', v') # m) k = (if k = k' then m else (k', v') # om_del m k)"

definition om_keys :: "('k, 'v) omap \<Rightarrow> 'k list" where
  "om_keys m = map fst m"

definition om_values :: "('k, 'v) omap \<Rightarrow> 'v list" where
  "om_values m = map snd m"

definition om_ok :: "('k::linorder, 'v) omap \<Rightarrow> bool" where
  "om_ok m \<longleftrightarrow> sorted_wrt (<) (om_keys m)"

text \<open>Changing the value in place, as \<open>get_mut\<close> and \<open>iter_mut\<close> do.\<close>

definition om_map_values :: "('k \<Rightarrow> 'v \<Rightarrow> 'w) \<Rightarrow> ('k, 'v) omap \<Rightarrow> ('k, 'w) omap" where
  "om_map_values f m = map (\<lambda>(k, v). (k, f k v)) m"

subsection \<open>The interface\<close>

locale ordered_map =
  fixes ok :: "'m \<Rightarrow> bool"
    and empty :: 'm
    and get :: "'m \<Rightarrow> 'k::linorder \<Rightarrow> 'v option"
    and put :: "'m \<Rightarrow> 'k \<Rightarrow> 'v \<Rightarrow> 'm"
    and del :: "'m \<Rightarrow> 'k \<Rightarrow> 'm"
    and items :: "'m \<Rightarrow> ('k \<times> 'v) list"
  assumes ok_empty: "ok empty"
    and ok_put: "ok m \<Longrightarrow> ok (put m k v)"
    and ok_del: "ok m \<Longrightarrow> ok (del m k)"
    and get_empty: "get empty k = None"
    and get_put: "ok m \<Longrightarrow> get (put m k v) k' = (if k' = k then Some v else get m k')"
    and get_del: "ok m \<Longrightarrow> get (del m k) k' = (if k' = k then None else get m k')"
    and items_sorted: "ok m \<Longrightarrow> sorted_wrt (<) (map fst (items m))"
    and items_get: "ok m \<Longrightarrow> (k, v) \<in> set (items m) \<longleftrightarrow> get m k = Some v"
begin

lemma items_distinct: "ok m \<Longrightarrow> distinct (map fst (items m))"
  using items_sorted strict_sorted_iff by blast

lemma items_conv: "ok m \<Longrightarrow> items m = map (\<lambda>k. (k, the (get m k))) (map fst (items m))"
  using items_get by (auto intro!: map_idI [symmetric] simp: o_def)

lemma items_ext:
  assumes "ok m" "ok m'" "\<And>k. get m k = get m' k"
  shows "items m = items m'"
proof -
  have "set (items m) = set (items m')"
    using assms items_get by (auto simp: set_eq_iff)
  then have "map fst (items m) = map fst (items m')"
    using assms items_sorted strict_sorted_equal by (metis set_map)
  then show ?thesis
    using items_conv [OF assms(1)] items_conv [OF assms(2)] assms(3) by (simp add: o_def)
qed

lemma get_put_same: "ok m \<Longrightarrow> get (put m k v) k = Some v"
  by (simp add: get_put)

lemma get_fold_put:
  "ok m \<Longrightarrow> distinct (map fst kvs) \<Longrightarrow>
   get (foldl (\<lambda>m (k, v). put m k v) m kvs) k' =
     (case map_of kvs k' of Some v \<Rightarrow> Some v | None \<Rightarrow> get m k')"
proof (induction kvs arbitrary: m)
  case Nil
  then show ?case by simp
next
  case (Cons kv kvs)
  obtain k v where kv: "kv = (k, v)" by (cases kv)
  have "map_of kvs k = None" using Cons.prems kv by (simp add: map_of_eq_None_iff)
  then show ?case
    using Cons.IH [of "put m k v"] Cons.prems kv by (auto simp: ok_put get_put split: option.splits)
qed

end

subsection \<open>Association lists provide it\<close>

lemma om_get_map_of: "om_get m k = map_of m k"
  by (induction m k rule: om_get.induct) auto

lemma om_put_ball: "(\<forall>x \<in> set (om_put m k v). P (fst x)) \<longleftrightarrow> P k \<and> (\<forall>x \<in> set m. P (fst x))"
  by (induction m k v rule: om_put.induct) auto

lemma om_del_subset: "set (om_del m k) \<subseteq> set m"
  by (induction m k rule: om_del.induct) auto

lemma om_ok_Cons: "om_ok ((k, v) # m) \<longleftrightarrow> (\<forall>x \<in> set m. k < fst x) \<and> om_ok m"
  by (auto simp: om_ok_def om_keys_def)

lemma om_ok_put: "om_ok m \<Longrightarrow> om_ok (om_put m k v)"
  by (induction m k v rule: om_put.induct) (auto simp: om_ok_Cons om_put_ball om_ok_def om_keys_def)

lemma om_ok_del: "om_ok m \<Longrightarrow> om_ok (om_del m k)"
proof (induction m k rule: om_del.induct)
  case (2 k' v' m k)
  then show ?case using om_del_subset [of m k] by (auto simp: om_ok_Cons)
qed simp

lemma om_get_above: "\<forall>x \<in> set m. k < fst x \<Longrightarrow> om_get m k = None"
  for m :: "('k::linorder, 'v) omap"
  by (induction m) auto

interpretation om: ordered_map om_ok om_empty om_get om_put om_del "\<lambda>m. m"
proof
  fix m :: "('a::linorder, 'b) omap" and k k' :: 'a and v :: 'b
  show "om_ok (om_empty :: ('a, 'b) omap)" by (simp add: om_ok_def om_keys_def om_empty_def)
  show "om_ok m \<Longrightarrow> om_ok (om_put m k v)" by (rule om_ok_put)
  show "om_ok m \<Longrightarrow> om_ok (om_del m k)" by (rule om_ok_del)
  show "om_get (om_empty :: ('a, 'b) omap) k = None" by (simp add: om_empty_def)
  show "om_ok m \<Longrightarrow> om_get (om_put m k v) k' = (if k' = k then Some v else om_get m k')"
    by (induction m k v rule: om_put.induct) (auto simp: om_ok_Cons)
  show "om_ok m \<Longrightarrow> om_get (om_del m k) k' = (if k' = k then None else om_get m k')"
    by (induction m k rule: om_del.induct) (auto simp: om_ok_Cons om_get_above)
  show "om_ok m \<Longrightarrow> sorted_wrt (<) (map fst m)"
    by (simp add: om_ok_def om_keys_def)
  show "om_ok m \<Longrightarrow> ((k, v) \<in> set m) = (om_get m k = Some v)"
    by (simp add: om_ok_def om_keys_def om_get_map_of strict_sorted_iff)
qed

lemma om_get_map_values: "om_get (om_map_values f m) k = map_option (f k) (om_get m k)"
  by (induction m) (auto simp: om_map_values_def)

lemma om_ok_map_values [simp]: "om_ok (om_map_values f m) = om_ok m"
  by (simp add: om_ok_def om_keys_def om_map_values_def o_def case_prod_beta)

lemma om_get_Some_key: "om_get m k = Some v \<Longrightarrow> k \<in> set (om_keys m)"
  by (induction m) (auto simp: om_keys_def split: if_splits)

lemma om_get_None_iff: "om_get m k = None \<longleftrightarrow> k \<notin> set (om_keys m)"
  by (simp add: om_get_map_of map_of_eq_None_iff om_keys_def)

lemma om_keys_put: "om_ok m \<Longrightarrow> set (om_keys (om_put m k v)) = insert k (set (om_keys m))"
  using om_get_None_iff [of m] om_get_None_iff [of "om_put m k v"] om.get_put [of m k v]
  by (auto split: if_splits) (metis option.distinct(1))+

lemma om_ext: "om_ok m \<Longrightarrow> om_ok m' \<Longrightarrow> (\<And>k. om_get m k = om_get m' k) \<Longrightarrow> m = m'"
  by (rule om.items_ext)

declare om.ok_empty [simp] om.ok_put [simp] om.ok_del [simp] om.get_empty [simp]

end
