(* ===== verification/Btree_Index.thy ===== *)
theory Btree_Index
  imports Helion_Types Ordered_Map
begin

text \<open>
  The index of a table (\<open>src/src/storage/btree.rs\<close>): a map from key values to the set of
  the row indices that carry them, unique or not. The operations that change an index
  return it beside their result, because \<open>update\<close> has removed the old key by the time
  the insertion of the new one fails.

  The locale \<open>row_index\<close> is what a table relies on: which row indices a key leads to after
  each operation. It is interpreted here on the index of the sources.
\<close>

record index_meta =
  im_name :: string
  im_columns :: "nat list"
  im_is_unique :: bool

record index =
  ix_meta :: index_meta
  ix_entries :: "(datum list, nat set) omap"

definition index_meta_new :: "string \<Rightarrow> nat list \<Rightarrow> bool \<Rightarrow> index_meta" where
  "index_meta_new name columns is_unique =
     \<lparr>im_name = name, im_columns = columns, im_is_unique = is_unique\<rparr>"

definition index_new :: "index_meta \<Rightarrow> index" where
  "index_new meta = \<lparr>ix_meta = meta, ix_entries = om_empty\<rparr>"

definition index_new_unique :: "string \<Rightarrow> nat list \<Rightarrow> index" where
  "index_new_unique name columns = index_new (index_meta_new name columns True)"

definition index_new_non_unique :: "string \<Rightarrow> nat list \<Rightarrow> index" where
  "index_new_non_unique name columns = index_new (index_meta_new name columns False)"

definition index_len :: "index \<Rightarrow> nat" where
  "index_len ix = length (ix_entries ix)"

definition index_is_empty :: "index \<Rightarrow> bool" where
  "index_is_empty ix = (ix_entries ix = [])"

text \<open>A column position beyond the row is skipped, as \<open>filter_map\<close> does.\<close>

definition extract_key :: "index \<Rightarrow> row \<Rightarrow> datum list" where
  "extract_key ix r = List.map_filter (row_get r) (im_columns (ix_meta ix))"

definition key_display :: "ext \<Rightarrow> datum list \<Rightarrow> string" where
  "key_display X key = join_with '', '' (map (display X) key)"

text \<open>\<open>entry(key).or_default().insert(row_idx)\<close>\<close>

definition insert_entry :: "index \<Rightarrow> datum list \<Rightarrow> nat \<Rightarrow> index" where
  "insert_entry ix key row_idx =
     ix\<lparr>ix_entries := om_put (ix_entries ix) key
          (insert row_idx (case om_get (ix_entries ix) key of None \<Rightarrow> {} | Some s \<Rightarrow> s))\<rparr>"

definition index_insert :: "ext \<Rightarrow> index \<Rightarrow> datum list \<Rightarrow> nat \<Rightarrow> index \<times> unit res" where
  "index_insert X ix key row_idx =
     (let blocked = (im_is_unique (ix_meta ix) \<and>
            (case om_get (ix_entries ix) key of None \<Rightarrow> False | Some existing \<Rightarrow> row_idx \<notin> existing))
      in if blocked then (ix, Inl (DuplicateKey (im_name (ix_meta ix)) (key_display X key)))
         else (insert_entry ix key row_idx, Inr ()))"

definition index_remove :: "index \<Rightarrow> datum list \<Rightarrow> nat \<Rightarrow> index" where
  "index_remove ix key row_idx =
     (case om_get (ix_entries ix) key of
        None \<Rightarrow> ix
      | Some s \<Rightarrow>
          let s' = s - {row_idx} in
          ix\<lparr>ix_entries := (if s' = {} then om_del (ix_entries ix) key
                             else om_put (ix_entries ix) key s')\<rparr>)"

definition index_update ::
  "ext \<Rightarrow> index \<Rightarrow> datum list \<Rightarrow> datum list \<Rightarrow> nat \<Rightarrow> index \<times> unit res" where
  "index_update X ix old_key new_key row_idx =
     index_insert X (index_remove ix old_key row_idx) new_key row_idx"

definition index_get :: "index \<Rightarrow> datum list \<Rightarrow> nat set option" where
  "index_get ix key = om_get (ix_entries ix) key"

definition index_contains :: "index \<Rightarrow> datum list \<Rightarrow> bool" where
  "index_contains ix key = (om_get (ix_entries ix) key \<noteq> None)"

definition index_clear :: "index \<Rightarrow> index" where
  "index_clear ix = ix\<lparr>ix_entries := om_empty\<rparr>"

text \<open>
  Range scans. \<open>BTreeMap::range\<close> panics when the start lies above the end, or when both
  are excluded and equal; the result is then \<open>None\<close>.
\<close>

datatype 'a bound = Included 'a | Excluded 'a | Unbounded

fun above_start :: "'a::linorder bound \<Rightarrow> 'a \<Rightarrow> bool" where
  "above_start (Included a) k = (a \<le> k)"
| "above_start (Excluded a) k = (a < k)"
| "above_start Unbounded k = True"

fun below_end :: "'a::linorder bound \<Rightarrow> 'a \<Rightarrow> bool" where
  "below_end (Included a) k = (k \<le> a)"
| "below_end (Excluded a) k = (k < a)"
| "below_end Unbounded k = True"

fun range_panics :: "'a::linorder bound \<Rightarrow> 'a bound \<Rightarrow> bool" where
  "range_panics (Excluded a) (Excluded b) = (b \<le> a)"
| "range_panics (Included a) (Included b) = (b < a)"
| "range_panics (Included a) (Excluded b) = (b < a)"
| "range_panics (Excluded a) (Included b) = (b < a)"
| "range_panics _ _ = False"

definition index_range ::
  "index \<Rightarrow> datum list bound \<Rightarrow> datum list bound \<Rightarrow> (datum list \<times> nat set) list option" where
  "index_range ix start stop =
     (if range_panics start stop then None
      else Some (filter (\<lambda>(k, _). above_start start k \<and> below_end stop k) (ix_entries ix)))"

definition row_idxs_of :: "(datum list \<times> nat set) list \<Rightarrow> nat list" where
  "row_idxs_of es = sorted_list_of_set (foldl (\<lambda>results (_, row_idxs). results \<union> row_idxs) {} es)"

definition scan_from :: "index \<Rightarrow> datum list \<Rightarrow> nat list" where
  "scan_from ix from_key = row_idxs_of (filter (\<lambda>(k, _). from_key \<le> k) (ix_entries ix))"

definition scan_to :: "index \<Rightarrow> datum list \<Rightarrow> nat list" where
  "scan_to ix to_key = row_idxs_of (filter (\<lambda>(k, _). k \<le> to_key) (ix_entries ix))"

definition all_row_idxs :: "index \<Rightarrow> nat list" where
  "all_row_idxs ix = row_idxs_of (ix_entries ix)"

subsection \<open>What an index promises\<close>

text \<open>
  \<open>rows ix key\<close> are the row indices a key leads to. The first locale describes entries
  being added and removed; the second the insertion that a unique index may refuse.
\<close>

locale row_index =
  fixes ok :: "'ix \<Rightarrow> bool"
    and rows :: "'ix \<Rightarrow> 'key \<Rightarrow> nat set"
    and add :: "'ix \<Rightarrow> 'key \<Rightarrow> nat \<Rightarrow> 'ix"
    and del :: "'ix \<Rightarrow> 'key \<Rightarrow> nat \<Rightarrow> 'ix"
  assumes ok_add: "ok ix \<Longrightarrow> ok (add ix k i)"
    and ok_del: "ok ix \<Longrightarrow> ok (del ix k i)"
    and rows_add: "ok ix \<Longrightarrow> rows (add ix k i) k' = (if k' = k then insert i (rows ix k) else rows ix k')"
    and rows_del: "ok ix \<Longrightarrow> rows (del ix k i) k' = (if k' = k then rows ix k - {i} else rows ix k')"
begin

lemma ok_add_all: "ok ix \<Longrightarrow> ok (foldl (\<lambda>ix (i, r). add ix (key r) i) ix irs)"
  by (induction irs arbitrary: ix) (auto simp: ok_add split: prod.splits)

lemma rows_add_all:
  "ok ix \<Longrightarrow> rows (foldl (\<lambda>ix (i, r). add ix (key r) i) ix irs) k =
     rows ix k \<union> {i. \<exists>r. (i, r) \<in> set irs \<and> key r = k}"
proof (induction irs arbitrary: ix)
  case Nil
  then show ?case by simp
next
  case (Cons ir irs)
  obtain i r where ir: "ir = (i, r)" by (cases ir)
  show ?case
    using Cons.IH [of "add ix (key r) i"] Cons.prems ir by (auto simp: ok_add rows_add)
qed

lemma rows_move:
  "ok ix \<Longrightarrow> rows (add (del ix old i) new i) k =
     (if k = new then insert i (rows ix k - (if old = new then {i} else {}))
      else if k = old then rows ix k - {i} else rows ix k)"
  by (auto simp: ok_del rows_add rows_del)

end

locale unique_index = row_index ok rows add del
  for ok :: "'ix \<Rightarrow> bool"
    and rows :: "'ix \<Rightarrow> 'key \<Rightarrow> nat set"
    and add :: "'ix \<Rightarrow> 'key \<Rightarrow> nat \<Rightarrow> 'ix"
    and del :: "'ix \<Rightarrow> 'key \<Rightarrow> nat \<Rightarrow> 'ix" +
  fixes is_unique :: "'ix \<Rightarrow> bool"
    and ins :: "'ix \<Rightarrow> 'key \<Rightarrow> nat \<Rightarrow> 'ix \<times> ('e + unit)"
  assumes unique_add: "is_unique (add ix k i) = is_unique ix"
    and unique_del: "is_unique (del ix k i) = is_unique ix"
    and ins_free: "ok ix \<Longrightarrow> \<not> is_unique ix \<or> rows ix k = {} \<or> i \<in> rows ix k \<Longrightarrow>
           ins ix k i = (add ix k i, Inr ())"
    and ins_taken: "ok ix \<Longrightarrow> is_unique ix \<Longrightarrow> rows ix k \<noteq> {} \<Longrightarrow> i \<notin> rows ix k \<Longrightarrow>
           \<exists>e. ins ix k i = (ix, Inl e)"
begin

definition single :: "'ix \<Rightarrow> bool" where
  "single ix \<longleftrightarrow> (\<forall>k i j. i \<in> rows ix k \<longrightarrow> j \<in> rows ix k \<longrightarrow> i = j)"

lemma ins_cases:
  assumes "ok ix"
  shows "ins ix k i = (add ix k i, Inr ()) \<or> (\<exists>e. ins ix k i = (ix, Inl e))"
  using ins_free [OF assms] ins_taken [OF assms] by blast

lemma ins_ok: "ok ix \<Longrightarrow> ok (fst (ins ix k i))"
  using ins_cases [of ix k i] by (auto simp: ok_add)

lemma ins_unique: "ok ix \<Longrightarrow> is_unique (fst (ins ix k i)) = is_unique ix"
  using ins_cases [of ix k i] by (auto simp: unique_add)

lemma ins_single:
  assumes "ok ix" "is_unique ix" "single ix"
  shows "single (fst (ins ix k i))"
proof (cases "rows ix k = {} \<or> i \<in> rows ix k")
  case True
  then show ?thesis
    using assms ins_free [of ix k i] unfolding single_def by (auto simp: rows_add)
next
  case False
  then show ?thesis using assms ins_taken [of ix k i] by auto
qed

lemma del_single: "ok ix \<Longrightarrow> single ix \<Longrightarrow> single (del ix k i)"
  unfolding single_def by (auto simp: rows_del)

lemma ins_Inr_iff:
  assumes "ok ix"
  shows "snd (ins ix k i) = Inr () \<longleftrightarrow> \<not> is_unique ix \<or> rows ix k = {} \<or> i \<in> rows ix k"
  using ins_free [OF assms, of k i] ins_taken [OF assms, of k i]
  by (cases "is_unique ix"; cases "i \<in> rows ix k"; cases "rows ix k = {}") auto

end

subsection \<open>The index of the sources provides it\<close>

definition index_rows :: "index \<Rightarrow> datum list \<Rightarrow> nat set" where
  "index_rows ix key = (case index_get ix key of None \<Rightarrow> {} | Some s \<Rightarrow> s)"

text \<open>Keys ascend strictly, and every key leads to a nonempty finite set of rows.\<close>

definition index_ok :: "index \<Rightarrow> bool" where
  "index_ok ix \<longleftrightarrow> om_ok (ix_entries ix) \<and> (\<forall>(k, s) \<in> set (ix_entries ix). finite s \<and> s \<noteq> {})"

lemma index_ok_alt:
  "index_ok ix \<longleftrightarrow> om_ok (ix_entries ix) \<and>
     (\<forall>k s. om_get (ix_entries ix) k = Some s \<longrightarrow> finite s \<and> s \<noteq> {})"
proof (cases "om_ok (ix_entries ix)")
  case True
  show ?thesis unfolding index_ok_def by (auto simp: om.items_get [OF True, symmetric])
next
  case False
  then show ?thesis by (simp add: index_ok_def)
qed

lemma index_ok_entries: "index_ok ix \<Longrightarrow> om_ok (ix_entries ix)"
  by (simp add: index_ok_alt)

lemma index_ok_get: "index_ok ix \<Longrightarrow> om_get (ix_entries ix) k = Some s \<Longrightarrow> finite s \<and> s \<noteq> {}"
  by (simp add: index_ok_alt)

lemma index_rows_iff: "i \<in> index_rows ix k \<longleftrightarrow> (\<exists>s. om_get (ix_entries ix) k = Some s \<and> i \<in> s)"
  by (auto simp: index_rows_def index_get_def split: option.splits)

lemma index_meta_frame [simp, frame_simps]:
  "ix_meta (insert_entry ix k i) = ix_meta ix"
  "ix_meta (index_remove ix k i) = ix_meta ix"
  "ix_meta (index_clear ix) = ix_meta ix"
  "ix_meta (fst (index_insert X ix k i)) = ix_meta ix"
  "ix_meta (fst (index_update X ix old k i)) = ix_meta ix"
  by (auto simp: insert_entry_def index_remove_def index_clear_def index_insert_def
      index_update_def Let_def split: option.splits)

lemma index_ok_insert_entry:
  assumes "index_ok ix"
  shows "index_ok (insert_entry ix k i)"
  using assms unfolding index_ok_alt
  by (auto simp: insert_entry_def om.get_put split: option.splits)

lemma index_ok_remove:
  assumes "index_ok ix"
  shows "index_ok (index_remove ix k i)"
  using assms unfolding index_ok_alt
  by (auto simp: index_remove_def Let_def om.get_put om.get_del split: option.splits)

lemma index_ok_clear [simp]: "index_ok (index_clear ix)"
  by (simp add: index_ok_alt index_clear_def)

lemma index_ok_new [simp]: "index_ok (index_new m)"
  by (simp add: index_ok_alt index_new_def)

lemma index_rows_insert_entry:
  "index_ok ix \<Longrightarrow>
   index_rows (insert_entry ix k i) k' = (if k' = k then insert i (index_rows ix k) else index_rows ix k')"
  by (auto simp: index_rows_def index_get_def insert_entry_def om.get_put index_ok_entries
      split: option.splits)

lemma index_rows_remove:
  "index_ok ix \<Longrightarrow>
   index_rows (index_remove ix k i) k' = (if k' = k then index_rows ix k - {i} else index_rows ix k')"
  by (auto simp: index_rows_def index_get_def index_remove_def Let_def om.get_put om.get_del
      index_ok_entries split: option.splits)

lemma index_rows_clear [simp]: "index_rows (index_clear ix) k = {}"
  by (simp add: index_rows_def index_get_def index_clear_def)

lemma index_rows_new [simp]: "index_rows (index_new m) k = {}"
  by (simp add: index_rows_def index_get_def index_new_def)

lemma index_insert_blocked_iff:
  assumes "index_ok ix"
  shows "(case om_get (ix_entries ix) k of None \<Rightarrow> False | Some existing \<Rightarrow> i \<notin> existing) \<longleftrightarrow>
     index_rows ix k \<noteq> {} \<and> i \<notin> index_rows ix k"
  using index_ok_get [OF assms, of k] by (auto simp: index_rows_def index_get_def split: option.splits)

lemma index_insert_eq:
  assumes "index_ok ix"
  shows "index_insert X ix k i =
     (if im_is_unique (ix_meta ix) \<and> index_rows ix k \<noteq> {} \<and> i \<notin> index_rows ix k
      then (ix, Inl (DuplicateKey (im_name (ix_meta ix)) (key_display X k)))
      else (insert_entry ix k i, Inr ()))"
  by (simp add: index_insert_def Let_def index_insert_blocked_iff [OF assms])

interpretation bx: unique_index index_ok index_rows insert_entry index_remove
  "\<lambda>ix. im_is_unique (ix_meta ix)" "index_insert X" for X
  by unfold_locales
    (auto simp: index_ok_insert_entry index_ok_remove index_rows_insert_entry index_rows_remove
      index_insert_eq)

definition index_single :: "index \<Rightarrow> bool" where
  "index_single ix \<longleftrightarrow> (\<forall>(k, s) \<in> set (ix_entries ix). is_singleton s)"

lemma is_singleton_iff: "is_singleton s \<longleftrightarrow> s \<noteq> {} \<and> (\<forall>i \<in> s. \<forall>j \<in> s. i = j)"
  using is_singletonI' [of s] by (auto elim: is_singletonE)

lemma index_single_iff:
  assumes "index_ok ix"
  shows "index_single ix \<longleftrightarrow> (\<forall>k i j. i \<in> index_rows ix k \<longrightarrow> j \<in> index_rows ix k \<longrightarrow> i = j)"
proof -
  have "index_single ix \<longleftrightarrow> (\<forall>k s. om_get (ix_entries ix) k = Some s \<longrightarrow> is_singleton s)"
    unfolding index_single_def by (auto simp: om.items_get [OF index_ok_entries [OF assms], symmetric])
  also have "\<dots> \<longleftrightarrow> (\<forall>k s. om_get (ix_entries ix) k = Some s \<longrightarrow> (\<forall>i \<in> s. \<forall>j \<in> s. i = j))"
    using index_ok_get [OF assms] by (simp add: is_singleton_iff)
  finally show ?thesis
    by (auto simp: index_rows_def index_get_def split: option.splits)
qed

lemma index_range_rows:
  assumes "index_ok ix" "index_range ix start stop = Some es"
  shows "(k, s) \<in> set es \<longleftrightarrow>
    index_rows ix k = s \<and> s \<noteq> {} \<and> above_start start k \<and> below_end stop k"
proof -
  have "(k, s) \<in> set es \<longleftrightarrow> om_get (ix_entries ix) k = Some s \<and> above_start start k \<and> below_end stop k"
    using assms(2) by (auto simp: index_range_def om.items_get [OF index_ok_entries [OF assms(1)], symmetric]
        split: if_splits)
  then show ?thesis
    using index_ok_get [OF assms(1), of k s]
    by (auto simp: index_rows_def index_get_def split: option.splits)
qed

lemma union_fold: "foldl (\<lambda>results (_, row_idxs). results \<union> row_idxs) a es = a \<union> \<Union> (snd ` set es)"
  by (induction es arbitrary: a) auto

lemma row_idxs_of_set:
  "\<forall>(k, s) \<in> set es. finite s \<Longrightarrow> set (row_idxs_of es) = \<Union> (snd ` set es)"
  unfolding row_idxs_of_def union_fold by (subst set_sorted_list_of_set) auto

lemma filtered_rows:
  assumes "index_ok ix"
  shows "set (row_idxs_of (filter (\<lambda>(k, _). P k) (ix_entries ix))) = {i. \<exists>k. P k \<and> i \<in> index_rows ix k}"
proof -
  note get = om.items_get [OF index_ok_entries [OF assms]]
  have fin: "\<forall>(k, s) \<in> set (filter (\<lambda>(k, _). P k) (ix_entries ix)). finite s"
    using index_ok_get [OF assms] by (auto simp: get)
  have "\<Union> (snd ` set (filter (\<lambda>(k, _). P k) (ix_entries ix))) = {i. \<exists>k. P k \<and> i \<in> index_rows ix k}"
    by (force simp: index_rows_iff get [symmetric])
  then show ?thesis unfolding row_idxs_of_set [OF fin] .
qed

lemma row_idxs_of_strict: "sorted_wrt (<) (row_idxs_of es)"
  by (simp add: row_idxs_of_def)

subsection \<open>Properties\<close>

lemma index_update_cases:
  assumes "index_ok ix" "index_update X ix old k i = (updated, r)"
  shows "if im_is_unique (ix_meta ix) \<and> (if k = old then index_rows ix k - {i} else index_rows ix k) \<noteq> {} \<and>
          i \<notin> (if k = old then index_rows ix k - {i} else index_rows ix k)
        then r = Inl (DuplicateKey (im_name (ix_meta ix)) (key_display X k)) \<and>
          index_rows updated k' = (if k' = old then index_rows ix old - {i} else index_rows ix k')
        else r = Inr () \<and>
          index_rows updated k' = (if k' = k then insert i (index_rows ix k)
            else if k' = old then index_rows ix old - {i} else index_rows ix k')"
    and "index_ok updated"
proof -
  let ?m = "index_remove ix old i"
  have ok: "index_ok ?m" by (rule bx.ok_del [OF assms(1)])
  have rows: "index_rows ?m x = (if x = old then index_rows ix old - {i} else index_rows ix x)" for x
    by (rule bx.rows_del [OF assms(1)])
  have meta: "ix_meta ?m = ix_meta ix" by (simp add: index_remove_def split: option.splits)
  have others: "index_rows ?m k = (if k = old then index_rows ix k - {i} else index_rows ix k)" by (auto simp: rows)
  have eq: "(updated, r) = (if im_is_unique (ix_meta ix) \<and> index_rows ?m k \<noteq> {} \<and> i \<notin> index_rows ?m k
      then (?m, Inl (DuplicateKey (im_name (ix_meta ix)) (key_display X k))) else (insert_entry ?m k i, Inr ()))"
    using assms(2) index_insert_eq [OF ok, of X k i] unfolding index_update_def meta by simp
  show "index_ok updated" using eq ok bx.ok_add [OF ok] by (auto split: if_splits)
  show "if im_is_unique (ix_meta ix) \<and> (if k = old then index_rows ix k - {i} else index_rows ix k) \<noteq> {} \<and>
          i \<notin> (if k = old then index_rows ix k - {i} else index_rows ix k)
        then r = Inl (DuplicateKey (im_name (ix_meta ix)) (key_display X k)) \<and>
          index_rows updated k' = (if k' = old then index_rows ix old - {i} else index_rows ix k')
        else r = Inr () \<and>
          index_rows updated k' = (if k' = k then insert i (index_rows ix k)
            else if k' = old then index_rows ix old - {i} else index_rows ix k')"
    using eq bx.rows_add [OF ok, of k i k'] rows [of k'] rows [of k] unfolding others [symmetric]
    by (cases "im_is_unique (ix_meta ix) \<and> index_rows ?m k \<noteq> {} \<and> i \<notin> index_rows ?m k") auto
qed

text \<open>C39: the row indices a key leads to after an insertion, a removal and an update of an index. An insertion into a
  unique index is refused, with the DuplicateKey error and the index unchanged, exactly when
  the key already leads to another row; a row already under the key is accepted again, against the comment of the
  code, which promises an error there too. Otherwise the row joins its key. A removal takes the
  row from its key only. An update removes the row from the old key and enters it under the new one;
  when the new key is refused the old entry is gone all the same. No other key is ever affected, and the entries stay
  in key order with no empty set left behind.\<close>
theorem index_operations:
  assumes "index_ok ix"
  shows "(index_insert X ix k i =
       (if im_is_unique (ix_meta ix) \<and> index_rows ix k \<noteq> {} \<and> i \<notin> index_rows ix k
        then (ix, Inl (DuplicateKey (im_name (ix_meta ix)) (key_display X k)))
        else (insert_entry ix k i, Inr ()))) \<and>
    index_rows (insert_entry ix k i) k' = (if k' = k then insert i (index_rows ix k) else index_rows ix k') \<and>
    index_rows (index_remove ix k i) k' = (if k' = k then index_rows ix k - {i} else index_rows ix k') \<and>
    (\<forall>old updated r. index_update X ix old k i = (updated, r) \<longrightarrow>
       (let others = (if k = old then index_rows ix k - {i} else index_rows ix k) in
        if im_is_unique (ix_meta ix) \<and> others \<noteq> {} \<and> i \<notin> others
        then r = Inl (DuplicateKey (im_name (ix_meta ix)) (key_display X k)) \<and>
          index_rows updated k' = (if k' = old then index_rows ix old - {i} else index_rows ix k')
        else r = Inr () \<and>
          index_rows updated k' = (if k' = k then insert i (index_rows ix k)
            else if k' = old then index_rows ix old - {i} else index_rows ix k')) \<and>
       index_ok updated) \<and>
    index_ok (insert_entry ix k i) \<and> index_ok (index_remove ix k i) \<and>
    (index_contains ix k \<longleftrightarrow> index_rows ix k \<noteq> {})"
proof (intro conjI allI impI)
  show "index_contains ix k \<longleftrightarrow> index_rows ix k \<noteq> {}"
    using index_ok_get [OF assms, of k]
    by (auto simp: index_contains_def index_rows_def index_get_def split: option.splits)
  fix old updated r assume u: "index_update X ix old k i = (updated, r)"
  show "let others = (if k = old then index_rows ix k - {i} else index_rows ix k) in
        if im_is_unique (ix_meta ix) \<and> others \<noteq> {} \<and> i \<notin> others
        then r = Inl (DuplicateKey (im_name (ix_meta ix)) (key_display X k)) \<and>
          index_rows updated k' = (if k' = old then index_rows ix old - {i} else index_rows ix k')
        else r = Inr () \<and>
          index_rows updated k' = (if k' = k then insert i (index_rows ix k)
            else if k' = old then index_rows ix old - {i} else index_rows ix k')"
    using index_update_cases(1) [OF assms u] by (simp add: Let_def)
  show "index_ok updated" by (rule index_update_cases(2) [OF assms u])
qed (rule index_insert_eq [OF assms] bx.rows_add [OF assms] bx.rows_del [OF assms] bx.ok_add [OF assms] bx.ok_del [OF assms])+

definition sample_index :: index where
  "sample_index = insert_entry (index_new_unique ''pk_t'' [0]) [DInteger 1] 0"

lemma sample_index_ok [simp]: "index_ok sample_index"
  by (simp add: sample_index_def index_new_unique_def bx.ok_add)

theorem index_operations_witness:
  "index_insert sample_ext sample_index [DInteger 1] 4 =
     (sample_index, Inl (DuplicateKey ''pk_t'' ''1'')) \<and>
   index_rows (index_remove sample_index [DInteger 1] 0) [DInteger 1] = {}"
proof -
  have ok: "index_ok sample_index" by simp
  have rows: "index_rows sample_index [DInteger 1] = {0}" by code_simp
  have meta: "ix_meta sample_index = index_meta_new ''pk_t'' [0] True"
    by (simp add: sample_index_def index_new_unique_def index_new_def)
  have key: "key_display sample_ext [DInteger 1] = ''1''" by code_simp
  show ?thesis
    using index_operations [OF ok, of sample_ext "[DInteger 1]" 4 "[DInteger 1]"]
      index_operations [OF ok, of sample_ext "[DInteger 1]" 0 "[DInteger 1]"]
    by (simp add: rows meta key index_meta_new_def)
qed

text \<open>in a unique index every key leads to one row, whatever sequence of \<open>insert\<close>,
  \<open>remove\<close> and \<open>update\<close> calls is made, the refused ones included.\<close>
theorem index_unique_invariant:
  assumes "index_ok ix" "im_is_unique (ix_meta ix)" "index_single ix"
  shows "index_single (fst (index_insert X ix k i)) \<and>
    index_single (index_remove ix k i) \<and>
    index_single (fst (index_update X ix old k i)) \<and>
    index_ok (fst (index_update X ix old k i))"
proof -
  have single: "bx.single ix" if "index_ok ix" "index_single ix" for ix
    using that index_single_iff [of ix] by (auto simp: bx.single_def)
  have conv: "index_single ix" if "index_ok ix" "bx.single ix" for ix
    using that index_single_iff [of ix] unfolding bx.single_def by blast
  have ins: "index_single (fst (index_insert X ix k i)) \<and> index_ok (fst (index_insert X ix k i))"
    if "index_ok ix" "im_is_unique (ix_meta ix)" "index_single ix" for ix
    using bx.ins_single [of ix X k i] bx.ins_ok [of ix X k i] that single conv by blast
  have rem: "index_ok (index_remove ix k i)" "index_single (index_remove ix k i)" for k
    using bx.ok_del [OF assms(1), of k i] bx.del_single [OF assms(1) single [OF assms(1,3)], of k i] conv
    by auto
  show ?thesis
    using ins [OF assms] rem ins [OF rem(1) _ rem(2)] assms(2)
    by (simp add: index_update_def)
qed

theorem index_unique_invariant_witness:
  "index_single (fst (index_update sample_ext sample_index [DInteger 1] [DInteger 2] 0))"
proof -
  have u: "im_is_unique (ix_meta sample_index)" "index_single sample_index" by code_simp+
  show ?thesis
    using index_unique_invariant [OF sample_index_ok u] by blast
qed

text \<open>the scans of an index return, in ascending order and without repetition, exactly the
  rows whose key lies on the asked side of the bound (the bound included); the scan without a
  bound returns every row the index holds.\<close>
theorem index_scans:
  assumes "index_ok ix"
  shows "set (scan_from ix lo) = {i. \<exists>k. lo \<le> k \<and> i \<in> index_rows ix k} \<and>
    set (scan_to ix hi) = {i. \<exists>k. k \<le> hi \<and> i \<in> index_rows ix k} \<and>
    set (all_row_idxs ix) = {i. \<exists>k. i \<in> index_rows ix k} \<and>
    sorted_wrt (<) (scan_from ix lo) \<and> sorted_wrt (<) (scan_to ix hi) \<and>
    sorted_wrt (<) (all_row_idxs ix)"
  using filtered_rows [OF assms, of "\<lambda>k. lo \<le> k"] filtered_rows [OF assms, of "\<lambda>k. k \<le> hi"]
    filtered_rows [OF assms, of "\<lambda>k. True"]
  by (simp add: scan_from_def scan_to_def all_row_idxs_def row_idxs_of_strict case_prod_unfold)

theorem index_scans_witness:
  "0 \<in> set (scan_from sample_index [DInteger 1]) \<and> set (scan_to sample_index [DInteger 0]) = {}"
proof -
  have rows: "index_rows sample_index k = (if k = [DInteger 1] then {0} else {})" for k
    by (simp add: sample_index_def index_new_unique_def bx.rows_add)
  have "\<not> [DInteger 1] \<le> [DInteger 0]" by code_simp
  then show ?thesis
    using index_scans [OF sample_index_ok, of "[DInteger 1]" "[DInteger 0]"] by (auto simp: rows)
qed

text \<open>re-inserting a key for the row it already leads to succeeds, also in a unique index, and
  leaves the index as it was.\<close>
theorem index_insert_same_row:
  assumes "index_ok ix" "i \<in> index_rows ix k"
  shows "snd (index_insert X ix k i) = Inr () \<and> fst (index_insert X ix k i) = ix"
proof -
  have ins: "index_insert X ix k i = (insert_entry ix k i, Inr ())"
    using assms by (simp add: index_insert_eq)
  have "om_put (ix_entries ix) k (insert i (case om_get (ix_entries ix) k of None \<Rightarrow> {} | Some s \<Rightarrow> s)) =
      ix_entries ix"
    by (rule om_ext)
      (use assms in \<open>auto simp: index_ok_entries om.get_put index_rows_def index_get_def split: option.splits\<close>)
  then show ?thesis by (simp add: ins insert_entry_def)
qed

theorem index_insert_same_row_witness:
  "snd (index_insert sample_ext sample_index [DInteger 1] 0) = Inr ()"
proof -
  have rows: "0 \<in> index_rows sample_index [DInteger 1]" by code_simp
  show ?thesis using index_insert_same_row [OF sample_index_ok rows] by blast
qed

end
