(* ===== verification/Table.thy ===== *)
theory Table
  imports Btree_Index
begin

text \<open>
  A table (\<open>src/src/storage/table.rs\<close>): per row a chain of versions, oldest first, each
  stamped with the transaction that wrote it and the one that replaced it, and the indexes
  over the visible rows. \<open>usize\<close> positions are natural numbers, the set of active
  transactions is a set of 64-bit identifiers.
\<close>

subsection \<open>Versions and visibility\<close>

record row_version =
  rv_txid_min :: u64
  rv_txid_max :: u64
  rv_row :: row
  rv_is_deleted :: bool

definition new_insert :: "u64 \<Rightarrow> row \<Rightarrow> row_version" where
  "new_insert txid r =
     \<lparr>rv_txid_min = txid, rv_txid_max = u64_MAX, rv_row = r, rv_is_deleted = False\<rparr>"

definition new_update :: "u64 \<Rightarrow> row \<Rightarrow> row_version" where
  "new_update txid r =
     \<lparr>rv_txid_min = txid, rv_txid_max = u64_MAX, rv_row = r, rv_is_deleted = False\<rparr>"

definition new_delete :: "u64 \<Rightarrow> row \<Rightarrow> row_version" where
  "new_delete txid r =
     \<lparr>rv_txid_min = txid, rv_txid_max = u64_MAX, rv_row = r, rv_is_deleted = True\<rparr>"

definition is_version_visible :: "row_version \<Rightarrow> u64 \<Rightarrow> u64 set \<Rightarrow> bool" where
  "is_version_visible version snapshot_txid active_txns =
     (if rv_txid_min version > snapshot_txid then False
      else if rv_txid_max version \<noteq> u64_MAX \<and> rv_txid_max version \<le> snapshot_txid then False
      else if rv_txid_min version \<in> active_txns \<and> rv_txid_min version \<noteq> snapshot_txid then False
      else True)"

definition latest_visible :: "row_version list \<Rightarrow> u64 \<Rightarrow> u64 set \<Rightarrow> row_version option" where
  "latest_visible chain snapshot_txid active_txns =
     (case find (\<lambda>v. is_version_visible v snapshot_txid active_txns) (rev chain) of
        None \<Rightarrow> None
      | Some v \<Rightarrow> if rv_is_deleted v then None else Some v)"

subsection \<open>Tables\<close>

record table =
  tb_name :: string
  tb_columns :: "column_meta list"
  tb_version_chains :: "row_version list list"
  tb_primary_key_idx :: "nat option"
  tb_indexes :: "index list"

definition row_count :: "table \<Rightarrow> nat" where
  "row_count t = length (tb_version_chains t)"

definition column_index :: "table \<Rightarrow> string \<Rightarrow> nat option" where
  "column_index t name = position (\<lambda>c. eq_ignore_ascii_case (cm_name c) name) (tb_columns t)"

definition scan_visible :: "table \<Rightarrow> u64 \<Rightarrow> u64 set \<Rightarrow> (nat \<times> row) list" where
  "scan_visible t snapshot_txid active_txns =
     List.map_filter
       (\<lambda>(idx, chain). map_option (\<lambda>rv. (idx, rv_row rv)) (latest_visible chain snapshot_txid active_txns))
       (enumerate 0 (tb_version_chains t))"

definition get_visible_version :: "table \<Rightarrow> nat \<Rightarrow> u64 \<Rightarrow> u64 set \<Rightarrow> row_version option" where
  "get_visible_version t chain_idx snapshot_txid active_txns =
     Option.bind (nth_opt (tb_version_chains t) chain_idx)
       (\<lambda>chain. latest_visible chain snapshot_txid active_txns)"

subsection \<open>Index management\<close>

definition has_index :: "table \<Rightarrow> string \<Rightarrow> bool" where
  "has_index t name = list_ex (\<lambda>i. im_name (ix_meta i) = name) (tb_indexes t)"

definition push_index :: "index \<Rightarrow> table \<Rightarrow> table" where
  "push_index ix t = t\<lparr>tb_indexes := tb_indexes t @ [ix]\<rparr>"

definition build_pk_index :: "table \<Rightarrow> table" where
  "build_pk_index t =
     (case tb_primary_key_idx t of
        None \<Rightarrow> t
      | Some pk_col \<Rightarrow>
          let pk_name = ''pk_'' @ tb_name t in
          if has_index t pk_name then t else push_index (index_new_unique pk_name [pk_col]) t)"

definition build_unique_indexes :: "table \<Rightarrow> table" where
  "build_unique_indexes t =
     foldl (\<lambda>t (i, col).
         if cm_is_unique col \<and> \<not> cm_is_primary_key col then
           let uq_name = ''uq_'' @ tb_name t @ ''_'' @ cm_name col in
           if has_index t uq_name then t else push_index (index_new_unique uq_name [i]) t
         else t)
       t (enumerate 0 (tb_columns t))"

definition table_new :: "string \<Rightarrow> column_meta list \<Rightarrow> table" where
  "table_new name columns =
     build_unique_indexes (build_pk_index
       \<lparr>tb_name = name, tb_columns = columns, tb_version_chains = [],
        tb_primary_key_idx = position cm_is_primary_key columns, tb_indexes = []\<rparr>)"

text \<open>
  The row loop runs outside and the index loop inside; every index sees the rows in the
  order of the scan.
\<close>

definition rebuild_indexes :: "table \<Rightarrow> table" where
  "rebuild_indexes t =
     (let cleared = map index_clear (tb_indexes t);
          visible = scan_visible t u64_MAX {}
      in t\<lparr>tb_indexes :=
            foldl (\<lambda>ixs (row_idx, r). map (\<lambda>ix. insert_entry ix (extract_key ix r) row_idx) ixs)
              cleared visible\<rparr>)"

definition add_index :: "ext \<Rightarrow> table \<Rightarrow> string \<Rightarrow> nat list \<Rightarrow> bool \<Rightarrow> table res" where
  "add_index X t name columns is_unique =
     (if has_index t name then Inl (IndexAlreadyExists name)
      else
        let ix0 = (if is_unique then index_new_unique name columns
                   else index_new_non_unique name columns)
        in and_then
             (try_fold (\<lambda>ix (row_idx, r).
                 let key = extract_key ix r in
                 if is_unique then
                   (case index_insert X ix key row_idx of
                      (ix', Inr _) \<Rightarrow> Inr ix'
                    | (_, Inl _) \<Rightarrow> Inl (DuplicateKey name (key_display X key)))
                 else Inr (insert_entry ix key row_idx))
               ix0 (scan_visible t u64_MAX {}))
             (\<lambda>ix. Inr (push_index ix t)))"

definition index_names :: "table \<Rightarrow> string list" where
  "index_names t = map (\<lambda>i. im_name (ix_meta i)) (tb_indexes t)"

definition remove_at :: "nat \<Rightarrow> 'a list \<Rightarrow> 'a list" where
  "remove_at i xs = take i xs @ drop (Suc i) xs"

definition drop_index :: "table \<Rightarrow> string \<Rightarrow> table res" where
  "drop_index t name =
     (case position (\<lambda>i. im_name (ix_meta i) = name) (tb_indexes t) of
        None \<Rightarrow> Inl (IndexNotFound name)
      | Some pos \<Rightarrow> Inr (t\<lparr>tb_indexes := remove_at pos (tb_indexes t)\<rparr>))"

definition find_index :: "table \<Rightarrow> string \<Rightarrow> index option" where
  "find_index t name = find (\<lambda>i. im_name (ix_meta i) = name) (tb_indexes t)"

subsection \<open>Constraints and index maintenance\<close>

definition check_unique_index :: "ext \<Rightarrow> bool \<Rightarrow> nat \<Rightarrow> row \<Rightarrow> index \<Rightarrow> unit res" where
  "check_unique_index X is_insert row_idx r ix =
     (if \<not> im_is_unique (ix_meta ix) then Inr ()
      else let key = extract_key ix r in
        if list_all is_null key then Inr ()
        else case index_get ix key of
            None \<Rightarrow> Inr ()
          | Some existing \<Rightarrow>
              if card existing = 1 \<and> row_idx \<in> existing then Inr ()
              else if is_insert \<or> row_idx \<notin> existing
              then Inl (DuplicateKey (im_name (ix_meta ix)) (key_display X key))
              else Inr ())"

definition check_unique_constraints :: "ext \<Rightarrow> table \<Rightarrow> bool \<Rightarrow> nat \<Rightarrow> row \<Rightarrow> unit res" where
  "check_unique_constraints X t is_insert row_idx r =
     try_fold (\<lambda>_ ix. check_unique_index X is_insert row_idx r ix) () (tb_indexes t)"

datatype write_op = Insert row | Update row | Delete

text \<open>A loop over the indexes that stops at the first error keeps what it has done.\<close>

fun each_index :: "(index \<Rightarrow> index \<times> unit res) \<Rightarrow> index list \<Rightarrow> index list \<times> unit res" where
  "each_index f [] = ([], Inr ())"
| "each_index f (ix # ixs) =
     (case f ix of
        (ix', Inl e) \<Rightarrow> (ix' # ixs, Inl e)
      | (ix', Inr _) \<Rightarrow> (case each_index f ixs of (ixs', r) \<Rightarrow> (ix' # ixs', r)))"

definition map_err :: "(helion_error \<Rightarrow> helion_error) \<Rightarrow> 'a res \<Rightarrow> 'a res" where
  "map_err f r = (case r of Inl e \<Rightarrow> Inl (f e) | Inr x \<Rightarrow> Inr x)"

definition index_change :: "ext \<Rightarrow> write_op \<Rightarrow> row option \<Rightarrow> nat \<Rightarrow> index \<Rightarrow> index \<times> unit res" where
  "index_change X operation old_row row_idx ix =
     (case operation of
        Insert r \<Rightarrow>
          (case index_insert X ix (extract_key ix r) row_idx of
             (ix', res) \<Rightarrow>
               (ix', map_err (\<lambda>e. Internal (''Index insert failed after commit: '' @ error_display e)) res))
      | Update new_row \<Rightarrow>
          (case old_row of
             None \<Rightarrow> (ix, Inl (Internal ''Missing old row for index update''))
           | Some old \<Rightarrow>
               (case index_update X ix (extract_key ix old) (extract_key ix new_row) row_idx of
                  (ix', res) \<Rightarrow>
                    (ix', map_err (\<lambda>e. Internal (''Index update failed after commit: '' @ error_display e)) res)))
      | Delete \<Rightarrow>
          (case old_row of
             None \<Rightarrow> (ix, Inr ())
           | Some old \<Rightarrow> (index_remove ix (extract_key ix old) row_idx, Inr ())))"

definition apply_index_changes ::
  "ext \<Rightarrow> table \<Rightarrow> write_op \<Rightarrow> row option \<Rightarrow> nat \<Rightarrow> table \<times> unit res" where
  "apply_index_changes X t operation old_row row_idx =
     (case each_index (index_change X operation old_row row_idx) (tb_indexes t) of
        (ixs, r) \<Rightarrow> (t\<lparr>tb_indexes := ixs\<rparr>, r))"

subsection \<open>Validation\<close>

definition types_compatible :: "data_type \<Rightarrow> data_type \<Rightarrow> bool" where
  "types_compatible expected actual =
     (if expected = actual then True
      else case (expected, actual) of
        (TyInteger, TyBigInt) \<Rightarrow> True
      | (TyBigInt, TyInteger) \<Rightarrow> True
      | (TyInteger, TySmallInt) \<Rightarrow> True
      | (TySmallInt, TyInteger) \<Rightarrow> True
      | (TyBigInt, TySmallInt) \<Rightarrow> True
      | (TySmallInt, TyBigInt) \<Rightarrow> True
      | (TyDouble, TyInteger) \<Rightarrow> True
      | (TyDouble, TyBigInt) \<Rightarrow> True
      | (TyInteger, TyDouble) \<Rightarrow> True
      | (TyBigInt, TyDouble) \<Rightarrow> True
      | (TyReal, TyDouble) \<Rightarrow> True
      | (TyDouble, TyReal) \<Rightarrow> True
      | (TyVarChar _, TyText) \<Rightarrow> True
      | (TyText, TyVarChar _) \<Rightarrow> True
      | (TyVarChar _, TyVarChar _) \<Rightarrow> True
      | (TyChar _, TyText) \<Rightarrow> True
      | (TyText, TyChar _) \<Rightarrow> True
      | (TyVarChar _, TyChar _) \<Rightarrow> True
      | (TyChar _, TyVarChar _) \<Rightarrow> True
      | (TyChar _, TyChar _) \<Rightarrow> True
      | _ \<Rightarrow> False)"

definition validate_value :: "column_meta \<Rightarrow> datum \<Rightarrow> unit res" where
  "validate_value col d =
     (if is_null d then
        (if \<not> cm_nullable col
         then Inl (ConstraintViolation (''Column '' @ quoted (cm_name col) @ '' cannot be null''))
         else Inr ())
      else if \<not> types_compatible (cm_data_type col) (datum_type d)
      then Inl (TypeMismatch (type_name (cm_data_type col)) (type_name (datum_type d)))
      else Inr ())"

definition validate_row :: "table \<Rightarrow> row \<Rightarrow> unit res" where
  "validate_row t r =
     (if length (row_values r) \<noteq> length (tb_columns t)
      then Inl (Internal (''Row has '' @ show_nat (length (row_values r)) @ '' columns but table '' @
             quoted (tb_name t) @ '' has '' @ show_nat (length (tb_columns t)) @ '' columns''))
      else try_fold (\<lambda>_ (col, d). validate_value col d) () (zip (tb_columns t) (row_values r)))"

subsection \<open>Version chains\<close>

text \<open>
  A committed write ends the newest version at the writer's identifier and appends its own.
  A chain is well formed when every version but the newest ends where the next one starts,
  the starts ascend, and the newest has not ended.
\<close>

definition push_version :: "u64 \<Rightarrow> row_version \<Rightarrow> row_version list \<Rightarrow> row_version list" where
  "push_version tx_id version chain = map_last (rv_txid_max_update (\<lambda>_. tx_id)) chain @ [version]"

fun chain_ok :: "row_version list \<Rightarrow> bool" where
  "chain_ok [] = True"
| "chain_ok [v] = (rv_txid_max v = u64_MAX)"
| "chain_ok (v # w # vs) =
     (rv_txid_max v = rv_txid_min w \<and> rv_txid_min v \<le> rv_txid_min w \<and>
      rv_txid_min w \<noteq> u64_MAX \<and> chain_ok (w # vs))"

definition in_force :: "row_version \<Rightarrow> u64 \<Rightarrow> bool" where
  "in_force v s \<longleftrightarrow> rv_txid_min v \<le> s \<and> (rv_txid_max v = u64_MAX \<or> s < rv_txid_max v)"

text \<open>The newest version that is not younger than the snapshot.\<close>

definition newest_at :: "u64 \<Rightarrow> row_version list \<Rightarrow> row_version option" where
  "newest_at s chain = (case filter (\<lambda>v. rv_txid_min v \<le> s) chain of [] \<Rightarrow> None | vs \<Rightarrow> Some (last vs))"

lemma visible_iff:
  "is_version_visible v s A \<longleftrightarrow> in_force v s \<and> (rv_txid_min v \<notin> A \<or> rv_txid_min v = s)"
  by (auto simp: is_version_visible_def in_force_def not_le)

lemma push_version_length [simp]: "length (push_version t v c) = Suc (length c)"
  by (simp add: push_version_def)

lemma push_version_snoc [simp]: "push_version t v (c @ [w]) = c @ [w\<lparr>rv_txid_max := t\<rparr>, v]"
  by (simp add: push_version_def)

lemma push_version_Nil [simp]: "push_version t v [] = [v]"
  by (simp add: push_version_def)

lemma chain_ok_snoc2:
  "chain_ok (c @ [v, w]) \<longleftrightarrow> chain_ok (c @ [v\<lparr>rv_txid_max := u64_MAX\<rparr>]) \<and>
     rv_txid_max v = rv_txid_min w \<and> rv_txid_min v \<le> rv_txid_min w \<and>
     rv_txid_min w \<noteq> u64_MAX \<and> rv_txid_max w = u64_MAX"
proof (induction c rule: induct_list012)
  case (2 x)
  then show ?case by auto
next
  case (3 x y zs)
  then show ?case by auto
qed auto

lemma chain_ok_last: "chain_ok (c @ [v]) \<Longrightarrow> rv_txid_max v = u64_MAX"
  by (induction c rule: induct_list012) auto

lemma chain_ok_push:
  assumes "chain_ok c" "c = [] \<or> rv_txid_min (last c) \<le> t"
    and "rv_txid_min v = t" "rv_txid_max v = u64_MAX" "t \<noteq> u64_MAX"
  shows "chain_ok (push_version t v c)"
proof (cases c rule: rev_cases)
  case Nil
  then show ?thesis using assms by simp
next
  case (snoc ys w)
  have "w\<lparr>rv_txid_max := u64_MAX\<rparr> = w" using assms(1) snoc chain_ok_last by simp
  then show ?thesis using assms snoc by (simp add: chain_ok_snoc2)
qed

lemma chain_ok_tail: "chain_ok (v # vs) \<Longrightarrow> chain_ok vs"
  by (cases vs) auto

lemma chain_ok_min_le: "chain_ok (v # vs) \<Longrightarrow> w \<in> set vs \<Longrightarrow> rv_txid_min v \<le> rv_txid_min w"
proof (induction vs arbitrary: v)
  case (Cons x xs)
  then have "chain_ok (x # xs)" "rv_txid_min v \<le> rv_txid_min x" by auto
  then show ?case using Cons by (auto intro: order_trans)
qed simp

lemma newest_at_Cons:
  "newest_at s (v # vs) = (case newest_at s vs of None \<Rightarrow> if rv_txid_min v \<le> s then Some v else None | Some w \<Rightarrow> Some w)"
  by (simp add: newest_at_def split: list.splits)

text \<open>In a well-formed chain the version in force is the newest one not after the snapshot.\<close>

lemma find_in_force:
  assumes "chain_ok c"
  shows "find (\<lambda>v. in_force v s) (rev c) = newest_at s c \<and>
    (\<forall>v \<in> set c. in_force v s \<longrightarrow> newest_at s c = Some v)"
  using assms
proof (induction c rule: chain_ok.induct)
  case 1
  then show ?case by (simp add: newest_at_def)
next
  case (2 v)
  then show ?case by (simp add: newest_at_def in_force_def)
next
  case (3 v w vs)
  have ok: "chain_ok (w # vs)" using 3 by simp
  note IH = 3(1) [OF ok]
  have vfrc: "in_force v s \<longleftrightarrow> rv_txid_min v \<le> s \<and> s < rv_txid_min w"
    using 3(2) by (auto simp: in_force_def)
  have find: "find (\<lambda>v. in_force v s) (rev (v # w # vs)) =
      (case find (\<lambda>v. in_force v s) (rev (w # vs)) of
         None \<Rightarrow> if in_force v s then Some v else None | Some x \<Rightarrow> Some x)"
    by (simp add: find_append split: option.splits)
  show ?case
  proof (cases "s < rv_txid_min w")
    case True
    have "\<forall>x \<in> set (w # vs). \<not> rv_txid_min x \<le> s"
      using True chain_ok_min_le [OF ok] by (auto simp: not_le intro: less_le_trans)
    then have "filter (\<lambda>v. rv_txid_min v \<le> s) (w # vs) = []"
      by (simp only: filter_empty_conv simp_thms)
    then have "newest_at s (w # vs) = None"
      by (simp only: newest_at_def list.case)
    then show ?thesis
      using IH find True vfrc by (auto simp: newest_at_Cons [of s v])
  next
    case False
    then obtain x where "newest_at s (w # vs) = Some x"
      by (cases "newest_at s vs") (auto simp: newest_at_Cons not_less)
    then show ?thesis
      using IH find False vfrc by (simp add: newest_at_Cons [of s v])
  qed
qed

lemma newest_at_set: "newest_at s c = Some v \<Longrightarrow> v \<in> set c"
proof -
  assume "newest_at s c = Some v"
  then obtain x xs where "filter (\<lambda>v. rv_txid_min v \<le> s) c = x # xs" "v = last (x # xs)"
    by (simp add: newest_at_def split: list.splits)
  then have "v \<in> set (filter (\<lambda>v. rv_txid_min v \<le> s) c)" by (metis last_in_set list.distinct(1))
  then show ?thesis by simp
qed

lemma find_visible:
  assumes "chain_ok c"
  shows "find (\<lambda>v. is_version_visible v s A) (rev c) =
    (case newest_at s c of
       None \<Rightarrow> None
     | Some v \<Rightarrow> if rv_txid_min v \<in> A \<and> rv_txid_min v \<noteq> s then None else Some v)"
proof (cases "find (\<lambda>v. is_version_visible v s A) (rev c)")
  case None
  then have "\<forall>v \<in> set c. \<not> is_version_visible v s A"
    by (auto simp: find_None_iff)
  moreover have "\<forall>v. newest_at s c = Some v \<longrightarrow> v \<in> set c \<and> in_force v s"
    using find_in_force [OF assms, of s] by (metis find_SomeD set_rev)
  ultimately show ?thesis using None by (auto simp: visible_iff split: option.splits)
next
  case (Some v)
  then have "v \<in> set c" "is_version_visible v s A" by (auto dest: find_SomeD)
  then show ?thesis using Some find_in_force [OF assms, of s] by (auto simp: visible_iff)
qed

lemma latest_visible_push_later:
  assumes "s < t" "c \<noteq> [] \<Longrightarrow> rv_txid_max (last c) = u64_MAX" "rv_txid_min v = t"
  shows "map_option rv_row (latest_visible (push_version t v c) s A) = map_option rv_row (latest_visible c s A)"
proof (cases c rule: rev_cases)
  case Nil
  then show ?thesis using assms by (simp add: latest_visible_def is_version_visible_def)
next
  case (snoc ys w)
  have "is_version_visible (w\<lparr>rv_txid_max := t\<rparr>) s A = is_version_visible w s A"
    using assms snoc by (auto simp: is_version_visible_def)
  then show ?thesis using assms snoc
    by (auto simp: latest_visible_def is_version_visible_def [of v])
qed

subsection \<open>Scans\<close>

lemma scan_visible_iff:
  "(i, r) \<in> set (scan_visible t s A) \<longleftrightarrow>
     (\<exists>rv. get_visible_version t i s A = Some rv \<and> rv_row rv = r)"
proof -
  have "(i, r) \<in> set (scan_visible t s A) \<longleftrightarrow>
      (\<exists>c rv. (i, c) \<in> set (enumerate 0 (tb_version_chains t)) \<and> latest_visible c s A = Some rv \<and> rv_row rv = r)"
    by (force simp: scan_visible_def List.map_filter_def)
  then show ?thesis
    by (auto simp: get_visible_version_def in_set_enumerate_eq bind_eq_Some_conv)
qed

lemma map_filter_fst_subseq:
  "sorted_wrt (<) (map fst xs) \<Longrightarrow> (\<And>x y. f x = Some y \<Longrightarrow> fst y = fst x) \<Longrightarrow>
   sorted_wrt (<) (map fst (List.map_filter f xs))"
proof (induction xs)
  case Nil
  then show ?case by (simp add: List.map_filter_def)
next
  case (Cons x xs)
  have "set (map fst (List.map_filter f xs)) \<subseteq> set (map fst xs)"
    using Cons.prems(2) by (force simp: List.map_filter_def)
  moreover have "\<forall>y \<in> set (map fst xs). fst x < y"
    using Cons.prems(1) by simp
  ultimately have "\<forall>y \<in> set (map fst (List.map_filter f xs)). fst x < y"
    by blast
  then show ?case using Cons by (cases "f x") (auto simp: map_filter_simps)
qed

lemma scan_visible_sorted: "sorted_wrt (<) (map fst (scan_visible t s A))"
  unfolding scan_visible_def
  by (rule map_filter_fst_subseq) auto

subsection \<open>The indexes follow the visible rows\<close>

definition indexes_ok :: "table \<Rightarrow> bool" where
  "indexes_ok t \<longleftrightarrow> (\<forall>ix \<in> set (tb_indexes t). index_ok ix)"

text \<open>
  An index is synchronised when a key leads to exactly the rows whose current version
  (the one a snapshot after every commit sees) carries it.
\<close>

definition current_rows :: "table \<Rightarrow> (nat \<times> row) list" where
  "current_rows t = scan_visible t u64_MAX {}"

definition index_synced :: "table \<Rightarrow> index \<Rightarrow> bool" where
  "index_synced t ix \<longleftrightarrow>
     (\<forall>k. index_rows ix k = {i. \<exists>r. (i, r) \<in> set (current_rows t) \<and> extract_key ix r = k})"

definition table_synced :: "table \<Rightarrow> bool" where
  "table_synced t \<longleftrightarrow> indexes_ok t \<and> (\<forall>ix \<in> set (tb_indexes t). index_synced t ix)"

lemma extract_key_meta: "ix_meta ix' = ix_meta ix \<Longrightarrow> extract_key ix' r = extract_key ix r"
  by (simp add: extract_key_def)

lemma extract_key_frame [simp, frame_simps]:
  "extract_key (insert_entry ix k i) r = extract_key ix r"
  "extract_key (index_remove ix k i) r = extract_key ix r"
  "extract_key (index_clear ix) r = extract_key ix r"
  by (simp_all add: extract_key_def)

lemma scan_visible_indexes [simp, frame_simps]:
  "scan_visible (t\<lparr>tb_indexes := ixs\<rparr>) s A = scan_visible t s A"
  "current_rows (t\<lparr>tb_indexes := ixs\<rparr>) = current_rows t"
  "get_visible_version (t\<lparr>tb_indexes := ixs\<rparr>) i s A = get_visible_version t i s A"
  by (simp_all add: scan_visible_def current_rows_def get_visible_version_def)

lemma foldl_map_indexes:
  "foldl (\<lambda>ixs x. map (g x) ixs) ixs xs = map (\<lambda>ix. foldl (\<lambda>ix x. g x ix) ix xs) ixs"
  by (induction xs arbitrary: ixs) (auto simp: o_def)

lemma foldl_insert_entry_key:
  "foldl (\<lambda>ix (i, r). insert_entry ix (extract_key ix r) i) ix irs =
   foldl (\<lambda>ix' (i, r). insert_entry ix' (extract_key ix r) i) ix irs"
proof -
  have "foldl (\<lambda>ix (i, r). insert_entry ix (extract_key ix r) i) ix' irs =
     foldl (\<lambda>ix' (i, r). insert_entry ix' (extract_key ix r) i) ix' irs"
    if "ix_meta ix' = ix_meta ix" for ix'
    using that
  proof (induction irs arbitrary: ix')
    case (Cons ir irs)
    then show ?case using extract_key_meta [of ix' ix] by (auto split: prod.splits)
  qed simp
  then show ?thesis by blast
qed

lemma foldl_insert_entry_meta [simp]:
  "ix_meta (foldl (\<lambda>ix' (i, r). insert_entry ix' (key r) i) ix irs) = ix_meta ix"
  "extract_key (foldl (\<lambda>ix' (i, r). insert_entry ix' (key r) i) ix irs) r' = extract_key ix r'"
  by (induction irs arbitrary: ix) (auto split: prod.splits)

lemma rebuild_indexes_conv:
  "tb_indexes (rebuild_indexes t) =
     map (\<lambda>ix. foldl (\<lambda>ix' (i, r). insert_entry ix' (extract_key ix r) i) (index_clear ix) (current_rows t))
       (tb_indexes t)"
proof -
  have "(\<lambda>ixs (row_idx, r). map (\<lambda>ix. insert_entry ix (extract_key ix r) row_idx) ixs) =
      (\<lambda>ixs x. map (\<lambda>ix. case x of (row_idx, r) \<Rightarrow> insert_entry ix (extract_key ix r) row_idx) ixs)"
    by (auto simp: fun_eq_iff)
  then show ?thesis
    unfolding rebuild_indexes_def Let_def current_rows_def
    by (simp add: foldl_map_indexes o_def case_prod_unfold)
       (simp add: foldl_insert_entry_key [unfolded case_prod_unfold])
qed

lemma rebuild_indexes_frame [simp, frame_simps]:
  "tb_name (rebuild_indexes t) = tb_name t"
  "tb_columns (rebuild_indexes t) = tb_columns t"
  "tb_version_chains (rebuild_indexes t) = tb_version_chains t"
  "tb_primary_key_idx (rebuild_indexes t) = tb_primary_key_idx t"
  "scan_visible (rebuild_indexes t) s A = scan_visible t s A"
  "current_rows (rebuild_indexes t) = current_rows t"
  by (simp_all add: rebuild_indexes_def Let_def)

lemma rebuild_indexes_metas:
  "map ix_meta (tb_indexes (rebuild_indexes t)) = map ix_meta (tb_indexes t)"
  by (simp add: rebuild_indexes_conv o_def)

lemma rebuild_indexes_synced: "table_synced (rebuild_indexes t)"
proof -
  have "index_ok ix \<and> index_synced t ix" if "ix \<in> set (tb_indexes (rebuild_indexes t))" for ix
  proof -
    from that obtain ix0 where
      "ix = foldl (\<lambda>ix' (i, r). insert_entry ix' (extract_key ix0 r) i) (index_clear ix0) (current_rows t)"
      by (auto simp: rebuild_indexes_conv)
    then show ?thesis
      using bx.ok_add_all [of "index_clear ix0" "extract_key ix0" "current_rows t"]
        bx.rows_add_all [of "index_clear ix0" "extract_key ix0" "current_rows t"]
      by (simp add: index_synced_def)
  qed
  then show ?thesis
    by (simp add: table_synced_def indexes_ok_def index_synced_def)
qed

subsection \<open>Unique constraints\<close>

lemma each_index_ok:
  "each_index f ixs = (ixs', Inr u) \<longleftrightarrow> list_all2 (\<lambda>ix ix'. f ix = (ix', Inr ())) ixs ixs'"
proof (induction ixs arbitrary: ixs')
  case Nil
  then show ?case by auto
next
  case (Cons ix ixs)
  obtain a b c d where eq: "f ix = (a, b)" "each_index f ixs = (c, d)" by fastforce
  show ?case
    using Cons.IH [of "tl ixs'"] by (cases ixs'; cases b) (auto simp: eq)
qed

lemma each_index_map:
  "(\<And>ix. ix \<in> set ixs \<Longrightarrow> f ix = (g ix, Inr ())) \<Longrightarrow> each_index f ixs = (map g ixs, Inr ())"
  by (simp add: each_index_ok list_all2_map2 list_all2_same)

lemma each_index_metas:
  assumes "\<And>ix. ix_meta (fst (f ix)) = ix_meta ix"
  shows "map ix_meta (fst (each_index f ixs)) = map ix_meta ixs"
proof (induction ixs)
  case (Cons ix ixs)
  obtain a b c d where eq: "f ix = (a, b)" "each_index f ixs = (c, d)" by fastforce
  then show ?case using Cons assms [of ix] by (cases b) auto
qed simp

lemma check_unique_index_ok:
  assumes "index_ok ix"
  shows "check_unique_index X is_insert i r ix = Inr () \<longleftrightarrow>
    (im_is_unique (ix_meta ix) \<longrightarrow> list_all is_null (extract_key ix r) \<or>
       index_rows ix (extract_key ix r) \<subseteq> {i} \<or>
       (\<not> is_insert \<and> i \<in> index_rows ix (extract_key ix r)))"
proof (cases "index_get ix (extract_key ix r)")
  case None
  then show ?thesis by (simp add: check_unique_index_def index_rows_def Let_def)
next
  case (Some s)
  then have s: "finite s" "s \<noteq> {}" using index_ok_get [OF assms] by (auto simp: index_get_def)
  then have "card s = 1 \<and> i \<in> s \<longleftrightarrow> s \<subseteq> {i}" by (auto simp: card_1_singleton_iff)
  then show ?thesis using Some s by (auto simp: check_unique_index_def index_rows_def Let_def)
qed

lemma check_unique_constraints_ok:
  assumes "indexes_ok t"
  shows "check_unique_constraints X t is_insert i r = Inr () \<longleftrightarrow>
    (\<forall>ix \<in> set (tb_indexes t). im_is_unique (ix_meta ix) \<longrightarrow>
       list_all is_null (extract_key ix r) \<or> index_rows ix (extract_key ix r) \<subseteq> {i} \<or>
       (\<not> is_insert \<and> i \<in> index_rows ix (extract_key ix r)))"
  using assms by (simp add: check_unique_constraints_def try_fold_unit indexes_ok_def check_unique_index_ok)

text \<open>The keys of a row in the unique indexes that consist of NULLs only are not checked.\<close>

definition checked_keys :: "table \<Rightarrow> row \<Rightarrow> bool" where
  "checked_keys t r \<longleftrightarrow>
     (\<forall>ix \<in> set (tb_indexes t). im_is_unique (ix_meta ix) \<longrightarrow> \<not> list_all is_null (extract_key ix r))"

lemma insert_after_check:
  assumes "indexes_ok t" "checked_keys t r" "check_unique_constraints X t True i r = Inr ()"
  shows "apply_index_changes X t (Insert r) old i =
    (t\<lparr>tb_indexes := map (\<lambda>ix. insert_entry ix (extract_key ix r) i) (tb_indexes t)\<rparr>, Inr ())"
proof -
  have "index_change X (Insert r) old i ix = (insert_entry ix (extract_key ix r) i, Inr ())"
    if "ix \<in> set (tb_indexes t)" for ix
  proof -
    have "index_ok ix" using assms(1) that by (simp add: indexes_ok_def)
    moreover have "im_is_unique (ix_meta ix) \<longrightarrow> index_rows ix (extract_key ix r) \<subseteq> {i}"
      using assms that by (auto simp: check_unique_constraints_ok checked_keys_def)
    ultimately have "index_insert X ix (extract_key ix r) i = (insert_entry ix (extract_key ix r) i, Inr ())"
      by (auto simp: index_insert_eq)
    then show ?thesis by (simp add: index_change_def map_err_def)
  qed
  then show ?thesis by (simp add: apply_index_changes_def each_index_map)
qed

lemma update_after_check:
  assumes "indexes_ok t" "checked_keys t r" "check_unique_constraints X t False i r = Inr ()"
    and "\<And>ix. ix \<in> set (tb_indexes t) \<Longrightarrow> im_is_unique (ix_meta ix) \<Longrightarrow> index_single ix"
  shows "apply_index_changes X t (Update r) (Some old) i =
    (t\<lparr>tb_indexes := map (\<lambda>ix. insert_entry (index_remove ix (extract_key ix old) i) (extract_key ix r) i)
         (tb_indexes t)\<rparr>, Inr ())"
proof -
  have "index_change X (Update r) (Some old) i ix =
      (insert_entry (index_remove ix (extract_key ix old) i) (extract_key ix r) i, Inr ())"
    if mem: "ix \<in> set (tb_indexes t)" for ix
  proof -
    have ok: "index_ok ix" using assms(1) mem by (simp add: indexes_ok_def)
    have sub: "index_rows ix (extract_key ix r) \<subseteq> {i}" if "im_is_unique (ix_meta ix)"
    proof -
      have "index_rows ix (extract_key ix r) \<subseteq> {i} \<or> i \<in> index_rows ix (extract_key ix r)"
        using assms(1-3) mem that by (auto simp: check_unique_constraints_ok checked_keys_def)
      then show ?thesis
        using assms(4) [OF mem that] index_single_iff [OF ok] by blast
    qed
    have "index_ok (index_remove ix (extract_key ix old) i)" by (rule bx.ok_del [OF ok])
    then show ?thesis
      using sub by (auto simp: index_change_def index_update_def index_insert_eq map_err_def
          index_rows_remove [OF ok] split: if_splits)
  qed
  then show ?thesis by (simp add: apply_index_changes_def each_index_map)
qed

lemma apply_index_changes_frame [simp, frame_simps]:
  "tb_name (fst (apply_index_changes X t op old i)) = tb_name t"
  "tb_columns (fst (apply_index_changes X t op old i)) = tb_columns t"
  "tb_version_chains (fst (apply_index_changes X t op old i)) = tb_version_chains t"
  "tb_primary_key_idx (fst (apply_index_changes X t op old i)) = tb_primary_key_idx t"
  by (simp_all add: apply_index_changes_def split: prod.splits)

subsection \<open>Named indexes\<close>

lemma push_index_frame [simp, frame_simps]:
  "tb_name (push_index ix t) = tb_name t"
  "tb_columns (push_index ix t) = tb_columns t"
  "tb_version_chains (push_index ix t) = tb_version_chains t"
  "tb_primary_key_idx (push_index ix t) = tb_primary_key_idx t"
  "tb_indexes (push_index ix t) = tb_indexes t @ [ix]"
  "current_rows (push_index ix t) = current_rows t"
  by (simp_all add: push_index_def)

lemma index_names_push [simp]: "index_names (push_index ix t) = index_names t @ [im_name (ix_meta ix)]"
  by (simp add: index_names_def)

lemma has_index_iff: "has_index t name \<longleftrightarrow> name \<in> set (index_names t)"
  by (auto simp: has_index_def index_names_def list_ex_iff)

lemma index_new_unique_name [simp]:
  "ix_meta (index_new_unique name cols) = \<lparr>im_name = name, im_columns = cols, im_is_unique = True\<rparr>"
  "ix_meta (index_new_non_unique name cols) = \<lparr>im_name = name, im_columns = cols, im_is_unique = False\<rparr>"
  by (simp_all add: index_new_unique_def index_new_non_unique_def index_new_def index_meta_new_def)

lemma index_new_ok [simp]:
  "index_ok (index_new_unique name cols)" "index_ok (index_new_non_unique name cols)"
  "index_rows (index_new_unique name cols) k = {}" "index_rows (index_new_non_unique name cols) k = {}"
  by (simp_all add: index_new_unique_def index_new_non_unique_def)

lemma build_unique_indexes_invariant:
  assumes "P t" "\<And>t ix. P t \<Longrightarrow> \<not> has_index t (im_name (ix_meta ix)) \<Longrightarrow>
      (\<exists>name i. ix = index_new_unique name [i]) \<Longrightarrow> P (push_index ix t)"
  shows "P (build_unique_indexes t)"
proof -
  have "P (foldl (\<lambda>t (i, col).
         if cm_is_unique col \<and> \<not> cm_is_primary_key col then
           let uq_name = ''uq_'' @ tb_name t @ ''_'' @ cm_name col in
           if has_index t uq_name then t else push_index (index_new_unique uq_name [i]) t
         else t) t xs)" for xs
    using assms(1)
  proof (induction xs arbitrary: t)
    case (Cons x xs)
    show ?case
      unfolding foldl_Cons
      by (rule Cons.IH) (auto simp: Let_def Cons.prems split: prod.splits intro!: assms(2))
  qed simp
  then show ?thesis by (simp add: build_unique_indexes_def)
qed

lemma table_new_indexes:
  "distinct (index_names (table_new name cols)) \<and> table_synced (table_new name cols) \<and>
   tb_version_chains (table_new name cols) = [] \<and> tb_columns (table_new name cols) = cols \<and>
   tb_name (table_new name cols) = name"
proof -
  let ?P = "\<lambda>t. distinct (index_names t) \<and> table_synced t \<and> tb_version_chains t = [] \<and>
    tb_columns t = cols \<and> tb_name t = name"
  have step: "?P (push_index ix t)"
    if "?P t" "\<not> has_index t (im_name (ix_meta ix))" "\<exists>name i. ix = index_new_unique name [i]" for t ix
    using that
    by (auto simp: has_index_iff table_synced_def indexes_ok_def index_synced_def
        current_rows_def scan_visible_def map_filter_simps)
  have base: "?P (build_pk_index \<lparr>tb_name = name, tb_columns = cols, tb_version_chains = [],
      tb_primary_key_idx = pk, tb_indexes = []\<rparr>)" for pk
    by (auto simp: build_pk_index_def Let_def has_index_def index_names_def table_synced_def
        indexes_ok_def index_synced_def current_rows_def scan_visible_def map_filter_simps
        split: option.splits)
  show ?thesis
    unfolding table_new_def by (rule build_unique_indexes_invariant [OF base step])
qed

lemma add_index_step:
  assumes "(let key = extract_key ix r in
       if is_unique then
         (case index_insert X ix key i of
            (ix', Inr _) \<Rightarrow> Inr ix'
          | (_, Inl _) \<Rightarrow> Inl (DuplicateKey name (key_display X key)))
       else Inr (insert_entry ix key i)) = Inr ix'"
  shows "ix' = insert_entry ix (extract_key ix r) i"
  using assms by (auto simp: Let_def index_insert_def split: if_splits prod.splits sum.splits)

lemma add_index_synced:
  assumes "add_index X t name cols u = Inr t'"
  obtains ix where "t' = push_index ix t" "ix_meta ix = \<lparr>im_name = name, im_columns = cols, im_is_unique = u\<rparr>"
    "index_ok ix" "index_synced t ix" "u \<Longrightarrow> index_single ix" "\<not> has_index t name"
proof -
  let ?ix0 = "if u then index_new_unique name cols else index_new_non_unique name cols"
  let ?step = "\<lambda>ix (i, r). (let key = extract_key ix r in
       if u then (case index_insert X ix key i of
            (ix', Inr _) \<Rightarrow> Inr ix'
          | (_, Inl _) \<Rightarrow> Inl (DuplicateKey name (key_display X key)))
       else Inr (insert_entry ix key i))"
  from assms obtain ix where ix: "t' = push_index ix t" "try_fold ?step ?ix0 (current_rows t) = Inr ix"
    and new: "\<not> has_index t name"
    by (auto simp: add_index_def current_rows_def Let_def and_then_eq_Inr split: if_splits)
  have "ix = foldl (\<lambda>ix (i, r). insert_entry ix (extract_key ix r) i) ?ix0 (current_rows t)"
    by (rule try_fold_foldl [OF _ ix(2)]) (use add_index_step in \<open>force split: prod.splits\<close>)
  then have fold: "ix = foldl (\<lambda>ix' (i, r). insert_entry ix' (extract_key ?ix0 r) i) ?ix0 (current_rows t)"
    by (simp only: foldl_insert_entry_key)
  have ok: "index_ok ix" unfolding fold by (rule bx.ok_add_all) simp
  have meta: "ix_meta ix = \<lparr>im_name = name, im_columns = cols, im_is_unique = u\<rparr>"
    unfolding fold by simp
  have "index_synced t ix"
    using bx.rows_add_all [of ?ix0 "extract_key ?ix0" "current_rows t"]
    unfolding index_synced_def fold by simp
  moreover have "index_single ix" if u
  proof -
    have "index_ok ix \<and> index_single ix \<and> im_is_unique (ix_meta ix)"
    proof (rule try_fold_invariant [OF ix(2)])
      show "index_ok ?ix0 \<and> index_single ?ix0 \<and> im_is_unique (ix_meta ?ix0)"
        using that index_single_iff [of ?ix0] by simp
    next
      fix ix ir ix'
      assume prev: "index_ok ix \<and> index_single ix \<and> im_is_unique (ix_meta ix)"
        and st: "?step ix ir = Inr ix'"
      obtain i r where ir: "ir = (i, r)" by (cases ir)
      have "ix' = fst (index_insert X ix (extract_key ix r) i)"
        using st that by (auto simp: ir Let_def split: prod.splits sum.splits)
      then show "index_ok ix' \<and> index_single ix' \<and> im_is_unique (ix_meta ix')"
        using prev bx.ins_single [of ix X "extract_key ix r" i] bx.ins_ok [of ix X "extract_key ix r" i]
          index_single_iff [of ix] index_single_iff [of ix'] by (simp add: bx.single_def)
    qed
    then show ?thesis by blast
  qed
  ultimately show ?thesis using that ix(1) ok meta new by blast
qed

subsection \<open>Validation\<close>

lemma types_compatible_sym: "types_compatible a b = types_compatible b a"
  by (cases a; cases b) (auto simp: types_compatible_def)

lemma types_compatible_erased: "erase_length a = erase_length b \<Longrightarrow> types_compatible a b"
  by (cases a; cases b) (auto simp: types_compatible_def)

lemma validate_row_ok:
  "validate_row t r = Inr () \<longleftrightarrow>
     list_all2 (\<lambda>col d. if d = DNull then cm_nullable col
                        else types_compatible (cm_data_type col) (datum_type d))
       (tb_columns t) (row_values r)"
  by (auto simp: validate_row_def try_fold_unit validate_value_def list_all2_iff split: if_splits)

subsection \<open>Properties\<close>

definition sample_columns :: "column_meta list" where
  "sample_columns = [column_primary_key (column_new ''id'' TyInteger),
     (column_new ''mail'' TyText)\<lparr>cm_is_unique := True\<rparr>]"

text \<open>A table with one row, inserted by transaction 1 and updated by transaction 3.\<close>

definition sample_table :: table where
  "sample_table = rebuild_indexes ((table_new ''t'' sample_columns)\<lparr>tb_version_chains :=
     [push_version 3 (new_update 3 \<lparr>row_values = [DInteger 1, DText ''b'']\<rparr>)
       [new_insert 1 \<lparr>row_values = [DInteger 1, DText ''a'']\<rparr>]]\<rparr>)"

text \<open>C7: what a snapshot sees of a row. In a well-formed version chain the lookup, which takes the
  first visible version from the new end, returns the newest version that is not younger than
  the snapshot; it returns nothing when there is none, when that version is a deletion, and when
  its writer was active at the snapshot (and is not the reader itself), whatever older versions
  the chain holds.\<close>
theorem latest_visible_newest:
  assumes "chain_ok c"
  shows "latest_visible c s A =
    (case newest_at s c of
       None \<Rightarrow> None
     | Some v \<Rightarrow>
         if (rv_txid_min v \<in> A \<and> rv_txid_min v \<noteq> s) \<or> rv_is_deleted v then None else Some v)"
  by (auto simp: latest_visible_def find_visible [OF assms] split: option.splits)

theorem latest_visible_newest_witness:
  "map_option rv_row (latest_visible (tb_version_chains sample_table ! 0) 2 {0}) =
     Some \<lparr>row_values = [DInteger 1, DText ''a'']\<rparr>"
proof -
  have ok: "chain_ok (tb_version_chains sample_table ! 0)" by code_simp
  have "map_option rv_row (newest_at 2 (tb_version_chains sample_table ! 0)) =
      Some \<lparr>row_values = [DInteger 1, DText ''a'']\<rparr>"
    "map_option rv_txid_min (newest_at 2 (tb_version_chains sample_table ! 0)) = Some 1"
    "map_option rv_is_deleted (newest_at 2 (tb_version_chains sample_table ! 0)) = Some False"
    by code_simp+
  then show ?thesis
    using latest_visible_newest [OF ok, of 2 "{0}"] by (auto split: option.splits)
qed

text \<open>C8: a snapshot is stable under later transactions. When a transaction younger than the
  snapshot commits a new version of a row (which also ends the version before it), every reader
  with that snapshot still sees the row it saw, whatever its active set is.\<close>
theorem snapshot_stable:
  assumes "s < t" "c \<noteq> [] \<Longrightarrow> rv_txid_max (last c) = u64_MAX" "rv_txid_min v = t"
  shows "map_option rv_row (latest_visible (push_version t v c) s A) = map_option rv_row (latest_visible c s A)"
  using latest_visible_push_later [OF assms] .

theorem snapshot_stable_witness:
  "map_option rv_row (latest_visible (push_version 7 (new_delete 7 \<lparr>row_values = []\<rparr>)
      [new_insert 1 \<lparr>row_values = [DInteger 1]\<rparr>]) 5 {}) = Some \<lparr>row_values = [DInteger 1]\<rparr>"
  using snapshot_stable [of 5 7 "[new_insert 1 \<lparr>row_values = [DInteger 1]\<rparr>]" "new_delete 7 \<lparr>row_values = []\<rparr>" "{}"]
  by (simp add: new_insert_def new_delete_def latest_visible_def is_version_visible_def)

text \<open>the visibility test does not give a transaction the rows as of its start when an older
  transaction that was still active then commits: the committed version is hidden, because its
  writer is in the active set, and the version it replaced is hidden too, because it ends before
  the snapshot. The row is gone for the reader, which saw it before the commit.\<close>
theorem snapshot_loses_row:
  assumes "chain_ok (c @ [w])" "rv_txid_min w \<le> t" "\<not> rv_is_deleted w" "rv_txid_min w \<notin> A"
    and "t \<in> A" "t < s" "rv_txid_min v = t" "rv_txid_max v = u64_MAX"
  shows "latest_visible (c @ [w]) s A = Some w \<and>
    latest_visible (push_version t v (c @ [w])) s A = None"
proof -
  have t: "t \<noteq> u64_MAX" "t \<le> s" "rv_txid_min w \<le> s" using assms(2,6) by (auto simp: u64_less_MAX)
  have ok: "chain_ok (push_version t v (c @ [w]))"
    by (rule chain_ok_push) (use assms t in auto)
  have before: "newest_at s (c @ [w]) = Some w" "newest_at s (push_version t v (c @ [w])) = Some v"
    using assms(7) t by (simp_all add: newest_at_def split: list.splits) (auto simp: append_eq_Cons_conv)
  show ?thesis
    using find_visible [OF assms(1), of s A] find_visible [OF ok, of s A] before assms
    by (auto simp: latest_visible_def)
qed

theorem snapshot_loses_row_witness:
  "latest_visible (push_version 2 (new_update 2 \<lparr>row_values = [DInteger 8]\<rparr>)
      [new_insert 1 \<lparr>row_values = [DInteger 7]\<rparr>]) 3 {0, 2} = None"
  using snapshot_loses_row [of "[]" "new_insert 1 \<lparr>row_values = [DInteger 7]\<rparr>" 2 "{0, 2}" 3
      "new_update 2 \<lparr>row_values = [DInteger 8]\<rparr>"]
  by (simp add: new_insert_def new_update_def)

text \<open>a rebuild makes every index of the table agree with the rows: whatever the indexes held,
  afterwards a key leads to exactly the rows whose current version carries it, and neither the
  rows nor the names, columns and kinds of the indexes have changed.\<close>
theorem rebuild_indexes_correct:
  "table_synced (rebuild_indexes t) \<and>
   map ix_meta (tb_indexes (rebuild_indexes t)) = map ix_meta (tb_indexes t) \<and>
   tb_version_chains (rebuild_indexes t) = tb_version_chains t"
  using rebuild_indexes_synced rebuild_indexes_metas by auto

text \<open>a row that the unique constraint check accepts can be entered into every index of the
  table, provided none of its keys in a unique index is all NULL: the index step of an INSERT, or
  of an UPDATE of a row whose unique indexes map each key to one row, succeeds and moves the row
  to its new keys in all indexes.\<close>
theorem unique_check_sound:
  assumes "indexes_ok t" "checked_keys t r"
    and "\<forall>ix \<in> set (tb_indexes t). im_is_unique (ix_meta ix) \<longrightarrow> index_single ix"
  shows "(check_unique_constraints X t True i r = Inr () \<longrightarrow>
      apply_index_changes X t (Insert r) None i =
        (t\<lparr>tb_indexes := map (\<lambda>ix. insert_entry ix (extract_key ix r) i) (tb_indexes t)\<rparr>, Inr ())) \<and>
    (check_unique_constraints X t False i r = Inr () \<longrightarrow>
      apply_index_changes X t (Update r) (Some old) i =
        (t\<lparr>tb_indexes := map (\<lambda>ix. insert_entry (index_remove ix (extract_key ix old) i) (extract_key ix r) i)
             (tb_indexes t)\<rparr>, Inr ()))"
  using insert_after_check [OF assms(1,2)] update_after_check [OF assms(1,2)] assms(3) by blast

theorem unique_check_sound_witness:
  "snd (apply_index_changes sample_ext sample_table (Insert \<lparr>row_values = [DInteger 2, DText ''z'']\<rparr>) None 1) = Inr ()"
proof -
  have ok: "indexes_ok sample_table"
    using rebuild_indexes_synced by (simp add: sample_table_def table_synced_def)
  have u: "\<forall>ix \<in> set (tb_indexes sample_table). im_is_unique (ix_meta ix) \<longrightarrow> index_single ix" by code_simp
  have k: "checked_keys sample_table \<lparr>row_values = [DInteger 2, DText ''z'']\<rparr>" by code_simp
  have c: "check_unique_constraints sample_ext sample_table True 1
      \<lparr>row_values = [DInteger 2, DText ''z'']\<rparr> = Inr ()" by code_simp
  show ?thesis using unique_check_sound [OF ok k u, of sample_ext 1] c by simp
qed

text \<open>the check skips a key of NULLs while the index does not. Inserting a row whose key in a
  unique index is all NULL passes the check, and when another row already has that key the index
  step after the commit fails with an internal error.\<close>
theorem null_key_insert_fails:
  assumes "index_ok ix" "im_is_unique (ix_meta ix)" "tb_indexes t = [ix]"
    and "list_all is_null (extract_key ix r)"
    and "j \<in> index_rows ix (extract_key ix r)" "i \<notin> index_rows ix (extract_key ix r)"
  shows "check_unique_constraints X t True i r = Inr () \<and>
    (\<exists>msg. snd (apply_index_changes X t (Insert r) old i) = Inl (Internal msg))"
  using assms
  by (auto simp: check_unique_constraints_def check_unique_index_def Let_def apply_index_changes_def
      index_change_def index_insert_eq map_err_def)

definition null_index :: index where
  "null_index = insert_entry (index_new_unique ''uq_t_a'' [0]) [DNull] 0"

theorem null_key_insert_fails_witness:
  "\<exists>msg. snd (apply_index_changes sample_ext ((table_new ''t'' [])\<lparr>tb_indexes := [null_index]\<rparr>)
     (Insert \<lparr>row_values = [DNull]\<rparr>) None 1) = Inl (Internal msg)"
proof -
  have ok: "index_ok null_index" by (simp add: null_index_def bx.ok_add)
  have rows: "index_rows null_index [DNull] = {0}" by code_simp
  have key: "extract_key null_index \<lparr>row_values = [DNull]\<rparr> = [DNull]" by code_simp
  have u: "im_is_unique (ix_meta null_index)" by code_simp
  show ?thesis
    using null_key_insert_fails [OF ok u, of "(table_new ''t'' [])\<lparr>tb_indexes := [null_index]\<rparr>"
        "\<lparr>row_values = [DNull]\<rparr>" 0 1 sample_ext None] by (simp add: key rows)
qed

text \<open>an index added to a table is filled with the rows the table holds: after a successful
  \<open>add_index\<close> the table has one index more, of the asked columns and kind, under a name no other
  index has, in which a key leads to exactly the current rows that carry it, and to one row only
  when the index is unique.\<close>
theorem add_index_correct:
  assumes "add_index X t name cols u = Inr t'"
  shows "\<exists>ix. tb_indexes t' = tb_indexes t @ [ix] \<and> name \<notin> set (index_names t) \<and>
    ix_meta ix = \<lparr>im_name = name, im_columns = cols, im_is_unique = u\<rparr> \<and> index_ok ix \<and>
    index_synced t ix \<and> (u \<longrightarrow> index_single ix) \<and> tb_version_chains t' = tb_version_chains t"
  using add_index_synced [OF assms] by (metis has_index_iff push_index_frame(3,5))

theorem add_index_correct_witness:
  "\<exists>t'. add_index sample_ext sample_table ''by_mail'' [1] False = Inr t' \<and>
     index_names t' = index_names sample_table @ [''by_mail'']"
proof (cases "add_index sample_ext sample_table ''by_mail'' [1] False")
  case (Inr t')
  then show ?thesis using add_index_correct [OF Inr] by (auto simp: index_names_def)
next
  case (Inl e)
  have "\<not> isl (add_index sample_ext sample_table ''by_mail'' [1] False)" by code_simp
  then show ?thesis using Inl by simp
qed

text \<open>the schema check of a row. It accepts a row exactly when the row has one value per column,
  with NULL in nullable columns only and every other value of a type compatible with its column's;
  so a row built by converting values to the types of the columns is accepted, unless it puts a
  NULL into a NOT NULL column.\<close>
theorem validate_coerced_row:
  assumes "list_all2 (\<lambda>col (v, w). coerce_datum X v (cm_data_type col) = Inr w \<and>
      (w = DNull \<longrightarrow> cm_nullable col)) (tb_columns t) vws"
  shows "validate_row t \<lparr>row_values = map snd vws\<rparr> = Inr ()"
proof -
  have compat: "types_compatible (cm_data_type col) (datum_type w)"
    if "coerce_datum X v (cm_data_type col) = Inr w" "w \<noteq> DNull" for col v w
    using coerce_datum_cases [OF that(1)] that(2) by (auto intro: types_compatible_erased)
  have "list_all2 (\<lambda>col vw. if snd vw = DNull then cm_nullable col
      else types_compatible (cm_data_type col) (datum_type (snd vw))) (tb_columns t) vws"
    by (rule list_all2_mono [OF assms]) (auto intro: compat)
  then show ?thesis by (simp add: validate_row_ok list_all2_map2)
qed

theorem validate_coerced_row_witness:
  "validate_row sample_table \<lparr>row_values = [DInteger 9, DText ''x'']\<rparr> = Inr ()"
proof -
  have "tb_columns sample_table = sample_columns"
    using table_new_indexes by (simp add: sample_table_def)
  then show ?thesis
    using validate_coerced_row [of sample_ext sample_table "[(DBigInt 9, DInteger 9), (DVarChar ''x'', DText ''x'')]"]
    by (simp add: sample_columns_def column_primary_key_def column_new_def coerce_datum_def)
qed

end
