(* ===== verification/Permissions.thy ===== *)
theory Permissions
  imports Helion_Types
begin

text \<open>
  The grants (\<open>src/src/storage/permissions.rs\<close>): per user and table, both in lower case, the
  list of permissions. The rights to SELECT, INSERT and UPDATE columns follow one contract, the
  locale \<open>column_right\<close>, which is interpreted for the three checks of the sources.
\<close>

datatype permission =
    PSelect "string list"
  | PInsert "string list"
  | PUpdate "string list"
  | PDelete
  | PAll

record permission_store =
  ps_grants :: "(string \<times> string) \<rightharpoonup> permission list"

definition permission_store_new :: permission_store where
  "permission_store_new = \<lparr>ps_grants = Map.empty\<rparr>"

text \<open>\<open>std::mem::discriminant\<close>\<close>

fun perm_discriminant :: "permission \<Rightarrow> nat" where
  "perm_discriminant (PSelect _) = 0"
| "perm_discriminant (PInsert _) = 1"
| "perm_discriminant (PUpdate _) = 2"
| "perm_discriminant PDelete = 3"
| "perm_discriminant PAll = 4"

definition grant_key :: "string \<Rightarrow> string \<Rightarrow> string \<times> string" where
  "grant_key username tbl = (to_lowercase username, to_lowercase tbl)"

definition grant :: "string \<Rightarrow> string \<Rightarrow> permission \<Rightarrow> permission_store \<Rightarrow> permission_store" where
  "grant username tbl permission S =
     (let key = grant_key username tbl;
          perms = (case ps_grants S key of None \<Rightarrow> [] | Some ps \<Rightarrow> ps);
          kept = filter (\<lambda>p. perm_discriminant p \<noteq> perm_discriminant permission) perms
      in S\<lparr>ps_grants := (ps_grants S)(key \<mapsto> kept @ [permission])\<rparr>)"

definition revoke_keeps :: "permission \<Rightarrow> permission \<Rightarrow> bool" where
  "revoke_keeps permission p =
     (if perm_discriminant p = perm_discriminant permission then
        (case (p, permission) of
           (PSelect a, PSelect b) \<Rightarrow> a \<noteq> b
         | (PInsert a, PInsert b) \<Rightarrow> a \<noteq> b
         | (PUpdate a, PUpdate b) \<Rightarrow> a \<noteq> b
         | _ \<Rightarrow> False)
      else True)"

definition revoke :: "string \<Rightarrow> string \<Rightarrow> permission \<Rightarrow> permission_store \<Rightarrow> permission_store" where
  "revoke username tbl permission S =
     (let key = grant_key username tbl in
      case ps_grants S key of
        None \<Rightarrow> S
      | Some perms \<Rightarrow>
          let kept = filter (revoke_keeps permission) perms in
          S\<lparr>ps_grants := (ps_grants S)(key := if kept = [] then None else Some kept)\<rparr>)"

definition revoke_all :: "string \<Rightarrow> string \<Rightarrow> permission_store \<Rightarrow> permission_store" where
  "revoke_all username tbl S = S\<lparr>ps_grants := (ps_grants S)(grant_key username tbl := None)\<rparr>"

definition permits_columns :: "string list \<Rightarrow> string list \<Rightarrow> bool" where
  "permits_columns granted_cols columns \<longleftrightarrow>
     granted_cols = [] \<or>
     list_all (\<lambda>c. list_ex (\<lambda>gc. eq_ignore_ascii_case gc c) granted_cols) columns"

fun select_allows :: "permission \<Rightarrow> string list \<Rightarrow> bool" where
  "select_allows PAll columns = True"
| "select_allows (PSelect granted_cols) columns = permits_columns granted_cols columns"
| "select_allows _ columns = False"

fun insert_allows :: "permission \<Rightarrow> string list \<Rightarrow> bool" where
  "insert_allows PAll columns = True"
| "insert_allows (PInsert granted_cols) columns = permits_columns granted_cols columns"
| "insert_allows _ columns = False"

fun update_allows :: "permission \<Rightarrow> string list \<Rightarrow> bool" where
  "update_allows PAll columns = True"
| "update_allows (PUpdate granted_cols) columns = permits_columns granted_cols columns"
| "update_allows _ columns = False"

definition can_select :: "permission_store \<Rightarrow> string \<Rightarrow> string \<Rightarrow> string list \<Rightarrow> bool" where
  "can_select S username tbl columns =
     (case ps_grants S (grant_key username tbl) of
        None \<Rightarrow> False | Some perms \<Rightarrow> list_ex (\<lambda>p. select_allows p columns) perms)"

definition can_insert :: "permission_store \<Rightarrow> string \<Rightarrow> string \<Rightarrow> string list \<Rightarrow> bool" where
  "can_insert S username tbl columns =
     (case ps_grants S (grant_key username tbl) of
        None \<Rightarrow> False | Some perms \<Rightarrow> list_ex (\<lambda>p. insert_allows p columns) perms)"

definition can_update :: "permission_store \<Rightarrow> string \<Rightarrow> string \<Rightarrow> string list \<Rightarrow> bool" where
  "can_update S username tbl columns =
     (case ps_grants S (grant_key username tbl) of
        None \<Rightarrow> False | Some perms \<Rightarrow> list_ex (\<lambda>p. update_allows p columns) perms)"

definition can_delete :: "permission_store \<Rightarrow> string \<Rightarrow> string \<Rightarrow> bool" where
  "can_delete S username tbl =
     (case ps_grants S (grant_key username tbl) of
        None \<Rightarrow> False | Some perms \<Rightarrow> list_ex (\<lambda>p. p = PAll \<or> p = PDelete) perms)"

definition has_any :: "permission_store \<Rightarrow> string \<Rightarrow> string \<Rightarrow> bool" where
  "has_any S username tbl = (ps_grants S (grant_key username tbl) \<noteq> None)"

definition remove_user :: "string \<Rightarrow> permission_store \<Rightarrow> permission_store" where
  "remove_user username S =
     S\<lparr>ps_grants := (\<lambda>k. if fst k \<noteq> to_lowercase username then ps_grants S k else None)\<rparr>"

definition remove_table :: "string \<Rightarrow> permission_store \<Rightarrow> permission_store" where
  "remove_table tbl S =
     S\<lparr>ps_grants := (\<lambda>k. if snd k \<noteq> to_lowercase tbl then ps_grants S k else None)\<rparr>"

subsection \<open>The contract of a right\<close>

text \<open>The permissions held for a key.\<close>

definition held :: "permission_store \<Rightarrow> string \<times> string \<Rightarrow> permission list" where
  "held S key = (case ps_grants S key of None \<Rightarrow> [] | Some ps \<Rightarrow> ps)"

lemma held_grant:
  "held (grant u t p S) key =
     (if key = grant_key u t
      then filter (\<lambda>q. perm_discriminant q \<noteq> perm_discriminant p) (held S key) @ [p] else held S key)"
  by (simp add: held_def grant_def Let_def)

lemma held_revoke:
  "held (revoke u t p S) key =
     (if key = grant_key u t then filter (revoke_keeps p) (held S key) else held S key)"
  by (simp add: held_def revoke_def Let_def split: option.splits)

lemma held_revoke_all: "held (revoke_all u t S) key = (if key = grant_key u t then [] else held S key)"
  by (simp add: held_def revoke_all_def)

lemma held_remove_user:
  "held (remove_user u S) key = (if fst key = to_lowercase u then [] else held S key)"
  by (simp add: held_def remove_user_def)

lemma held_remove_table:
  "held (remove_table t S) key = (if snd key = to_lowercase t then [] else held S key)"
  by (simp add: held_def remove_table_def)

lemmas held_simps = held_grant held_revoke held_revoke_all held_remove_user held_remove_table

lemma revoke_keeps_iff: "revoke_keeps p q \<longleftrightarrow> q \<noteq> p \<and> (p = PDelete \<or> p = PAll \<longrightarrow> q \<noteq> p)"
  by (cases p; cases q) (auto simp: revoke_keeps_def)

lemma revoke_keeps_neq: "revoke_keeps p = (\<lambda>q. q \<noteq> p)"
  by (auto simp: fun_eq_iff revoke_keeps_iff)

locale column_right =
  fixes allows :: "permission \<Rightarrow> string list \<Rightarrow> bool"
    and can :: "permission_store \<Rightarrow> string \<Rightarrow> string \<Rightarrow> string list \<Rightarrow> bool"
    and on_columns :: "string list \<Rightarrow> permission"
  assumes can_held: "can S u t cols \<longleftrightarrow> (\<exists>p \<in> set (held S (grant_key u t)). allows p cols)"
    and allows_all: "allows PAll cols"
    and allows_columns: "allows (on_columns granted) cols \<longleftrightarrow> permits_columns granted cols"
    and allows_only: "allows p cols \<Longrightarrow> p = PAll \<or> (\<exists>granted. p = on_columns granted)"
    and same_kind: "perm_discriminant (on_columns a) = perm_discriminant (on_columns b)"
    and other_kind: "perm_discriminant q = perm_discriminant p \<Longrightarrow> q = PAll \<or> q = on_columns a \<Longrightarrow>
      p = PAll \<or> (\<exists>granted. p = on_columns granted)"
    and not_all: "on_columns a \<noteq> PAll" "perm_discriminant (on_columns a) \<noteq> 4"
begin

lemma can_case: "can S u t cols = can S (to_lowercase u) (to_lowercase t) cols"
  by (simp add: can_held grant_key_def)

lemma can_after_grant:
  "can (grant u t (on_columns granted) S) u' t' cols \<longleftrightarrow>
     (if grant_key u' t' = grant_key u t
      then permits_columns granted cols \<or> PAll \<in> set (held S (grant_key u t))
      else can S u' t' cols)"
proof (cases "grant_key u' t' = grant_key u t")
  case True
  have "(\<exists>q \<in> set (held S (grant_key u t)).
      perm_discriminant q \<noteq> perm_discriminant (on_columns granted) \<and> allows q cols) \<longleftrightarrow>
    PAll \<in> set (held S (grant_key u t))"
  proof
    assume "\<exists>q \<in> set (held S (grant_key u t)).
      perm_discriminant q \<noteq> perm_discriminant (on_columns granted) \<and> allows q cols"
    then show "PAll \<in> set (held S (grant_key u t))"
      using allows_only same_kind by metis
  next
    assume "PAll \<in> set (held S (grant_key u t))"
    then show "\<exists>q \<in> set (held S (grant_key u t)).
      perm_discriminant q \<noteq> perm_discriminant (on_columns granted) \<and> allows q cols"
      using allows_all not_all(2) [of granted] by (intro bexI [of _ PAll]) auto
  qed
  then show ?thesis using True by (auto simp: can_held held_grant allows_columns)
qed (simp add: can_held held_grant)

lemma can_after_grant_all:
  "can (grant u t PAll S) u' t' cols \<longleftrightarrow> grant_key u' t' = grant_key u t \<or> can S u' t' cols"
  by (auto simp: can_held held_grant allows_all)

lemma can_after_other_grant:
  assumes "p \<noteq> PAll" "\<forall>granted. p \<noteq> on_columns granted"
  shows "can (grant u t p S) u' t' cols \<longleftrightarrow> (if grant_key u' t' = grant_key u t then can S u t cols else can S u' t' cols)"
proof -
  have "perm_discriminant q \<noteq> perm_discriminant p" if "allows q cols" for q
    using allows_only [OF that] assms other_kind by metis
  moreover have "\<not> allows p cols" using allows_only [of p cols] assms by blast
  ultimately show ?thesis by (auto simp: can_held held_grant)
qed

lemma can_after_remove_user:
  "can (remove_user u S) u' t cols \<longleftrightarrow> to_lowercase u' \<noteq> to_lowercase u \<and> can S u' t cols"
  by (auto simp: can_held held_remove_user grant_key_def)

lemma can_after_remove_table:
  "can (remove_table t S) u t' cols \<longleftrightarrow> to_lowercase t' \<noteq> to_lowercase t \<and> can S u t' cols"
  by (auto simp: can_held held_remove_table grant_key_def)

lemma can_after_revoke:
  "can (revoke u t p S) u' t' cols \<longleftrightarrow>
     (if grant_key u' t' = grant_key u t
      then \<exists>q \<in> set (held S (grant_key u t)). q \<noteq> p \<and> allows q cols else can S u' t' cols)"
  by (auto simp: can_held held_revoke revoke_keeps_neq)

lemma can_after_revoke_all:
  "can (revoke_all u t S) u' t' cols \<longleftrightarrow> grant_key u' t' \<noteq> grant_key u t \<and> can S u' t' cols"
  by (auto simp: can_held held_revoke_all)

end

interpretation sel: column_right select_allows can_select PSelect
proof
  show "can_select S u t cols = (\<exists>p\<in>set (held S (grant_key u t)). select_allows p cols)" for S u t cols
    by (auto simp: can_select_def held_def list_ex_iff split: option.splits)
  show "select_allows p cols \<Longrightarrow> p = PAll \<or> (\<exists>granted. p = PSelect granted)" for p cols
    by (cases p) auto
  show "perm_discriminant q = perm_discriminant p \<Longrightarrow> q = PAll \<or> q = PSelect a \<Longrightarrow>
      p = PAll \<or> (\<exists>granted. p = PSelect granted)" for p q a
    by (cases p) auto
qed auto

interpretation ins: column_right insert_allows can_insert PInsert
proof
  show "can_insert S u t cols = (\<exists>p\<in>set (held S (grant_key u t)). insert_allows p cols)" for S u t cols
    by (auto simp: can_insert_def held_def list_ex_iff split: option.splits)
  show "insert_allows p cols \<Longrightarrow> p = PAll \<or> (\<exists>granted. p = PInsert granted)" for p cols
    by (cases p) auto
  show "perm_discriminant q = perm_discriminant p \<Longrightarrow> q = PAll \<or> q = PInsert a \<Longrightarrow>
      p = PAll \<or> (\<exists>granted. p = PInsert granted)" for p q a
    by (cases p) auto
qed auto

interpretation upd: column_right update_allows can_update PUpdate
proof
  show "can_update S u t cols = (\<exists>p\<in>set (held S (grant_key u t)). update_allows p cols)" for S u t cols
    by (auto simp: can_update_def held_def list_ex_iff split: option.splits)
  show "update_allows p cols \<Longrightarrow> p = PAll \<or> (\<exists>granted. p = PUpdate granted)" for p cols
    by (cases p) auto
  show "perm_discriminant q = perm_discriminant p \<Longrightarrow> q = PAll \<or> q = PUpdate a \<Longrightarrow>
      p = PAll \<or> (\<exists>granted. p = PUpdate granted)" for p q a
    by (cases p) auto
qed auto

lemma can_delete_held: "can_delete S u t \<longleftrightarrow> (\<exists>p \<in> set (held S (grant_key u t)). p = PAll \<or> p = PDelete)"
  by (auto simp: can_delete_def held_def list_ex_iff split: option.splits)

lemma delete_kinds: "perm_discriminant PAll \<noteq> perm_discriminant p \<longleftrightarrow> p \<noteq> PAll"
    "perm_discriminant PDelete \<noteq> perm_discriminant p \<longleftrightarrow> p \<noteq> PDelete"
  by (cases p; simp)+

subsection \<open>The store keeps one permission of each kind\<close>

definition grants_ok :: "permission_store \<Rightarrow> bool" where
  "grants_ok S \<longleftrightarrow> (\<forall>key ps. ps_grants S key = Some ps \<longrightarrow>
     ps \<noteq> [] \<and> distinct (map perm_discriminant ps) \<and>
     to_lowercase (fst key) = fst key \<and> to_lowercase (snd key) = snd key)"

lemma grants_ok_distinct: "grants_ok S \<Longrightarrow> distinct (map perm_discriminant (held S key))"
  unfolding grants_ok_def held_def by (cases "ps_grants S key") (simp, metis option.case(2))

lemma grants_ok_new: "grants_ok permission_store_new"
  by (simp add: grants_ok_def permission_store_new_def)

lemma distinct_map_filter_snoc:
  "distinct (map f xs) \<Longrightarrow> distinct (map f (filter (\<lambda>q. f q \<noteq> f p) xs @ [p]))"
  by (induction xs) auto

lemma grants_ok_grant: "grants_ok S \<Longrightarrow> grants_ok (grant u t p S)"
  using grants_ok_distinct [of S "grant_key u t"] distinct_map_filter_snoc [of perm_discriminant "held S (grant_key u t)" p]
  by (auto simp: grants_ok_def grant_def Let_def held_def grant_key_def split: option.splits)

lemma grants_ok_revoke: "grants_ok S \<Longrightarrow> grants_ok (revoke u t p S)"
  by (auto simp: grants_ok_def revoke_def Let_def grant_key_def distinct_map_filter split: option.splits if_splits)

lemma grants_ok_removals:
  "grants_ok S \<Longrightarrow> grants_ok (revoke_all u t S)"
  "grants_ok S \<Longrightarrow> grants_ok (remove_user u S)"
  "grants_ok S \<Longrightarrow> grants_ok (remove_table t S)"
  by (auto simp: grants_ok_def revoke_all_def remove_user_def remove_table_def split: if_splits)

subsection \<open>Properties\<close>

text \<open>C30: what a grant changes, for every permission and every right. On the table named, the user granted ALL
  holds every right; the user granted SELECT, INSERT or UPDATE on columns (none named means all) holds that right
  for exactly those columns, a previous grant of the same right being replaced, or for all of them when ALL is held; the
  user granted DELETE holds that. The rights of other kinds on the table, and every right of other users
  and on other tables, are as before. Names are compared without case.\<close>
theorem grant_effect:
  "(can_select (grant u t p S) u' t' cs \<longleftrightarrow>
     (if grant_key u' t' = grant_key u t
      then case p of PAll \<Rightarrow> True
        | PSelect cols \<Rightarrow> permits_columns cols cs \<or> PAll \<in> set (held S (grant_key u t))
        | _ \<Rightarrow> can_select S u t cs
      else can_select S u' t' cs)) \<and>
   (can_insert (grant u t p S) u' t' cs \<longleftrightarrow>
     (if grant_key u' t' = grant_key u t
      then case p of PAll \<Rightarrow> True
        | PInsert cols \<Rightarrow> permits_columns cols cs \<or> PAll \<in> set (held S (grant_key u t))
        | _ \<Rightarrow> can_insert S u t cs
      else can_insert S u' t' cs)) \<and>
   (can_update (grant u t p S) u' t' cs \<longleftrightarrow>
     (if grant_key u' t' = grant_key u t
      then case p of PAll \<Rightarrow> True
        | PUpdate cols \<Rightarrow> permits_columns cols cs \<or> PAll \<in> set (held S (grant_key u t))
        | _ \<Rightarrow> can_update S u t cs
      else can_update S u' t' cs)) \<and>
   (can_delete (grant u t p S) u' t' \<longleftrightarrow>
     (if grant_key u' t' = grant_key u t
      then p = PAll \<or> p = PDelete \<or> can_delete S u t
      else can_delete S u' t'))"
proof (intro conjI)
  show "can_select (grant u t p S) u' t' cs \<longleftrightarrow>
     (if grant_key u' t' = grant_key u t
      then case p of PAll \<Rightarrow> True
        | PSelect cols \<Rightarrow> permits_columns cols cs \<or> PAll \<in> set (held S (grant_key u t))
        | _ \<Rightarrow> can_select S u t cs
      else can_select S u' t' cs)"
    using sel.can_after_grant sel.can_after_grant_all sel.can_after_other_grant [of p u t S u' t' cs]
    by (cases p) auto
  show "can_insert (grant u t p S) u' t' cs \<longleftrightarrow>
     (if grant_key u' t' = grant_key u t
      then case p of PAll \<Rightarrow> True
        | PInsert cols \<Rightarrow> permits_columns cols cs \<or> PAll \<in> set (held S (grant_key u t))
        | _ \<Rightarrow> can_insert S u t cs
      else can_insert S u' t' cs)"
    using ins.can_after_grant ins.can_after_grant_all ins.can_after_other_grant [of p u t S u' t' cs]
    by (cases p) auto
  show "can_update (grant u t p S) u' t' cs \<longleftrightarrow>
     (if grant_key u' t' = grant_key u t
      then case p of PAll \<Rightarrow> True
        | PUpdate cols \<Rightarrow> permits_columns cols cs \<or> PAll \<in> set (held S (grant_key u t))
        | _ \<Rightarrow> can_update S u t cs
      else can_update S u' t' cs)"
    using upd.can_after_grant upd.can_after_grant_all upd.can_after_other_grant [of p u t S u' t' cs]
    by (cases p) auto
qed (use delete_kinds in \<open>auto simp: can_delete_held held_grant\<close>)

text \<open>what a REVOKE changes: it takes away the permission it names, columns included, and no other.
  Afterwards a right on the table holds exactly when another permission the user held allows it
  (so a user who holds ALL, or the same right with another column list, keeps it).\<close>
theorem revoke_effect:
  "(can_select (revoke u t p S) u' t' cs \<longleftrightarrow>
     (if grant_key u' t' = grant_key u t
      then \<exists>q \<in> set (held S (grant_key u t)). q \<noteq> p \<and> select_allows q cs else can_select S u' t' cs)) \<and>
   (can_insert (revoke u t p S) u' t' cs \<longleftrightarrow>
     (if grant_key u' t' = grant_key u t
      then \<exists>q \<in> set (held S (grant_key u t)). q \<noteq> p \<and> insert_allows q cs else can_insert S u' t' cs)) \<and>
   (can_update (revoke u t p S) u' t' cs \<longleftrightarrow>
     (if grant_key u' t' = grant_key u t
      then \<exists>q \<in> set (held S (grant_key u t)). q \<noteq> p \<and> update_allows q cs else can_update S u' t' cs)) \<and>
   (can_delete (revoke u t p S) u' t' \<longleftrightarrow>
     (if grant_key u' t' = grant_key u t
      then \<exists>q \<in> set (held S (grant_key u t)). q \<noteq> p \<and> (q = PAll \<or> q = PDelete) else can_delete S u' t'))"
  using sel.can_after_revoke [of u t p S u' t' cs] ins.can_after_revoke [of u t p S u' t' cs]
    upd.can_after_revoke [of u t p S u' t' cs]
  by (auto simp: can_delete_held held_revoke revoke_keeps_neq)

text \<open>dropping a user or a table removes every right of that user, or on that table, under any
  spelling of the name, and no other right.\<close>
theorem removal_effect:
  "(can_select (remove_user u S) u' t' cs \<longleftrightarrow> to_lowercase u' \<noteq> to_lowercase u \<and> can_select S u' t' cs) \<and>
   (can_insert (remove_user u S) u' t' cs \<longleftrightarrow> to_lowercase u' \<noteq> to_lowercase u \<and> can_insert S u' t' cs) \<and>
   (can_update (remove_user u S) u' t' cs \<longleftrightarrow> to_lowercase u' \<noteq> to_lowercase u \<and> can_update S u' t' cs) \<and>
   (can_delete (remove_user u S) u' t' \<longleftrightarrow> to_lowercase u' \<noteq> to_lowercase u \<and> can_delete S u' t') \<and>
   (can_select (remove_table t S) u' t' cs \<longleftrightarrow> to_lowercase t' \<noteq> to_lowercase t \<and> can_select S u' t' cs) \<and>
   (can_insert (remove_table t S) u' t' cs \<longleftrightarrow> to_lowercase t' \<noteq> to_lowercase t \<and> can_insert S u' t' cs) \<and>
   (can_update (remove_table t S) u' t' cs \<longleftrightarrow> to_lowercase t' \<noteq> to_lowercase t \<and> can_update S u' t' cs) \<and>
   (can_delete (remove_table t S) u' t' \<longleftrightarrow> to_lowercase t' \<noteq> to_lowercase t \<and> can_delete S u' t')"
  using sel.can_after_remove_user ins.can_after_remove_user upd.can_after_remove_user
    sel.can_after_remove_table ins.can_after_remove_table upd.can_after_remove_table
  by (auto simp: can_delete_held held_remove_user held_remove_table grant_key_def)

text \<open>the store never holds two permissions of the same kind, or an empty list, for a user and a
  table, and its keys are in lower case, whatever grants, revocations and removals are made.\<close>
theorem grants_invariant:
  assumes "grants_ok S"
  shows "grants_ok (grant u t p S) \<and> grants_ok (revoke u t p S) \<and> grants_ok (revoke_all u t S) \<and>
    grants_ok (remove_user u S) \<and> grants_ok (remove_table t S)"
  using grants_ok_grant grants_ok_revoke grants_ok_removals assms by blast

theorem grants_invariant_witness:
  "grants_ok (grant ''Ann'' ''T'' (PSelect [''id'']) permission_store_new)"
  using grants_invariant [OF grants_ok_new] by blast

end
