(* ===== verification/Floats.thy ===== *)
theory Floats
  imports Complex_Main Prelude
begin

text \<open>
  The \<open>f64\<close> and \<open>f32\<close> operations of the standard library that \<open>src/src/executor/eval.rs\<close>
  calls, on bit patterns. A finite float has a rational value; an arithmetic operation computes
  the exact result on the rationals and rounds it once, to the nearest double, ties to the even
  one, as IEEE 754 and Rust require. \<open>partial_cmp\<close>, the casts with \<open>as\<close> (which truncate
  and saturate) and \<open>round\<close> follow the standard library's documentation. What the standard
  library leaves open is a field of the record \<open>float_env\<close>: the bits of a computed NaN, the
  result of \<open>10f64.powi\<close>, and the zero at which a sum starts.
\<close>

record float_env =
  fe_nan :: u64
  fe_powi10 :: "i32 \<Rightarrow> u64"
  fe_sum_zero :: u64

subsection \<open>The fields of a float and its value\<close>

definition f64_sign :: "u64 \<Rightarrow> bool" where
  "f64_sign b = bit b 63"

definition f64_exponent :: "u64 \<Rightarrow> int" where
  "f64_exponent b = uint (take_bit 11 (drop_bit 52 b))"

definition f64_fraction :: "u64 \<Rightarrow> int" where
  "f64_fraction b = uint (take_bit 52 b)"

definition f64_is_nan :: "u64 \<Rightarrow> bool" where
  "f64_is_nan b \<longleftrightarrow> f64_exponent b = 2047 \<and> f64_fraction b \<noteq> 0"

definition f64_is_inf :: "u64 \<Rightarrow> bool" where
  "f64_is_inf b \<longleftrightarrow> f64_exponent b = 2047 \<and> f64_fraction b = 0"

definition pow2 :: "int \<Rightarrow> rat" where
  "pow2 e = (if 0 \<le> e then 2 ^ nat e else 1 / 2 ^ nat (- e))"

definition f64_magnitude :: "u64 \<Rightarrow> rat" where
  "f64_magnitude b =
     (if f64_exponent b = 0 then of_int (f64_fraction b) * pow2 (- 1074)
      else of_int (2 ^ 52 + f64_fraction b) * pow2 (f64_exponent b - 1075))"

definition f64_value :: "u64 \<Rightarrow> rat" where
  "f64_value b = (if f64_sign b then - f64_magnitude b else f64_magnitude b)"

subsection \<open>Rounding\<close>

text \<open>
  A positive rational is \<open>q * 2 ^ e\<close> with \<open>2 ^ 52 \<le> q < 2 ^ 53\<close>, or \<open>e = - 1074\<close> and
  \<open>q\<close> smaller: \<open>round_exponent\<close> finds \<open>e\<close> from the lengths of numerator and denominator,
  \<open>round_half_even\<close> rounds \<open>q\<close>, and \<open>(e + 1074) * 2 ^ 52 + q\<close> are the bits of exponent
  and fraction, a carry out of \<open>q\<close> included. Too large a result is infinity.
\<close>

function bit_length :: "int \<Rightarrow> int" where
  "bit_length n = (if n \<le> 0 then 0 else 1 + bit_length (n div 2))"
  by pat_completeness auto
termination by (relation "measure nat") auto

declare bit_length.simps [simp del]

definition scaled :: "int \<Rightarrow> int \<Rightarrow> int \<Rightarrow> int \<times> int" where
  "scaled n d e = (if 0 \<le> e then (n, d * 2 ^ nat e) else (n * 2 ^ nat (- e), d))"

definition round_half_even :: "int \<Rightarrow> int \<Rightarrow> int" where
  "round_half_even n d =
     (let q = n div d; r = n mod d in if 2 * r < d \<or> (2 * r = d \<and> even q) then q else q + 1)"

definition round_exponent :: "int \<Rightarrow> int \<Rightarrow> int" where
  "round_exponent n d =
     (let e = bit_length n - bit_length d - 53;
          (n', d') = scaled n d e
      in max (- 1074) (if 2 ^ 53 * d' \<le> n' then e + 1 else e))"

definition round_bits :: "int \<Rightarrow> int \<Rightarrow> int" where
  "round_bits n d =
     (let e = round_exponent n d; (n', d') = scaled n d e
      in min (2047 * 2 ^ 52) ((e + 1074) * 2 ^ 52 + round_half_even n' d'))"

definition with_sign :: "bool \<Rightarrow> int \<Rightarrow> u64" where
  "with_sign s bits = word_of_int (bits + (if s then 2 ^ 63 else 0))"

definition f64_of_rat :: "bool \<Rightarrow> rat \<Rightarrow> u64" where
  "f64_of_rat s x =
     (if x = 0 then with_sign s 0
      else let (n, d) = quotient_of \<bar>x\<bar> in with_sign s (round_bits n d))"

definition f64_of_int :: "int \<Rightarrow> u64" where
  "f64_of_int i = f64_of_rat (i < 0) (of_int i)"

definition f64_inf :: "bool \<Rightarrow> u64" where
  "f64_inf s = with_sign s (2047 * 2 ^ 52)"

subsection \<open>Arithmetic\<close>

definition f64_add :: "float_env \<Rightarrow> u64 \<Rightarrow> u64 \<Rightarrow> u64" where
  "f64_add F a b =
     (if f64_is_nan a \<or> f64_is_nan b then fe_nan F
      else if f64_is_inf a then (if f64_is_inf b \<and> f64_sign a \<noteq> f64_sign b then fe_nan F else a)
      else if f64_is_inf b then b
      else let v = f64_value a + f64_value b
           in f64_of_rat (if v = 0 then f64_sign a \<and> f64_sign b else v < 0) v)"

definition f64_neg :: "u64 \<Rightarrow> u64" where
  "f64_neg b = xor b (2 ^ 63)"

definition f64_abs :: "u64 \<Rightarrow> u64" where
  "f64_abs b = take_bit 63 b"

definition f64_sub :: "float_env \<Rightarrow> u64 \<Rightarrow> u64 \<Rightarrow> u64" where
  "f64_sub F a b = (if f64_is_nan b then fe_nan F else f64_add F a (f64_neg b))"

definition f64_mul :: "float_env \<Rightarrow> u64 \<Rightarrow> u64 \<Rightarrow> u64" where
  "f64_mul F a b =
     (let s = (f64_sign a \<noteq> f64_sign b) in
      if f64_is_nan a \<or> f64_is_nan b then fe_nan F
      else if f64_is_inf a \<or> f64_is_inf b then
        (if (\<not> f64_is_inf a \<and> f64_value a = 0) \<or> (\<not> f64_is_inf b \<and> f64_value b = 0) then fe_nan F
         else f64_inf s)
      else f64_of_rat s (f64_value a * f64_value b))"

definition f64_div :: "float_env \<Rightarrow> u64 \<Rightarrow> u64 \<Rightarrow> u64" where
  "f64_div F a b =
     (let s = (f64_sign a \<noteq> f64_sign b) in
      if f64_is_nan a \<or> f64_is_nan b then fe_nan F
      else if f64_is_inf a then (if f64_is_inf b then fe_nan F else f64_inf s)
      else if f64_is_inf b then with_sign s 0
      else if f64_value b = 0 then (if f64_value a = 0 then fe_nan F else f64_inf s)
      else f64_of_rat s (f64_value a / f64_value b))"

subsection \<open>Comparison, casts, rounding to an integer\<close>

text \<open>
  An infinity counts as the power of two above every finite double, so that one comparison of
  rationals covers every case.
\<close>

definition f64_extended :: "u64 \<Rightarrow> rat" where
  "f64_extended b = (if f64_is_inf b then (if f64_sign b then - (2 ^ 1024) else 2 ^ 1024) else f64_value b)"

definition f64_less :: "u64 \<Rightarrow> u64 \<Rightarrow> bool" where
  "f64_less a b \<longleftrightarrow> f64_extended a < f64_extended b"

definition f64_eq :: "u64 \<Rightarrow> u64 \<Rightarrow> bool" where
  "f64_eq a b \<longleftrightarrow> f64_extended a = f64_extended b"

text \<open>\<open>x as iN\<close> and \<open>x as uN\<close>: NaN is 0, the rest is cut towards zero and clamped.\<close>

definition trunc :: "rat \<Rightarrow> int" where
  "trunc x = (if x < 0 then - \<lfloor>- x\<rfloor> else \<lfloor>x\<rfloor>)"

definition f64_to_int :: "int \<Rightarrow> int \<Rightarrow> u64 \<Rightarrow> int" where
  "f64_to_int lo hi b = (if f64_is_nan b then 0 else max lo (min hi (trunc (f64_extended b))))"

text \<open>\<open>f64::round\<close>: to the nearest integer, halves away from zero; the sign is kept.\<close>

definition f64_round :: "u64 \<Rightarrow> u64" where
  "f64_round b =
     (if f64_exponent b = 2047 then b
      else f64_of_rat (f64_sign b) (of_int \<lfloor>f64_magnitude b + 1 / 2\<rfloor>))"

subsection \<open>Single precision\<close>

definition f32_exponent :: "u32 \<Rightarrow> int" where
  "f32_exponent b = uint (take_bit 8 (drop_bit 23 b))"

definition f32_fraction :: "u32 \<Rightarrow> int" where
  "f32_fraction b = uint (take_bit 23 b)"

text \<open>\<open>x as f64\<close> is exact; a NaN stays one.\<close>

definition f64_of_f32 :: "float_env \<Rightarrow> u32 \<Rightarrow> u64" where
  "f64_of_f32 F b =
     (let s = bit b 31; e = f32_exponent b; m = f32_fraction b in
      if e = 255 then (if m = 0 then f64_inf s else fe_nan F)
      else f64_of_rat s (if e = 0 then of_int m * pow2 (- 149)
                         else of_int (2 ^ 23 + m) * pow2 (e - 150)))"

definition f32_is_nan :: "u32 \<Rightarrow> bool" where
  "f32_is_nan b \<longleftrightarrow> f32_exponent b = 255 \<and> f32_fraction b \<noteq> 0"

definition f32_abs :: "u32 \<Rightarrow> u32" where
  "f32_abs b = take_bit 31 b"

subsection \<open>Integers up to 2 ^ 53 are exact\<close>

lemma with_sign_uint:
  assumes "0 \<le> bits" "bits < 2 ^ 63"
  shows "uint (with_sign s bits) = bits + (if s then 2 ^ 63 else 0)"
  unfolding with_sign_def by (subst uint_word_of_int) (use assms in auto)

lemma with_sign_fields:
  assumes "0 \<le> bits" "bits < 2 ^ 63"
  shows "f64_sign (with_sign s bits) = s"
    and "f64_exponent (with_sign s bits) = bits div 2 ^ 52"
    and "f64_fraction (with_sign s bits) = bits mod 2 ^ 52"
proof -
  let ?w = "with_sign s bits"
  note u = with_sign_uint [OF assms, of s]
  have "f64_sign ?w = odd (uint ?w div 2 ^ 63)"
    unfolding f64_sign_def by (subst bit_iff_odd [symmetric]) (simp add: bit_uint_iff)
  then show "f64_sign ?w = s" using assms by (auto simp: u)
  have range: "uint ?w mod 18446744073709551616 = uint ?w" unfolding u using assms by auto
  have e: "f64_exponent ?w = (uint ?w div 2 ^ 52) mod 2 ^ 11"
    unfolding f64_exponent_def by (simp only: unsigned_take_bit_eq unsigned_drop_bit_eq)
      (simp add: take_bit_eq_mod drop_bit_eq_div range)
  have "(bits + 2 ^ 63) div 2 ^ 52 = bits div 2 ^ 52 + (2::int) ^ 11" by simp
  then show "f64_exponent ?w = bits div 2 ^ 52"
    unfolding e u using assms by (auto simp: mod_pos_pos_trivial)
  have m: "(bits + 2 ^ 63) mod 2 ^ 52 = bits mod 2 ^ 52"
    using mod_mult_self1 [of bits "2 ^ 11" "2 ^ 52"] by simp
  show "f64_fraction ?w = bits mod 2 ^ 52"
    unfolding f64_fraction_def by (simp only: unsigned_take_bit_eq) (use m in \<open>simp add: take_bit_eq_mod u\<close>)
qed

lemma bit_length_bounds:
  assumes "0 < n"
  shows "1 \<le> bit_length n \<and> 2 ^ nat (bit_length n - 1) \<le> n \<and> n < 2 ^ nat (bit_length n)"
  using assms
proof (induction n rule: bit_length.induct)
  case (1 n)
  show ?case
  proof (cases "n = 1")
    case True
    then show ?thesis by (simp add: bit_length.simps [of 1] bit_length.simps [of 0])
  next
    case False
    let ?h = "n div 2"
    have h: "0 < ?h" using 1 False by linarith
    note IH = 1(1) [OF _ h]
    have step: "bit_length n = 1 + bit_length ?h" using 1 by (simp add: bit_length.simps [of n])
    have L: "1 \<le> bit_length ?h" "2 ^ nat (bit_length ?h - 1) \<le> ?h" "?h < 2 ^ nat (bit_length ?h)"
      using IH 1 by auto
    have "nat (bit_length ?h) = Suc (nat (bit_length ?h - 1))" using L(1) by linarith
    then have "2 ^ nat (bit_length ?h) = 2 * (2::int) ^ nat (bit_length ?h - 1)" by simp
    then have "2 ^ nat (bit_length ?h) \<le> n" using L(2) by linarith
    moreover have "nat (bit_length n) = Suc (nat (bit_length ?h))" using step L(1) by linarith
    then have "n < 2 ^ nat (bit_length n)" using L(3) by simp
    ultimately show ?thesis using step L(1) by simp
  qed
qed

lemma bit_length_unique:
  assumes "0 < n" "n \<le> 2 ^ k"
  shows "bit_length n \<le> int k + 1"
proof (rule ccontr)
  assume "\<not> ?thesis"
  then have "Suc k \<le> nat (bit_length n - 1)" by linarith
  then have "(2::int) ^ Suc k \<le> 2 ^ nat (bit_length n - 1)" by (rule power_increasing) simp
  then have "(2::int) ^ Suc k \<le> n" using bit_length_bounds [OF assms(1)] by linarith
  then show False using assms by (simp add: power_Suc)
qed

lemma round_exponent_int:
  assumes "0 < n" "n \<le> 2 ^ 53"
  defines "e \<equiv> bit_length n - 53"
  shows "round_exponent n 1 = e \<and> - 52 \<le> e \<and> e \<le> 1"
proof -
  let ?L = "bit_length n"
  have L: "1 \<le> ?L" "2 ^ nat (?L - 1) \<le> n" "?L \<le> 54"
    using bit_length_bounds [OF assms(1)] bit_length_unique [OF assms(1), of 53] assms(2) by auto
  have one: "bit_length 1 = 1" by (simp add: bit_length.simps [of 1] bit_length.simps [of 0])
  have "2 ^ 53 \<le> n * 2 ^ nat (54 - ?L)"
  proof -
    have "(2::int) ^ 53 = 2 ^ nat (?L - 1) * 2 ^ nat (54 - ?L)"
      using L by (simp add: power_add [symmetric] nat_add_distrib [symmetric])
    also have "\<dots> \<le> n * 2 ^ nat (54 - ?L)" using L(2) by (simp add: mult_right_mono)
    finally show ?thesis .
  qed
  then show ?thesis
    using L one assms(2) unfolding round_exponent_def scaled_def e_def
    by (auto simp: Let_def one algebra_simps)
qed

lemma round_bits_int:
  assumes "0 < n" "n \<le> 2 ^ 53"
  defines "e \<equiv> bit_length n - 53"
  shows "\<exists>q. 2 ^ 52 \<le> q \<and> q < 2 ^ 53 \<and> of_int q * pow2 e = of_int n \<and>
    round_bits n 1 = (e + 1074) * 2 ^ 52 + q"
proof -
  let ?L = "bit_length n"
  have L: "1 \<le> ?L" "2 ^ nat (?L - 1) \<le> n" "n < 2 ^ nat ?L" "?L \<le> 54"
    using bit_length_bounds [OF assms(1)] bit_length_unique [OF assms(1), of 53] assms(2) by auto
  have re: "round_exponent n 1 = e" "- 52 \<le> e" "e \<le> 1"
    using round_exponent_int [OF assms(1,2)] by (auto simp: e_def)
  show ?thesis
  proof (cases "e = 1")
    case True
    then have "nat (?L - 1) = 53" by (simp add: e_def)
    then have "n = 2 ^ 53" using L(2) assms(2) by simp
    then show ?thesis using re True
      by (intro exI [of _ "2 ^ 52"]) (simp add: round_bits_def scaled_def round_half_even_def Let_def pow2_def)
  next
    case False
    let ?q = "n * 2 ^ nat (- e)"
    have e: "e \<le> 0" using re False by simp
    have k: "nat (- e) = nat (53 - ?L)" "?L \<le> 53" using e by (auto simp: e_def)
    have "(2::int) ^ 52 = 2 ^ nat (?L - 1) * 2 ^ nat (53 - ?L)" "(2::int) ^ 53 = 2 ^ nat ?L * 2 ^ nat (53 - ?L)"
      using L(1) k by (simp_all add: power_add [symmetric] nat_add_distrib [symmetric])
    then have q: "2 ^ 52 \<le> ?q" "?q < 2 ^ 53"
      using mult_right_mono [OF L(2), of "2 ^ nat (53 - ?L)"] k(1)
        mult_strict_right_mono [OF L(3), of "2 ^ nat (53 - ?L)"] by simp_all
    have "round_bits n 1 = (e + 1074) * 2 ^ 52 + ?q"
      using re e q by (cases "e = 0") (auto simp: round_bits_def scaled_def round_half_even_def Let_def)
    moreover have "of_int ?q * pow2 e = (of_int n :: rat)"
      using e by (simp add: pow2_def)
    ultimately show ?thesis using q by blast
  qed
qed

lemma f64_of_int_nonzero:
  assumes "i \<noteq> 0"
  shows "f64_of_int i = with_sign (i < 0) (round_bits \<bar>i\<bar> 1)"
proof -
  have "\<bar>of_int i :: rat\<bar> = of_int \<bar>i\<bar>" by simp
  then have "quotient_of \<bar>of_int i :: rat\<bar> = (\<bar>i\<bar>, 1)"
    by (simp only: of_int_rat quotient_of_Fract) (simp add: normalize_def)
  then show ?thesis using assms by (simp add: f64_of_int_def f64_of_rat_def)
qed

lemma f64_of_int_exact:
  assumes "\<bar>i\<bar> \<le> 2 ^ 53"
  shows "f64_value (f64_of_int i) = of_int i \<and> f64_sign (f64_of_int i) = (i < 0) \<and>
    f64_exponent (f64_of_int i) < 2047"
proof (cases "i = 0")
  case True
  have z: "f64_of_int i = with_sign False 0" using True by (simp add: f64_of_int_def f64_of_rat_def)
  show ?thesis
    unfolding z using True with_sign_fields [of 0 False] by (simp add: f64_value_def f64_magnitude_def)
next
  case False
  let ?n = "\<bar>i\<bar>" and ?e = "bit_length \<bar>i\<bar> - 53"
  have n: "0 < ?n" using False by simp
  obtain q where q: "2 ^ 52 \<le> q" "q < 2 ^ 53" "of_int q * pow2 ?e = (of_int ?n :: rat)"
    "round_bits ?n 1 = (?e + 1074) * 2 ^ 52 + q"
    using round_bits_int [OF n assms] by blast
  have e: "- 52 \<le> ?e" "?e \<le> 1" using round_exponent_int [OF n assms] by auto
  have b: "0 \<le> round_bits ?n 1" "round_bits ?n 1 < 2 ^ 63" using q e by auto
  have "(?e + 1074) * 2 ^ 52 + q = (q - 2 ^ 52) + (?e + 1075) * 2 ^ 52" by (simp add: algebra_simps)
  then have "round_bits ?n 1 div 2 ^ 52 = ?e + 1075" "round_bits ?n 1 mod 2 ^ 52 = q - 2 ^ 52"
    unfolding q(4) using q(1,2) mod_pos_pos_trivial [of "q - 2 ^ 52" "2 ^ 52"]
    by (simp_all only: div_mult_self1 mod_mult_self1) simp_all
  then have f: "f64_sign (f64_of_int i) = (i < 0)" "f64_exponent (f64_of_int i) = ?e + 1075"
    "f64_fraction (f64_of_int i) = q - 2 ^ 52"
    unfolding f64_of_int_nonzero [OF False] using with_sign_fields [OF b] by auto
  have "f64_magnitude (f64_of_int i) = of_int ?n"
    using e q(3) by (simp add: f64_magnitude_def f)
  then show ?thesis using f e by (auto simp: f64_value_def)
qed

lemma f64_of_int_finite:
  assumes "\<bar>i\<bar> \<le> 2 ^ 53"
  shows "\<not> f64_is_nan (f64_of_int i)" "\<not> f64_is_inf (f64_of_int i)"
    "f64_extended (f64_of_int i) = of_int i"
  using f64_of_int_exact [OF assms] by (auto simp: f64_is_nan_def f64_is_inf_def f64_extended_def)

lemma f64_of_rat_int: "i \<noteq> 0 \<Longrightarrow> f64_of_rat (i < 0) (of_int i) = f64_of_int i"
  by (simp add: f64_of_int_def)

lemma f64_add_of_int:
  assumes "\<bar>a\<bar> \<le> 2 ^ 53" "\<bar>b\<bar> \<le> 2 ^ 53" "\<bar>a + b\<bar> \<le> 2 ^ 53"
  shows "f64_extended (f64_add F (f64_of_int a) (f64_of_int b)) = of_int (a + b) \<and>
    \<not> f64_is_nan (f64_add F (f64_of_int a) (f64_of_int b))"
proof -
  note x = f64_of_int_exact [OF assms(1)] f64_of_int_exact [OF assms(2)]
    f64_of_int_finite [OF assms(1)] f64_of_int_finite [OF assms(2)]
  have sum: "f64_value (f64_of_int a) + f64_value (f64_of_int b) = of_int (a + b)" using x by simp
  have r: "f64_add F (f64_of_int a) (f64_of_int b) =
      f64_of_rat (if a + b = 0 then f64_sign (f64_of_int a) \<and> f64_sign (f64_of_int b) else a + b < 0) (of_int (a + b))"
    unfolding f64_add_def sum using x(3-) by (simp add: Let_def flip: of_int_add)
  show ?thesis
  proof (cases "a + b = 0")
    case True
    have "a < 0 \<Longrightarrow> \<not> b < 0" using True by simp
    then have "f64_add F (f64_of_int a) (f64_of_int b) = f64_of_int 0"
      unfolding r using True x(1,2) by (auto simp: f64_of_int_def)
    then show ?thesis using f64_of_int_finite [of 0] True by simp
  next
    case False
    then have "f64_add F (f64_of_int a) (f64_of_int b) = f64_of_int (a + b)"
      unfolding r by (simp add: f64_of_rat_int del: of_int_add)
    then show ?thesis using f64_of_int_finite [OF assms(3)] by simp
  qed
qed

end
