(* ===== verification/Eval.thy ===== *)
theory Eval
  imports Helion_Types Floats
begin

text \<open>
  The expressions of the SQL parser (\<open>Expression\<close> in \<open>src/src/sql/parser.rs\<close>) and their
  evaluation on a row (\<open>src/src/executor/eval.rs\<close>): column lookup in one table and in the
  combined row of a join, comparison and arithmetic of datums, the built-in functions and
  LIKE.

  Values the evaluator draws from outside, the identifiers of \<open>uuidv7()\<close>, come from a
  supply that is split at every subexpression, so that each occurrence of the function gets
  a value of its own. An integer negation or \<open>abs\<close> that overflows wraps, as in a release
  build.
\<close>

subsection \<open>Expressions\<close>

datatype binary_operator =
    OpEq | OpNe | OpLt | OpLe | OpGt | OpGe | OpAnd | OpOr | OpAdd | OpSub | OpMul | OpDiv

datatype unary_operator = OpNot | OpNeg

datatype expression =
    Column string
  | QualifiedColumn string string
  | Literal datum
  | BinaryOp expression binary_operator expression
  | UnaryOp unary_operator expression
  | IsNull expression
  | IsNotNull expression
  | In expression "datum list"
  | Between expression expression expression
  | Like expression string
  | Function string "expression list"

record eval_env =
  ee_ext :: ext
  ee_float :: float_env

type_synonym uuid_supply = "nat list \<Rightarrow> byte list"

definition sub_supply :: "nat \<Rightarrow> uuid_supply \<Rightarrow> uuid_supply" where
  "sub_supply i d = (\<lambda>path. d (i # path))"

subsection \<open>Comparison\<close>

definition f64_partial_cmp :: "u64 \<Rightarrow> u64 \<Rightarrow> ordering option" where
  "f64_partial_cmp a b =
     (if f64_is_nan a \<or> f64_is_nan b then None else Some (cmp_of (f64_extended a) (f64_extended b)))"

definition f32_partial_cmp :: "float_env \<Rightarrow> u32 \<Rightarrow> u32 \<Rightarrow> ordering option" where
  "f32_partial_cmp F a b =
     (if f32_is_nan a \<or> f32_is_nan b then None
      else Some (cmp_of (f64_extended (f64_of_f32 F a)) (f64_extended (f64_of_f32 F b))))"

datatype rank_value = Signed int | Unsigned int | Float u64

fun as_f64 :: "rank_value \<Rightarrow> u64" where
  "as_f64 (Signed v) = f64_of_int v"
| "as_f64 (Unsigned v) = f64_of_int v"
| "as_f64 (Float v) = v"

fun numeric_rank :: "float_env \<Rightarrow> datum \<Rightarrow> rank_value option" where
  "numeric_rank F (DSmallInt v) = Some (Signed (sint v))"
| "numeric_rank F (DInteger v) = Some (Signed (sint v))"
| "numeric_rank F (DBigInt v) = Some (Signed (sint v))"
| "numeric_rank F (DUnsignedSmallInt v) = Some (Unsigned (uint v))"
| "numeric_rank F (DUnsignedInteger v) = Some (Unsigned (uint v))"
| "numeric_rank F (DUnsignedBigInt v) = Some (Unsigned (uint v))"
| "numeric_rank F (DReal v) = Some (Float (f64_of_f32 F v))"
| "numeric_rank F (DDouble v) = Some (Float v)"
| "numeric_rank F _ = None"

fun compare_ranks :: "rank_value \<Rightarrow> rank_value \<Rightarrow> ordering option" where
  "compare_ranks (Float a) (Float b) = f64_partial_cmp a b"
| "compare_ranks (Float a) r = f64_partial_cmp a (as_f64 r)"
| "compare_ranks r (Float b) = f64_partial_cmp (as_f64 r) b"
| "compare_ranks (Signed a) (Signed b) = Some (cmp_of a b)"
| "compare_ranks (Unsigned a) (Unsigned b) = Some (cmp_of a b)"
| "compare_ranks (Signed a) (Unsigned b) = Some (if a < 0 then Less else cmp_of a b)"
| "compare_ranks (Unsigned a) (Signed b) = Some (if b < 0 then Greater else cmp_of a b)"

definition compare_numeric :: "float_env \<Rightarrow> datum \<Rightarrow> datum \<Rightarrow> ordering option" where
  "compare_numeric F a b =
     (case numeric_rank F a of None \<Rightarrow> None
      | Some left \<Rightarrow> (case numeric_rank F b of None \<Rightarrow> None
                       | Some right \<Rightarrow> compare_ranks left right))"

fun is_numeric :: "datum \<Rightarrow> bool" where
  "is_numeric (DSmallInt _) = True"
| "is_numeric (DUnsignedSmallInt _) = True"
| "is_numeric (DInteger _) = True"
| "is_numeric (DUnsignedInteger _) = True"
| "is_numeric (DBigInt _) = True"
| "is_numeric (DUnsignedBigInt _) = True"
| "is_numeric (DReal _) = True"
| "is_numeric (DDouble _) = True"
| "is_numeric _ = False"

definition compare_datums :: "float_env \<Rightarrow> datum \<Rightarrow> datum \<Rightarrow> ordering option" where
  "compare_datums F a b =
     (case (a, b) of
        (DNull, _) \<Rightarrow> None
      | (_, DNull) \<Rightarrow> None
      | (DSmallInt x, DSmallInt y) \<Rightarrow> Some (cmp_of (sint x) (sint y))
      | (DUnsignedSmallInt x, DUnsignedSmallInt y) \<Rightarrow> Some (cmp_of x y)
      | (DInteger x, DInteger y) \<Rightarrow> Some (cmp_of (sint x) (sint y))
      | (DUnsignedInteger x, DUnsignedInteger y) \<Rightarrow> Some (cmp_of x y)
      | (DBigInt x, DBigInt y) \<Rightarrow> Some (cmp_of (sint x) (sint y))
      | (DUnsignedBigInt x, DUnsignedBigInt y) \<Rightarrow> Some (cmp_of x y)
      | (DReal x, DReal y) \<Rightarrow> f32_partial_cmp F x y
      | (DDouble x, DDouble y) \<Rightarrow> f64_partial_cmp x y
      | (DReal x, DDouble y) \<Rightarrow> f64_partial_cmp (f64_of_f32 F x) y
      | (DDouble x, DReal y) \<Rightarrow> f64_partial_cmp x (f64_of_f32 F y)
      | (DText x, DText y) \<Rightarrow> Some (cmp_of x y)
      | (DVarChar x, DText y) \<Rightarrow> Some (cmp_of x y)
      | (DText x, DVarChar y) \<Rightarrow> Some (cmp_of x y)
      | (DBoolean x, DBoolean y) \<Rightarrow> Some (cmp_of x y)
      | (DUuid x, DUuid y) \<Rightarrow> Some (cmp_of x y)
      | (DUuidV7 x, DUuidV7 y) \<Rightarrow> Some (cmp_of x y)
      | _ \<Rightarrow> (if is_numeric a \<and> is_numeric b then compare_numeric F a b else None))"

definition datum_eq :: "float_env \<Rightarrow> datum \<Rightarrow> datum \<Rightarrow> bool" where
  "datum_eq F a b \<longleftrightarrow> compare_datums F a b = Some Equal"

subsection \<open>Conversions and arithmetic\<close>

fun datum_to_bool :: "datum \<Rightarrow> bool" where
  "datum_to_bool (DBoolean b) = b"
| "datum_to_bool DNull = False"
| "datum_to_bool (DSmallInt i) = (i \<noteq> 0)"
| "datum_to_bool (DUnsignedSmallInt i) = (i \<noteq> 0)"
| "datum_to_bool (DInteger i) = (i \<noteq> 0)"
| "datum_to_bool (DUnsignedInteger i) = (i \<noteq> 0)"
| "datum_to_bool (DBigInt i) = (i \<noteq> 0)"
| "datum_to_bool (DUnsignedBigInt i) = (i \<noteq> 0)"
| "datum_to_bool (DReal f) = (take_bit 31 f \<noteq> 0)"
| "datum_to_bool (DDouble f) = (take_bit 63 f \<noteq> 0)"
| "datum_to_bool (DText s) = (s \<noteq> [])"
| "datum_to_bool _ = True"

fun datum_to_string :: "ext \<Rightarrow> datum \<Rightarrow> string" where
  "datum_to_string X DNull = []"
| "datum_to_string X (DText s) = s"
| "datum_to_string X (DVarChar s) = s"
| "datum_to_string X (DChar s) = s"
| "datum_to_string X d = display X d"

fun numeric_to_f64 :: "float_env \<Rightarrow> datum \<Rightarrow> u64" where
  "numeric_to_f64 F (DSmallInt i) = f64_of_int (sint i)"
| "numeric_to_f64 F (DUnsignedSmallInt i) = f64_of_int (uint i)"
| "numeric_to_f64 F (DInteger i) = f64_of_int (sint i)"
| "numeric_to_f64 F (DUnsignedInteger i) = f64_of_int (uint i)"
| "numeric_to_f64 F (DBigInt i) = f64_of_int (sint i)"
| "numeric_to_f64 F (DUnsignedBigInt i) = f64_of_int (uint i)"
| "numeric_to_f64 F (DReal f) = f64_of_f32 F f"
| "numeric_to_f64 F (DDouble f) = f"
| "numeric_to_f64 F _ = 0"

definition as_signed :: "nat \<Rightarrow> u64 \<Rightarrow> int" where
  "as_signed n f = f64_to_int (- (2 ^ (n - 1))) (2 ^ (n - 1) - 1) f"

definition as_unsigned :: "nat \<Rightarrow> u64 \<Rightarrow> int" where
  "as_unsigned n f = f64_to_int 0 (2 ^ n - 1) f"

definition arith_result :: "datum \<Rightarrow> datum \<Rightarrow> u64 \<Rightarrow> datum" where
  "arith_result a b result =
     (case (a, b) of
        (DSmallInt _, DSmallInt _) \<Rightarrow> DSmallInt (word_of_int (as_signed 16 result))
      | (DUnsignedSmallInt _, DUnsignedSmallInt _) \<Rightarrow> DUnsignedSmallInt (word_of_int (as_unsigned 16 result))
      | (DInteger _, DInteger _) \<Rightarrow> DInteger (word_of_int (as_signed 32 result))
      | (DUnsignedInteger _, DUnsignedInteger _) \<Rightarrow> DUnsignedInteger (word_of_int (as_unsigned 32 result))
      | (DBigInt _, DBigInt _) \<Rightarrow> DBigInt (word_of_int (as_signed 64 result))
      | (DUnsignedBigInt _, DUnsignedBigInt _) \<Rightarrow> DUnsignedBigInt (word_of_int (as_unsigned 64 result))
      | (DReal _, DReal _) \<Rightarrow> DDouble result
      | (DDouble _, DDouble _) \<Rightarrow> DDouble result
      | _ \<Rightarrow> (if f64_sign result then DBigInt (word_of_int (as_signed 64 result))
              else DUnsignedBigInt (word_of_int (as_unsigned 64 result))))"

definition datum_arith :: "float_env \<Rightarrow> (u64 \<Rightarrow> u64 \<Rightarrow> u64) \<Rightarrow> datum \<Rightarrow> datum \<Rightarrow> datum res" where
  "datum_arith F f a b =
     (if \<not> is_numeric a \<or> \<not> is_numeric b
      then Inl (TypeMismatch (type_name (datum_type a)) (type_name (datum_type b)))
      else Inr (arith_result a b (f (numeric_to_f64 F a) (numeric_to_f64 F b))))"

fun negate_datum :: "datum \<Rightarrow> datum res" where
  "negate_datum (DSmallInt i) = Inr (DSmallInt (- i))"
| "negate_datum (DInteger i) = Inr (DInteger (- i))"
| "negate_datum (DBigInt i) = Inr (DBigInt (- i))"
| "negate_datum (DDouble f) = Inr (DDouble (f64_neg f))"
| "negate_datum d = Inl (TypeMismatch ''numeric'' (type_name (datum_type d)))"

subsection \<open>LIKE\<close>

definition regex_special :: "char \<Rightarrow> bool" where
  "regex_special c \<longleftrightarrow> c \<in> set ''.*+?^$|()[]{}'' \<or> c = CHR 0x5C"

definition like_char :: "char \<Rightarrow> string" where
  "like_char c =
     (if c = CHR ''%'' then ''.*''
      else if c = CHR ''_'' then ''.''
      else if regex_special c then [CHR 0x5C, c]
      else [c])"

definition like_to_regex :: "string \<Rightarrow> string" where
  "like_to_regex pattern = concat (map like_char pattern)"

text \<open>The pattern and the string from the positions \<open>pi\<close> and \<open>si\<close> on.\<close>

fun simple_match :: "string \<Rightarrow> string \<Rightarrow> bool" where
  "simple_match [] s = (s = [])"
| "simple_match (c # pat) [] =
     (case pat of
        [] \<Rightarrow> False
      | c2 # rest \<Rightarrow> c = CHR ''.'' \<and> c2 = CHR ''*'' \<and> simple_match rest [])"
| "simple_match (c # pat) (x # s) =
     (if c = CHR ''.'' \<and> pat \<noteq> [] \<and> hd pat = CHR ''*'' then
        simple_match (tl pat) (x # s) \<or> simple_match (c # pat) s
      else if c = CHR ''.'' then simple_match pat s
      else if c = CHR 0x5C \<and> pat \<noteq> [] then hd pat = x \<and> simple_match (tl pat) s
      else c = x \<and> simple_match pat s)"

definition regex_lite :: "string \<Rightarrow> string \<Rightarrow> bool" where
  "regex_lite pattern s = simple_match pattern s"

subsection \<open>Built-in functions\<close>

text \<open>\<open>min_by\<close> keeps the first of equal elements, \<open>max_by\<close> the last.\<close>

fun min_by :: "('a \<Rightarrow> 'a \<Rightarrow> ordering) \<Rightarrow> 'a list \<Rightarrow> 'a option" where
  "min_by c [] = None"
| "min_by c (x # xs) = Some (foldl (\<lambda>m y. if c m y = Greater then y else m) x xs)"

fun max_by :: "('a \<Rightarrow> 'a \<Rightarrow> ordering) \<Rightarrow> 'a list \<Rightarrow> 'a option" where
  "max_by c [] = None"
| "max_by c (x # xs) = Some (foldl (\<lambda>m y. if c m y = Greater then m else y) x xs)"

definition cmp_or_equal :: "float_env \<Rightarrow> datum \<Rightarrow> datum \<Rightarrow> ordering" where
  "cmp_or_equal F a b = (case compare_datums F a b of Some c \<Rightarrow> c | None \<Rightarrow> Equal)"

definition numeric_args :: "float_env \<Rightarrow> datum list \<Rightarrow> u64 list" where
  "numeric_args F args = map (numeric_to_f64 F) (filter is_numeric args)"

definition float_sum :: "float_env \<Rightarrow> u64 list \<Rightarrow> u64" where
  "float_sum F xs = foldl (f64_add F) (fe_sum_zero F) xs"

fun abs_datum :: "float_env \<Rightarrow> datum \<Rightarrow> datum res" where
  "abs_datum F (DSmallInt i) = Inr (DSmallInt (if sint i < 0 then - i else i))"
| "abs_datum F (DInteger i) = Inr (DInteger (if sint i < 0 then - i else i))"
| "abs_datum F (DBigInt i) = Inr (DBigInt (if sint i < 0 then - i else i))"
| "abs_datum F (DUnsignedSmallInt i) = Inr (DUnsignedSmallInt i)"
| "abs_datum F (DUnsignedInteger i) = Inr (DUnsignedInteger i)"
| "abs_datum F (DUnsignedBigInt i) = Inr (DUnsignedBigInt i)"
| "abs_datum F (DReal f) = Inr (DDouble (f64_of_f32 F (f32_abs f)))"
| "abs_datum F (DDouble f) = Inr (DDouble (f64_abs f))"
| "abs_datum F v = Inl (TypeMismatch ''numeric'' (type_name (datum_type v)))"

definition round_decimals :: "datum list \<Rightarrow> i32" where
  "round_decimals args =
     (case args of (_ # DInteger i # _) \<Rightarrow> i | _ \<Rightarrow> 0)"

definition round_datum :: "float_env \<Rightarrow> i32 \<Rightarrow> datum \<Rightarrow> datum" where
  "round_datum F decimals v =
     (case v of
        DDouble f \<Rightarrow> (let multiplier = fe_powi10 F decimals in
                      DDouble (f64_div F (f64_round (f64_mul F f multiplier)) multiplier))
      | _ \<Rightarrow> v)"

definition first_string :: "ext \<Rightarrow> datum list \<Rightarrow> string" where
  "first_string X args = (case args of [] \<Rightarrow> [] | a # _ \<Rightarrow> datum_to_string X a)"

definition evaluate_function ::
    "eval_env \<Rightarrow> byte list \<Rightarrow> string \<Rightarrow> datum list \<Rightarrow> datum res" where
  "evaluate_function E uuid name args =
     (let fn_name = to_lowercase name; X = ee_ext E; F = ee_float E in
      if fn_name = ''count'' then
        Inr (DBigInt (of_nat (length (filter (\<lambda>a. \<not> is_null a) args))))
      else if fn_name = ''uuidv7'' \<or> fn_name = ''uuid_v7'' then
        (if args \<noteq> [] then Inl (Internal ''UUIDV7 takes no arguments'') else Inr (DUuidV7 uuid))
      else if fn_name = ''sum'' then Inr (DDouble (float_sum F (numeric_args F args)))
      else if fn_name = ''avg'' then
        (let nums = numeric_args F args in
         if nums = [] then Inr DNull
         else Inr (DDouble (f64_div F (float_sum F nums) (f64_of_int (int (length nums))))))
      else if fn_name = ''min'' then
        (case min_by (cmp_or_equal F) args of
           None \<Rightarrow> Inl (Internal ''MIN of empty set'') | Some d \<Rightarrow> Inr d)
      else if fn_name = ''max'' then
        (case max_by (cmp_or_equal F) args of
           None \<Rightarrow> Inl (Internal ''MAX of empty set'') | Some d \<Rightarrow> Inr d)
      else if fn_name = ''lower'' \<or> fn_name = ''lcase'' then
        Inr (DText (to_lowercase (first_string X args)))
      else if fn_name = ''upper'' \<or> fn_name = ''ucase'' then
        Inr (DText (to_uppercase (first_string X args)))
      else if fn_name = ''length'' \<or> fn_name = ''len'' then
        Inr (DInteger (of_nat (length (first_string X args))))
      else if fn_name = ''coalesce'' then
        Inr (case find (\<lambda>a. \<not> is_null a) args of Some a \<Rightarrow> a | None \<Rightarrow> DNull)
      else if fn_name = ''ifnull'' then
        Inr (case args of
               [] \<Rightarrow> DNull
             | a # rest \<Rightarrow>
                 if is_null a then (case rest of [] \<Rightarrow> DNull | b # _ \<Rightarrow> b) else a)
      else if fn_name = ''abs'' then
        (case args of [] \<Rightarrow> Inl (Internal ''ABS requires 1 argument'') | v # _ \<Rightarrow> abs_datum F v)
      else if fn_name = ''round'' then
        (case args of
           [] \<Rightarrow> Inl (Internal ''ROUND requires 1 argument'')
         | v # _ \<Rightarrow> Inr (round_datum F (round_decimals args) v))
      else Inl (Internal (''Unknown function: '' @ name)))"

subsection \<open>Evaluation\<close>

definition binary_value ::
    "float_env \<Rightarrow> binary_operator \<Rightarrow> datum \<Rightarrow> datum \<Rightarrow> datum res" where
  "binary_value F op l r =
     (if is_null l \<or> is_null r then Inr DNull
      else (case op of
        OpEq \<Rightarrow> Inr (DBoolean (datum_eq F l r))
      | OpNe \<Rightarrow> Inr (DBoolean (\<not> datum_eq F l r))
      | OpLt \<Rightarrow> Inr (DBoolean (compare_datums F l r = Some Less))
      | OpLe \<Rightarrow> Inr (DBoolean (case compare_datums F l r of Some c \<Rightarrow> c \<noteq> Greater | None \<Rightarrow> False))
      | OpGt \<Rightarrow> Inr (DBoolean (compare_datums F l r = Some Greater))
      | OpGe \<Rightarrow> Inr (DBoolean (case compare_datums F l r of Some c \<Rightarrow> c \<noteq> Less | None \<Rightarrow> False))
      | OpAnd \<Rightarrow> Inr (DBoolean (datum_to_bool l \<and> datum_to_bool r))
      | OpOr \<Rightarrow> Inr (DBoolean (datum_to_bool l \<or> datum_to_bool r))
      | OpAdd \<Rightarrow> datum_arith F (f64_add F) l r
      | OpSub \<Rightarrow> datum_arith F (f64_sub F) l r
      | OpMul \<Rightarrow> datum_arith F (f64_mul F) l r
      | OpDiv \<Rightarrow> datum_arith F (f64_div F) l r))"

definition unary_value :: "unary_operator \<Rightarrow> datum \<Rightarrow> datum res" where
  "unary_value op v =
     (case op of
        OpNot \<Rightarrow> Inr (DBoolean (\<not> datum_to_bool v))
      | OpNeg \<Rightarrow> negate_datum v)"

definition between_value :: "float_env \<Rightarrow> datum \<Rightarrow> datum \<Rightarrow> datum \<Rightarrow> datum" where
  "between_value F v low high =
     (if is_null v \<or> is_null low \<or> is_null high then DNull
      else DBoolean
        ((case compare_datums F v low of Some c \<Rightarrow> c \<noteq> Less | None \<Rightarrow> False) \<and>
         (case compare_datums F v high of Some c \<Rightarrow> c \<noteq> Greater | None \<Rightarrow> False)))"

definition like_value :: "ext \<Rightarrow> datum \<Rightarrow> string \<Rightarrow> datum" where
  "like_value X v pattern = DBoolean (regex_lite (like_to_regex pattern) (datum_to_string X v))"

definition row_value :: "datum list \<Rightarrow> nat \<Rightarrow> datum" where
  "row_value r i = (case nth_opt r i of Some v \<Rightarrow> v | None \<Rightarrow> DNull)"

definition column_position :: "column_meta list \<Rightarrow> string \<Rightarrow> nat option" where
  "column_position columns name = position (\<lambda>c. eq_ignore_ascii_case (cm_name c) name) columns"

fun evaluate :: "eval_env \<Rightarrow> uuid_supply \<Rightarrow> datum list \<Rightarrow> column_meta list \<Rightarrow> expression \<Rightarrow> datum res"
  and evaluate_args ::
    "eval_env \<Rightarrow> uuid_supply \<Rightarrow> datum list \<Rightarrow> column_meta list \<Rightarrow> expression list \<Rightarrow> datum list res"
where
  "evaluate E d r columns (Literal v) = Inr v"
| "evaluate E d r columns (Column name) =
     (case column_position columns name of
        None \<Rightarrow> Inl (ColumnNotFound name)
      | Some idx \<Rightarrow> Inr (row_value r idx))"
| "evaluate E d r columns (QualifiedColumn table col) =
     (case column_position columns col of
        None \<Rightarrow> Inl (ColumnNotFound (table @ ''.'' @ col))
      | Some idx \<Rightarrow> Inr (row_value r idx))"
| "evaluate E d r columns (BinaryOp left op right) =
     and_then (evaluate E (sub_supply 0 d) r columns left) (\<lambda>left_val.
     and_then (evaluate E (sub_supply 1 d) r columns right) (\<lambda>right_val.
     binary_value (ee_float E) op left_val right_val))"
| "evaluate E d r columns (UnaryOp op inner) =
     and_then (evaluate E d r columns inner) (unary_value op)"
| "evaluate E d r columns (IsNull inner) =
     and_then (evaluate E d r columns inner) (\<lambda>v. Inr (DBoolean (is_null v)))"
| "evaluate E d r columns (IsNotNull inner) =
     and_then (evaluate E d r columns inner) (\<lambda>v. Inr (DBoolean (\<not> is_null v)))"
| "evaluate E d r columns (In inner list) =
     and_then (evaluate E d r columns inner)
       (\<lambda>v. Inr (DBoolean (list_ex (\<lambda>x. datum_eq (ee_float E) x v) list)))"
| "evaluate E d r columns (Between inner low high) =
     and_then (evaluate E (sub_supply 0 d) r columns inner) (\<lambda>v.
     and_then (evaluate E (sub_supply 1 d) r columns low) (\<lambda>l.
     and_then (evaluate E (sub_supply 2 d) r columns high) (\<lambda>h.
     Inr (between_value (ee_float E) v l h))))"
| "evaluate E d r columns (Like inner pattern) =
     and_then (evaluate E d r columns inner) (\<lambda>v. Inr (like_value (ee_ext E) v pattern))"
| "evaluate E d r columns (Function name args) =
     and_then (evaluate_args E (sub_supply 0 d) r columns args) (\<lambda>vs.
     evaluate_function E (d []) name vs)"
| "evaluate_args E d r columns [] = Inr []"
| "evaluate_args E d r columns (a # as) =
     and_then (evaluate E (sub_supply 0 d) r columns a) (\<lambda>v.
     and_then (evaluate_args E (sub_supply 1 d) r columns as) (\<lambda>vs. Inr (v # vs)))"

text \<open>
  The columns of a join's combined row: each table with the offset of its part. A qualified
  name is looked up in the first table of that name, an unqualified one in all tables, where
  a second match is an error.
\<close>

type_synonym table_map = "(string \<times> nat \<times> column_meta list) list"

definition lookup_qualified :: "table_map \<Rightarrow> string \<Rightarrow> string \<Rightarrow> nat res" where
  "lookup_qualified tm table col =
     (case find (\<lambda>(tname, _, _). eq_ignore_ascii_case tname table) tm of
        None \<Rightarrow> Inl (ColumnNotFound (table @ ''.'' @ col))
      | Some (_, offset, columns) \<Rightarrow>
          (case column_position columns col of
             None \<Rightarrow> Inl (ColumnNotFound (table @ ''.'' @ col))
           | Some idx \<Rightarrow> Inr (offset + idx)))"

fun lookup_loop :: "string \<Rightarrow> nat option \<Rightarrow> table_map \<Rightarrow> nat option res" where
  "lookup_loop name found [] = Inr found"
| "lookup_loop name found ((_, offset, columns) # tm) =
     (case column_position columns name of
        None \<Rightarrow> lookup_loop name found tm
      | Some idx \<Rightarrow>
          (if found \<noteq> None then Inl (AmbiguousColumn name)
           else lookup_loop name (Some (offset + idx)) tm))"

definition lookup_unqualified :: "table_map \<Rightarrow> string \<Rightarrow> nat res" where
  "lookup_unqualified tm name =
     and_then (lookup_loop name None tm) (\<lambda>found.
     (case found of Some idx \<Rightarrow> Inr idx | None \<Rightarrow> Inl (ColumnNotFound name)))"

fun evaluate_join :: "eval_env \<Rightarrow> uuid_supply \<Rightarrow> datum list \<Rightarrow> table_map \<Rightarrow> expression \<Rightarrow> datum res"
  and evaluate_join_args ::
    "eval_env \<Rightarrow> uuid_supply \<Rightarrow> datum list \<Rightarrow> table_map \<Rightarrow> expression list \<Rightarrow> datum list res"
where
  "evaluate_join E d r tm (QualifiedColumn table col) =
     and_then (lookup_qualified tm table col) (\<lambda>idx. Inr (row_value r idx))"
| "evaluate_join E d r tm (Column name) =
     and_then (lookup_unqualified tm name) (\<lambda>idx. Inr (row_value r idx))"
| "evaluate_join E d r tm (Literal v) = Inr v"
| "evaluate_join E d r tm (BinaryOp left op right) =
     and_then (evaluate_join E (sub_supply 0 d) r tm left) (\<lambda>left_val.
     and_then (evaluate_join E (sub_supply 1 d) r tm right) (\<lambda>right_val.
     binary_value (ee_float E) op left_val right_val))"
| "evaluate_join E d r tm (UnaryOp op inner) =
     and_then (evaluate_join E d r tm inner) (unary_value op)"
| "evaluate_join E d r tm (IsNull inner) =
     and_then (evaluate_join E d r tm inner) (\<lambda>v. Inr (DBoolean (is_null v)))"
| "evaluate_join E d r tm (IsNotNull inner) =
     and_then (evaluate_join E d r tm inner) (\<lambda>v. Inr (DBoolean (\<not> is_null v)))"
| "evaluate_join E d r tm (In inner list) =
     and_then (evaluate_join E d r tm inner)
       (\<lambda>v. Inr (DBoolean (list_ex (\<lambda>x. datum_eq (ee_float E) x v) list)))"
| "evaluate_join E d r tm (Between inner low high) =
     and_then (evaluate_join E (sub_supply 0 d) r tm inner) (\<lambda>v.
     and_then (evaluate_join E (sub_supply 1 d) r tm low) (\<lambda>l.
     and_then (evaluate_join E (sub_supply 2 d) r tm high) (\<lambda>h.
     Inr (between_value (ee_float E) v l h))))"
| "evaluate_join E d r tm (Like inner pattern) =
     and_then (evaluate_join E d r tm inner) (\<lambda>v. Inr (like_value (ee_ext E) v pattern))"
| "evaluate_join E d r tm (Function name args) =
     and_then (evaluate_join_args E (sub_supply 0 d) r tm args) (\<lambda>vs.
     evaluate_function E (d []) name vs)"
| "evaluate_join_args E d r tm [] = Inr []"
| "evaluate_join_args E d r tm (a # as) =
     and_then (evaluate_join E (sub_supply 0 d) r tm a) (\<lambda>v.
     and_then (evaluate_join_args E (sub_supply 1 d) r tm as) (\<lambda>vs. Inr (v # vs)))"

end
