(* ===== verification/Planner.thy ===== *)
theory Planner
  imports Table Permissions Eval
begin

text \<open>
  Statements as the SQL parser delivers them (\<open>src/src/sql/parser.rs\<close>) and the planner
  (\<open>src/src/sql/planner.rs\<close>): the logical plan of a statement, and for queries the three
  passes of the optimizer, which move predicates into the scans, replace a scan by an index
  lookup, and choose an algorithm for every join. The passes return \<open>Ok\<close> on every path, so
  they are total functions here; so is \<open>collect_table_info\<close>.
\<close>

subsection \<open>Statements\<close>

datatype join_type = JInner | JLeft | JRight | JCross

record join_clause =
  jc_right_table :: string
  jc_join_type :: join_type
  jc_on_clause :: "expression option"

datatype grant_permission_type = GSelect | GInsert | GUpdate | GDelete | GAll

datatype select_column =
    Wildcard
  | Qualified string "string option"
  | QualWildcard string
  | Expr expression

datatype order_by_desc = Asc | Desc

record order_by_expr =
  ob_expr :: expression
  ob_direction :: order_by_desc

record select_statement =
  ss_table_name :: string
  ss_columns :: "select_column list"
  ss_where_clause :: "expression option"
  ss_order_by :: "order_by_expr list"
  ss_limit :: "u64 option"
  ss_offset :: "u64 option"
  ss_joins :: "join_clause list"

datatype helion_statement =
    StCreateTable string "column_meta list" "string option"
  | StExplain bool bool string
  | StDropTable string bool
  | StAlterTableEngine string string
  | StInsert string "string list" "datum list list"
  | StSelect select_statement
  | StUpdate string "(string \<times> datum) list" "expression option"
  | StDelete string "expression option"
  | StCreateUser string string
  | StDropUser string bool
  | StAlterUser string string
  | StGrant string string "string list" grant_permission_type
  | StRevoke string string "string list" grant_permission_type
  | StCreateIndex string string "string list" bool bool
  | StDropIndex string string bool
  | StShowTables
  | StShowDatabases
  | StUseDatabase string

subsection \<open>Plans\<close>

datatype join_algorithm =
    NestedLoop "expression option"
  | IndexNestedLoop string "column_meta list" string "nat list" "expression option"
  | HashJoin bool "nat list" "nat list" "expression option"

datatype flat_plan =
    PlanCreateTable string "column_meta list" "string option"
  | PlanExplain bool bool string
  | PlanDropTable string bool
  | PlanAlterTableEngine string string
  | PlanInsert string "row list"
  | PlanUpdate string "nat list" "datum list" "expression option" "column_meta list"
  | PlanDelete string "expression option" "column_meta list"
  | PlanCreateUser string string
  | PlanDropUser string bool
  | PlanAlterUser string string
  | PlanGrant string string "string list" permission
  | PlanRevoke string string "string list" permission
  | PlanCreateIndex string string "string list" bool bool
  | PlanDropIndex string string bool
  | PlanShowTables
  | PlanShowDatabases
  | PlanUseDatabase string

text \<open>The nodes of query trees; the flat nodes of the enum are grouped in \<open>flat_plan\<close>.\<close>

datatype logical_plan =
    TableScan string "column_meta list" "expression option" "string option" "datum list option"
  | Join logical_plan logical_plan join_type join_algorithm
  | Filter logical_plan expression
  | Projection logical_plan "nat list" "(string \<times> column_meta list) list"
  | Sort logical_plan "order_by_expr list"
  | Limit logical_plan u64 u64
  | Flat flat_plan

definition find_table :: "table list \<Rightarrow> string \<Rightarrow> table res" where
  "find_table tables name =
     (case find (\<lambda>t. tb_name t = name) tables of
        Some t \<Rightarrow> Inr t | None \<Rightarrow> Inl (TableNotFound name))"

subsection \<open>Tables an expression refers to\<close>

type_synonym table_info = "string \<times> column_meta list"

fun collect_table_info :: "logical_plan \<Rightarrow> table_info list" where
  "collect_table_info (TableScan table columns _ _ _) = [(table, columns)]"
| "collect_table_info (Join left right _ _) = collect_table_info left @ collect_table_info right"
| "collect_table_info (Filter input _) = collect_table_info input"
| "collect_table_info (Projection input _ _) = collect_table_info input"
| "collect_table_info (Sort input _) = collect_table_info input"
| "collect_table_info (Limit input _ _) = collect_table_info input"
| "collect_table_info _ = []"

definition sort_dedup :: "string list \<Rightarrow> string list" where
  "sort_dedup xs = remdups_adj (sort xs)"

definition tables_with_column :: "table_info list \<Rightarrow> string \<Rightarrow> string list" where
  "tables_with_column tables name =
     map fst (filter (\<lambda>(_, columns). list_ex (\<lambda>c. eq_ignore_ascii_case (cm_name c) name) columns) tables)"

fun referenced_tables :: "expression \<Rightarrow> table_info list \<Rightarrow> string list res"
  and referenced_tables_all :: "expression list \<Rightarrow> table_info list \<Rightarrow> string list res"
where
  "referenced_tables (Column name) tables =
     (let found = tables_with_column tables name in
      if found = [] then Inl (ColumnNotFound name) else Inr found)"
| "referenced_tables (QualifiedColumn t _) tables = Inr [t]"
| "referenced_tables (Literal _) tables = Inr []"
| "referenced_tables (BinaryOp left op right) tables =
     and_then (referenced_tables left tables) (\<lambda>l.
     and_then (referenced_tables right tables) (\<lambda>r. Inr (sort_dedup (l @ r))))"
| "referenced_tables (UnaryOp _ inner) tables = referenced_tables inner tables"
| "referenced_tables (IsNull inner) tables = referenced_tables inner tables"
| "referenced_tables (IsNotNull inner) tables = referenced_tables inner tables"
| "referenced_tables (In inner _) tables = referenced_tables inner tables"
| "referenced_tables (Between inner low high) tables =
     and_then (referenced_tables inner tables) (\<lambda>t.
     and_then (referenced_tables low tables) (\<lambda>l.
     and_then (referenced_tables high tables) (\<lambda>h. Inr (sort_dedup (t @ l @ h)))))"
| "referenced_tables (Like inner _) tables = referenced_tables inner tables"
| "referenced_tables (Function _ args) tables =
     and_then (referenced_tables_all args tables) (\<lambda>ts. Inr (sort_dedup ts))"
| "referenced_tables_all [] tables = Inr []"
| "referenced_tables_all (a # as) tables =
     and_then (referenced_tables a tables) (\<lambda>t.
     and_then (referenced_tables_all as tables) (\<lambda>ts. Inr (t @ ts)))"

subsection \<open>Predicate pushdown\<close>

fun decompose_conjunction :: "expression \<Rightarrow> expression list" where
  "decompose_conjunction (BinaryOp left op right) =
     (if op = OpAnd then decompose_conjunction left @ decompose_conjunction right
      else [BinaryOp left op right])"
| "decompose_conjunction e = [e]"

definition recompose_conjunction :: "expression list \<Rightarrow> expression" where
  "recompose_conjunction parts =
     (case parts of
        [] \<Rightarrow> Literal (DBoolean True)
      | p # ps \<Rightarrow> foldl (\<lambda>a b. BinaryOp a OpAnd b) p ps)"

definition at_most_one_table :: "table_info list \<Rightarrow> expression \<Rightarrow> bool" where
  "at_most_one_table tables e =
     (case referenced_tables e tables of Inr ts \<Rightarrow> length ts \<le> 1 | Inl _ \<Rightarrow> False)"

definition only_table_of :: "table_info list \<Rightarrow> table_info list \<Rightarrow> expression \<Rightarrow> bool" where
  "only_table_of tables side e =
     (case referenced_tables e tables of
        Inr ts \<Rightarrow> length ts = 1 \<and> set ts \<subseteq> set (map fst side)
      | Inl _ \<Rightarrow> False)"

definition with_filter :: "expression list \<Rightarrow> logical_plan \<Rightarrow> logical_plan" where
  "with_filter keep plan = (if keep = [] then plan else Filter plan (recompose_conjunction keep))"

fun push_predicates_into :: "logical_plan \<Rightarrow> expression list \<Rightarrow> logical_plan" where
  "push_predicates_into (TableScan table columns filter_opt index_name keys) predicates =
     (if predicates = [] then TableScan table columns filter_opt index_name keys
      else TableScan table columns
        (Some (case filter_opt of
                 Some existing \<Rightarrow> recompose_conjunction (decompose_conjunction existing @ predicates)
               | None \<Rightarrow> recompose_conjunction predicates)) index_name keys)"
| "push_predicates_into (Join left right jt algorithm) predicates =
     (if predicates = [] then Join left right jt algorithm
      else
        let li = collect_table_info left; ri = collect_table_info right;
            (push_left, rest) = partition (only_table_of (li @ ri) li) predicates;
            (push_right, keep) = partition (only_table_of (li @ ri) ri) rest
        in with_filter keep
             (Join (push_predicates_into left push_left) (push_predicates_into right push_right) jt algorithm))"
| "push_predicates_into (Projection input columns table_map) predicates =
     (if predicates = [] then Projection input columns table_map
      else Projection (push_predicates_into input predicates) columns table_map)"
| "push_predicates_into (Sort input order_by) predicates =
     (if predicates = [] then Sort input order_by
      else Sort (push_predicates_into input predicates) order_by)"
| "push_predicates_into (Limit input lm off) predicates =
     (if predicates = [] then Limit input lm off
      else Limit (push_predicates_into input predicates) lm off)"
| "push_predicates_into other predicates = with_filter predicates other"

fun push_down_predicates :: "logical_plan \<Rightarrow> logical_plan" where
  "push_down_predicates (Filter input predicate) =
     (let (pushable, keep) =
        partition (at_most_one_table (collect_table_info input)) (decompose_conjunction predicate)
      in with_filter keep (push_predicates_into input pushable))"
| "push_down_predicates (Join left right jt algorithm) =
     Join (push_down_predicates left) (push_down_predicates right) jt algorithm"
| "push_down_predicates (Projection input columns table_map) =
     Projection (push_down_predicates input) columns table_map"
| "push_down_predicates (Sort input order_by) = Sort (push_down_predicates input) order_by"
| "push_down_predicates (Limit input lm off) = Limit (push_down_predicates input) lm off"
| "push_down_predicates other = other"

subsection \<open>Index selection\<close>

text \<open>An equality of a column with a literal, in either order.\<close>

definition column_literal :: "expression \<Rightarrow> (string \<times> datum) option" where
  "column_literal e =
     (case e of
        BinaryOp left op right \<Rightarrow>
          (if op \<noteq> OpEq then None
           else case left of
             Column c \<Rightarrow> (case right of Literal v \<Rightarrow> Some (c, v) | _ \<Rightarrow> None)
           | Literal v \<Rightarrow> (case right of Column c \<Rightarrow> Some (c, v) | _ \<Rightarrow> None)
           | _ \<Rightarrow> None)
      | _ \<Rightarrow> None)"

definition single_column_index :: "table \<Rightarrow> nat \<Rightarrow> index option" where
  "single_column_index t i = find (\<lambda>ix. im_columns (ix_meta ix) = [i]) (tb_indexes t)"

definition choose_index_for_filter :: "ext \<Rightarrow> table \<Rightarrow> expression \<Rightarrow> (string \<times> datum list) option" where
  "choose_index_for_filter X t e =
     (case column_literal e of
        None \<Rightarrow> None
      | Some (col_name, lit_val) \<Rightarrow>
          (case column_position (tb_columns t) col_name of
             None \<Rightarrow> None
           | Some col_idx \<Rightarrow>
               (case coerce_datum X lit_val (cm_data_type (tb_columns t ! col_idx)) of
                  Inl _ \<Rightarrow> None
                | Inr coerced \<Rightarrow>
                    map_option (\<lambda>ix. (im_name (ix_meta ix), [coerced])) (single_column_index t col_idx))))"

definition matches_indexed_predicate :: "column_meta list \<Rightarrow> expression \<Rightarrow> bool" where
  "matches_indexed_predicate columns e =
     (case column_literal e of
        None \<Rightarrow> False
      | Some (col_name, _) \<Rightarrow> list_ex (\<lambda>c. eq_ignore_ascii_case (cm_name c) col_name) columns)"

definition remove_indexed_predicate ::
    "expression option \<Rightarrow> column_meta list \<Rightarrow> expression option" where
  "remove_indexed_predicate filter_opt columns =
     (case filter_opt of
        None \<Rightarrow> None
      | Some e \<Rightarrow>
          (let remaining = filter (\<lambda>p. \<not> matches_indexed_predicate columns p) (decompose_conjunction e)
           in if remaining = [] then None else Some (recompose_conjunction remaining)))"

definition select_scan_index ::
    "ext \<Rightarrow> table list \<Rightarrow> string \<Rightarrow> column_meta list \<Rightarrow> expression option \<Rightarrow> logical_plan" where
  "select_scan_index X tables table columns filter_opt =
     (case (find_table tables table, filter_opt) of
        (Inr t, Some e) \<Rightarrow>
          (case choose_index_for_filter X t e of
             Some (idx_name, keys) \<Rightarrow>
               TableScan table columns (remove_indexed_predicate filter_opt columns) (Some idx_name) (Some keys)
           | None \<Rightarrow> TableScan table columns filter_opt None None)
      | _ \<Rightarrow> TableScan table columns filter_opt None None)"

fun select_indexes :: "ext \<Rightarrow> table list \<Rightarrow> logical_plan \<Rightarrow> logical_plan" where
  "select_indexes X tables (TableScan table columns filter_opt index_name keys) =
     (if index_name \<noteq> None then TableScan table columns filter_opt index_name keys
      else select_scan_index X tables table columns filter_opt)"
| "select_indexes X tables (Join left right jt algorithm) =
     Join (select_indexes X tables left) (select_indexes X tables right) jt algorithm"
| "select_indexes X tables (Filter input predicate) = Filter (select_indexes X tables input) predicate"
| "select_indexes X tables (Projection input columns table_map) =
     Projection (select_indexes X tables input) columns table_map"
| "select_indexes X tables (Sort input order_by) = Sort (select_indexes X tables input) order_by"
| "select_indexes X tables (Limit input lm off) = Limit (select_indexes X tables input) lm off"
| "select_indexes X tables other = other"

subsection \<open>Join algorithms\<close>

fun extract_equi_join_pairs :: "expression \<Rightarrow> (expression \<times> expression) list" where
  "extract_equi_join_pairs (BinaryOp left op right) =
     (if op = OpEq then [(left, right)]
      else if op = OpAnd then extract_equi_join_pairs left @ extract_equi_join_pairs right
      else [])"
| "extract_equi_join_pairs _ = []"

fun extract_single_table :: "logical_plan \<Rightarrow> (string \<times> column_meta list) option" where
  "extract_single_table (TableScan table columns _ _ _) = Some (table, columns)"
| "extract_single_table _ = None"

definition extract_column_indices :: "expression \<Rightarrow> logical_plan \<Rightarrow> nat list option" where
  "extract_column_indices e plan =
     (case e of
        Column c \<Rightarrow>
          (case plan of
             TableScan _ columns _ _ _ \<Rightarrow> map_option (\<lambda>i. [i]) (column_position columns c)
           | _ \<Rightarrow> None)
      | _ \<Rightarrow> None)"

fun count_output_columns :: "logical_plan \<Rightarrow> nat" where
  "count_output_columns (TableScan _ columns _ _ _) = length columns"
| "count_output_columns (Join left right _ _) = count_output_columns left + count_output_columns right"
| "count_output_columns (Filter input _) = count_output_columns input"
| "count_output_columns (Projection _ columns _) = length columns"
| "count_output_columns (Sort input _) = count_output_columns input"
| "count_output_columns (Limit input _ _) = count_output_columns input"
| "count_output_columns _ = 0"

text \<open>The whole ON clause stays as the remaining condition.\<close>

definition remove_equi_pairs_from_on :: "expression \<Rightarrow> expression option" where
  "remove_equi_pairs_from_on e = Some e"

definition has_column :: "column_meta list \<Rightarrow> string \<Rightarrow> bool" where
  "has_column columns c = list_ex (\<lambda>col. eq_ignore_ascii_case (cm_name col) c) columns"

fun inner_side :: "column_meta list \<Rightarrow> expression \<times> expression \<Rightarrow> (string \<times> expression) option" where
  "inner_side columns (l, r) =
     (case l of
        Column c \<Rightarrow>
          (if has_column columns c then Some (c, r)
           else case r of Column c2 \<Rightarrow> if has_column columns c2 then Some (c2, l) else None | _ \<Rightarrow> None)
      | _ \<Rightarrow> (case r of Column c2 \<Rightarrow> if has_column columns c2 then Some (c2, l) else None | _ \<Rightarrow> None))"

text \<open>The first pair, and for it the first index, that gives the inner table's column an index lookup.\<close>

definition index_for_pair ::
    "table \<Rightarrow> logical_plan \<Rightarrow> expression \<times> expression \<Rightarrow> (string \<times> nat list) option" where
  "index_for_pair rt left pair =
     (case inner_side (tb_columns rt) pair of
        None \<Rightarrow> None
      | Some (right_col_name, outer_expr) \<Rightarrow>
          (case column_position (tb_columns rt) right_col_name of
             None \<Rightarrow> None
           | Some ci \<Rightarrow>
               (case single_column_index rt ci of
                  None \<Rightarrow> None
                | Some ix \<Rightarrow>
                    map_option (\<lambda>oi. (im_name (ix_meta ix), oi)) (extract_column_indices outer_expr left))))"

fun find_map :: "('a \<Rightarrow> 'b option) \<Rightarrow> 'a list \<Rightarrow> 'b option" where
  "find_map f [] = None"
| "find_map f (x # xs) = (case f x of Some y \<Rightarrow> Some y | None \<Rightarrow> find_map f xs)"

definition hash_keys ::
    "logical_plan \<Rightarrow> logical_plan \<Rightarrow> (expression \<times> expression) list \<Rightarrow> (nat \<times> nat) list" where
  "hash_keys left right pairs =
     List.map_filter
       (\<lambda>(l, r). case (extract_column_indices l left, extract_column_indices r right) of
          (Some [i], Some [j]) \<Rightarrow> Some (i, j) | _ \<Rightarrow> None) pairs"

definition hash_algorithm :: "logical_plan \<Rightarrow> logical_plan \<Rightarrow> expression \<Rightarrow> join_algorithm" where
  "hash_algorithm left right on =
     (let keys = hash_keys left right (extract_equi_join_pairs on);
          left_keys = map fst keys; right_keys = map snd keys;
          build_left = (count_output_columns left \<le> count_output_columns right)
      in if keys = [] then NestedLoop (Some on)
         else HashJoin build_left (if build_left then left_keys else right_keys)
                (if build_left then right_keys else left_keys) (remove_equi_pairs_from_on on))"

definition select_join_algorithm ::
    "logical_plan \<Rightarrow> logical_plan \<Rightarrow> expression option \<Rightarrow> table list \<Rightarrow> join_algorithm" where
  "select_join_algorithm left right on_clause tables =
     (case on_clause of
        None \<Rightarrow> NestedLoop None
      | Some on \<Rightarrow>
          (case extract_single_table right of
             None \<Rightarrow> hash_algorithm left right on
           | Some (right_tname, right_cols) \<Rightarrow>
               (case find (\<lambda>t. tb_name t = right_tname) tables of
                  None \<Rightarrow> hash_algorithm left right on
                | Some rt \<Rightarrow>
                    (case find_map (index_for_pair rt left) (extract_equi_join_pairs on) of
                       None \<Rightarrow> hash_algorithm left right on
                     | Some (idx_name, oi) \<Rightarrow>
                         IndexNestedLoop right_tname right_cols idx_name oi (remove_equi_pairs_from_on on)))))"

fun choose_join_algorithms :: "table list \<Rightarrow> logical_plan \<Rightarrow> logical_plan" where
  "choose_join_algorithms tables (Join left right jt algorithm) =
     (let l = choose_join_algorithms tables left; r = choose_join_algorithms tables right in
      Join l r jt
        (case algorithm of
           NestedLoop on_clause \<Rightarrow> select_join_algorithm l r on_clause tables
         | other \<Rightarrow> other))"
| "choose_join_algorithms tables (Filter input predicate) = Filter (choose_join_algorithms tables input) predicate"
| "choose_join_algorithms tables (Projection input columns table_map) =
     Projection (choose_join_algorithms tables input) columns table_map"
| "choose_join_algorithms tables (Sort input order_by) = Sort (choose_join_algorithms tables input) order_by"
| "choose_join_algorithms tables (Limit input lm off) = Limit (choose_join_algorithms tables input) lm off"
| "choose_join_algorithms tables other = other"

definition optimize :: "ext \<Rightarrow> logical_plan \<Rightarrow> table list \<Rightarrow> logical_plan" where
  "optimize X plan tables =
     choose_join_algorithms tables (select_indexes X tables (push_down_predicates plan))"

subsection \<open>Column resolution\<close>

definition resolve_table_list :: "string \<Rightarrow> join_clause list \<Rightarrow> table list \<Rightarrow> table list res" where
  "resolve_table_list table_name joins tables =
     and_then (find_table tables table_name) (\<lambda>t.
     and_then (try_map (\<lambda>jc. find_table tables (jc_right_table jc)) joins) (\<lambda>ts. Inr (t # ts)))"

text \<open>The offset of a table's part is the width of the tables before the first of that name.\<close>

definition width_before :: "table_info list \<Rightarrow> string \<Rightarrow> nat" where
  "width_before table_map name =
     sum_list (map (length \<circ> snd) (takeWhile (\<lambda>(tn, _). tn \<noteq> name) table_map))"

definition position_or_error :: "string \<Rightarrow> string \<Rightarrow> nat \<Rightarrow> column_meta list \<Rightarrow> nat res" where
  "position_or_error table col offset columns =
     (case column_position columns col of
        Some ci \<Rightarrow> Inr (offset + ci)
      | None \<Rightarrow> Inl (ColumnNotFound (table @ ''.'' @ col)))"

definition resolve_qualified_column :: "string \<Rightarrow> string \<Rightarrow> table_info list \<Rightarrow> nat res" where
  "resolve_qualified_column table col table_map =
     (case find (\<lambda>(tname, _). eq_ignore_ascii_case tname table) table_map of
        Some (tname, columns) \<Rightarrow> position_or_error table col (width_before table_map tname) columns
      | None \<Rightarrow>
          (case table_map of
             [(_, columns)] \<Rightarrow> position_or_error table col 0 columns
           | _ \<Rightarrow> Inl (ColumnNotFound (table @ ''.'' @ col))))"

fun unqualified_hits :: "nat \<Rightarrow> table_info list \<Rightarrow> string \<Rightarrow> nat list" where
  "unqualified_hits offset [] name = []"
| "unqualified_hits offset ((_, columns) # table_map) name =
     (case column_position columns name of Some ci \<Rightarrow> [offset + ci] | None \<Rightarrow> []) @
     unqualified_hits (offset + length columns) table_map name"

definition resolve_unqualified_column :: "string \<Rightarrow> table_info list \<Rightarrow> nat res" where
  "resolve_unqualified_column name table_map =
     (case unqualified_hits 0 table_map name of
        [] \<Rightarrow> Inl (ColumnNotFound name)
      | [i] \<Rightarrow> Inr i
      | _ \<Rightarrow> Inl (AmbiguousColumn name))"

definition qualified_wildcard :: "string \<Rightarrow> table_info list \<Rightarrow> nat list" where
  "qualified_wildcard table table_map =
     (case position (\<lambda>(tname, _). eq_ignore_ascii_case tname table) table_map of
        None \<Rightarrow> []
      | Some k \<Rightarrow>
          (let offset = sum_list (map (length \<circ> snd) (take k table_map)) in
           case find (\<lambda>(n, _). n = fst (table_map ! k)) table_map of
             Some (_, columns) \<Rightarrow> map (\<lambda>i. offset + i) [0..<length columns]
           | None \<Rightarrow> []))"

text \<open>The columns a SELECT item adds, and whether it counts as a wildcard.\<close>

definition resolve_item :: "table_info list \<Rightarrow> select_column \<Rightarrow> (nat list \<times> bool) res" where
  "resolve_item table_map col =
     (let one = (\<lambda>r. and_then r (\<lambda>i. Inr ([i], False))) in
      case col of
        Wildcard \<Rightarrow> Inr ([], True)
      | QualWildcard table \<Rightarrow> Inr (qualified_wildcard table table_map, False)
      | Qualified name _ \<Rightarrow>
          (case position (\<lambda>c. c = CHR ''.'') name of
             Some dot \<Rightarrow> one (resolve_qualified_column (take dot name) (drop (dot + 1) name) table_map)
           | None \<Rightarrow> one (resolve_unqualified_column name table_map))
      | Expr (Column name) \<Rightarrow> one (resolve_unqualified_column name table_map)
      | Expr (QualifiedColumn t c) \<Rightarrow> one (resolve_qualified_column t c table_map)
      | Expr _ \<Rightarrow> Inr ([], True))"

definition resolve_select_columns :: "select_column list \<Rightarrow> table_info list \<Rightarrow> nat \<Rightarrow> nat list res" where
  "resolve_select_columns columns table_map combined_len =
     (if columns = [] then Inr [0..<combined_len]
      else and_then (try_map (resolve_item table_map) columns) (\<lambda>items.
        let result = concat (map fst items) in
        Inr (if list_ex snd items \<and> result = [] then [0..<combined_len] else result)))"

subsection \<open>Planning\<close>

definition bare_scan :: "string \<Rightarrow> table \<Rightarrow> logical_plan" where
  "bare_scan name t = TableScan name (tb_columns t) None None None"

definition add_join :: "table list \<Rightarrow> logical_plan \<Rightarrow> join_clause \<Rightarrow> logical_plan res" where
  "add_join tables plan jc =
     and_then (find_table tables (jc_right_table jc)) (\<lambda>t.
     Inr (Join plan (bare_scan (jc_right_table jc) t) (jc_join_type jc) (NestedLoop (jc_on_clause jc))))"

definition plan_select :: "select_statement \<Rightarrow> table list \<Rightarrow> logical_plan res" where
  "plan_select s tables =
     and_then (find_table tables (ss_table_name s)) (\<lambda>primary_table.
     and_then (try_fold (add_join tables) (bare_scan (ss_table_name s) primary_table) (ss_joins s)) (\<lambda>plan.
     let plan = (case ss_where_clause s of Some wc \<Rightarrow> Filter plan wc | None \<Rightarrow> plan) in
     and_then (resolve_table_list (ss_table_name s) (ss_joins s) tables) (\<lambda>all_tables.
     let table_map = map (\<lambda>t. (tb_name t, tb_columns t)) all_tables;
         combined_len = sum_list (map (length \<circ> snd) table_map) in
     and_then (resolve_select_columns (ss_columns s) table_map combined_len) (\<lambda>proj_indices.
     let plan = (if ss_order_by s \<noteq> [] then Sort plan (ss_order_by s) else plan);
         off = (case ss_offset s of Some n \<Rightarrow> n | None \<Rightarrow> 0);
         plan = (if ss_limit s \<noteq> None \<or> 0 < off
                 then Limit plan (case ss_limit s of Some n \<Rightarrow> n | None \<Rightarrow> u64_MAX) off else plan)
     in Inr (Projection plan proj_indices table_map)))))"

definition column_or_error :: "table \<Rightarrow> string \<Rightarrow> string \<Rightarrow> nat res" where
  "column_or_error t table_name c =
     (case column_index t c of
        Some i \<Rightarrow> Inr i | None \<Rightarrow> Inl (ColumnNotFound (table_name @ ''.'' @ c)))"

text \<open>One row of VALUES: further values than columns are ignored, missing ones are NULL.\<close>

definition insert_row :: "ext \<Rightarrow> table \<Rightarrow> nat list \<Rightarrow> datum list \<Rightarrow> row res" where
  "insert_row X t col_indices vs =
     and_then (try_fold
         (\<lambda>full (i, v).
            if i < length col_indices then
              and_then (coerce_datum X v (cm_data_type (tb_columns t ! (col_indices ! i))))
                (\<lambda>w. Inr (full[col_indices ! i := w]))
            else Inr full)
         (replicate (length (tb_columns t)) DNull) (enumerate 0 vs)) (\<lambda>full.
     let r = \<lparr>row_values = full\<rparr> in
     and_then (validate_row t r) (\<lambda>_. Inr r))"

definition plan_permission :: "grant_permission_type \<Rightarrow> string list \<Rightarrow> permission" where
  "plan_permission ty columns =
     (case ty of
        GSelect \<Rightarrow> PSelect columns
      | GInsert \<Rightarrow> PInsert columns
      | GUpdate \<Rightarrow> PUpdate columns
      | GDelete \<Rightarrow> PDelete
      | GAll \<Rightarrow> PAll)"

definition plan_assignment :: "ext \<Rightarrow> table \<Rightarrow> string \<Rightarrow> string \<times> datum \<Rightarrow> (nat \<times> datum) res" where
  "plan_assignment X t table_name a =
     and_then (column_or_error t table_name (fst a)) (\<lambda>idx.
     and_then (coerce_datum X (snd a) (cm_data_type (tb_columns t ! idx))) (\<lambda>v. Inr (idx, v)))"

primrec plan_statement :: "ext \<Rightarrow> helion_statement \<Rightarrow> table list \<Rightarrow> logical_plan res" where
  "plan_statement X (StCreateTable name columns engine) tables = Inr (Flat (PlanCreateTable name columns engine))"
| "plan_statement X (StDropTable name if_exists) tables = Inr (Flat (PlanDropTable name if_exists))"
| "plan_statement X (StExplain analyze verbose stmt) tables = Inr (Flat (PlanExplain analyze verbose stmt))"
| "plan_statement X (StAlterTableEngine name engine) tables = Inr (Flat (PlanAlterTableEngine name engine))"
| "plan_statement X (StInsert table_name columns vals) tables =
     and_then (find_table tables table_name) (\<lambda>t.
     and_then (if columns = [] then Inr [0..<length (tb_columns t)]
               else try_map (column_or_error t table_name) columns) (\<lambda>col_indices.
     and_then (try_map (insert_row X t col_indices) vals) (\<lambda>rows.
     Inr (Flat (PlanInsert table_name rows)))))"
| "plan_statement X (StSelect s) tables =
     and_then (plan_select s tables) (\<lambda>plan. Inr (optimize X plan tables))"
| "plan_statement X (StUpdate table_name assignments where_clause) tables =
     and_then (find_table tables table_name) (\<lambda>t.
     and_then (try_map (plan_assignment X t table_name) assignments) (\<lambda>sets.
     Inr (Flat (PlanUpdate table_name (map fst sets) (map snd sets) where_clause (tb_columns t)))))"
| "plan_statement X (StDelete table_name where_clause) tables =
     and_then (find_table tables table_name) (\<lambda>t.
     Inr (Flat (PlanDelete table_name where_clause (tb_columns t))))"
| "plan_statement X (StCreateUser username password) tables = Inr (Flat (PlanCreateUser username password))"
| "plan_statement X (StDropUser username if_exists) tables = Inr (Flat (PlanDropUser username if_exists))"
| "plan_statement X (StAlterUser username password) tables = Inr (Flat (PlanAlterUser username password))"
| "plan_statement X (StGrant username tbl columns ty) tables =
     Inr (Flat (PlanGrant username tbl columns (plan_permission ty columns)))"
| "plan_statement X (StRevoke username tbl columns ty) tables =
     Inr (Flat (PlanRevoke username tbl columns (plan_permission ty columns)))"
| "plan_statement X (StCreateIndex name tbl columns uniq if_not_exists) tables =
     and_then (find_table tables tbl) (\<lambda>_. Inr (Flat (PlanCreateIndex name tbl columns uniq if_not_exists)))"
| "plan_statement X (StDropIndex name tbl if_exists) tables = Inr (Flat (PlanDropIndex name tbl if_exists))"
| "plan_statement X StShowTables tables = Inr (Flat PlanShowTables)"
| "plan_statement X StShowDatabases tables = Inr (Flat PlanShowDatabases)"
| "plan_statement X (StUseDatabase name) tables = Inr (Flat (PlanUseDatabase name))"

end
