(* ===== verification/Mvcc.thy ===== *)
theory Mvcc
  imports Table
begin

text \<open>
  Transactions (\<open>src/src/storage/mvcc.rs\<close>): the store of identifiers and active
  transactions, the conflict check before a commit, and the new version chains a write set
  gives. A \<open>HashMap\<close> is a partial map. \<open>begin_transaction\<close> is the three accesses to the
  shared store it is made of (take an identifier, read the active set, join it), so that the
  step relation below can interleave the threads between them.
\<close>

record snapshot =
  sn_txid :: u64
  sn_active :: "u64 set"

datatype transaction_status = InProgress | Committed | Aborted

record write_entry =
  we_table_name :: string
  we_row_idx :: nat
  we_old_txid_max :: u64
  we_operation :: write_op

record transaction =
  tx_id :: u64
  tx_status :: transaction_status
  tx_snapshot :: snapshot
  tx_write_set :: "write_entry list"

definition transaction_new :: "u64 \<Rightarrow> snapshot \<Rightarrow> transaction" where
  "transaction_new txid snap =
     \<lparr>tx_id = txid, tx_status = InProgress, tx_snapshot = snap, tx_write_set = []\<rparr>"

definition add_write :: "write_entry \<Rightarrow> transaction \<Rightarrow> transaction" where
  "add_write entry tx = tx\<lparr>tx_write_set := tx_write_set tx @ [entry]\<rparr>"

record mvcc_store =
  mv_next_txid :: u64
  mv_active_txns :: "u64 set"

definition with_start_id :: "u64 \<Rightarrow> mvcc_store" where
  "with_start_id start_id = \<lparr>mv_next_txid = max start_id 1, mv_active_txns = {0}\<rparr>"

text \<open>\<open>fetch_add\<close> wraps around at the end of the range.\<close>

definition fetch_txid :: "mvcc_store \<Rightarrow> u64 \<times> mvcc_store" where
  "fetch_txid m = (mv_next_txid m, m\<lparr>mv_next_txid := mv_next_txid m + 1\<rparr>)"

definition read_active :: "mvcc_store \<Rightarrow> u64 set" where
  "read_active m = mv_active_txns m"

definition add_active :: "u64 \<Rightarrow> mvcc_store \<Rightarrow> mvcc_store" where
  "add_active txid m = m\<lparr>mv_active_txns := insert txid (mv_active_txns m)\<rparr>"

definition begin_transaction :: "mvcc_store \<Rightarrow> transaction \<times> mvcc_store" where
  "begin_transaction m =
     (let (txid, m1) = fetch_txid m;
          active = read_active m1;
          m2 = add_active txid m1
      in (transaction_new txid \<lparr>sn_txid = txid, sn_active = active\<rparr>, m2))"

definition commit_transaction :: "transaction \<Rightarrow> mvcc_store \<Rightarrow> mvcc_store" where
  "commit_transaction tx m = m\<lparr>mv_active_txns := mv_active_txns m - {tx_id tx}\<rparr>"

definition rollback_transaction :: "transaction \<Rightarrow> mvcc_store \<Rightarrow> mvcc_store" where
  "rollback_transaction tx m = m\<lparr>mv_active_txns := mv_active_txns m - {tx_id tx}\<rparr>"

subsection \<open>Conflicts\<close>

definition conflict_of_entry :: "transaction \<Rightarrow> (string \<rightharpoonup> table) \<Rightarrow> write_entry \<Rightarrow> u64 + unit" where
  "conflict_of_entry tx tables entry =
     (case tables (we_table_name entry) of
        None \<Rightarrow> Inr ()
      | Some table \<Rightarrow>
          if we_row_idx entry < length (tb_version_chains table) then
            (case find (\<lambda>v. rv_txid_max v = u64_MAX) (rev (tb_version_chains table ! we_row_idx entry)) of
               None \<Rightarrow> Inr ()
             | Some version \<Rightarrow>
                 if rv_txid_min version \<in> sn_active (tx_snapshot tx)
                 then Inl (rv_txid_min version) else Inr ())
          else Inr ())"

definition check_conflicts :: "transaction \<Rightarrow> (string \<rightharpoonup> table) \<Rightarrow> u64 + unit" where
  "check_conflicts tx tables = try_fold (\<lambda>_ entry. conflict_of_entry tx tables entry) () (tx_write_set tx)"

subsection \<open>New version chains\<close>

text \<open>The version an entry adds, if any: a deletion copies the row of the newest version the
  table had before the transaction.\<close>

definition change_of_entry :: "(string \<rightharpoonup> table) \<Rightarrow> u64 \<Rightarrow> write_entry \<Rightarrow> (nat \<times> row_version) option" where
  "change_of_entry tables txid entry =
     (case we_operation entry of
        Insert r \<Rightarrow> Some (we_row_idx entry, new_insert txid r)
      | Update r \<Rightarrow> Some (we_row_idx entry, new_update txid r)
      | Delete \<Rightarrow>
          (case tables (we_table_name entry) of
             None \<Rightarrow> None
           | Some table \<Rightarrow>
               if we_row_idx entry < length (tb_version_chains table) then
                 (let chain = tb_version_chains table ! we_row_idx entry in
                  if chain = [] then None
                  else Some (we_row_idx entry, new_delete txid (rv_row (last chain))))
               else None))"

text \<open>\<open>entry(name).or_default()\<close> creates the list of a table also when nothing is pushed.\<close>

definition collect_changes ::
  "write_entry list \<Rightarrow> (string \<rightharpoonup> table) \<Rightarrow> u64 \<Rightarrow> (string \<rightharpoonup> (nat \<times> row_version) list)" where
  "collect_changes write_set tables txid =
     foldl (\<lambda>changes entry.
         let change_list = (case changes (we_table_name entry) of None \<Rightarrow> [] | Some l \<Rightarrow> l) in
         changes(we_table_name entry \<mapsto>
           (case change_of_entry tables txid entry of None \<Rightarrow> change_list | Some c \<Rightarrow> change_list @ [c])))
       Map.empty write_set"

definition apply_change :: "u64 \<Rightarrow> row_version list list \<Rightarrow> nat \<times> row_version \<Rightarrow> row_version list list" where
  "apply_change txid cs change =
     (case change of (row_idx, version) \<Rightarrow>
        if row_idx < length cs
        then cs[row_idx := push_version txid version (cs ! row_idx)]
        else cs @ [[version]])"

definition apply_write_set ::
  "write_entry list \<Rightarrow> (string \<rightharpoonup> table) \<Rightarrow> u64 \<Rightarrow> (string \<rightharpoonup> row_version list list)" where
  "apply_write_set write_set tables txid =
     (\<lambda>name. case collect_changes write_set tables txid name of
         None \<Rightarrow> None
       | Some table_changes \<Rightarrow>
           (case tables name of
              None \<Rightarrow> None
            | Some table \<Rightarrow> Some (foldl (apply_change txid) (tb_version_chains table) table_changes)))"

subsection \<open>Identifiers\<close>

definition mvcc_ok :: "mvcc_store \<Rightarrow> bool" where
  "mvcc_ok m \<longleftrightarrow> (\<forall>a \<in> mv_active_txns m. a < mv_next_txid m)"

lemma mvcc_ok_start: "mvcc_ok (with_start_id n)"
proof -
  have "(0::u64) < max n 1" by (metis max.cobounded2 word_neq_0_conv leD word_coorder.extremum_unique zero_neq_one)
  then show ?thesis by (simp add: mvcc_ok_def with_start_id_def)
qed

lemma begin_transaction_simps [simp]:
  "tx_id (fst (begin_transaction m)) = mv_next_txid m"
  "tx_status (fst (begin_transaction m)) = InProgress"
  "tx_write_set (fst (begin_transaction m)) = []"
  "tx_snapshot (fst (begin_transaction m)) = \<lparr>sn_txid = mv_next_txid m, sn_active = mv_active_txns m\<rparr>"
  "mv_next_txid (snd (begin_transaction m)) = mv_next_txid m + 1"
  "mv_active_txns (snd (begin_transaction m)) = insert (mv_next_txid m) (mv_active_txns m)"
  by (simp_all add: begin_transaction_def fetch_txid_def read_active_def add_active_def
      transaction_new_def)

lemma end_transaction_simps [simp]:
  "mv_next_txid (commit_transaction tx m) = mv_next_txid m"
  "mv_next_txid (rollback_transaction tx m) = mv_next_txid m"
  "mv_active_txns (commit_transaction tx m) = mv_active_txns m - {tx_id tx}"
  "mv_active_txns (rollback_transaction tx m) = mv_active_txns m - {tx_id tx}"
  by (simp_all add: commit_transaction_def rollback_transaction_def)

lemma mvcc_ok_begin:
  "mvcc_ok m \<Longrightarrow> mv_next_txid m \<noteq> u64_MAX \<Longrightarrow> mvcc_ok (snd (begin_transaction m))"
  by (auto simp: mvcc_ok_def u64_less_succ intro: less_trans u64_less_succ)

lemma mvcc_ok_end:
  "mvcc_ok m \<Longrightarrow> mvcc_ok (commit_transaction tx m)"
  "mvcc_ok m \<Longrightarrow> mvcc_ok (rollback_transaction tx m)"
  by (auto simp: mvcc_ok_def)

subsection \<open>Threads between the steps of \<open>begin_transaction\<close>\<close>

datatype phase = Idle | Fetched u64 | HasActive u64 "u64 set" | Running u64 "u64 set"

record threads =
  th_store :: mvcc_store
  th_phase :: "nat \<Rightarrow> phase"

definition threads_init :: "u64 \<Rightarrow> threads" where
  "threads_init n = \<lparr>th_store = with_start_id n, th_phase = (\<lambda>_. Idle)\<rparr>"

definition set_phase :: "nat \<Rightarrow> phase \<Rightarrow> threads \<Rightarrow> threads" where
  "set_phase i p s = s\<lparr>th_phase := (th_phase s)(i := p)\<rparr>"

inductive thread_step :: "threads \<Rightarrow> threads \<Rightarrow> bool" where
  fetch: "th_phase s i = Idle \<Longrightarrow> mv_next_txid (th_store s) \<noteq> u64_MAX \<Longrightarrow>
    fetch_txid (th_store s) = (x, m) \<Longrightarrow>
    thread_step s (set_phase i (Fetched x) (s\<lparr>th_store := m\<rparr>))"
| read: "th_phase s i = Fetched x \<Longrightarrow>
    thread_step s (set_phase i (HasActive x (read_active (th_store s))) s)"
| add: "th_phase s i = HasActive x A \<Longrightarrow>
    thread_step s (set_phase i (Running x A) (s\<lparr>th_store := add_active x (th_store s)\<rparr>))"
| finish: "th_phase s i = Running x A \<Longrightarrow>
    thread_step s (set_phase i Idle (s\<lparr>th_store := (th_store s)\<lparr>mv_active_txns := mv_active_txns (th_store s) - {x}\<rparr>\<rparr>))"

text \<open>The same threads when \<open>begin_transaction\<close> is not interrupted.\<close>

inductive atomic_step :: "threads \<Rightarrow> threads \<Rightarrow> bool" where
  begins: "th_phase s i = Idle \<Longrightarrow> mv_next_txid (th_store s) \<noteq> u64_MAX \<Longrightarrow>
    begin_transaction (th_store s) = (tx, m) \<Longrightarrow>
    atomic_step s (set_phase i (Running (tx_id tx) (sn_active (tx_snapshot tx))) (s\<lparr>th_store := m\<rparr>))"
| ends: "th_phase s i = Running x A \<Longrightarrow>
    atomic_step s (set_phase i Idle (s\<lparr>th_store := (th_store s)\<lparr>mv_active_txns := mv_active_txns (th_store s) - {x}\<rparr>\<rparr>))"

fun phase_id :: "phase \<Rightarrow> u64 option" where
  "phase_id Idle = None"
| "phase_id (Fetched x) = Some x"
| "phase_id (HasActive x _) = Some x"
| "phase_id (Running x _) = Some x"

inductive_cases atomic_stepE: "atomic_step s s'"
inductive_cases thread_stepE: "thread_step s s'"

lemma set_phase_simps [simp]:
  "th_phase (set_phase i p s) j = (if j = i then p else th_phase s j)"
  "th_store (set_phase i p s) = th_store s"
  by (simp_all add: set_phase_def)

text \<open>
  Identifiers in use are distinct, positive and below the next one, and the active set holds 0
  and the running transactions.
\<close>

definition ids_ok :: "u64 \<Rightarrow> (nat \<Rightarrow> phase) \<Rightarrow> bool" where
  "ids_ok next ph \<longleftrightarrow> 0 < next \<and> (\<forall>i x. phase_id (ph i) = Some x \<longrightarrow> 0 < x \<and> x < next) \<and>
     (\<forall>i j x. phase_id (ph i) = Some x \<longrightarrow> phase_id (ph j) = Some x \<longrightarrow> i = j)"

definition running_ids :: "(nat \<Rightarrow> phase) \<Rightarrow> u64 set" where
  "running_ids ph = {x. \<exists>i A. ph i = Running x A}"

definition threads_ok :: "threads \<Rightarrow> bool" where
  "threads_ok s \<longleftrightarrow> ids_ok (mv_next_txid (th_store s)) (th_phase s) \<and>
     mv_active_txns (th_store s) = insert 0 (running_ids (th_phase s))"

lemma ids_ok_fresh:
  assumes "ids_ok n ph" "n \<noteq> u64_MAX" "phase_id p = Some n"
  shows "ids_ok (n + 1) (ph(i := p))"
  unfolding ids_ok_def
proof (intro conjI allI impI)
  have n: "n < n + 1" using assms(2) by (rule u64_less_succ)
  have lt: "0 < n" "\<And>j x. phase_id (ph j) = Some x \<Longrightarrow> 0 < x \<and> x < n"
    and d: "\<And>j k x. phase_id (ph j) = Some x \<Longrightarrow> phase_id (ph k) = Some x \<Longrightarrow> j = k"
    using assms(1) unfolding ids_ok_def by blast+
  show "0 < n + 1" using lt(1) n by (rule less_trans)
  fix j x assume j: "phase_id ((ph(i := p)) j) = Some x"
  then show "0 < x" using lt assms(3) by (cases "j = i") auto
  show "x < n + 1"
    using j lt(2) [of j x] n assms(3) less_trans [of x n "n + 1"] by (cases "j = i") auto
  fix k assume "phase_id ((ph(i := p)) k) = Some x"
  then show "j = k"
    using j lt(2) [of j x] lt(2) [of k x] assms(3) d [of j x k] by (cases "j = i"; cases "k = i") auto
qed

lemma ids_ok_keep:
  assumes "ids_ok n ph" "phase_id p = None \<or> phase_id p = phase_id (ph i)"
  shows "ids_ok n (ph(i := p))"
proof -
  have "phase_id ((ph(i := p)) j) = Some x \<Longrightarrow> phase_id (ph j) = Some x" for j x
    using assms(2) by (cases "j = i") auto
  then show ?thesis using assms(1) unfolding ids_ok_def by blast
qed

lemma running_ids_update:
  "\<forall>x A. ph i \<noteq> Running x A \<Longrightarrow> running_ids (ph(i := p)) = running_ids ph \<union> {x. \<exists>A. p = Running x A}"
  by (auto simp: running_ids_def) metis

lemma runningD:
  assumes "ids_ok n ph" "ph i = Running x A"
  shows "x \<in> running_ids ph" "0 < x" "x < n" "ph j = Running x B \<Longrightarrow> j = i"
proof -
  have id: "phase_id (ph i) = Some x" using assms(2) by simp
  then show "0 < x" "x < n" using assms(1) unfolding ids_ok_def by blast+
  show "x \<in> running_ids ph" using assms(2) by (auto simp: running_ids_def)
  assume "ph j = Running x B"
  then have "phase_id (ph j) = Some x" by simp
  with id show "j = i" using assms(1) unfolding ids_ok_def by blast
qed

lemma running_ids_finish:
  assumes "ids_ok n ph" "ph i = Running x A"
  shows "running_ids (ph(i := Idle)) = running_ids ph - {x}"
proof -
  have "y \<in> running_ids (ph(i := Idle)) \<longleftrightarrow> (\<exists>j B. j \<noteq> i \<and> ph j = Running y B)" for y
    by (auto simp: running_ids_def)
  moreover have "(\<exists>j B. j \<noteq> i \<and> ph j = Running y B) \<longleftrightarrow> y \<in> running_ids ph \<and> y \<noteq> x" for y
  proof
    assume "\<exists>j B. j \<noteq> i \<and> ph j = Running y B"
    then show "y \<in> running_ids ph \<and> y \<noteq> x"
      using runningD(4) [OF assms] by (auto simp: running_ids_def)
  next
    assume y: "y \<in> running_ids ph \<and> y \<noteq> x"
    then obtain j B where "ph j = Running y B" by (auto simp: running_ids_def)
    with y assms(2) have "j \<noteq> i" by auto
    with \<open>ph j = Running y B\<close> show "\<exists>j B. j \<noteq> i \<and> ph j = Running y B" by blast
  qed
  ultimately show ?thesis by blast
qed

lemma ids_ok_positive: "ids_ok n ph \<Longrightarrow> phase_id (ph i) = Some x \<Longrightarrow> x \<noteq> 0"
  unfolding ids_ok_def by auto

lemma set_phase_phases: "th_phase (set_phase i p s) = (th_phase s)(i := p)"
  by (simp add: set_phase_def)

lemma threads_ok_init: "threads_ok (threads_init n)"
  using mvcc_ok_start [of n]
  by (simp add: threads_ok_def threads_init_def mvcc_ok_def with_start_id_def ids_ok_def running_ids_def)

lemma threads_ok_step: "thread_step s s' \<Longrightarrow> threads_ok s \<Longrightarrow> threads_ok s'"
proof (induction rule: thread_step.induct)
  case (fetch s i x m)
  have xm: "x = mv_next_txid (th_store s)" "mv_next_txid m = x + 1" "mv_active_txns m = mv_active_txns (th_store s)"
    using fetch(3) by (auto simp: fetch_txid_def)
  have "ids_ok (x + 1) ((th_phase s)(i := Fetched x))"
    by (rule ids_ok_fresh) (use fetch(2,4) xm in \<open>simp_all add: threads_ok_def\<close>)
  moreover have "running_ids ((th_phase s)(i := Fetched x)) = running_ids (th_phase s)"
    by (subst running_ids_update) (simp_all add: fetch(1))
  ultimately show ?case using fetch(4) xm by (simp add: threads_ok_def set_phase_phases)
next
  case (read s i x)
  then show ?case
    using ids_ok_keep [of "mv_next_txid (th_store s)" "th_phase s"]
    by (auto simp: threads_ok_def set_phase_phases running_ids_update)
next
  case (add s i x A)
  then show ?case
    using ids_ok_keep [of "mv_next_txid (th_store s)" "th_phase s" "Running x A" i]
    by (auto simp: threads_ok_def add_active_def set_phase_phases running_ids_update)
next
  case (finish s i x A)
  then show ?case
    using ids_ok_keep [of "mv_next_txid (th_store s)" "th_phase s" Idle i] ids_ok_positive [of _ "th_phase s" i x]
      running_ids_finish [of "mv_next_txid (th_store s)" "th_phase s" i x A]
    by (auto simp: threads_ok_def set_phase_phases)
qed

lemma threads_ok_reachable: "thread_step\<^sup>*\<^sup>* (threads_init n) s \<Longrightarrow> threads_ok s"
  by (induction rule: rtranclp_induct) (auto intro: threads_ok_init threads_ok_step)

text \<open>An uninterrupted \<open>begin_transaction\<close> is three of the steps.\<close>

lemma set_phase_twice:
  "set_phase i q ((set_phase i p s)\<lparr>th_store := m\<rparr>) = set_phase i q (s\<lparr>th_store := m\<rparr>)"
  "set_phase i q (set_phase i p s) = set_phase i q s"
  by (simp_all add: set_phase_def)

lemma atomic_step_is_three: "atomic_step s s' \<Longrightarrow> thread_step\<^sup>*\<^sup>* s s'"
proof (induction rule: atomic_step.induct)
  case (begins s i tx m)
  let ?x = "mv_next_txid (th_store s)" and ?m1 = "(th_store s)\<lparr>mv_next_txid := mv_next_txid (th_store s) + 1\<rparr>"
  let ?s1 = "set_phase i (Fetched ?x) (s\<lparr>th_store := ?m1\<rparr>)"
  let ?s2 = "set_phase i (HasActive ?x (read_active ?m1)) ?s1"
  have a: "thread_step s ?s1"
    by (rule thread_step.fetch) (use begins in \<open>auto simp: fetch_txid_def\<close>)
  have b: "thread_step ?s1 ?s2"
    using thread_step.read [of ?s1 i ?x] by simp
  have c: "thread_step ?s2 (set_phase i (Running ?x (read_active ?m1)) (?s2\<lparr>th_store := add_active ?x (th_store ?s2)\<rparr>))"
    by (rule thread_step.add) simp
  have "set_phase i (Running ?x (read_active ?m1)) (?s2\<lparr>th_store := add_active ?x (th_store ?s2)\<rparr>) =
      set_phase i (Running (tx_id tx) (sn_active (tx_snapshot tx))) (s\<lparr>th_store := m\<rparr>)"
    using begins(3) by (auto simp: begin_transaction_def fetch_txid_def transaction_new_def set_phase_def)
  then show ?case using a b c by (metis (no_types, lifting) converse_rtranclp_into_rtranclp rtranclp.rtrancl_refl)
next
  case (ends s i x A)
  then show ?case by (blast intro: thread_step.finish)
qed

lemma atomic_threads_ok: "atomic_step s s' \<Longrightarrow> threads_ok s \<Longrightarrow> threads_ok s'"
  using atomic_step_is_three [of s s'] threads_ok_step
  by (metis (no_types, lifting) rtranclp_induct)

definition snapshots_ok :: "threads \<Rightarrow> bool" where
  "snapshots_ok s \<longleftrightarrow> (\<forall>i j x y A B. th_phase s i = Running x A \<longrightarrow> th_phase s j = Running y B \<longrightarrow>
     y < x \<longrightarrow> y \<in> A)"

lemma snapshots_ok_step:
  "atomic_step s s' \<Longrightarrow> threads_ok s \<Longrightarrow> snapshots_ok s \<Longrightarrow> snapshots_ok s'"
proof (induction rule: atomic_step.induct)
  case (begins s i tx m)
  have tx: "tx_id tx = mv_next_txid (th_store s)" "sn_active (tx_snapshot tx) = mv_active_txns (th_store s)"
    using begins(3) begin_transaction_simps [of "th_store s"] by auto
  have ids: "ids_ok (mv_next_txid (th_store s)) (th_phase s)"
    and act: "mv_active_txns (th_store s) = insert 0 (running_ids (th_phase s))"
    using begins(4) by (auto simp: threads_ok_def)
  have new: "y \<in> mv_active_txns (th_store s)" "\<not> tx_id tx < y" if "th_phase s j = Running y B" for j y B
    using runningD [OF ids that] tx(1) act by (auto dest: less_asym)
  show ?case
    using begins(5) new tx unfolding snapshots_ok_def by (auto split: if_splits)
next
  case (ends s i x A)
  then show ?case unfolding snapshots_ok_def by (auto split: if_splits)
qed

lemma atomic_reachable_ok: "atomic_step\<^sup>*\<^sup>* (threads_init n) s \<Longrightarrow> threads_ok s \<and> snapshots_ok s"
proof (induction rule: rtranclp_induct)
  case base
  then show ?case using threads_ok_init by (simp add: snapshots_ok_def threads_init_def)
next
  case (step y z)
  then show ?case using atomic_threads_ok snapshots_ok_step by blast
qed

subsection \<open>What a write set does to the chains\<close>

lemma collect_changes_conv:
  "collect_changes ws tables txid name =
     (if \<exists>e \<in> set ws. we_table_name e = name
      then Some (List.map_filter (change_of_entry tables txid) (filter (\<lambda>e. we_table_name e = name) ws))
      else None)"
proof (induction ws arbitrary: name rule: rev_induct)
  case Nil
  then show ?case by (simp add: collect_changes_def)
next
  case (snoc e ws)
  have step: "collect_changes (ws @ [e]) tables txid =
     (let change_list = (case collect_changes ws tables txid (we_table_name e) of None \<Rightarrow> [] | Some l \<Rightarrow> l) in
        (collect_changes ws tables txid)(we_table_name e \<mapsto>
          (case change_of_entry tables txid e of None \<Rightarrow> change_list | Some c \<Rightarrow> change_list @ [c])))"
    by (simp add: collect_changes_def Let_def)
  let ?ch = "change_of_entry tables txid"
  have app: "List.map_filter ?ch (xs @ [e]) =
      (case ?ch e of None \<Rightarrow> List.map_filter ?ch xs | Some c \<Rightarrow> List.map_filter ?ch xs @ [c])" for xs
    by (simp add: List.map_filter_def split: option.splits)
  have old: "(case collect_changes ws tables txid (we_table_name e) of None \<Rightarrow> [] | Some l \<Rightarrow> l) =
      List.map_filter ?ch (filter (\<lambda>x. we_table_name x = we_table_name e) ws)"
  proof (cases "\<exists>x \<in> set ws. we_table_name x = we_table_name e")
    case False
    then have "filter (\<lambda>x. we_table_name x = we_table_name e) ws = []" by (simp add: filter_empty_conv)
    then show ?thesis using False by (simp add: snoc.IH map_filter_simps)
  qed (simp add: snoc.IH)
  show ?case
  proof (cases "we_table_name e = name")
    case True
    then show ?thesis using app old by (simp add: step Let_def)
  next
    case False
    then show ?thesis using snoc.IH [of name] by (simp add: step Let_def)
  qed
qed

definition version_of :: "table \<Rightarrow> u64 \<Rightarrow> write_entry \<Rightarrow> row_version" where
  "version_of t txid e =
     (case we_operation e of
        Insert r \<Rightarrow> new_insert txid r
      | Update r \<Rightarrow> new_update txid r
      | Delete \<Rightarrow> new_delete txid (rv_row (last (tb_version_chains t ! we_row_idx e))))"

fun op_row :: "write_op \<Rightarrow> row option" where
  "op_row (Insert r) = Some r"
| "op_row (Update r) = Some r"
| "op_row Delete = None"

lemma version_of_simps [simp]:
  "rv_txid_min (version_of t txid e) = txid"
  "rv_txid_max (version_of t txid e) = u64_MAX"
  "(if rv_is_deleted (version_of t txid e) then None else Some (rv_row (version_of t txid e))) = op_row (we_operation e)"
  by (auto simp: version_of_def new_insert_def new_update_def new_delete_def split: write_op.splits)

lemma change_of_entry_in_range:
  assumes "tables (we_table_name e) = Some t" "we_row_idx e < length (tb_version_chains t)"
    and "tb_version_chains t ! we_row_idx e \<noteq> []"
  shows "change_of_entry tables txid e = Some (we_row_idx e, version_of t txid e)"
  using assms by (simp add: change_of_entry_def version_of_def Let_def split: write_op.splits)

lemma apply_change_in_range:
  assumes "\<forall>c \<in> set ch. fst c < length cs"
  shows "length (foldl (apply_change txid) cs ch) = length cs \<and>
    (\<forall>i < length cs. foldl (apply_change txid) cs ch ! i =
       foldl (\<lambda>c v. push_version txid v c) (cs ! i) (map snd (filter (\<lambda>c. fst c = i) ch)))"
  using assms
proof (induction ch arbitrary: cs)
  case (Cons c ch)
  obtain j v where c: "c = (j, v)" by (cases c)
  have "apply_change txid cs c = cs[j := push_version txid v (cs ! j)]"
    using Cons.prems by (simp add: apply_change_def c)
  then show ?case
    using Cons.IH [of "cs[j := push_version txid v (cs ! j)]"] Cons.prems by (auto simp: c)
qed simp

lemma apply_change_append:
  "foldl (apply_change txid) cs (zip [length cs..<length cs + length vs] vs) = cs @ map (\<lambda>v. [v]) vs"
proof (induction vs arbitrary: cs)
  case (Cons v vs)
  have "[length cs..<length cs + length (v # vs)] = length cs # [length (cs @ [[v]])..<length (cs @ [[v]]) + length vs]"
    by (subst upt_conv_Cons) simp_all
  moreover have "apply_change txid cs (length cs, v) = cs @ [[v]]"
    by (simp add: apply_change_def)
  ultimately show ?case using Cons.IH [of "cs @ [[v]]"] by simp
qed simp

definition push_versions :: "u64 \<Rightarrow> row_version list \<Rightarrow> row_version list \<Rightarrow> row_version list" where
  "push_versions txid c vs = foldl (\<lambda>c v. push_version txid v c) c vs"

lemma push_versions_snoc [simp]:
  "push_versions txid c [] = c"
  "push_versions txid c (vs @ [v]) = push_version txid v (push_versions txid c vs)"
  by (simp_all add: push_versions_def)

definition writes_of :: "u64 \<Rightarrow> row_version list \<Rightarrow> bool" where
  "writes_of txid vs \<longleftrightarrow> (\<forall>v \<in> set vs. rv_txid_min v = txid \<and> rv_txid_max v = u64_MAX)"

definition chain_before :: "u64 \<Rightarrow> row_version list \<Rightarrow> bool" where
  "chain_before txid c \<longleftrightarrow> chain_ok c \<and> c \<noteq> [] \<and> (\<forall>v \<in> set c. rv_txid_min v \<le> txid)"

lemma push_version_min:
  "(\<forall>v \<in> set c. rv_txid_min v \<le> x) \<Longrightarrow> rv_txid_min v \<le> x \<Longrightarrow>
   \<forall>w \<in> set (push_version t v c). rv_txid_min w \<le> x"
  by (cases c rule: rev_cases) auto

lemma last_push_version [simp]: "last (push_version t v c) = v" "push_version t v c \<noteq> []"
  by (simp_all add: push_version_def)

lemma chain_before_push:
  assumes "chain_before txid c" "rv_txid_min v = txid" "rv_txid_max v = u64_MAX" "txid \<noteq> u64_MAX"
  shows "chain_before txid (push_version txid v c)"
  using assms chain_ok_push [of c txid v] push_version_min [of c txid v txid]
  by (auto simp: chain_before_def)

lemma chain_before_pushes:
  "chain_before txid c \<Longrightarrow> writes_of txid vs \<Longrightarrow> txid \<noteq> u64_MAX \<Longrightarrow> chain_before txid (push_versions txid c vs)"
  by (induction vs rule: rev_induct) (auto simp: writes_of_def intro: chain_before_push)

lemma last_max: "chain_ok c \<Longrightarrow> c \<noteq> [] \<Longrightarrow> rv_txid_max (last c) = u64_MAX"
  by (cases c rule: rev_cases) (auto dest: chain_ok_last)

lemma pushes_invisible_before:
  assumes "chain_before txid c" "writes_of txid vs" "txid \<noteq> u64_MAX" "s < txid"
  shows "map_option rv_row (latest_visible (push_versions txid c vs) s A) = map_option rv_row (latest_visible c s A)"
  using assms(2)
proof (induction vs rule: rev_induct)
  case (snoc v vs)
  then have vs: "writes_of txid vs" "rv_txid_min v = txid" by (auto simp: writes_of_def)
  have "rv_txid_max (last (push_versions txid c vs)) = u64_MAX"
    using chain_before_pushes [OF assms(1) vs(1) assms(3)] by (auto simp: chain_before_def intro: last_max)
  then show ?case
    using latest_visible_push_later [OF assms(4), of "push_versions txid c vs" v A] vs snoc.IH by simp
qed simp

lemma newest_at_all:
  assumes "c \<noteq> []" "\<forall>v \<in> set c. rv_txid_min v \<le> s"
  shows "newest_at s c = Some (last c)"
proof -
  have "filter (\<lambda>v. rv_txid_min v \<le> s) c = c" using assms(2) by simp
  then show ?thesis using assms(1) by (auto simp: newest_at_def split: list.splits)
qed

lemma pushes_visible_after:
  assumes "chain_before txid c" "writes_of txid vs" "txid \<noteq> u64_MAX" "vs \<noteq> []"
    and "txid \<le> s" "txid \<notin> A \<or> txid = s"
  shows "latest_visible (push_versions txid c vs) s A = (if rv_is_deleted (last vs) then None else Some (last vs))"
proof -
  obtain us v where vs: "vs = us @ [v]" using assms(4) by (cases vs rule: rev_cases) auto
  have before: "chain_before txid (push_versions txid c vs)"
    by (rule chain_before_pushes [OF assms(1-3)])
  have "newest_at s (push_versions txid c vs) = Some (last (push_versions txid c vs))"
    using before assms(5) by (intro newest_at_all) (auto simp: chain_before_def)
  moreover have "last (push_versions txid c vs) = v" "rv_txid_min v = txid"
    using assms(2) by (auto simp: vs writes_of_def)
  ultimately show ?thesis
    using find_visible [of "push_versions txid c vs" s A] before assms(6)
    by (auto simp: latest_visible_def chain_before_def vs)
qed

definition entries_for :: "string \<Rightarrow> nat \<Rightarrow> write_entry list \<Rightarrow> write_entry list" where
  "entries_for name i ws = filter (\<lambda>e. we_table_name e = name \<and> we_row_idx e = i) ws"

text \<open>The new chain of a row is the old one with the versions of its entries pushed in order.\<close>

lemma apply_write_set_chains:
  assumes t: "tables name = Some t"
    and ne: "\<forall>c \<in> set (tb_version_chains t). c \<noteq> []"
    and range: "\<forall>e \<in> set ws. we_table_name e = name \<longrightarrow> we_row_idx e < length (tb_version_chains t)"
    and some: "\<exists>e \<in> set ws. we_table_name e = name"
  shows "\<exists>cs. apply_write_set ws tables txid name = Some cs \<and> length cs = length (tb_version_chains t) \<and>
    (\<forall>i < length cs. cs ! i =
       push_versions txid (tb_version_chains t ! i) (map (version_of t txid) (entries_for name i ws)))"
proof -
  let ?es = "filter (\<lambda>e. we_table_name e = name) ws"
  have "List.map_filter (change_of_entry tables txid) es =
      map (\<lambda>e. (we_row_idx e, version_of t txid e)) es"
    if "set es \<subseteq> set ?es" for es
    using that
  proof (induction es)
    case (Cons e es)
    then have "change_of_entry tables txid e = Some (we_row_idx e, version_of t txid e)"
      using t ne range by (intro change_of_entry_in_range) auto
    then show ?case using Cons by (simp add: map_filter_simps)
  qed (simp add: map_filter_simps)
  then have ch: "collect_changes ws tables txid name = Some (map (\<lambda>e. (we_row_idx e, version_of t txid e)) ?es)"
    using some by (simp add: collect_changes_conv)
  have es: "map snd (filter (\<lambda>c. fst c = i) (map (\<lambda>e. (we_row_idx e, version_of t txid e)) ?es)) =
      map (version_of t txid) (entries_for name i ws)" for i
    by (simp add: filter_map o_def entries_for_def conj_commute)
  show ?thesis
    using apply_change_in_range [of "map (\<lambda>e. (we_row_idx e, version_of t txid e)) ?es" "tb_version_chains t" txid]
      range by (auto simp: apply_write_set_def ch t es push_versions_def)
qed

lemma conflict_of_entry_ok:
  "conflict_of_entry tx tables e = Inr () \<longleftrightarrow>
     (\<forall>t v. tables (we_table_name e) = Some t \<longrightarrow> we_row_idx e < length (tb_version_chains t) \<longrightarrow>
        find (\<lambda>v. rv_txid_max v = u64_MAX) (rev (tb_version_chains t ! we_row_idx e)) = Some v \<longrightarrow>
        rv_txid_min v \<notin> sn_active (tx_snapshot tx))"
  by (auto simp: conflict_of_entry_def split: option.splits)

lemma find_unended_last:
  "rv_txid_max (last c) = u64_MAX \<Longrightarrow> c \<noteq> [] \<Longrightarrow> find (\<lambda>v. rv_txid_max v = u64_MAX) (rev c) = Some (last c)"
  by (cases c rule: rev_cases) auto

lemma check_conflicts_ok:
  assumes "\<forall>e \<in> set (tx_write_set tx). \<forall>t. tables (we_table_name e) = Some t \<longrightarrow>
      (\<forall>c \<in> set (tb_version_chains t). c \<noteq> [] \<and> rv_txid_max (last c) = u64_MAX)"
  shows "check_conflicts tx tables = Inr () \<longleftrightarrow>
    (\<forall>e \<in> set (tx_write_set tx). \<forall>t. tables (we_table_name e) = Some t \<longrightarrow>
       we_row_idx e < length (tb_version_chains t) \<longrightarrow>
       rv_txid_min (last (tb_version_chains t ! we_row_idx e)) \<notin> sn_active (tx_snapshot tx))"
proof -
  have "conflict_of_entry tx tables e = Inr () \<longleftrightarrow> (\<forall>t. tables (we_table_name e) = Some t \<longrightarrow>
       we_row_idx e < length (tb_version_chains t) \<longrightarrow>
       rv_txid_min (last (tb_version_chains t ! we_row_idx e)) \<notin> sn_active (tx_snapshot tx))"
    if "e \<in> set (tx_write_set tx)" for e
    using assms that by (auto simp: conflict_of_entry_ok find_unended_last)
  then show ?thesis by (simp add: check_conflicts_def try_fold_unit)
qed

subsection \<open>Properties\<close>

text \<open>C10: whatever the threads do between the three steps of \<open>begin_transaction\<close>, two transactions in
  progress never have the same identifier, no identifier reaches the next one to be given out, and
  the active set is exactly the running transactions together with 0.\<close>
theorem transaction_ids_unique:
  assumes "thread_step\<^sup>*\<^sup>* (threads_init n) s"
  shows "(th_phase s i = Running x A \<and> th_phase s j = Running x B \<longrightarrow> i = j) \<and>
    (th_phase s i = Running x A \<longrightarrow> 0 < x \<and> x < mv_next_txid (th_store s)) \<and>
    mv_active_txns (th_store s) = insert 0 {y. \<exists>k B. th_phase s k = Running y B}"
proof -
  have ok: "ids_ok (mv_next_txid (th_store s)) (th_phase s)"
    and act: "mv_active_txns (th_store s) = insert 0 (running_ids (th_phase s))"
    using threads_ok_reachable [OF assms] by (simp_all add: threads_ok_def)
  show ?thesis
    using runningD [OF ok, of i x A] act by (auto simp: running_ids_def)
qed

theorem transaction_ids_unique_witness:
  "\<exists>s. thread_step\<^sup>*\<^sup>* (threads_init 5) s \<and> th_phase s 0 = Running 5 {0} \<and>
     mv_active_txns (th_store s) = insert 0 {y. \<exists>k B. th_phase s k = Running y B}"
proof -
  have start: "mv_next_txid (th_store (threads_init 5)) = 5" "mv_active_txns (th_store (threads_init 5)) = {0}"
    by (simp_all add: threads_init_def with_start_id_def)
  obtain tx m where b: "begin_transaction (th_store (threads_init 5)) = (tx, m)" by fastforce
  let ?s = "set_phase 0 (Running (tx_id tx) (sn_active (tx_snapshot tx))) ((threads_init 5)\<lparr>th_store := m\<rparr>)"
  have "atomic_step (threads_init 5) ?s"
    by (rule atomic_step.begins [OF _ _ b]) (simp_all add: threads_init_def with_start_id_def)
  then have r: "thread_step\<^sup>*\<^sup>* (threads_init 5) ?s" by (rule atomic_step_is_three)
  have "th_phase ?s 0 = Running 5 {0}"
    using begin_transaction_simps [of "th_store (threads_init 5)"] b start by simp
  then show ?thesis using transaction_ids_unique [OF r] r by blast
qed

text \<open>when \<open>begin_transaction\<close> is not interrupted, the snapshot of a running transaction holds
  every older transaction that is still running, so none of their writes is visible to it.\<close>
theorem snapshot_holds_older_running:
  assumes "atomic_step\<^sup>*\<^sup>* (threads_init n) s"
    and "th_phase s i = Running x A" "th_phase s j = Running y B" "y < x" "rv_txid_min v = y"
  shows "y \<in> A \<and> \<not> is_version_visible v x A"
proof -
  have "y \<in> A" using atomic_reachable_ok [OF assms(1)] assms(2-4) unfolding snapshots_ok_def by blast
  then show ?thesis using assms(4,5) by (auto simp: visible_iff)
qed

text \<open>Two transactions begun one after the other.\<close>

lemma two_begins:
  "\<exists>s. atomic_step\<^sup>*\<^sup>* (threads_init 1) s \<and> th_phase s 0 = Running 1 {0} \<and> th_phase s 1 = Running 2 {0, 1}"
proof -
  let ?m0 = "with_start_id 1"
  obtain tx m where b: "begin_transaction ?m0 = (tx, m)" by fastforce
  obtain tx' m' where b': "begin_transaction m = (tx', m')" by fastforce
  let ?s1 = "set_phase 0 (Running (tx_id tx) (sn_active (tx_snapshot tx))) ((threads_init 1)\<lparr>th_store := m\<rparr>)"
  let ?s2 = "set_phase 1 (Running (tx_id tx') (sn_active (tx_snapshot tx'))) (?s1\<lparr>th_store := m'\<rparr>)"
  have m0: "mv_next_txid ?m0 = 1" "mv_active_txns ?m0 = {0}" by (simp_all add: with_start_id_def)
  have m: "mv_next_txid m = 2" "mv_active_txns m = {0, 1}"
    using begin_transaction_simps [of ?m0] b m0 by auto
  have tx: "tx_id tx = 1" "sn_active (tx_snapshot tx) = {0}"
    using begin_transaction_simps [of ?m0] b m0 by auto
  have tx': "tx_id tx' = 2" "sn_active (tx_snapshot tx') = {0, 1}"
    using begin_transaction_simps [of m] b' m by auto
  have "atomic_step (threads_init 1) ?s1"
    by (rule atomic_step.begins) (use b m0 in \<open>simp_all add: threads_init_def\<close>)
  moreover have "atomic_step ?s1 ?s2"
    by (rule atomic_step.begins) (use b' m in \<open>simp_all add: threads_init_def\<close>)
  ultimately have "atomic_step\<^sup>*\<^sup>* (threads_init 1) ?s2" by simp
  moreover have "th_phase ?s2 0 = Running 1 {0}" "th_phase ?s2 1 = Running 2 {0, 1}"
    using tx tx' by (simp_all add: set_phase_def)
  ultimately show ?thesis by blast
qed

theorem snapshot_holds_older_running_witness:
  "\<exists>A. (1::u64) \<in> A \<and> \<not> is_version_visible (new_insert 1 \<lparr>row_values = []\<rparr>) 2 A"
proof -
  obtain s where s: "atomic_step\<^sup>*\<^sup>* (threads_init 1) s" "th_phase s 0 = Running 1 {0}"
    "th_phase s 1 = Running 2 {0, 1}" using two_begins by blast
  show ?thesis
    using snapshot_holds_older_running [OF s(1,3,2), of "new_insert 1 \<lparr>row_values = []\<rparr>"]
    by (auto simp: new_insert_def)
qed

text \<open>interrupted, it does not: a transaction can be running with identifier 1, unknown to the
  snapshot of transaction 2 that runs beside it, because transaction 2 read the active set between
  the moment 1 took its identifier and the moment it joined the set. What transaction 1 writes is
  visible to transaction 2 although it had not committed when 2 began.\<close>
theorem begin_race:
  "\<exists>s A B. thread_step\<^sup>*\<^sup>* (threads_init 1) s \<and> th_phase s 0 = Running 1 A \<and> th_phase s 1 = Running 2 B \<and>
     1 \<notin> B \<and> is_version_visible (new_insert 1 r) 2 B"
proof -
  let ?s0 = "threads_init 1"
  let ?s1 = "set_phase 0 (Fetched 1) (?s0\<lparr>th_store := \<lparr>mv_next_txid = 2, mv_active_txns = {0}\<rparr>\<rparr>)"
  let ?s2 = "set_phase 1 (Fetched 2) (?s1\<lparr>th_store := \<lparr>mv_next_txid = 3, mv_active_txns = {0}\<rparr>\<rparr>)"
  let ?s3 = "set_phase 1 (HasActive 2 (read_active (th_store ?s2))) ?s2"
  let ?s4 = "set_phase 1 (Running 2 (read_active (th_store ?s2))) (?s3\<lparr>th_store := add_active 2 (th_store ?s3)\<rparr>)"
  let ?s5 = "set_phase 0 (HasActive 1 (read_active (th_store ?s4))) ?s4"
  let ?s6 = "set_phase 0 (Running 1 (read_active (th_store ?s4))) (?s5\<lparr>th_store := add_active 1 (th_store ?s5)\<rparr>)"
  have 1: "thread_step ?s0 ?s1"
    by (rule thread_step.fetch) (simp_all add: threads_init_def with_start_id_def fetch_txid_def)
  have 2: "thread_step ?s1 ?s2"
    by (rule thread_step.fetch) (simp_all add: threads_init_def fetch_txid_def)
  have 3: "thread_step ?s2 ?s3" by (rule thread_step.read) simp
  have 4: "thread_step ?s3 ?s4" by (rule thread_step.add) simp
  have 5: "thread_step ?s4 ?s5" by (rule thread_step.read) (simp add: set_phase_def)
  have 6: "thread_step ?s5 ?s6" by (rule thread_step.add) simp
  have "thread_step\<^sup>*\<^sup>* ?s0 ?s6"
    using 1 2 3 4 5 6 by (meson converse_rtranclp_into_rtranclp rtranclp.rtrancl_refl)
  moreover have "th_phase ?s6 0 = Running 1 (read_active (th_store ?s4))" "th_phase ?s6 1 = Running 2 {0}"
    by (simp_all add: set_phase_def read_active_def)
  moreover have "is_version_visible (new_insert 1 r) 2 {0}"
    by (simp add: is_version_visible_def new_insert_def)
  ultimately show ?thesis
    by (intro exI [of _ ?s6] exI [of _ "read_active (th_store ?s4)"] exI [of _ "{0}"]) simp
qed

text \<open>C9: the conflict check before a commit. On chains whose newest version has not ended, it passes
  exactly when no row of the write set has a newest version written by a transaction that was
  active at the snapshot: the first of two overlapping writers that were active at each other's
  start wins.\<close>
theorem check_conflicts_first_committer:
  assumes "\<forall>e \<in> set (tx_write_set tx). \<forall>t. tables (we_table_name e) = Some t \<longrightarrow>
      (\<forall>c \<in> set (tb_version_chains t). c \<noteq> [] \<and> rv_txid_max (last c) = u64_MAX)"
  shows "check_conflicts tx tables = Inr () \<longleftrightarrow>
    (\<forall>e \<in> set (tx_write_set tx). \<forall>t. tables (we_table_name e) = Some t \<longrightarrow>
       we_row_idx e < length (tb_version_chains t) \<longrightarrow>
       rv_txid_min (last (tb_version_chains t ! we_row_idx e)) \<notin> sn_active (tx_snapshot tx))"
  using check_conflicts_ok [OF assms] .

definition update_entry :: "nat \<Rightarrow> row \<Rightarrow> write_entry" where
  "update_entry i r = \<lparr>we_table_name = ''t'', we_row_idx = i, we_old_txid_max = u64_MAX, we_operation = Update r\<rparr>"

definition sample_tx :: "u64 \<Rightarrow> u64 set \<Rightarrow> write_entry list \<Rightarrow> transaction" where
  "sample_tx txid active ws =
     \<lparr>tx_id = txid, tx_status = InProgress, tx_snapshot = \<lparr>sn_txid = txid, sn_active = active\<rparr>, tx_write_set = ws\<rparr>"

definition sample_db :: "string \<rightharpoonup> table" where
  "sample_db name = (if name = ''t'' then Some sample_table else None)"

lemma sample_db_t: "sample_db ''t'' = Some sample_table"
  by (simp add: sample_db_def)

theorem check_conflicts_first_committer_witness:
  "check_conflicts (sample_tx 4 {0, 3} [update_entry 0 \<lparr>row_values = []\<rparr>]) sample_db \<noteq> Inr ()"
proof -
  let ?tx = "sample_tx 4 {0, 3} [update_entry 0 \<lparr>row_values = []\<rparr>]"
  have ends: "\<forall>c \<in> set (tb_version_chains sample_table). c \<noteq> [] \<and> rv_txid_max (last c) = u64_MAX" by code_simp
  have h: "\<forall>e \<in> set (tx_write_set ?tx). \<forall>t. sample_db (we_table_name e) = Some t \<longrightarrow>
      (\<forall>c \<in> set (tb_version_chains t). c \<noteq> [] \<and> rv_txid_max (last c) = u64_MAX)"
    using ends by (simp add: sample_tx_def update_entry_def sample_db_t)
  have "rv_txid_min (last (tb_version_chains sample_table ! 0)) = 3" "0 < length (tb_version_chains sample_table)"
    by code_simp+
  then show ?thesis
    using check_conflicts_first_committer [OF h] by (simp add: sample_tx_def update_entry_def sample_db_t)
qed

text \<open>a lost update. A transaction that began later and committed first is not in the snapshot of
  the earlier one, so the conflict check lets the earlier one overwrite it; afterwards the version
  of the later transaction ends before it starts, and no snapshot sees it.\<close>
theorem lost_update:
  assumes "rv_txid_min w = u" "rv_txid_max w = u64_MAX" "tx_id tx < u" "u \<notin> sn_active (tx_snapshot tx)"
    and "tables ''t'' = Some t" "tb_version_chains t = [push_version u w c]"
    and "tx_write_set tx = [update_entry 0 r]"
  shows "check_conflicts tx tables = Inr () \<and>
    apply_write_set (tx_write_set tx) tables (tx_id tx) ''t'' =
      Some [push_version (tx_id tx) (new_update (tx_id tx) r) (push_version u w c)] \<and>
    w\<lparr>rv_txid_max := tx_id tx\<rparr> \<in> set (push_version (tx_id tx) (new_update (tx_id tx) r) (push_version u w c)) \<and>
    (\<forall>s A. \<not> is_version_visible (w\<lparr>rv_txid_max := tx_id tx\<rparr>) s A)"
proof -
  obtain c' where c': "push_version u w c = c' @ [w]" by (auto simp: push_version_def)
  have check: "check_conflicts tx tables = Inr ()"
    by (subst check_conflicts_ok) (use assms in \<open>auto simp: update_entry_def\<close>)
  have "apply_write_set (tx_write_set tx) tables (tx_id tx) ''t'' =
      Some [push_version (tx_id tx) (new_update (tx_id tx) r) (push_version u w c)]"
    using assms by (simp add: apply_write_set_def collect_changes_conv update_entry_def change_of_entry_def
        apply_change_def map_filter_simps)
  moreover have "\<not> is_version_visible (w\<lparr>rv_txid_max := tx_id tx\<rparr>) s A" for s A
    using assms(1,3) by (auto simp: visible_iff in_force_def)
  ultimately show ?thesis using check c' by simp
qed

theorem lost_update_witness:
  "check_conflicts (sample_tx 2 {0} [update_entry 0 \<lparr>row_values = [DInteger 2, DNull]\<rparr>]) sample_db = Inr ()"
proof -
  let ?r3 = "\<lparr>row_values = [DInteger 1, DText ''b'']\<rparr>"
  have "tb_version_chains sample_table =
      [push_version 3 (new_update 3 ?r3) [new_insert 1 \<lparr>row_values = [DInteger 1, DText ''a'']\<rparr>]]"
    by (simp add: sample_table_def)
  then show ?thesis
    using lost_update [of "new_update 3 ?r3" 3 "sample_tx 2 {0} [update_entry 0 \<lparr>row_values = [DInteger 2, DNull]\<rparr>]"
        sample_db sample_table]
    by (simp add: sample_tx_def new_update_def sample_db_t)
qed

text \<open>C2: what a commit does to the rows of a table. The new chain of every row is well formed; a
  reader with an older snapshot sees the row it saw; a row without an entry keeps its chain; and a
  reader from the commit on (not counting the writer as active) sees the row as the last entry for
  it says: the row it wrote, or nothing after a deletion.\<close>
theorem apply_write_set_rows:
  assumes "tables name = Some t" "\<forall>c \<in> set (tb_version_chains t). chain_before txid c" "txid \<noteq> u64_MAX"
    and "\<forall>e \<in> set ws. we_table_name e = name \<longrightarrow> we_row_idx e < length (tb_version_chains t)"
    and "\<exists>e \<in> set ws. we_table_name e = name"
  shows "\<exists>cs. apply_write_set ws tables txid name = Some cs \<and> length cs = length (tb_version_chains t) \<and>
    (\<forall>i < length cs. chain_ok (cs ! i) \<and>
      (\<forall>s A. s < txid \<longrightarrow> map_option rv_row (latest_visible (cs ! i) s A) =
         map_option rv_row (latest_visible (tb_version_chains t ! i) s A)) \<and>
      (entries_for name i ws = [] \<longrightarrow> cs ! i = tb_version_chains t ! i) \<and>
      (\<forall>s A. entries_for name i ws \<noteq> [] \<and> txid \<le> s \<and> (txid \<notin> A \<or> txid = s) \<longrightarrow>
         map_option rv_row (latest_visible (cs ! i) s A) = op_row (we_operation (last (entries_for name i ws)))))"
proof -
  obtain cs where cs: "apply_write_set ws tables txid name = Some cs" "length cs = length (tb_version_chains t)"
    and chain: "\<And>i. i < length cs \<Longrightarrow> cs ! i =
       push_versions txid (tb_version_chains t ! i) (map (version_of t txid) (entries_for name i ws))"
    using apply_write_set_chains [of tables name t ws txid] assms(1,2,4,5) by (auto simp: chain_before_def)
  have w: "writes_of txid (map (version_of t txid) es)" for es by (auto simp: writes_of_def)
  have "chain_ok (cs ! i) \<and>
      (\<forall>s A. s < txid \<longrightarrow> map_option rv_row (latest_visible (cs ! i) s A) =
         map_option rv_row (latest_visible (tb_version_chains t ! i) s A)) \<and>
      (entries_for name i ws = [] \<longrightarrow> cs ! i = tb_version_chains t ! i) \<and>
      (\<forall>s A. entries_for name i ws \<noteq> [] \<and> txid \<le> s \<and> (txid \<notin> A \<or> txid = s) \<longrightarrow>
         map_option rv_row (latest_visible (cs ! i) s A) = op_row (we_operation (last (entries_for name i ws))))"
    if "i < length cs" for i
  proof -
    let ?vs = "map (version_of t txid) (entries_for name i ws)"
    have b: "chain_before txid (tb_version_chains t ! i)" using assms(2) that cs(2) by simp
    have "map_option rv_row (latest_visible (cs ! i) s A) = op_row (we_operation (last (entries_for name i ws)))"
      if "entries_for name i ws \<noteq> []" "txid \<le> s" "txid \<notin> A \<or> txid = s" for s A
      using pushes_visible_after [OF b w assms(3) _ that(2,3), of "entries_for name i ws"] that(1)
        version_of_simps(3) [of t txid "last (entries_for name i ws)"]
      by (simp add: chain [OF \<open>i < length cs\<close>] last_map del: version_of_simps(3) split: if_splits)
    moreover have "chain_ok (cs ! i)"
      using chain_before_pushes [OF b w assms(3)] by (simp add: chain [OF \<open>i < length cs\<close>] chain_before_def)
    ultimately show ?thesis
      using pushes_invisible_before [OF b w assms(3)] by (simp add: chain [OF \<open>i < length cs\<close>])
  qed
  then show ?thesis using cs by blast
qed

theorem apply_write_set_rows_witness:
  "\<exists>cs. apply_write_set [update_entry 0 \<lparr>row_values = [DNull]\<rparr>] sample_db 5 ''t'' = Some cs \<and>
     map_option rv_row (latest_visible (cs ! 0) 6 {}) = Some \<lparr>row_values = [DNull]\<rparr>"
proof -
  let ?ws = "[update_entry 0 \<lparr>row_values = [DNull]\<rparr>]"
  have ch: "tb_version_chains sample_table =
      [push_version 3 (new_update 3 \<lparr>row_values = [DInteger 1, DText ''b'']\<rparr>)
        [new_insert 1 \<lparr>row_values = [DInteger 1, DText ''a'']\<rparr>]]"
    by (simp add: sample_table_def)
  have before: "\<forall>c \<in> set (tb_version_chains sample_table). chain_before 5 c"
    unfolding ch chain_before_def by (simp add: push_version_def new_insert_def new_update_def)
  have range: "\<forall>e \<in> set ?ws. we_table_name e = ''t'' \<longrightarrow> we_row_idx e < length (tb_version_chains sample_table)"
    "\<exists>e \<in> set ?ws. we_table_name e = ''t''"
    by (simp_all add: ch update_entry_def)
  have es: "entries_for ''t'' 0 ?ws = ?ws" by (simp add: entries_for_def update_entry_def)
  show ?thesis
    using apply_write_set_rows [of sample_db "''t''" sample_table 5 ?ws] sample_db_t before range ch es
    by (fastforce simp: update_entry_def)
qed

text \<open>two insertions that were prepared on the same table. Both entries carry the position after
  the last row; once the first is committed, the second replaces its row instead of adding one, and
  the conflict check does not notice when the first writer is not in the second one's snapshot (it
  committed before the second began, or is younger).\<close>
theorem insert_overwrites_insert:
  assumes "tables name = Some t" "n = length (tb_version_chains t)"
    and "e1 = \<lparr>we_table_name = name, we_row_idx = n, we_old_txid_max = u64_MAX, we_operation = Insert r1\<rparr>"
    and "e2 = \<lparr>we_table_name = name, we_row_idx = n, we_old_txid_max = u64_MAX, we_operation = Insert r2\<rparr>"
    and "tables1 = tables(name \<mapsto> t\<lparr>tb_version_chains := tb_version_chains t @ [[new_insert x1 r1]]\<rparr>)"
    and "tx_write_set tx = [e2]" "x1 \<notin> sn_active (tx_snapshot tx)"
  shows "apply_write_set [e1] tables x1 name = Some (tb_version_chains t @ [[new_insert x1 r1]]) \<and>
    check_conflicts tx tables1 = Inr () \<and>
    apply_write_set [e2] tables1 (tx_id tx) name =
      Some (tb_version_chains t @ [[(new_insert x1 r1)\<lparr>rv_txid_max := tx_id tx\<rparr>, new_insert (tx_id tx) r2]])"
proof -
  have "check_conflicts tx tables1 = Inr ()"
    using assms(2-7) by (simp add: check_conflicts_def conflict_of_entry_def nth_append new_insert_def)
  moreover have "apply_write_set [e1] tables x1 name = Some (tb_version_chains t @ [[new_insert x1 r1]])"
    using assms(1-3) by (simp add: apply_write_set_def collect_changes_conv change_of_entry_def
        apply_change_def map_filter_simps)
  moreover have "apply_write_set [e2] tables1 (tx_id tx) name =
      Some (tb_version_chains t @ [[(new_insert x1 r1)\<lparr>rv_txid_max := tx_id tx\<rparr>, new_insert (tx_id tx) r2]])"
    using assms(2,4,5) by (simp add: apply_write_set_def collect_changes_conv change_of_entry_def
        apply_change_def map_filter_simps nth_append push_version_def)
  ultimately show ?thesis by blast
qed

definition insert_entry_at :: "nat \<Rightarrow> row \<Rightarrow> write_entry" where
  "insert_entry_at i r = \<lparr>we_table_name = ''t'', we_row_idx = i, we_old_txid_max = u64_MAX, we_operation = Insert r\<rparr>"

theorem insert_overwrites_insert_witness:
  "check_conflicts (sample_tx 6 {0} [insert_entry_at 1 \<lparr>row_values = [DNull]\<rparr>])
     (sample_db(''t'' \<mapsto> sample_table\<lparr>tb_version_chains := tb_version_chains sample_table @
        [[new_insert 5 \<lparr>row_values = []\<rparr>]]\<rparr>)) = Inr ()"
proof -
  have n: "(1::nat) = length (tb_version_chains sample_table)" by code_simp
  let ?tx = "sample_tx 6 {0} [insert_entry_at 1 \<lparr>row_values = [DNull]\<rparr>]"
  note race = insert_overwrites_insert [of sample_db "''t''" sample_table 1 _ "\<lparr>row_values = []\<rparr>" _
      "\<lparr>row_values = [DNull]\<rparr>" _ 5 ?tx, OF sample_db_t n refl refl refl]
  show ?thesis
    by (rule race [THEN conjunct2, THEN conjunct1]) (simp_all add: sample_tx_def insert_entry_at_def)
qed

end
