(* ===== verification/Storage_Engine.thy ===== *)
theory Storage_Engine
  imports Mvcc
begin

text \<open>
  The storage engines: the trait (\<open>src/src/storage/engine_trait.rs\<close>) as the locale
  \<open>storage_engine\<close>, the memory engine (\<open>engines/memory.rs\<close>), the disk engine
  (\<open>engines/disk.rs\<close>) with the files of its directory, and the dynamic dispatch between the
  two, each interpreted.

  An operation of the file system may fail: the argument \<open>fault\<close> names the step of the operation
  that fails and the message, and earlier steps keep their effect. What a file holds is the value
  serialised into it.
\<close>

record table_meta =
  tm_name :: string
  tm_engine :: string
  tm_created_at :: u64

definition normalize_engine_name :: "string \<Rightarrow> string" where
  "normalize_engine_name engine = to_lowercase (trim engine)"

definition table_meta_new :: "u64 \<Rightarrow> string \<Rightarrow> string \<Rightarrow> table_meta" where
  "table_meta_new now name engine =
     \<lparr>tm_name = name, tm_engine = normalize_engine_name engine, tm_created_at = now\<rparr>"

type_synonym changes = "(nat \<times> row_version) list"

type_synonym fault = "(nat \<times> string) option"

definition fails_at :: "fault \<Rightarrow> nat \<Rightarrow> string option" where
  "fails_at fault step = (case fault of None \<Rightarrow> None | Some (n, e) \<Rightarrow> if n = step then Some e else None)"

text \<open>The old newest version ends at the new version's start.\<close>

definition apply_changes :: "table \<Rightarrow> changes \<Rightarrow> table" where
  "apply_changes t chs =
     t\<lparr>tb_version_chains :=
         foldl (\<lambda>cs (row_idx, version). apply_change (rv_txid_min version) cs (row_idx, version))
           (tb_version_chains t) chs\<rparr>"

subsection \<open>The trait\<close>

locale storage_engine =
  fixes tables_of :: "'s \<Rightarrow> (string \<rightharpoonup> table)"
    and create :: "fault \<Rightarrow> table_meta \<Rightarrow> column_meta list \<Rightarrow> 's \<Rightarrow> 's \<times> unit res"
    and remove :: "fault \<Rightarrow> string \<Rightarrow> 's \<Rightarrow> 's \<times> unit res"
    and store :: "fault \<Rightarrow> string \<Rightarrow> changes \<Rightarrow> 's \<Rightarrow> 's \<times> unit res"
    and restore :: "fault \<Rightarrow> table \<Rightarrow> 's \<Rightarrow> 's \<times> unit res"
  assumes create_ok: "create f m cols s = (s', Inr u) \<Longrightarrow>
            tables_of s' = (tables_of s)(tm_name m \<mapsto> table_new (tm_name m) cols)"
    and create_err: "create f m cols s = (s', Inl e) \<Longrightarrow> tables_of s' = tables_of s"
    and remove_any: "remove f name s = (s', r) \<Longrightarrow> tables_of s' = (tables_of s)(name := None)"
    and write_ok: "store f name chs s = (s', Inr u) \<Longrightarrow>
            \<exists>t. tables_of s name = Some t \<and> tables_of s' = (tables_of s)(name \<mapsto> apply_changes t chs)"
    and write_err: "store f name chs s = (s', Inl e) \<Longrightarrow> tables_of s' = tables_of s"
    and restore_ok: "restore f t s = (s', Inr u) \<Longrightarrow> tables_of s' = (tables_of s)(tb_name t \<mapsto> t)"
    and restore_err: "restore f t s = (s', Inl e) \<Longrightarrow> tables_of s' = tables_of s"
begin

lemma other_table:
  assumes "n \<noteq> name"
  shows "tables_of (fst (create f (m\<lparr>tm_name := name\<rparr>) cols s)) n = tables_of s n"
    "tables_of (fst (remove f name s)) n = tables_of s n"
    "tables_of (fst (store f name chs s)) n = tables_of s n"
    "tb_name t = name \<Longrightarrow> tables_of (fst (restore f t s)) n = tables_of s n"
proof -
  obtain s1 r1 where 1: "create f (m\<lparr>tm_name := name\<rparr>) cols s = (s1, r1)" by fastforce
  obtain s2 r2 where 2: "remove f name s = (s2, r2)" by fastforce
  obtain s3 r3 where 3: "store f name chs s = (s3, r3)" by fastforce
  obtain s4 r4 where 4: "restore f t s = (s4, r4)" by fastforce
  show "tables_of (fst (create f (m\<lparr>tm_name := name\<rparr>) cols s)) n = tables_of s n"
    using 1 assms create_ok [of f _ cols s s1] create_err [of f _ cols s s1] by (cases r1) auto
  show "tables_of (fst (remove f name s)) n = tables_of s n"
    using remove_any [OF 2] 2 assms by simp
  show "tables_of (fst (store f name chs s)) n = tables_of s n"
    using 3 assms write_ok [of f name chs s s3] write_err [of f name chs s s3] by (cases r3) fastforce+
  show "tables_of (fst (restore f t s)) n = tables_of s n" if "tb_name t = name"
    using 4 assms that restore_ok [of f t s s4] restore_err [of f t s s4] by (cases r4) auto
qed

text \<open>Creating a table and restoring a snapshot into it gives the snapshot, all or nothing.\<close>

lemma create_then_restore:
  assumes "create f m cols s = (s1, Inr u)" "restore g t s1 = (s2, r)" "tm_name m = tb_name t"
  shows "tables_of s2 = (tables_of s)(tb_name t \<mapsto> (case r of Inl _ \<Rightarrow> table_new (tb_name t) cols | Inr _ \<Rightarrow> t))"
  using create_ok [OF assms(1)] restore_ok [of g t s1 s2] restore_err [of g t s1 s2] assms(2,3)
  by (cases r) auto

end

subsection \<open>The memory engine\<close>

record memory_engine =
  me_tables :: "string \<rightharpoonup> table"

definition memory_new :: memory_engine where
  "memory_new = \<lparr>me_tables = Map.empty\<rparr>"

definition memory_create_table :: "fault \<Rightarrow> table_meta \<Rightarrow> column_meta list \<Rightarrow> memory_engine \<Rightarrow> memory_engine \<times> unit res" where
  "memory_create_table fault meta columns s =
     (s\<lparr>me_tables := (me_tables s)(tm_name meta \<mapsto> table_new (tm_name meta) columns)\<rparr>, Inr ())"

definition memory_drop_table :: "fault \<Rightarrow> string \<Rightarrow> memory_engine \<Rightarrow> memory_engine \<times> unit res" where
  "memory_drop_table fault name s = (s\<lparr>me_tables := (me_tables s)(name := None)\<rparr>, Inr ())"

definition memory_table_exists :: "memory_engine \<Rightarrow> string \<Rightarrow> bool" where
  "memory_table_exists s name = (me_tables s name \<noteq> None)"

definition memory_get_table :: "memory_engine \<Rightarrow> string \<Rightarrow> table res" where
  "memory_get_table s name = (case me_tables s name of None \<Rightarrow> Inl (TableNotFound name) | Some t \<Rightarrow> Inr t)"

definition memory_scan_visible :: "memory_engine \<Rightarrow> string \<Rightarrow> u64 \<Rightarrow> u64 set \<Rightarrow> (nat \<times> row) list res" where
  "memory_scan_visible s name snapshot_txid active =
     (case me_tables s name of None \<Rightarrow> Inl (TableNotFound name) | Some t \<Rightarrow> Inr (scan_visible t snapshot_txid active))"

definition memory_row_count :: "memory_engine \<Rightarrow> string \<Rightarrow> nat res" where
  "memory_row_count s name = (case me_tables s name of None \<Rightarrow> Inl (TableNotFound name) | Some t \<Rightarrow> Inr (row_count t))"

definition memory_snapshot_table :: "memory_engine \<Rightarrow> string \<Rightarrow> table res" where
  "memory_snapshot_table s name = (case me_tables s name of None \<Rightarrow> Inl (TableNotFound name) | Some t \<Rightarrow> Inr t)"

definition memory_apply_write_set :: "fault \<Rightarrow> string \<Rightarrow> changes \<Rightarrow> memory_engine \<Rightarrow> memory_engine \<times> unit res" where
  "memory_apply_write_set fault name chs s =
     (case me_tables s name of
        None \<Rightarrow> (s, Inl (TableNotFound name))
      | Some t \<Rightarrow> (s\<lparr>me_tables := (me_tables s)(name \<mapsto> apply_changes t chs)\<rparr>, Inr ()))"

definition memory_restore_table :: "fault \<Rightarrow> table \<Rightarrow> memory_engine \<Rightarrow> memory_engine \<times> unit res" where
  "memory_restore_table fault t s = (s\<lparr>me_tables := (me_tables s)(tb_name t \<mapsto> t)\<rparr>, Inr ())"

interpretation mem: storage_engine me_tables memory_create_table memory_drop_table
  memory_apply_write_set memory_restore_table
  by unfold_locales
    (auto simp: memory_create_table_def memory_drop_table_def memory_apply_write_set_def
      memory_restore_table_def split: option.splits)

subsection \<open>The disk engine\<close>

text \<open>The directory of a table: \<open>meta.bin\<close>, the \<open>base_\<close> and the \<open>delta_\<close> files by the transaction
  in their name, and the \<open>table.bin\<close> of the old format.\<close>

record disk_dir =
  dd_meta :: "(string \<times> column_meta list) option"
  dd_bases :: "(u64, table) omap"
  dd_deltas :: "(u64, changes) omap"
  dd_old :: "table option"

definition empty_dir :: disk_dir where
  "empty_dir = \<lparr>dd_meta = None, dd_bases = om_empty, dd_deltas = om_empty, dd_old = None\<rparr>"

record disk_engine =
  de_tables :: "string \<rightharpoonup> table"
  de_dirs :: "string \<rightharpoonup> disk_dir"
  de_next_delta_id :: u64

definition the_dir :: "disk_engine \<Rightarrow> string \<Rightarrow> disk_dir" where
  "the_dir s name = (case de_dirs s name of None \<Rightarrow> empty_dir | Some d \<Rightarrow> d)"

definition set_dir :: "string \<Rightarrow> disk_dir \<Rightarrow> disk_engine \<Rightarrow> disk_engine" where
  "set_dir name d s = s\<lparr>de_dirs := (de_dirs s)(name \<mapsto> d)\<rparr>"

definition set_table :: "string \<Rightarrow> table \<Rightarrow> disk_engine \<Rightarrow> disk_engine" where
  "set_table name t s = s\<lparr>de_tables := (de_tables s)(name \<mapsto> t)\<rparr>"

text \<open>\<open>create_dir_all\<close> keeps a directory that exists.\<close>

definition ensure_dir :: "string \<Rightarrow> disk_engine \<Rightarrow> disk_engine" where
  "ensure_dir name s = set_dir name (the_dir s name) s"

definition write_meta :: "string \<Rightarrow> column_meta list \<Rightarrow> disk_engine \<Rightarrow> disk_engine" where
  "write_meta name columns s = set_dir name ((the_dir s name)\<lparr>dd_meta := Some (name, columns)\<rparr>) s"

definition disk_create_table :: "fault \<Rightarrow> table_meta \<Rightarrow> column_meta list \<Rightarrow> disk_engine \<Rightarrow> disk_engine \<times> unit res" where
  "disk_create_table fault meta columns s =
     (case fails_at fault 0 of
        Some e \<Rightarrow> (s, Inl (Io e))
      | None \<Rightarrow>
          let s1 = ensure_dir (tm_name meta) s in
          (case fails_at fault 1 of
             Some e \<Rightarrow> (s1, Inl (Serialization e))
           | None \<Rightarrow>
               (case fails_at fault 2 of
                  Some e \<Rightarrow> (s1, Inl (Io e))
                | None \<Rightarrow>
                    (set_table (tm_name meta) (table_new (tm_name meta) columns)
                       (write_meta (tm_name meta) columns s1), Inr ()))))"

definition disk_drop_table :: "fault \<Rightarrow> string \<Rightarrow> disk_engine \<Rightarrow> disk_engine \<times> unit res" where
  "disk_drop_table fault name s =
     (let s1 = s\<lparr>de_tables := (de_tables s)(name := None)\<rparr> in
      if de_dirs s1 name = None then (s1, Inr ())
      else (case fails_at fault 0 of
              Some e \<Rightarrow> (s1, Inl (Io e))
            | None \<Rightarrow> (s1\<lparr>de_dirs := (de_dirs s1)(name := None)\<rparr>, Inr ())))"

definition max_txid_min :: "changes \<Rightarrow> u64 option" where
  "max_txid_min chs =
     (case map (rv_txid_min \<circ> snd) chs of [] \<Rightarrow> None | x # xs \<Rightarrow> Some (foldl max x xs))"

text \<open>
  Steps: 0 creates the directory, 1 serialises, 2 creates, 3 writes, 4 syncs and 5 renames the
  temporary file. A delta that exists already is left alone.
\<close>

definition first_failure :: "fault \<Rightarrow> nat list \<Rightarrow> string option" where
  "first_failure fault steps =
     (case fault of None \<Rightarrow> None | Some (n, e) \<Rightarrow> if n \<in> set steps then Some e else None)"

definition write_delta :: "fault \<Rightarrow> string \<Rightarrow> changes \<Rightarrow> u64 \<Rightarrow> disk_engine \<Rightarrow> disk_engine \<times> unit res" where
  "write_delta fault name chs txid s =
     (case fails_at fault 0 of
        Some e \<Rightarrow> (s, Inl (Io e))
      | None \<Rightarrow>
          let s1 = ensure_dir name s; d = the_dir s1 name in
          if om_get (dd_deltas d) txid \<noteq> None then (s1, Inr ())
          else (case fails_at fault 1 of
             Some e \<Rightarrow> (s1, Inl (Serialization e))
           | None \<Rightarrow>
               (case first_failure fault [2, 3, 4, 5] of
                  Some e \<Rightarrow> (s1, Inl (Io e))
                | None \<Rightarrow> (set_dir name (d\<lparr>dd_deltas := om_put (dd_deltas d) txid chs\<rparr>) s1, Inr ()))))"

definition disk_apply_write_set :: "fault \<Rightarrow> string \<Rightarrow> changes \<Rightarrow> disk_engine \<Rightarrow> disk_engine \<times> unit res" where
  "disk_apply_write_set fault name chs s =
     (let (txid, s0) = (case max_txid_min chs of
            Some x \<Rightarrow> (x, s)
          | None \<Rightarrow> (de_next_delta_id s, s\<lparr>de_next_delta_id := de_next_delta_id s + 1\<rparr>))
      in case write_delta fault name chs txid s0 of
           (s1, Inl e) \<Rightarrow> (s1, Inl e)
         | (s1, Inr _) \<Rightarrow>
             (case de_tables s1 name of
                None \<Rightarrow> (s1, Inl (TableNotFound name))
              | Some t \<Rightarrow> (set_table name (apply_changes t chs) s1, Inr ())))"

definition base_txid_of :: "table \<Rightarrow> u64" where
  "base_txid_of t =
     (case List.map_filter (\<lambda>c. if c = [] then None else Some (rv_txid_min (last c))) (tb_version_chains t) of
        [] \<Rightarrow> 0 | x # xs \<Rightarrow> foldl max x xs)"

definition write_base :: "string \<Rightarrow> table \<Rightarrow> disk_engine \<Rightarrow> disk_engine" where
  "write_base name t s =
     (let d = the_dir s name in set_dir name (d\<lparr>dd_bases := om_put (dd_bases d) (base_txid_of t) t\<rparr>) s)"

definition disk_restore_table :: "fault \<Rightarrow> table \<Rightarrow> disk_engine \<Rightarrow> disk_engine \<times> unit res" where
  "disk_restore_table fault t s =
     (case fails_at fault 0 of
        Some e \<Rightarrow> (s, Inl (Io e))
      | None \<Rightarrow>
          let s1 = ensure_dir (tb_name t) s in
          (case fails_at fault 1 of
             Some e \<Rightarrow> (s1, Inl (Serialization e))
           | None \<Rightarrow>
               (case fails_at fault 2 of
                  Some e \<Rightarrow> (s1, Inl (Io e))
                | None \<Rightarrow>
                    let s2 = write_meta (tb_name t) (tb_columns t) s1 in
                    (case fails_at fault 3 of
                       Some e \<Rightarrow> (s2, Inl (Serialization e))
                     | None \<Rightarrow>
                         (case first_failure fault [4, 5, 6, 7] of
                            Some e \<Rightarrow> (s2, Inl (Io e))
                          | None \<Rightarrow>
                              (set_table (tb_name t) t (write_base (tb_name t) t s2), Inr ()))))))"

text \<open>One table of a flush: the base snapshot, then the deltas are removed.\<close>

definition flush_table :: "string \<Rightarrow> disk_engine \<Rightarrow> disk_engine" where
  "flush_table name s =
     (case de_tables s name of
        None \<Rightarrow> s
      | Some t \<Rightarrow>
          let s1 = write_base name t s
          in set_dir name ((the_dir s1 name)\<lparr>dd_deltas := om_empty\<rparr>) s1)"

text \<open>
  Steps: 0 serialises the table, 1 to 4 create, write, sync and rename the temporary file, 5 reads
  the directory to clean. A delta that cannot be removed is ignored by the code; it is older than
  the base.
\<close>

definition flush_one :: "fault \<Rightarrow> string \<Rightarrow> disk_engine \<Rightarrow> disk_engine \<times> unit res" where
  "flush_one fault name s =
     (case de_tables s name of
        None \<Rightarrow> (s, Inr ())
      | Some t \<Rightarrow>
          (case fails_at fault 0 of
             Some e \<Rightarrow> (s, Inl (Serialization e))
           | None \<Rightarrow>
               (case first_failure fault [1, 2, 3, 4] of
                  Some e \<Rightarrow> (s, Inl (Io e))
                | None \<Rightarrow>
                    (case fails_at fault 5 of
                       Some e \<Rightarrow> (write_base name t s, Inl (Io e))
                     | None \<Rightarrow> (flush_table name s, Inr ())))))"

text \<open>The flush of the engine, over its tables in the order of the hash map.\<close>

fun disk_flush :: "(string \<Rightarrow> fault) \<Rightarrow> string list \<Rightarrow> disk_engine \<Rightarrow> disk_engine \<times> unit res" where
  "disk_flush faults [] s = (s, Inr ())"
| "disk_flush faults (name # names) s =
     (case flush_one (faults name) name s of
        (s', Inl e) \<Rightarrow> (s', Inl e)
      | (s', Inr _) \<Rightarrow> disk_flush faults names s')"

text \<open>Loading a directory at startup.\<close>

definition latest_base :: "disk_dir \<Rightarrow> u64" where
  "latest_base d = foldl (\<lambda>base_txid txid. if txid > base_txid then txid else base_txid) 0 (om_keys (dd_bases d))"

definition load_table_from_delta :: "disk_dir \<Rightarrow> table option" where
  "load_table_from_delta d =
     (case dd_meta d of
        None \<Rightarrow> None
      | Some (name, columns) \<Rightarrow>
          let base_txid = latest_base d;
              base = (if base_txid = 0 then table_new name columns
                      else case om_get (dd_bases d) base_txid of None \<Rightarrow> table_new name columns | Some t \<Rightarrow> t);
              deltas = filter (\<lambda>(txid, _). txid > base_txid) (dd_deltas d)
          in Some (foldl (\<lambda>t (_, chs). apply_changes t chs) base deltas))"

text \<open>A directory of the old format gets a \<open>meta.bin\<close>, and its \<open>table.bin\<close> is renamed away.\<close>

definition migrate_from_old_format :: "string \<Rightarrow> disk_dir \<Rightarrow> (table \<times> disk_dir) option" where
  "migrate_from_old_format table_name d =
     map_option (\<lambda>t. (t, d\<lparr>dd_meta := Some (table_name, tb_columns t), dd_old := None\<rparr>)) (dd_old d)"

definition load_existing_table :: "string \<Rightarrow> disk_engine \<Rightarrow> disk_engine" where
  "load_existing_table name s =
     (case de_dirs s name of
        None \<Rightarrow> s
      | Some d \<Rightarrow>
          if dd_meta d \<noteq> None then
            (case load_table_from_delta d of None \<Rightarrow> s | Some t \<Rightarrow> set_table name t s)
          else
            (case migrate_from_old_format name d of
               None \<Rightarrow> s
             | Some (t, d') \<Rightarrow> set_table name t (set_dir name d' s)))"

text \<open>Opening reads the directories in the order of the file system.\<close>

definition disk_open :: "string list \<Rightarrow> (string \<rightharpoonup> disk_dir) \<Rightarrow> disk_engine" where
  "disk_open names dirs =
     foldl (\<lambda>s name. load_existing_table name s)
       \<lparr>de_tables = Map.empty, de_dirs = dirs, de_next_delta_id = 1\<rparr> names"

definition disk_table_exists :: "disk_engine \<Rightarrow> string \<Rightarrow> bool" where
  "disk_table_exists s name = (de_tables s name \<noteq> None)"

definition disk_get_table :: "disk_engine \<Rightarrow> string \<Rightarrow> table res" where
  "disk_get_table s name = (case de_tables s name of None \<Rightarrow> Inl (TableNotFound name) | Some t \<Rightarrow> Inr t)"

definition disk_scan_visible :: "disk_engine \<Rightarrow> string \<Rightarrow> u64 \<Rightarrow> u64 set \<Rightarrow> (nat \<times> row) list res" where
  "disk_scan_visible s name snapshot_txid active =
     (case de_tables s name of None \<Rightarrow> Inl (TableNotFound name) | Some t \<Rightarrow> Inr (scan_visible t snapshot_txid active))"

definition disk_row_count :: "disk_engine \<Rightarrow> string \<Rightarrow> nat res" where
  "disk_row_count s name = (case de_tables s name of None \<Rightarrow> Inl (TableNotFound name) | Some t \<Rightarrow> Inr (row_count t))"

definition disk_snapshot_table :: "disk_engine \<Rightarrow> string \<Rightarrow> table res" where
  "disk_snapshot_table s name = (case de_tables s name of None \<Rightarrow> Inl (TableNotFound name) | Some t \<Rightarrow> Inr t)"

lemma fails_at_None [simp]: "fails_at None n = None" "first_failure None ns = None"
  by (simp_all add: fails_at_def first_failure_def)

lemma disk_state_simps [simp, frame_simps]:
  "de_tables (set_dir name d s) = de_tables s"
  "de_tables (ensure_dir name s) = de_tables s"
  "de_tables (write_meta name cols s) = de_tables s"
  "de_tables (write_base name t s) = de_tables s"
  "de_tables (set_table name t s) = (de_tables s)(name \<mapsto> t)"
  "de_dirs (set_table name t s) = de_dirs s"
  "de_dirs (set_dir name d s) = (de_dirs s)(name \<mapsto> d)"
  "the_dir (set_table name t s) n = the_dir s n"
  "the_dir (set_dir name d s) n = (if n = name then d else the_dir s n)"
  "the_dir (ensure_dir name s) n = the_dir s n"
  "the_dir (s\<lparr>de_next_delta_id := i\<rparr>) n = the_dir s n"
  by (simp_all add: set_dir_def ensure_dir_def write_meta_def write_base_def set_table_def the_dir_def Let_def)

lemma write_delta_tables: "de_tables (fst (write_delta f name chs x s)) = de_tables s"
  by (simp add: write_delta_def Let_def split: option.splits)

lemma disk_apply_Inr:
  assumes "disk_apply_write_set f name chs s = (s', Inr u)"
  shows "\<exists>t. de_tables s name = Some t \<and> de_tables s' = (de_tables s)(name \<mapsto> apply_changes t chs)"
proof -
  obtain x s0 where x: "(case max_txid_min chs of Some x \<Rightarrow> (x, s)
      | None \<Rightarrow> (de_next_delta_id s, s\<lparr>de_next_delta_id := de_next_delta_id s + 1\<rparr>)) = (x, s0)" by fastforce
  then have s0: "de_tables s0 = de_tables s" by (auto split: option.splits)
  obtain s1 r where w: "write_delta f name chs x s0 = (s1, r)" by fastforce
  then have "de_tables s1 = de_tables s0" using write_delta_tables [of f name chs x s0] by simp
  then show ?thesis
    using assms x w s0 by (auto simp: disk_apply_write_set_def split: sum.splits option.splits)
qed

lemma disk_apply_Inl:
  assumes "disk_apply_write_set f name chs s = (s', Inl e)"
  shows "de_tables s' = de_tables s"
proof -
  obtain x s0 where x: "(case max_txid_min chs of Some x \<Rightarrow> (x, s)
      | None \<Rightarrow> (de_next_delta_id s, s\<lparr>de_next_delta_id := de_next_delta_id s + 1\<rparr>)) = (x, s0)" by fastforce
  then have s0: "de_tables s0 = de_tables s" by (auto split: option.splits)
  obtain s1 r where w: "write_delta f name chs x s0 = (s1, r)" by fastforce
  then have "de_tables s1 = de_tables s0" using write_delta_tables [of f name chs x s0] by simp
  then show ?thesis
    using assms x w s0 by (auto simp: disk_apply_write_set_def split: sum.splits option.splits)
qed

interpretation disk: storage_engine de_tables disk_create_table disk_drop_table
  disk_apply_write_set disk_restore_table
proof
  fix f name chs s s' u e m cols t r
  show "disk_create_table f m cols s = (s', Inr u) \<Longrightarrow>
      de_tables s' = (de_tables s)(tm_name m \<mapsto> table_new (tm_name m) cols)"
    "disk_create_table f m cols s = (s', Inl e) \<Longrightarrow> de_tables s' = de_tables s"
    by (auto simp: disk_create_table_def Let_def split: option.splits)
  show "disk_drop_table f name s = (s', r) \<Longrightarrow> de_tables s' = (de_tables s)(name := None)"
    by (auto simp: disk_drop_table_def Let_def split: option.splits if_splits)
  show "disk_restore_table f t s = (s', Inr u) \<Longrightarrow> de_tables s' = (de_tables s)(tb_name t \<mapsto> t)"
    "disk_restore_table f t s = (s', Inl e) \<Longrightarrow> de_tables s' = de_tables s"
    by (auto simp: disk_restore_table_def Let_def split: option.splits)
qed (rule disk_apply_Inr disk_apply_Inl, assumption)+

subsection \<open>Dispatch\<close>

text \<open>\<open>Arc<dyn StorageEngine>\<close>: one of the two engines, called through the trait.\<close>

datatype engine_state = EMemory memory_engine | EDisk disk_engine

fun engine_tables :: "engine_state \<Rightarrow> (string \<rightharpoonup> table)" where
  "engine_tables (EMemory m) = me_tables m"
| "engine_tables (EDisk d) = de_tables d"

definition on_memory :: "memory_engine \<times> unit res \<Rightarrow> engine_state \<times> unit res" where
  "on_memory = map_prod EMemory (\<lambda>r. r)"

definition on_disk :: "disk_engine \<times> unit res \<Rightarrow> engine_state \<times> unit res" where
  "on_disk = map_prod EDisk (\<lambda>r. r)"

fun engine_create_table :: "fault \<Rightarrow> table_meta \<Rightarrow> column_meta list \<Rightarrow> engine_state \<Rightarrow> engine_state \<times> unit res" where
  "engine_create_table fault meta columns (EMemory m) = on_memory (memory_create_table fault meta columns m)"
| "engine_create_table fault meta columns (EDisk d) = on_disk (disk_create_table fault meta columns d)"

fun engine_drop_table :: "fault \<Rightarrow> string \<Rightarrow> engine_state \<Rightarrow> engine_state \<times> unit res" where
  "engine_drop_table fault name (EMemory m) = on_memory (memory_drop_table fault name m)"
| "engine_drop_table fault name (EDisk d) = on_disk (disk_drop_table fault name d)"

fun engine_apply_write_set :: "fault \<Rightarrow> string \<Rightarrow> changes \<Rightarrow> engine_state \<Rightarrow> engine_state \<times> unit res" where
  "engine_apply_write_set fault name chs (EMemory m) = on_memory (memory_apply_write_set fault name chs m)"
| "engine_apply_write_set fault name chs (EDisk d) = on_disk (disk_apply_write_set fault name chs d)"

fun engine_restore_table :: "fault \<Rightarrow> table \<Rightarrow> engine_state \<Rightarrow> engine_state \<times> unit res" where
  "engine_restore_table fault t (EMemory m) = on_memory (memory_restore_table fault t m)"
| "engine_restore_table fault t (EDisk d) = on_disk (disk_restore_table fault t d)"

fun engine_flush :: "(string \<Rightarrow> fault) \<Rightarrow> string list \<Rightarrow> engine_state \<Rightarrow> engine_state \<times> unit res" where
  "engine_flush faults names (EMemory s) = (EMemory s, Inr ())"
| "engine_flush faults names (EDisk s) = on_disk (disk_flush faults names s)"

lemma on_engine_eq:
  "on_memory p = (e, r) \<longleftrightarrow> (\<exists>m. p = (m, r) \<and> e = EMemory m)"
  "on_disk q = (e, r) \<longleftrightarrow> (\<exists>d. q = (d, r) \<and> e = EDisk d)"
  by (cases p; cases q; auto simp: on_memory_def on_disk_def)+

interpretation eng: storage_engine engine_tables engine_create_table engine_drop_table
  engine_apply_write_set engine_restore_table
proof
  fix f name chs s s' u e m cols t r
  show "engine_create_table f m cols s = (s', Inr u) \<Longrightarrow>
      engine_tables s' = (engine_tables s)(tm_name m \<mapsto> table_new (tm_name m) cols)"
    "engine_create_table f m cols s = (s', Inl e) \<Longrightarrow> engine_tables s' = engine_tables s"
    by (cases s; auto simp: on_engine_eq dest: mem.create_ok mem.create_err disk.create_ok disk.create_err)+
  show "engine_drop_table f name s = (s', r) \<Longrightarrow> engine_tables s' = (engine_tables s)(name := None)"
    by (cases s; auto simp: on_engine_eq dest: mem.remove_any disk.remove_any)
  show "engine_apply_write_set f name chs s = (s', Inr u) \<Longrightarrow>
      \<exists>t. engine_tables s name = Some t \<and> engine_tables s' = (engine_tables s)(name \<mapsto> apply_changes t chs)"
    "engine_apply_write_set f name chs s = (s', Inl e) \<Longrightarrow> engine_tables s' = engine_tables s"
    by (cases s; auto simp: on_engine_eq dest: mem.write_ok mem.write_err disk.write_ok disk.write_err)+
  show "engine_restore_table f t s = (s', Inr u) \<Longrightarrow> engine_tables s' = (engine_tables s)(tb_name t \<mapsto> t)"
    "engine_restore_table f t s = (s', Inl e) \<Longrightarrow> engine_tables s' = engine_tables s"
    by (cases s; auto simp: on_engine_eq dest: mem.restore_ok mem.restore_err disk.restore_ok disk.restore_err)+
qed

subsection \<open>A disk table reloads to what is in memory\<close>

definition reloads :: "disk_engine \<Rightarrow> string \<Rightarrow> u64 \<Rightarrow> bool" where
  "reloads s name bound \<longleftrightarrow>
     om_ok (dd_bases (the_dir s name)) \<and> om_ok (dd_deltas (the_dir s name)) \<and>
     (\<forall>k \<in> set (om_keys (dd_bases (the_dir s name))) \<union> set (om_keys (dd_deltas (the_dir s name))). k \<le> bound) \<and>
     load_table_from_delta (the_dir s name) = de_tables s name"

lemma om_put_above: "\<forall>x \<in> set m. fst x < k \<Longrightarrow> om_put m k v = m @ [(k, v)]"
  by (induction m k v rule: om_put.induct) (auto dest: less_asym)

lemma latest_base_fold:
  fixes a :: u64
  shows "(foldl (\<lambda>b x. if x > b then x else b) a ks = a \<or> foldl (\<lambda>b x. if x > b then x else b) a ks \<in> set ks) \<and>
    a \<le> foldl (\<lambda>b x. if x > b then x else b) a ks \<and>
    (\<forall>k \<in> set ks. k \<le> foldl (\<lambda>b x. if x > b then x else b) a ks)"
proof (induction ks arbitrary: a)
  case (Cons k ks)
  have "a \<le> (if k > a then k else a)" "k \<le> (if k > a then k else a)" by auto
  then show ?case using Cons.IH [of "if k > a then k else a"] by (auto intro: order_trans split: if_splits)
qed simp

lemma latest_base_cases: "latest_base d = 0 \<or> latest_base d \<in> set (om_keys (dd_bases d))"
  and latest_base_ge: "k \<in> set (om_keys (dd_bases d)) \<Longrightarrow> k \<le> latest_base d"
  using latest_base_fold [of 0 "om_keys (dd_bases d)"] unfolding latest_base_def by blast+

lemma max_txid_min_all:
  "chs \<noteq> [] \<Longrightarrow> \<forall>c \<in> set chs. rv_txid_min (snd c) = x \<Longrightarrow> max_txid_min chs = Some x"
proof -
  assume a: "chs \<noteq> []" "\<forall>c \<in> set chs. rv_txid_min (snd c) = x"
  then have "map (rv_txid_min \<circ> snd) chs = x # replicate (length chs - 1) x"
    by (cases chs) (auto intro: replicate_eqI)
  moreover have "foldl max x (replicate n x) = x" for n by (induction n) auto
  ultimately show ?thesis by (simp add: max_txid_min_def)
qed

lemma load_append_delta:
  assumes "load_table_from_delta d = Some t" "latest_base d < x" "\<forall>k \<in> set (dd_deltas d). fst k < x"
  shows "load_table_from_delta (d\<lparr>dd_deltas := om_put (dd_deltas d) x chs\<rparr>) = Some (apply_changes t chs)"
  using assms by (auto simp: load_table_from_delta_def Let_def om_put_above latest_base_def split: option.splits prod.splits)

lemma reloads_write:
  assumes "reloads s name bound" "bound < x" "chs \<noteq> []" "\<forall>c \<in> set chs. rv_txid_min (snd c) = x"
    and "disk_apply_write_set f name chs s = (s', Inr u)"
  shows "reloads s' name x"
proof -
  let ?d = "the_dir s name"
  have x: "max_txid_min chs = Some x" by (rule max_txid_min_all [OF assms(3,4)])
  have keys: "\<forall>k \<in> set (om_keys (dd_bases ?d)) \<union> set (om_keys (dd_deltas ?d)). k < x"
    using assms(1,2) by (auto simp: reloads_def intro: le_less_trans)
  have new: "om_get (dd_deltas ?d) x = None"
    using keys by (auto simp: om_get_None_iff)
  have s': "\<exists>t. de_tables s name = Some t \<and> s' = set_table name (apply_changes t chs)
      (set_dir name (?d\<lparr>dd_deltas := om_put (dd_deltas ?d) x chs\<rparr>) (ensure_dir name s))"
    using assms(5) x new
    by (auto simp: disk_apply_write_set_def write_delta_def Let_def split: option.splits)
  then obtain t where t: "de_tables s name = Some t"
    and dir: "the_dir s' name = ?d\<lparr>dd_deltas := om_put (dd_deltas ?d) x chs\<rparr>"
    and tab: "de_tables s' name = Some (apply_changes t chs)" by auto
  have "load_table_from_delta (the_dir s' name) = Some (apply_changes t chs)"
    unfolding dir
  proof (rule load_append_delta)
    show "load_table_from_delta ?d = Some t" using assms(1) t by (simp add: reloads_def)
    show "latest_base ?d < x"
      using latest_base_cases [of ?d] keys le_less_trans [OF word_zero_le assms(2)] by auto
    show "\<forall>k \<in> set (dd_deltas ?d). fst k < x" using keys by (auto simp: om_keys_def)
  qed
  moreover have "set (om_keys (om_put (dd_deltas ?d) x chs)) = insert x (set (om_keys (dd_deltas ?d)))"
    using om_put_above [of "dd_deltas ?d" x chs] keys by (auto simp: om_keys_def)
  ultimately show ?thesis
    using assms(1) keys tab by (auto simp: reloads_def dir intro: less_imp_le)
qed

lemma reloads_create:
  assumes "de_dirs s (tm_name m) = None" "disk_create_table f m cols s = (s', Inr u)"
  shows "reloads s' (tm_name m) 0"
proof -
  have "s' = set_table (tm_name m) (table_new (tm_name m) cols) (write_meta (tm_name m) cols (ensure_dir (tm_name m) s))"
    using assms(2) by (auto simp: disk_create_table_def Let_def split: option.splits)
  moreover have "the_dir s (tm_name m) = empty_dir" using assms(1) by (simp add: the_dir_def)
  ultimately show ?thesis
    by (simp add: reloads_def write_meta_def empty_dir_def load_table_from_delta_def latest_base_def
        om_keys_def om_empty_def om_ok_def)
qed

lemma reloads_flush:
  assumes "reloads s name bound" "de_tables s name = Some t" "0 < base_txid_of t"
    and "\<forall>k \<in> set (om_keys (dd_bases (the_dir s name))). k \<le> base_txid_of t"
  shows "reloads (flush_table name s) name (base_txid_of t)"
proof -
  let ?d = "the_dir s name" and ?b = "base_txid_of t"
  let ?d' = "?d\<lparr>dd_bases := om_put (dd_bases ?d) ?b t, dd_deltas := om_empty\<rparr>"
  have dir: "the_dir (flush_table name s) name = ?d'"
    using assms(2) by (simp add: flush_table_def write_base_def Let_def)
  have ok: "om_ok (dd_bases ?d)" using assms(1) by (simp add: reloads_def)
  have keys: "set (om_keys (dd_bases ?d')) = insert ?b (set (om_keys (dd_bases ?d)))"
    using ok by (simp add: om_keys_put)
  have base: "latest_base ?d' = ?b"
  proof (rule antisym)
    show "?b \<le> latest_base ?d'" by (rule latest_base_ge) (use keys in simp)
    show "latest_base ?d' \<le> ?b" using latest_base_cases [of ?d'] keys assms(3,4) by auto
  qed
  have "\<exists>p. dd_meta ?d = Some p"
    using assms(1,2) by (auto simp: reloads_def load_table_from_delta_def split: option.splits)
  then have "load_table_from_delta ?d' = Some t"
    using base assms(3) ok by (auto simp: load_table_from_delta_def Let_def om.get_put om_empty_def)
  moreover have "de_tables (flush_table name s) name = Some t"
    using assms(2) by (simp add: flush_table_def Let_def)
  moreover have "om_ok (dd_bases ?d')" "om_ok (dd_deltas ?d')" "om_keys (dd_deltas ?d') = []"
    using ok by (simp_all add: om_ok_put om_keys_def om_empty_def om_ok_def [of "[]"])
  ultimately show ?thesis
    using keys assms(4) unfolding reloads_def dir by auto
qed

lemma reloads_restore:
  assumes "om_ok (dd_bases (the_dir s (tb_name t)))" "om_ok (dd_deltas (the_dir s (tb_name t)))" "0 < base_txid_of t"
    and "\<forall>k \<in> set (om_keys (dd_bases (the_dir s (tb_name t)))) \<union> set (om_keys (dd_deltas (the_dir s (tb_name t)))). k \<le> base_txid_of t"
    and "disk_restore_table f t s = (s', Inr u)"
  shows "reloads s' (tb_name t) (base_txid_of t)"
proof -
  let ?d = "the_dir s (tb_name t)" and ?b = "base_txid_of t"
  let ?d' = "?d\<lparr>dd_meta := Some (tb_name t, tb_columns t), dd_bases := om_put (dd_bases ?d) ?b t\<rparr>"
  have s': "the_dir s' (tb_name t) = ?d'" "de_tables s' (tb_name t) = Some t"
    using assms(5)
    by (auto simp: disk_restore_table_def write_meta_def write_base_def Let_def split: option.splits)
  have keys: "set (om_keys (dd_bases ?d')) = insert ?b (set (om_keys (dd_bases ?d)))"
    using assms(1) by (simp add: om_keys_put)
  have base: "latest_base ?d' = ?b"
  proof (rule antisym)
    show "?b \<le> latest_base ?d'" by (rule latest_base_ge) (use keys in simp)
    show "latest_base ?d' \<le> ?b" using latest_base_cases [of ?d'] keys assms(3,4) by auto
  qed
  have "filter (\<lambda>(txid, _). txid > ?b) (dd_deltas ?d) = []"
    using assms(4) by (force simp: filter_empty_conv om_keys_def)
  then have "load_table_from_delta ?d' = Some t"
    using base assms(1,3) by (auto simp: load_table_from_delta_def Let_def om.get_put)
  then show ?thesis
    using assms(1,2,4) keys unfolding reloads_def s' by (auto simp: om_ok_put)
qed

text \<open>A base of transaction 0 is not read again.\<close>

lemma flush_zero_base:
  assumes "de_tables s name = Some t" "base_txid_of t = 0" "om_ok (dd_bases (the_dir s name))"
    and "\<forall>k \<in> set (om_keys (dd_bases (the_dir s name))). k = 0" "dd_meta (the_dir s name) = Some (n, columns)"
  shows "load_table_from_delta (the_dir (flush_table name s) name) = Some (table_new n columns)"
proof -
  let ?d = "the_dir s name"
  let ?d' = "?d\<lparr>dd_bases := om_put (dd_bases ?d) 0 t, dd_deltas := om_empty\<rparr>"
  have dir: "the_dir (flush_table name s) name = ?d'"
    using assms(1,2) by (simp add: flush_table_def write_base_def Let_def)
  have "set (om_keys (dd_bases ?d')) \<subseteq> {0}" using assms(3,4) by (auto simp: om_keys_put)
  then have "latest_base ?d' = 0" using latest_base_cases [of ?d'] by auto
  then show ?thesis using assms(5) unfolding dir by (simp add: load_table_from_delta_def Let_def om_empty_def)
qed

subsection \<open>Properties\<close>

text \<open>C34: the two engines implement the same tables. From states that hold the same tables, the same
  operation leads to states that hold the same tables when it succeeds on both, and a failure of
  the disk engine, at whatever step, leaves the tables it serves as they were (a failed drop has
  removed the table).\<close>
theorem engines_agree:
  assumes "me_tables m = de_tables d"
  shows "(disk_create_table f meta cols d = (d1, r1) \<longrightarrow>
      de_tables d1 = (if isl r1 then de_tables d else me_tables (fst (memory_create_table f meta cols m)))) \<and>
    (disk_apply_write_set f name chs d = (d2, r2) \<longrightarrow>
      de_tables d2 = (if isl r2 then de_tables d else me_tables (fst (memory_apply_write_set f name chs m))) \<and>
      (\<not> isl r2 \<longrightarrow> snd (memory_apply_write_set f name chs m) = Inr ())) \<and>
    (disk_restore_table f t d = (d3, r3) \<longrightarrow>
      de_tables d3 = (if isl r3 then de_tables d else me_tables (fst (memory_restore_table f t m)))) \<and>
    (disk_drop_table f name d = (d4, r4) \<longrightarrow>
      de_tables d4 = me_tables (fst (memory_drop_table f name m)))"
proof -
  have c: "de_tables d1 = (if isl r1 then de_tables d else me_tables (fst (memory_create_table f meta cols m)))"
    if "disk_create_table f meta cols d = (d1, r1)"
    using that assms disk.create_ok [of f meta cols d d1] disk.create_err [of f meta cols d d1]
    by (cases r1) (auto simp: memory_create_table_def)
  have r: "de_tables d3 = (if isl r3 then de_tables d else me_tables (fst (memory_restore_table f t m)))"
    if "disk_restore_table f t d = (d3, r3)"
    using that assms disk.restore_ok [of f t d d3] disk.restore_err [of f t d d3]
    by (cases r3) (auto simp: memory_restore_table_def)
  have x: "de_tables d4 = me_tables (fst (memory_drop_table f name m))" if "disk_drop_table f name d = (d4, r4)"
    using disk.remove_any [OF that] assms by (simp add: memory_drop_table_def)
  have w: "de_tables d2 = (if isl r2 then de_tables d else me_tables (fst (memory_apply_write_set f name chs m))) \<and>
      (\<not> isl r2 \<longrightarrow> snd (memory_apply_write_set f name chs m) = Inr ())"
    if "disk_apply_write_set f name chs d = (d2, r2)"
    using that assms disk.write_ok [of f name chs d d2] disk.write_err [of f name chs d d2]
    by (cases r2) (auto simp: memory_apply_write_set_def)
  show ?thesis using c r x w by blast
qed

definition disk_empty :: disk_engine where
  "disk_empty = \<lparr>de_tables = Map.empty, de_dirs = Map.empty, de_next_delta_id = 1\<rparr>"

theorem engines_agree_witness:
  "\<exists>d. disk_create_table None (table_meta_new 0 ''t'' ''disk'') sample_columns disk_empty = (d, Inr ()) \<and>
     de_tables d = me_tables (fst (memory_create_table None (table_meta_new 0 ''t'' ''disk'') sample_columns memory_new))"
proof -
  have eq: "me_tables memory_new = de_tables disk_empty" by (simp add: memory_new_def disk_empty_def)
  obtain d where d: "disk_create_table None (table_meta_new 0 ''t'' ''disk'') sample_columns disk_empty = (d, Inr ())"
    by (simp add: disk_create_table_def Let_def)
  show ?thesis
    using engines_agree [OF eq, of None "table_meta_new 0 ''t'' ''disk''" sample_columns d "Inr ()"] d by auto
qed

text \<open>C33: when the files of the disk engine hold the table it serves, so that loading them gives it back: after a
  table is created in a new directory; after a successful write set of one transaction that is newer than every file of the
  table; after a flush, and after a successful \<open>restore_table\<close>, as at every opening, of a table that holds a version of a transaction
  above 0 and no older than the files. A flush of a table whose current versions are all of transaction 0 loses it: what
  is loaded is an empty table.\<close>
theorem disk_table_reloads:
  "(de_dirs s name = None \<and> disk_create_table f (m\<lparr>tm_name := name\<rparr>) cols s = (s1, Inr u) \<longrightarrow>
      reloads s1 name 0) \<and>
   (reloads s name bound \<and> bound < x \<and> chs \<noteq> [] \<and> (\<forall>c \<in> set chs. rv_txid_min (snd c) = x) \<and>
      disk_apply_write_set f name chs s = (s2, Inr u) \<longrightarrow> reloads s2 name x) \<and>
   (reloads s name bound \<and> de_tables s name = Some t \<and> 0 < base_txid_of t \<and>
      (\<forall>k \<in> set (om_keys (dd_bases (the_dir s name))). k \<le> base_txid_of t) \<longrightarrow>
      reloads (flush_table name s) name (base_txid_of t)) \<and>
   (om_ok (dd_bases (the_dir s (tb_name t))) \<and> om_ok (dd_deltas (the_dir s (tb_name t))) \<and> 0 < base_txid_of t \<and>
      (\<forall>k \<in> set (om_keys (dd_bases (the_dir s (tb_name t)))) \<union> set (om_keys (dd_deltas (the_dir s (tb_name t)))).
        k \<le> base_txid_of t) \<and> disk_restore_table f t s = (s3, Inr u) \<longrightarrow>
      reloads s3 (tb_name t) (base_txid_of t)) \<and>
   (reloads s name bound \<and> de_tables s name = Some t \<and> base_txid_of t = 0 \<and>
      (\<forall>k \<in> set (om_keys (dd_bases (the_dir s name))). k = 0) \<longrightarrow>
      (\<exists>n columns. dd_meta (the_dir s name) = Some (n, columns) \<and>
        load_table_from_delta (the_dir (flush_table name s) name) = Some (table_new n columns)))"
proof -
  have meta: "\<exists>n columns. dd_meta (the_dir s name) = Some (n, columns)" if "reloads s name bound" "de_tables s name = Some t"
    using that by (auto simp: reloads_def load_table_from_delta_def split: option.splits)
  have ok: "om_ok (dd_bases (the_dir s name))" if "reloads s name bound" using that by (simp add: reloads_def)
  have "\<exists>n columns. dd_meta (the_dir s name) = Some (n, columns) \<and>
      load_table_from_delta (the_dir (flush_table name s) name) = Some (table_new n columns)"
    if "reloads s name bound" "de_tables s name = Some t" "base_txid_of t = 0"
      "\<forall>k \<in> set (om_keys (dd_bases (the_dir s name))). k = 0"
    using meta [OF that(1,2)] flush_zero_base [OF that(2,3) ok [OF that(1)] that(4)] by blast
  then show ?thesis
    using reloads_create [of s "m\<lparr>tm_name := name\<rparr>" f cols s1] reloads_write [of s name bound x chs f s2]
      reloads_flush [of s name bound t] reloads_restore [of s t f s3] by simp
qed

theorem disk_table_reloads_witness:
  "\<exists>s1 s2. disk_create_table None (table_meta_new 0 ''t'' ''disk'') sample_columns disk_empty = (s1, Inr ()) \<and>
     disk_apply_write_set None ''t'' [(0, new_insert 3 \<lparr>row_values = []\<rparr>)] s1 = (s2, Inr ()) \<and>
     load_table_from_delta (the_dir s2 ''t'') = de_tables s2 ''t''"
proof -
  let ?m = "(table_meta_new 0 ''t'' ''disk'')\<lparr>tm_name := ''t''\<rparr>"
  have m: "?m = table_meta_new 0 ''t'' ''disk''" by (simp add: table_meta_new_def)
  obtain s1 where s1: "disk_create_table None ?m sample_columns disk_empty = (s1, Inr ())"
    by (simp add: disk_create_table_def Let_def)
  have r: "reloads s1 ''t'' 0"
    using disk_table_reloads [of disk_empty "''t''" None "table_meta_new 0 ''t'' ''disk''" sample_columns s1] s1
    by (simp add: disk_empty_def)
  have "de_tables s1 ''t'' \<noteq> None" using disk.create_ok [OF s1] by simp
  moreover have "om_get (dd_deltas (the_dir s1 ''t'')) 3 = None"
  proof -
    have "(3::u64) \<notin> set (om_keys (dd_deltas (the_dir s1 ''t'')))"
    proof
      assume "(3::u64) \<in> set (om_keys (dd_deltas (the_dir s1 ''t'')))"
      then have "(3::u64) \<le> 0" using r unfolding reloads_def by blast
      then show False by simp
    qed
    then show ?thesis by (simp add: om_get_None_iff)
  qed
  ultimately obtain s2 where s2: "disk_apply_write_set None ''t'' [(0, new_insert 3 \<lparr>row_values = []\<rparr>)] s1 = (s2, Inr ())"
    by (auto simp: disk_apply_write_set_def write_delta_def Let_def max_txid_min_def new_insert_def)
  have "reloads s2 ''t'' 3"
    using disk_table_reloads [of s1 "''t''" None _ _ _ _ 0 3 "[(0, new_insert 3 \<lparr>row_values = []\<rparr>)]" s2] r s2
    by (simp add: new_insert_def)
  then show ?thesis using s1 s2 m by (auto simp: reloads_def)
qed

text \<open>the migration of a table from the old format loses its rows. The first opening serves the table of the
  old file, and only writes the schema; unless a base is written before, the next opening finds the
  schema alone and serves the table empty.\<close>
theorem migrated_table_reopens_empty:
  assumes "dirs name = Some d" "dd_meta d = None" "dd_bases d = om_empty" "dd_deltas d = om_empty" "dd_old d = Some t"
    and "name \<in> set names" "distinct names" "name \<in> set names'" "distinct names'" "s = disk_open names dirs"
  shows "de_tables s name = Some t \<and>
    de_tables (disk_open names' (de_dirs s)) name = Some (table_new name (tb_columns t))"
proof -
  have other: "de_tables (load_existing_table n st) name = de_tables st name \<and> de_dirs (load_existing_table n st) name = de_dirs st name"
    if "n \<noteq> name" for n st
    using that by (auto simp: load_existing_table_def split: option.splits)
  have rest: "de_tables (foldl (\<lambda>s n. load_existing_table n s) st ns) name = de_tables st name \<and>
      de_dirs (foldl (\<lambda>s n. load_existing_table n s) st ns) name = de_dirs st name" if "name \<notin> set ns" for ns st
    using that other by (induction ns arbitrary: st) auto
  have opened: "de_tables (disk_open ns ds) name = de_tables (load_existing_table name st0) name \<and>
      de_dirs (disk_open ns ds) name = de_dirs (load_existing_table name st0) name"
    if ns: "name \<in> set ns" "distinct ns" and st0: "st0 = \<lparr>de_tables = Map.empty, de_dirs = ds, de_next_delta_id = 1\<rparr>" for ns ds st0
  proof -
    obtain xs ys where split: "ns = xs @ name # ys" "name \<notin> set xs" "name \<notin> set ys"
      using ns by (metis Un_iff distinct.simps(2) distinct_append set_append split_list disjoint_iff list.set_intros(1))
    let ?sx = "foldl (\<lambda>s n. load_existing_table n s) st0 xs"
    have sx: "de_tables ?sx name = de_tables st0 name" "de_dirs ?sx name = de_dirs st0 name"
      using rest [OF split(2)] by blast+
    have "de_tables (load_existing_table name ?sx) name = de_tables (load_existing_table name st0) name \<and>
      de_dirs (load_existing_table name ?sx) name = de_dirs (load_existing_table name st0) name"
      using sx by (auto simp: load_existing_table_def split: option.splits)
    then show ?thesis using rest [OF split(3)] by (simp add: disk_open_def split(1) st0)
  qed
  let ?d' = "d\<lparr>dd_meta := Some (name, tb_columns t), dd_old := None\<rparr>"
  have s: "de_tables s name = Some t" "de_dirs s name = Some ?d'"
    using opened [OF assms(6,7) refl, of dirs] assms(1,2,5,10)
    by (auto simp: load_existing_table_def migrate_from_old_format_def)
  have "load_table_from_delta ?d' = Some (table_new name (tb_columns t))"
    using assms(3,4) by (simp add: load_table_from_delta_def latest_base_def om_empty_def om_keys_def)
  then show ?thesis
    using s opened [OF assms(8,9) refl, of "de_dirs s"] by (simp add: load_existing_table_def)
qed

theorem migrated_table_reopens_empty_witness:
  "de_tables (disk_open [''t''] (de_dirs (disk_open [''t''] [''t'' \<mapsto> empty_dir\<lparr>dd_old := Some sample_table\<rparr>]))) ''t'' =
     Some (table_new ''t'' (tb_columns sample_table))"
  using migrated_table_reopens_empty [of "[''t'' \<mapsto> empty_dir\<lparr>dd_old := Some sample_table\<rparr>]" "''t''"
      "empty_dir\<lparr>dd_old := Some sample_table\<rparr>" sample_table "[''t'']" "[''t'']"]
  by (simp add: empty_dir_def)

end
