(* ===== verification/Catalog.thy ===== *)
theory Catalog
  imports Storage_Engine
begin

text \<open>
  The catalog (\<open>src/src/storage/catalog.rs\<close>): which engine holds which table, and the migration
  of a table from one engine to another. The hash maps of metadata and engines are ordered maps
  here; nothing the catalog returns depends on their order. The operations that call an engine
  and then save the catalog take the faults of those calls, and return the state beside the
  result, since an error does not undo what came before it.
\<close>

record catalog =
  ct_metadata :: "(string, table_meta) omap"
  ct_engines :: "(string, engine_state) omap"
  ct_default_engine :: string
  ct_saved :: "(string \<times> table_meta list) option"

text \<open>Opening: the two built-in engines, and the catalog file if there is one.\<close>

definition catalog_open :: "disk_engine \<Rightarrow> (string \<times> table_meta list) option \<Rightarrow> string \<Rightarrow> catalog" where
  "catalog_open disk saved default_engine =
     (let engines = om_put (om_put om_empty ''memory'' (EMemory memory_new)) ''disk'' (EDisk disk)
      in case saved of
           None \<Rightarrow> \<lparr>ct_metadata = om_empty, ct_engines = engines,
                    ct_default_engine = normalize_engine_name default_engine, ct_saved = None\<rparr>
         | Some (saved_default, metas) \<Rightarrow>
             \<lparr>ct_metadata = foldl (\<lambda>m t. om_put m (tm_name t)
                  (t\<lparr>tm_engine := normalize_engine_name (tm_engine t)\<rparr>)) om_empty metas,
              ct_engines = engines, ct_default_engine = normalize_engine_name saved_default,
              ct_saved = saved\<rparr>)"

definition set_default_engine :: "string \<Rightarrow> catalog \<Rightarrow> catalog \<times> unit res" where
  "set_default_engine engine c =
     (let engine = normalize_engine_name engine in
      if om_get (ct_engines c) engine = None then (c, Inl (Internal (''Unknown engine: '' @ engine)))
      else (c\<lparr>ct_default_engine := engine\<rparr>, Inr ()))"

text \<open>The name under which the engine is registered, or the error.\<close>

definition get_engine :: "catalog \<Rightarrow> string \<Rightarrow> (string \<times> engine_state) res" where
  "get_engine c name =
     (let name = normalize_engine_name name in
      case om_get (ct_engines c) name of
        None \<Rightarrow> Inl (Internal (''Unknown engine: '' @ name))
      | Some e \<Rightarrow> Inr (name, e))"

definition get_table_engine :: "catalog \<Rightarrow> string \<Rightarrow> (string \<times> engine_state) res" where
  "get_table_engine c table_name =
     (case om_get (ct_metadata c) table_name of
        None \<Rightarrow> Inl (TableNotFound table_name)
      | Some m \<Rightarrow>
          (case om_get (ct_engines c) (tm_engine m) of
             None \<Rightarrow> Inl (Internal (''Engine '' @ quoted (tm_engine m) @ '' not found for table '' @ quoted table_name))
           | Some e \<Rightarrow> Inr (tm_engine m, e)))"

definition catalog_table_exists :: "catalog \<Rightarrow> string \<Rightarrow> bool" where
  "catalog_table_exists c name =
     (om_get (ct_metadata c) name \<noteq> None \<or>
      list_ex (\<lambda>e. engine_tables e name \<noteq> None) (om_values (ct_engines c)))"

definition set_engine :: "string \<Rightarrow> engine_state \<Rightarrow> catalog \<Rightarrow> catalog" where
  "set_engine ename e c = c\<lparr>ct_engines := om_put (ct_engines c) ename e\<rparr>"

definition set_meta :: "string \<Rightarrow> table_meta \<Rightarrow> catalog \<Rightarrow> catalog" where
  "set_meta name m c = c\<lparr>ct_metadata := om_put (ct_metadata c) name m\<rparr>"

definition catalog_save :: "fault \<Rightarrow> catalog \<Rightarrow> catalog \<times> unit res" where
  "catalog_save fault c =
     (case fails_at fault 0 of
        Some e \<Rightarrow> (c, Inl (Serialization e))
      | None \<Rightarrow>
          (case first_failure fault [1, 2] of
             Some e \<Rightarrow> (c, Inl (Io e))
           | None \<Rightarrow> (c\<lparr>ct_saved := Some (ct_default_engine c, om_values (ct_metadata c))\<rparr>, Inr ())))"

definition catalog_create_table ::
  "fault \<Rightarrow> fault \<Rightarrow> u64 \<Rightarrow> string \<Rightarrow> column_meta list \<Rightarrow> string option \<Rightarrow> catalog \<Rightarrow> catalog \<times> unit res" where
  "catalog_create_table f_engine f_save now name columns engine_name c =
     (let engine_name = (case engine_name of Some e \<Rightarrow> e | None \<Rightarrow> ct_default_engine c) in
      case get_engine c engine_name of
        Inl e \<Rightarrow> (c, Inl e)
      | Inr (ename, engine) \<Rightarrow>
          let meta = table_meta_new now name engine_name in
          (case engine_create_table f_engine meta columns engine of
             (engine', Inl e) \<Rightarrow> (set_engine ename engine' c, Inl e)
           | (engine', Inr _) \<Rightarrow> catalog_save f_save (set_meta name meta (set_engine ename engine' c))))"

definition catalog_drop_table :: "fault \<Rightarrow> fault \<Rightarrow> string \<Rightarrow> catalog \<Rightarrow> catalog \<times> unit res" where
  "catalog_drop_table f_engine f_save name c =
     (case get_table_engine c name of
        Inl e \<Rightarrow> (c, Inl e)
      | Inr (ename, engine) \<Rightarrow>
          (case engine_drop_table f_engine name engine of
             (engine', Inl e) \<Rightarrow> (set_engine ename engine' c, Inl e)
           | (engine', Inr _) \<Rightarrow>
               let c1 = set_engine ename engine' c
               in catalog_save f_save (c1\<lparr>ct_metadata := om_del (ct_metadata c1) name\<rparr>)))"

definition engine_get_table :: "engine_state \<Rightarrow> string \<Rightarrow> table res" where
  "engine_get_table e name = (case engine_tables e name of None \<Rightarrow> Inl (TableNotFound name) | Some t \<Rightarrow> Inr t)"

definition catalog_get_table :: "catalog \<Rightarrow> string \<Rightarrow> table res" where
  "catalog_get_table c name = and_then (get_table_engine c name) (\<lambda>(_, e). engine_get_table e name)"

definition catalog_scan_visible :: "catalog \<Rightarrow> string \<Rightarrow> u64 \<Rightarrow> u64 set \<Rightarrow> (nat \<times> row) list res" where
  "catalog_scan_visible c name snapshot_txid active =
     and_then (get_table_engine c name)
       (\<lambda>(_, e). and_then (engine_get_table e name) (\<lambda>t. Inr (scan_visible t snapshot_txid active)))"

definition catalog_row_count :: "catalog \<Rightarrow> string \<Rightarrow> nat res" where
  "catalog_row_count c name =
     and_then (get_table_engine c name)
       (\<lambda>(_, e). and_then (engine_get_table e name) (\<lambda>t. Inr (row_count t)))"

definition catalog_apply_write_set :: "fault \<Rightarrow> string \<Rightarrow> changes \<Rightarrow> catalog \<Rightarrow> catalog \<times> unit res" where
  "catalog_apply_write_set fault name chs c =
     (case get_table_engine c name of
        Inl e \<Rightarrow> (c, Inl e)
      | Inr (ename, engine) \<Rightarrow>
          (case engine_apply_write_set fault name chs engine of (engine', r) \<Rightarrow> (set_engine ename engine' c, r)))"

definition catalog_snapshot_table :: "catalog \<Rightarrow> string \<Rightarrow> table res" where
  "catalog_snapshot_table c name = catalog_get_table c name"

definition catalog_restore_table :: "fault \<Rightarrow> table \<Rightarrow> catalog \<Rightarrow> catalog \<times> unit res" where
  "catalog_restore_table fault t c =
     (case get_table_engine c (tb_name t) of
        Inl e \<Rightarrow> (c, Inl e)
      | Inr (ename, engine) \<Rightarrow>
          (case engine_restore_table fault t engine of (engine', r) \<Rightarrow> (set_engine ename engine' c, r)))"

definition table_engine_name :: "catalog \<Rightarrow> string \<Rightarrow> string option" where
  "table_engine_name c name = map_option tm_engine (om_get (ct_metadata c) name)"

definition table_names :: "catalog \<Rightarrow> string list" where
  "table_names c = om_keys (ct_metadata c)"

text \<open>The engines in the order of their map, each with the order of its tables.\<close>

fun flush_engines ::
  "(string \<Rightarrow> fault) \<Rightarrow> string list \<Rightarrow> string list \<Rightarrow> catalog \<Rightarrow> catalog \<times> unit res" where
  "flush_engines faults names [] c = (c, Inr ())"
| "flush_engines faults names (ename # enames) c =
     (case om_get (ct_engines c) ename of
        None \<Rightarrow> flush_engines faults names enames c
      | Some e \<Rightarrow>
          (case engine_flush faults names e of
             (e', Inl err) \<Rightarrow> (set_engine ename e' c, Inl err)
           | (e', Inr _) \<Rightarrow> flush_engines faults names enames (set_engine ename e' c)))"

definition catalog_flush :: "(string \<Rightarrow> fault) \<Rightarrow> string list \<Rightarrow> catalog \<Rightarrow> catalog \<times> unit res" where
  "catalog_flush faults names c = flush_engines faults names (om_keys (ct_engines c)) c"

text \<open>\<open>close\<close> flushes every engine and saves the catalog.\<close>

definition catalog_close :: "(string \<Rightarrow> fault) \<Rightarrow> string list \<Rightarrow> fault \<Rightarrow> catalog \<Rightarrow> catalog \<times> unit res" where
  "catalog_close faults names f_save c =
     (case catalog_flush faults names c of
        (c', Inl e) \<Rightarrow> (c', Inl e)
      | (c', Inr _) \<Rightarrow> catalog_save f_save c')"

definition set_meta_engine :: "string \<Rightarrow> string \<Rightarrow> catalog \<Rightarrow> catalog" where
  "set_meta_engine name engine c =
     (case om_get (ct_metadata c) name of None \<Rightarrow> c | Some m \<Rightarrow> set_meta name (m\<lparr>tm_engine := engine\<rparr>) c)"

text \<open>The faults of a migration: creating, restoring and dropping in the target, saving the catalog,
  dropping in the old engine.\<close>

record migration_faults =
  mf_create :: fault
  mf_restore :: fault
  mf_undo :: fault
  mf_save :: fault
  mf_old :: fault

definition drop_in :: "fault \<Rightarrow> string \<Rightarrow> string \<Rightarrow> catalog \<Rightarrow> catalog" where
  "drop_in fault ename name c =
     (case om_get (ct_engines c) ename of
        None \<Rightarrow> c
      | Some e \<Rightarrow> set_engine ename (fst (engine_drop_table fault name e)) c)"

definition migrate_table :: "migration_faults \<Rightarrow> u64 \<Rightarrow> string \<Rightarrow> string \<Rightarrow> catalog \<Rightarrow> catalog \<times> unit res" where
  "migrate_table F now name target_engine c =
     (let target_engine = normalize_engine_name target_engine in
      case table_engine_name c name of
        None \<Rightarrow> (c, Inl (TableNotFound name))
      | Some current_engine_name \<Rightarrow>
          if current_engine_name = target_engine then (c, Inr ())
          else
            (case catalog_snapshot_table c name of
               Inl e \<Rightarrow> (c, Inl e)
             | Inr snap \<Rightarrow>
                 (case get_engine c target_engine of
                    Inl e \<Rightarrow> (c, Inl e)
                  | Inr (ename, target) \<Rightarrow>
                      let meta = table_meta_new now name target_engine in
                      (case engine_create_table (mf_create F) meta (tb_columns snap) target of
                         (target1, Inl e) \<Rightarrow> (set_engine ename target1 c, Inl e)
                       | (target1, Inr _) \<Rightarrow>
                           (case engine_restore_table (mf_restore F) snap target1 of
                              (target2, Inl e) \<Rightarrow>
                                (drop_in (mf_undo F) ename name (set_engine ename target2 c), Inl e)
                            | (target2, Inr _) \<Rightarrow>
                                let c1 = set_meta_engine name target_engine (set_engine ename target2 c) in
                                (case catalog_save (mf_save F) c1 of
                                   (c2, Inl e) \<Rightarrow>
                                     (set_meta_engine name current_engine_name
                                        (drop_in (mf_undo F) ename name c2), Inl e)
                                 | (c2, Inr _) \<Rightarrow>
                                     (case get_engine c2 current_engine_name of
                                        Inl e \<Rightarrow> (c2, Inl e)
                                      | Inr (old_ename, _) \<Rightarrow> (drop_in (mf_old F) old_ename name c2, Inr ()))))))))"

subsection \<open>What the catalog serves\<close>

definition catalog_ok :: "catalog \<Rightarrow> bool" where
  "catalog_ok c \<longleftrightarrow> om_ok (ct_metadata c) \<and> om_ok (ct_engines c) \<and>
     (\<forall>ename e name t. om_get (ct_engines c) ename = Some e \<longrightarrow> engine_tables e name = Some t \<longrightarrow> tb_name t = name) \<and>
     (\<forall>name m. om_get (ct_metadata c) name = Some m \<longrightarrow> normalize_engine_name (tm_engine m) = tm_engine m)"

text \<open>The table behind a name, if the catalog can serve it.\<close>

definition serves :: "catalog \<Rightarrow> string \<Rightarrow> table option" where
  "serves c name =
     (case om_get (ct_metadata c) name of
        None \<Rightarrow> None
      | Some m \<Rightarrow> Option.bind (om_get (ct_engines c) (tm_engine m)) (\<lambda>e. engine_tables e name))"

lemma catalog_get_table_serves: "catalog_get_table c name = Inr t \<longleftrightarrow> serves c name = Some t"
  by (auto simp: catalog_get_table_def get_table_engine_def engine_get_table_def serves_def and_then_def
      split: option.splits)

text \<open>What an engine of the catalog holds under a name.\<close>

definition held_in :: "catalog \<Rightarrow> string \<Rightarrow> string \<Rightarrow> table option" where
  "held_in c ename name = Option.bind (om_get (ct_engines c) ename) (\<lambda>e. engine_tables e name)"

lemma serves_held:
  "serves c name = (case om_get (ct_metadata c) name of None \<Rightarrow> None | Some m \<Rightarrow> held_in c (tm_engine m) name)"
  by (simp add: serves_def held_in_def split: option.splits)

lemma set_engine_simps [simp, frame_simps]:
  "ct_metadata (set_engine n e c) = ct_metadata c"
  "ct_default_engine (set_engine n e c) = ct_default_engine c"
  "ct_engines (set_engine n e c) = om_put (ct_engines c) n e"
  "ct_engines (set_meta name m c) = ct_engines c"
  "ct_metadata (set_meta name m c) = om_put (ct_metadata c) name m"
  "ct_engines (set_meta_engine name en c) = ct_engines c"
  "ct_metadata (drop_in f en name c) = ct_metadata c"
  by (simp_all add: set_engine_def set_meta_def set_meta_engine_def drop_in_def split: option.splits)

lemma catalog_save_frame [frame_simps]:
  "catalog_save f c = (c', r) \<Longrightarrow> ct_metadata c' = ct_metadata c \<and> ct_engines c' = ct_engines c"
  by (auto simp: catalog_save_def split: option.splits)

lemma engines_ok_drop_in: "om_ok (ct_engines c) \<Longrightarrow> om_ok (ct_engines (drop_in f en name c))"
  by (simp add: drop_in_def split: option.splits)

lemma held_set_engine:
  "om_ok (ct_engines c) \<Longrightarrow>
   held_in (set_engine x e c) y n = (if y = x then engine_tables e n else held_in c y n)"
  by (simp add: held_in_def om.get_put)

lemma held_drop_in:
  assumes "om_ok (ct_engines c)"
  shows "held_in (drop_in f x name c) y n = (if y = x \<and> n = name then None else held_in c y n)"
proof (cases "om_get (ct_engines c) x")
  case (Some e)
  have "engine_tables (fst (engine_drop_table f name e)) = (engine_tables e)(name := None)"
    by (rule eng.remove_any [of f name e _ "snd (engine_drop_table f name e)"]) simp
  then show ?thesis
    using Some assms by (simp add: drop_in_def held_set_engine) (simp add: held_in_def)
qed (auto simp: drop_in_def held_in_def)

lemma held_same_engines: "ct_engines c' = ct_engines c \<Longrightarrow> held_in c' = held_in c"
  by (simp add: held_in_def fun_eq_iff)

lemma meta_set_meta_engine:
  "om_ok (ct_metadata c) \<Longrightarrow> om_get (ct_metadata (set_meta_engine name en c)) n =
     (if n = name then map_option (tm_engine_update (\<lambda>_. en)) (om_get (ct_metadata c) n)
      else om_get (ct_metadata c) n)"
  by (simp add: set_meta_engine_def om.get_put split: option.splits)

lemma normalize_idem [simp]: "normalize_engine_name (normalize_engine_name s) = normalize_engine_name s"
  by (simp add: normalize_engine_name_def trim_lower)

lemma get_engine_Inr:
  "get_engine c name = Inr (en, e) \<longleftrightarrow> en = normalize_engine_name name \<and> om_get (ct_engines c) en = Some e"
  by (auto simp: get_engine_def Let_def split: option.splits)

lemma held_get: "om_get (ct_engines c) en = Some e \<Longrightarrow> held_in c en n = engine_tables e n"
  by (simp add: held_in_def)

lemma tm_engine_meta [simp]: "tm_engine (m\<lparr>tm_engine := en\<rparr>) = en"
  by simp

subsection \<open>Migration\<close>

text \<open>The catalog once the copy of the table is in the target engine and the entry points there.\<close>

lemma migrate_saved:
  assumes ok: "catalog_ok c" and m: "om_get (ct_metadata c) name = Some m" "tm_engine m = cur" "cur \<noteq> t"
    and tge: "om_get (ct_engines c) t = Some tg" and held: "held_in c cur name = Some snap"
    and e2: "engine_tables t2 = (engine_tables tg)(name \<mapsto> snap)"
    and c2: "catalog_save f (set_meta_engine name t (set_engine t t2 c)) = (c2, r3)"
  shows "serves c2 n = serves c n" "serves (set_meta_engine name cur (drop_in g t name c2)) n = serves c n"
    "serves (drop_in g cur name c2) n = serves c n"
    "table_engine_name c2 name = Some t" "table_engine_name (drop_in g cur name c2) name = Some t"
proof -
  have okm: "om_ok (ct_metadata c)" and oke: "om_ok (ct_engines c)" using ok by (auto simp: catalog_ok_def)
  let ?c1 = "set_meta_engine name t (set_engine t t2 c)"
  have c2s: "ct_metadata c2 = ct_metadata ?c1" "ct_engines c2 = om_put (ct_engines c) t t2"
    using catalog_save_frame [OF c2] by simp_all
  have h2: "held_in c2 y k = (if y = t then engine_tables t2 k else held_in c y k)" for y k
    using c2s(2) oke by (simp add: held_in_def om.get_put)
  have m2: "om_get (ct_metadata c2) k =
      (if k = name then Some (m\<lparr>tm_engine := t\<rparr>) else om_get (ct_metadata c) k)" for k
    using okm m by (simp add: c2s(1) meta_set_meta_engine)
  have okm2: "om_ok (ct_metadata c2)"
    using okm c2s(1) by (simp add: set_meta_engine_def split: option.splits)
  show s2: "serves c2 n = serves c n"
    using e2 m held h2 m2 held_get [OF tge] by (auto simp: serves_held split: option.splits)
  show "serves (set_meta_engine name cur (drop_in g t name c2)) n = serves c n"
    using e2 m held h2 m2 okm2 oke c2s(2) held_get [OF tge]
    by (auto simp: serves_held meta_set_meta_engine held_same_engines [of "set_meta_engine _ _ _"] held_drop_in
        split: option.splits)
  have "serves (drop_in g cur name c2) n = serves c2 n"
    using m(3) m2 oke c2s(2) by (auto simp: serves_held held_drop_in split: option.splits)
  then show "serves (drop_in g cur name c2) n = serves c n" using s2 by simp
  show "table_engine_name c2 name = Some t" "table_engine_name (drop_in g cur name c2) name = Some t"
    using m2 by (simp_all add: table_engine_name_def)
qed

lemma migrate_cases:
  assumes ok: "catalog_ok c" and mig: "migrate_table F now name tgt c = (c', r)"
  shows "serves c' n = serves c n \<and>
    (r = Inr () \<longrightarrow> table_engine_name c' name = Some (normalize_engine_name tgt))"
proof -
  let ?t = "normalize_engine_name tgt"
  have okm: "om_ok (ct_metadata c)" and oke: "om_ok (ct_engines c)" using ok by (auto simp: catalog_ok_def)
  show ?thesis
  proof (cases "table_engine_name c name = None \<or> table_engine_name c name = Some ?t \<or>
      isl (catalog_snapshot_table c name) \<or> isl (get_engine c ?t)")
    case True
    then show ?thesis using mig by (auto simp: migrate_table_def Let_def isl_def split: option.splits sum.splits if_splits)
  next
    case False
    then obtain cur snap tg where cur: "table_engine_name c name = Some cur" "cur \<noteq> ?t"
      and snap: "catalog_snapshot_table c name = Inr snap"
      and tg: "get_engine c ?t = Inr (?t, tg)"
      by (cases "catalog_snapshot_table c name"; cases "get_engine c ?t") (auto simp: get_engine_Inr)
    obtain m where m: "om_get (ct_metadata c) name = Some m" "tm_engine m = cur"
      using cur(1) by (auto simp: table_engine_name_def)
    have tge: "om_get (ct_engines c) ?t = Some tg" using tg by (simp add: get_engine_Inr)
    have held: "held_in c cur name = Some snap"
      using snap m by (simp add: catalog_snapshot_table_def catalog_get_table_serves serves_held)
    then have nm: "tb_name snap = name"
      using ok unfolding catalog_ok_def held_in_def by (auto simp: bind_eq_Some_conv)
    obtain t1 r1 where t1: "engine_create_table (mf_create F) (table_meta_new now name ?t) (tb_columns snap) tg = (t1, r1)"
      by fastforce
    obtain t2 r2 where t2: "engine_restore_table (mf_restore F) snap t1 = (t2, r2)" by fastforce
    have tm: "tm_name (table_meta_new now name ?t) = name" by (simp add: table_meta_new_def)
    have mig': "migrate_table F now name tgt c =
      (case r1 of Inl e \<Rightarrow> (set_engine ?t t1 c, Inl e)
       | Inr _ \<Rightarrow> (case r2 of
           Inl e \<Rightarrow> (drop_in (mf_undo F) ?t name (set_engine ?t t2 c), Inl e)
         | Inr _ \<Rightarrow>
             (case catalog_save (mf_save F) (set_meta_engine name ?t (set_engine ?t t2 c)) of
                (c2, Inl e) \<Rightarrow> (set_meta_engine name cur (drop_in (mf_undo F) ?t name c2), Inl e)
              | (c2, Inr _) \<Rightarrow>
                  (case get_engine c2 cur of Inl e \<Rightarrow> (c2, Inl e)
                   | Inr (old_ename, _) \<Rightarrow> (drop_in (mf_old F) old_ename name c2, Inr ())))))"
      using cur snap tg t1 t2 by (simp add: migrate_table_def Let_def split: sum.splits)
    show ?thesis
    proof (cases r1)
      case (Inl e)
      have "engine_tables t1 = engine_tables tg" using eng.create_err t1 Inl by blast
      then have "held_in (set_engine ?t t1 c) = held_in c"
        by (auto simp: fun_eq_iff held_set_engine [OF oke] held_get [OF tge])
      then show ?thesis using mig mig' Inl by (auto simp: serves_held split: option.splits)
    next
      case r1: (Inr u1)
      have e1: "engine_tables t1 = (engine_tables tg)(name \<mapsto> table_new name (tb_columns snap))"
        using eng.create_ok t1 r1 tm by metis
      show ?thesis
      proof (cases r2)
        case (Inl e)
        have "engine_tables t2 = engine_tables t1" using eng.restore_err t2 Inl by blast
        then have "serves (drop_in (mf_undo F) ?t name (set_engine ?t t2 c)) n = serves c n"
          using e1 m cur(2) oke by (auto simp: serves_held held_drop_in held_set_engine held_get [OF tge] split: option.splits)
        then show ?thesis using mig mig' r1 Inl by auto
      next
        case r2: (Inr u2)
        have e2: "engine_tables t2 = (engine_tables tg)(name \<mapsto> snap)"
          using eng.restore_ok t2 r2 nm e1 by (metis fun_upd_upd)
        obtain c2 r3 where c2: "catalog_save (mf_save F) (set_meta_engine name ?t (set_engine ?t t2 c)) = (c2, r3)" by fastforce
        note saved = migrate_saved [OF ok m cur(2) tge held e2 c2]
        have "normalize_engine_name cur = cur" using ok m unfolding catalog_ok_def by blast
        then show ?thesis
          using mig mig' r1 r2 c2 saved by (cases r3) (auto simp: get_engine_Inr split: sum.splits)
      qed
    qed
  qed
qed

subsection \<open>Creating and dropping\<close>

lemma create_table_cases:
  assumes "catalog_ok c" "catalog_create_table f g now name cols en c = (c', Inr u)"
  shows "serves c' n = (if n = name then Some (table_new name cols)
      else if \<exists>m. om_get (ct_metadata c) n = Some m then serves c n else None)"
proof -
  have okm: "om_ok (ct_metadata c)" and oke: "om_ok (ct_engines c)" using assms(1) by (auto simp: catalog_ok_def)
  let ?en = "case en of Some e \<Rightarrow> e | None \<Rightarrow> ct_default_engine c"
  let ?t = "normalize_engine_name ?en"
  obtain e where e: "om_get (ct_engines c) ?t = Some e"
    using assms(2) by (auto simp: catalog_create_table_def Let_def get_engine_def split: sum.splits option.splits)
  have ge: "get_engine c ?en = Inr (?t, e)" using e by (simp add: get_engine_Inr)
  obtain e1 r1 where e1: "engine_create_table f (table_meta_new now name ?en) cols e = (e1, r1)" by fastforce
  have r1: "\<exists>u. r1 = Inr u" and sv: "catalog_save g (set_meta name (table_meta_new now name ?en) (set_engine ?t e1 c)) = (c', Inr u)"
    using assms(2) ge e1 by (auto simp: catalog_create_table_def Let_def split: sum.splits)
  have tabs: "engine_tables e1 = (engine_tables e)(name \<mapsto> table_new name cols)"
    using eng.create_ok [of f "table_meta_new now name ?en" cols e e1] e1 r1 by (auto simp: table_meta_new_def)
  have "held_in c' y k = (if y = ?t then engine_tables e1 k else held_in c y k)"
    "om_get (ct_metadata c') k = (if k = name then Some (table_meta_new now name ?en) else om_get (ct_metadata c) k)" for y k
    using catalog_save_frame [OF sv] okm oke by (simp_all add: held_in_def om.get_put)
  then show ?thesis
    using tabs held_get [OF e] by (auto simp: serves_held table_meta_new_def split: option.splits)
qed

lemma catalog_ok_create:
  assumes "catalog_ok c" "catalog_create_table f g now name cols en c = (c', Inr u)"
  shows "catalog_ok c'"
proof -
  have okm: "om_ok (ct_metadata c)" and oke: "om_ok (ct_engines c)" using assms(1) by (auto simp: catalog_ok_def)
  let ?en = "case en of Some e \<Rightarrow> e | None \<Rightarrow> ct_default_engine c"
  let ?t = "normalize_engine_name ?en"
  obtain e where e: "om_get (ct_engines c) ?t = Some e"
    using assms(2) by (auto simp: catalog_create_table_def Let_def get_engine_def split: sum.splits option.splits)
  have ge: "get_engine c ?en = Inr (?t, e)" using e by (simp add: get_engine_Inr)
  obtain e1 r1 where e1: "engine_create_table f (table_meta_new now name ?en) cols e = (e1, r1)" by fastforce
  have r1: "\<exists>u. r1 = Inr u" and sv: "catalog_save g (set_meta name (table_meta_new now name ?en) (set_engine ?t e1 c)) = (c', Inr u)"
    using assms(2) ge e1 by (auto simp: catalog_create_table_def Let_def split: sum.splits)
  have tabs: "engine_tables e1 = (engine_tables e)(name \<mapsto> table_new name cols)"
    using eng.create_ok [of f "table_meta_new now name ?en" cols e e1] e1 r1 by (auto simp: table_meta_new_def)
  have c': "ct_engines c' = om_put (ct_engines c) ?t e1"
    "ct_metadata c' = om_put (ct_metadata c) name (table_meta_new now name ?en)"
    using catalog_save_frame [OF sv] by simp_all
  have "tb_name t = k" if "om_get (ct_engines c') n = Some e'" "engine_tables e' k = Some t" for n e' k t
    using that assms(1) oke tabs e table_new_indexes [of name cols] unfolding catalog_ok_def c'
    by (auto simp: om.get_put split: if_splits)
  moreover have "normalize_engine_name (tm_engine m) = tm_engine m" if "om_get (ct_metadata c') k = Some m" for k m
    using that assms(1) okm unfolding catalog_ok_def c'
    by (auto simp: om.get_put table_meta_new_def split: if_splits)
  ultimately show ?thesis using okm oke by (auto simp: catalog_ok_def c')
qed

lemma drop_table_cases:
  assumes "catalog_ok c" "catalog_drop_table f g name c = (c', Inr u)"
  shows "serves c' n = (if n = name then None else serves c n)"
proof -
  have okm: "om_ok (ct_metadata c)" and oke: "om_ok (ct_engines c)" using assms(1) by (auto simp: catalog_ok_def)
  obtain en e where e: "get_table_engine c name = Inr (en, e)"
    using assms(2) by (auto simp: catalog_drop_table_def split: sum.splits)
  obtain e1 r1 where e1: "engine_drop_table f name e = (e1, r1)" by fastforce
  have en: "om_get (ct_engines c) en = Some e"
    using e by (auto simp: get_table_engine_def split: option.splits)
  have sv: "catalog_save g ((set_engine en e1 c)\<lparr>ct_metadata := om_del (ct_metadata c) name\<rparr>) = (c', Inr u)"
    using assms(2) e e1 by (auto simp: catalog_drop_table_def Let_def split: sum.splits)
  have "engine_tables e1 = (engine_tables e)(name := None)" using eng.remove_any [OF e1] .
  moreover have "held_in c' y k = (if y = en then engine_tables e1 k else held_in c y k)"
    "om_get (ct_metadata c') k = (if k = name then None else om_get (ct_metadata c) k)" for y k
    using catalog_save_frame [OF sv] okm oke by (simp_all add: held_in_def om.get_put om.get_del)
  ultimately show ?thesis
    using held_get [OF en] by (auto simp: serves_held split: option.splits)
qed

subsection \<open>Properties\<close>

text \<open>C36: a migration never loses or changes a table. Whatever step of it fails, every table the catalog
  served before is served unchanged afterwards, with its rows, versions and indexes; and when the
  migration reports success the table is registered with the target engine.\<close>
theorem migrate_preserves_tables:
  assumes "catalog_ok c" "migrate_table F now name tgt c = (c', r)"
  shows "serves c' n = serves c n \<and>
    (r = Inr () \<longrightarrow> table_engine_name c' name = Some (normalize_engine_name tgt))"
  using migrate_cases [OF assms] .

definition no_faults :: migration_faults where
  "no_faults = \<lparr>mf_create = None, mf_restore = None, mf_undo = None, mf_save = None, mf_old = None\<rparr>"

lemma catalog_ok_open: "catalog_ok (catalog_open disk_empty None d)"
proof -
  have "om_ok (ct_engines (catalog_open disk_empty None d))" "om_ok (ct_metadata (catalog_open disk_empty None d))"
    by (simp_all add: catalog_open_def Let_def)
  moreover have "om_get (ct_engines (catalog_open disk_empty None d)) en = Some e \<Longrightarrow> engine_tables e n = None" for en e n
    by (auto simp: catalog_open_def Let_def om.get_put memory_new_def disk_empty_def split: if_splits)
  ultimately show ?thesis by (auto simp: catalog_ok_def catalog_open_def Let_def)
qed

lemma sample_catalog_created:
  "\<exists>c. catalog_create_table None None 0 ''t'' sample_columns None (catalog_open disk_empty None ''disk'') = (c, Inr ())"
proof -
  have d: "normalize_engine_name ''disk'' = ''disk''" by code_simp
  then show ?thesis
    by (simp add: catalog_create_table_def Let_def get_engine_def catalog_open_def om.get_put
        disk_create_table_def on_disk_def catalog_save_def)
qed

theorem migrate_preserves_tables_witness:
  "\<exists>c0 c r. catalog_create_table None None 0 ''t'' sample_columns None (catalog_open disk_empty None ''disk'') = (c0, Inr ()) \<and>
     migrate_table no_faults 0 ''t'' '' MEMORY'' c0 = (c, r) \<and> serves c ''t'' = Some (table_new ''t'' sample_columns)"
proof -
  obtain c0 where c0: "catalog_create_table None None 0 ''t'' sample_columns None (catalog_open disk_empty None ''disk'') = (c0, Inr ())"
    using sample_catalog_created by blast
  obtain c r where m: "migrate_table no_faults 0 ''t'' '' MEMORY'' c0 = (c, r)" by fastforce
  have "serves c0 ''t'' = Some (table_new ''t'' sample_columns)"
    using create_table_cases [OF catalog_ok_open c0, of "''t''"] by simp
  then show ?thesis
    using migrate_preserves_tables [OF catalog_ok_create [OF catalog_ok_open c0] m, of "''t''"] c0 m by auto
qed

text \<open>creating a table registers it empty and changes no other table, and dropping one removes it and
  no other.\<close>
theorem catalog_create_drop:
  assumes "catalog_ok c"
  shows "(catalog_create_table f g now name cols en c = (c1, Inr u) \<longrightarrow>
      serves c1 n = (if n = name then Some (table_new name cols) else serves c n)) \<and>
    (catalog_drop_table f g name c = (c2, Inr u) \<longrightarrow> serves c2 n = (if n = name then None else serves c n))"
  using create_table_cases [OF assms, of f g now name cols en c1 u n] drop_table_cases [OF assms, of f g name c2 u n]
  by (auto simp: serves_def split: option.splits)

theorem catalog_create_drop_witness:
  "\<exists>c. catalog_create_table None None 0 ''t'' sample_columns None (catalog_open disk_empty None ''disk'') = (c, Inr ()) \<and>
     serves c ''t'' = Some (table_new ''t'' sample_columns)"
proof -
  obtain c where c: "catalog_create_table None None 0 ''t'' sample_columns None (catalog_open disk_empty None ''disk'') = (c, Inr ())"
    using sample_catalog_created by blast
  show ?thesis using catalog_create_drop [OF catalog_ok_open, of None None 0 "''t''" sample_columns None _ c "()" "''t''"] c by simp
qed

end
