(* ===== verification/Framing.thy ===== *)
theory Framing
  imports Prelude
begin

text \<open>
  Length-prefixed frames in a byte buffer, as the log writes them. The locale \<open>framing\<close> is
  the contract between a writer, which appends whole frames, and a reader, which takes the
  buffer apart: it gives back every record of a sequence of frames, and of a sequence cut off
  anywhere exactly the records whose frames are complete.
\<close>

subsection \<open>Little-endian numbers\<close>

fun le_bytes :: "nat \<Rightarrow> nat \<Rightarrow> byte list" where
  "le_bytes 0 x = []"
| "le_bytes (Suc n) x = of_nat (x mod 256) # le_bytes n (x div 256)"

fun le_nat :: "byte list \<Rightarrow> nat" where
  "le_nat [] = 0"
| "le_nat (b # bs) = unat b + 256 * le_nat bs"

lemma length_le_bytes [simp]: "length (le_bytes n x) = n"
  by (induction n x rule: le_bytes.induct) auto

lemma unat_of_nat_byte: "unat (of_nat (x mod 256) :: byte) = x mod 256"
  by (simp add: unat_of_nat)

lemma le_nat_le_bytes: "x < 256 ^ n \<Longrightarrow> le_nat (le_bytes n x) = x"
proof (induction n x rule: le_bytes.induct)
  case (2 n x)
  then have "x div 256 < 256 ^ n" by (simp add: less_mult_imp_div_less mult.commute)
  then show ?case using 2 by (simp add: unat_of_nat_byte)
qed simp

lemma le_nat_bound: "le_nat bs < 256 ^ length bs"
proof (induction bs)
  case (Cons b bs)
  have "unat b < 256" using unsigned_less [of b, where ?'a = nat] by simp
  then have "unat b + 256 * le_nat bs < 256 * (1 + le_nat bs)" by simp
  also have "\<dots> \<le> 256 * 256 ^ length bs" using Cons by (simp add: Suc_le_eq)
  finally show ?case by simp
qed simp

subsection \<open>Readers\<close>

text \<open>
  One step of a reader at an offset: it stops at an incomplete frame, panics, skips a frame
  it cannot use, or gets a record; the number is that of the bytes consumed.
\<close>

datatype 'a frame_step = Stop | Panic | Skip nat | Got 'a nat

fun complete_frames :: "('a \<Rightarrow> byte list) \<Rightarrow> nat \<Rightarrow> 'a list \<Rightarrow> nat" where
  "complete_frames frame n [] = 0"
| "complete_frames frame n (x # xs) =
     (if length (frame x) \<le> n then Suc (complete_frames frame (n - length (frame x)) xs) else 0)"

lemma complete_frames_le: "complete_frames frame n xs \<le> length xs"
  by (induction frame n xs rule: complete_frames.induct) auto

lemma complete_frames_all:
  "length (concat (map frame xs)) \<le> n \<Longrightarrow> complete_frames frame n (xs @ ys) \<ge> length xs"
proof (induction xs arbitrary: n)
  case (Cons x xs)
  then show ?case using Cons.IH [of "n - length (frame x)"] by simp
qed simp

lemma complete_frames_fit:
  "length (concat (map frame (take (complete_frames frame n xs) xs))) \<le> n"
proof (induction frame n xs rule: complete_frames.induct)
  case (2 frame n x xs)
  then show ?case by (cases "length (frame x) \<le> n") auto
qed simp

lemma complete_frames_next:
  "complete_frames frame n xs < length xs \<Longrightarrow>
   n < length (concat (map frame (take (Suc (complete_frames frame n xs)) xs)))"
proof (induction frame n xs rule: complete_frames.induct)
  case (2 frame n x xs)
  then show ?case by (cases "length (frame x) \<le> n") auto
qed simp

locale framing =
  fixes frame :: "'a \<Rightarrow> byte list"
    and valid :: "'a \<Rightarrow> bool"
    and limit :: nat
    and next_frame :: "nat \<Rightarrow> byte list \<Rightarrow> 'a frame_step"
    and loop :: "nat \<Rightarrow> byte list \<Rightarrow> 'a list option"
  assumes next_empty: "next_frame off [] = Stop"
    and next_whole: "valid x \<Longrightarrow> off + length (frame x) \<le> limit \<Longrightarrow>
          next_frame off (frame x @ rest) = Got x (length (frame x))"
    and next_torn: "valid x \<Longrightarrow> off + length (frame x) \<le> limit \<Longrightarrow> n < length (frame x) \<Longrightarrow>
          next_frame off (take n (frame x)) = Stop"
    and loop_unfold: "loop off bs =
          (case next_frame off bs of
             Stop \<Rightarrow> Some []
           | Panic \<Rightarrow> None
           | Skip n \<Rightarrow> loop (off + n) (drop n bs)
           | Got x n \<Rightarrow> map_option (Cons x) (loop (off + n) (drop n bs)))"
begin

lemma loop_empty: "loop off [] = Some []"
  by (subst loop_unfold) (simp add: next_empty)

lemma loop_frame:
  "valid x \<Longrightarrow> off + length (frame x) \<le> limit \<Longrightarrow>
   loop off (frame x @ rest) = map_option (Cons x) (loop (off + length (frame x)) rest)"
  by (subst loop_unfold) (simp add: next_whole)

lemma loop_frames_append:
  "\<forall>x \<in> set xs. valid x \<Longrightarrow> off + length (concat (map frame xs)) \<le> limit \<Longrightarrow>
   loop off (concat (map frame xs) @ rest) =
     map_option ((@) xs) (loop (off + length (concat (map frame xs))) rest)"
proof (induction xs arbitrary: off)
  case Nil
  then show ?case by (simp add: option.map_ident)
next
  case (Cons x xs)
  have "loop off (concat (map frame (x # xs)) @ rest) =
      map_option (Cons x) (loop (off + length (frame x)) (concat (map frame xs) @ rest))"
    using Cons.prems loop_frame [of x off "concat (map frame xs) @ rest"] by simp
  then show ?case
    using Cons.IH [of "off + length (frame x)"] Cons.prems
    by (simp add: option.map_comp o_def add.assoc)
qed

lemma loop_frames:
  "\<forall>x \<in> set xs. valid x \<Longrightarrow> off + length (concat (map frame xs)) \<le> limit \<Longrightarrow>
   loop off (concat (map frame xs)) = Some xs"
  using loop_frames_append [of xs off "[]"] by (simp add: loop_empty)

lemma loop_truncated:
  "\<forall>x \<in> set xs. valid x \<Longrightarrow> off + length (concat (map frame xs)) \<le> limit \<Longrightarrow>
   loop off (take n (concat (map frame xs))) = Some (take (complete_frames frame n xs) xs)"
proof (induction xs arbitrary: off n)
  case Nil
  then show ?case by (simp add: loop_empty)
next
  case (Cons x xs)
  show ?case
  proof (cases "length (frame x) \<le> n")
    case True
    then have "take n (concat (map frame (x # xs))) = frame x @ take (n - length (frame x)) (concat (map frame xs))"
      by simp
    then show ?thesis
      using True Cons.IH [of "off + length (frame x)" "n - length (frame x)"] Cons.prems
        loop_frame [of x off] by simp
  next
    case False
    then have "take n (concat (map frame (x # xs))) = take n (frame x)" by simp
    then show ?thesis
      using False Cons.prems next_torn [of x off n] by (subst loop_unfold) simp
  qed
qed

end

end
