(* ===== verification/Wal.thy ===== *)
theory Wal
  imports Framing Table Permissions
begin

text \<open>
  The write-ahead log (\<open>src/src/storage/wal.rs\<close>): its records, the writer with its two
  durability modes, rotation, and the replay that rebuilds the tables. bincode and crc32fast
  are parameters (\<open>codec\<close>); that deserialisation inverts serialisation is the named
  hypothesis \<open>codec_ok\<close>. A failing write or sync of the file system is a plan given to the
  operation.
\<close>

datatype wal_record =
    WCreateTable string "column_meta list"
  | WDropTable string
  | WInsert string row u64
  | WUpdate string nat row u64
  | WDelete string nat u64
  | WCommit u64
  | WCheckpoint u32 "(string \<times> column_meta list \<times> row_version list list) list"
  | WCreateUser string string
  | WDropUser string
  | WGrant string string permission
  | WRevoke string string permission

record codec =
  cd_serialize :: "wal_record \<Rightarrow> string + byte list"
  cd_deserialize :: "byte list \<Rightarrow> wal_record option"
  cd_crc32 :: "byte list \<Rightarrow> u32"

definition codec_ok :: "codec \<Rightarrow> bool" where
  "codec_ok C \<longleftrightarrow> (\<forall>r b. cd_serialize C r = Inr b \<longrightarrow> cd_deserialize C b = Some r)"

subsection \<open>The writer\<close>

text \<open>
  \<open>ww_file\<close> is the content of the log file; \<open>ww_synced\<close> counts the bytes of it that a
  completed sync has made durable.
\<close>

record wal_writer =
  ww_file :: "byte list"
  ww_durability :: string
  ww_unsynced_bytes :: nat
  ww_synced :: nat

datatype io_fault = WriteFails nat string | SyncFails string

definition wal_open :: "string \<Rightarrow> byte list \<Rightarrow> wal_writer" where
  "wal_open durability file =
     \<lparr>ww_file = file, ww_durability = durability, ww_unsynced_bytes = 0, ww_synced = length file\<rparr>"

definition wal_frame :: "codec \<Rightarrow> byte list \<Rightarrow> byte list" where
  "wal_frame C bytes =
     le_bytes 8 (length bytes) @ bytes @ le_bytes 4 (unat (cd_crc32 C bytes))"

definition sync_all :: "wal_writer \<Rightarrow> wal_writer" where
  "sync_all w = w\<lparr>ww_unsynced_bytes := 0, ww_synced := length (ww_file w)\<rparr>"

definition wal_append :: "codec \<Rightarrow> io_fault option \<Rightarrow> wal_record \<Rightarrow> wal_writer \<Rightarrow> wal_writer \<times> unit res" where
  "wal_append C fault rcd w =
     (case cd_serialize C rcd of
        Inl e \<Rightarrow> (w, Inl (Serialization e))
      | Inr bytes \<Rightarrow>
          (case fault of
             Some (WriteFails n e) \<Rightarrow>
               (w\<lparr>ww_file := ww_file w @ take n (wal_frame C bytes)\<rparr>, Inl (Io e))
           | _ \<Rightarrow>
               let w1 = w\<lparr>ww_file := ww_file w @ wal_frame C bytes,
                          ww_unsynced_bytes := ww_unsynced_bytes w + (8 + length bytes + 4)\<rparr>
               in if ww_durability w = ''sync'' \<or> ww_unsynced_bytes w1 > 1048576 then
                    (case fault of
                       Some (SyncFails e) \<Rightarrow> (w1, Inl (Io e))
                     | _ \<Rightarrow> (sync_all w1, Inr ()))
                  else (w1, Inr ())))"

definition wal_flush :: "io_fault option \<Rightarrow> wal_writer \<Rightarrow> wal_writer \<times> unit res" where
  "wal_flush fault w =
     (case fault of None \<Rightarrow> (sync_all w, Inr ()) | Some (SyncFails e) \<Rightarrow> (w, Inl (Io e))
      | Some (WriteFails n e) \<Rightarrow> (w, Inl (Io e)))"

text \<open>The two log files of the data directory.\<close>

record wal_files =
  wf_old :: "byte list option"
  wf_current :: "byte list option"

text \<open>\<open>rotate\<close>: the current file becomes \<open>helion.wal.old\<close>, replacing any such file, and a fresh one starts.\<close>

definition wal_rotate :: "wal_writer \<Rightarrow> wal_files \<Rightarrow> wal_writer \<times> wal_files" where
  "wal_rotate w d =
     (let w1 = w\<lparr>ww_synced := length (ww_file w)\<rparr> in
      (w1\<lparr>ww_file := [], ww_synced := 0\<rparr>, d\<lparr>wf_old := Some (ww_file w1), wf_current := Some []\<rparr>))"

subsection \<open>Replay\<close>

definition find_table :: "string \<Rightarrow> (table \<Rightarrow> table) \<Rightarrow> table list \<Rightarrow> table list" where
  "find_table name f tables = update_first (\<lambda>t. tb_name t = name) f tables"

definition set_chain :: "nat \<Rightarrow> row_version list \<Rightarrow> table \<Rightarrow> table" where
  "set_chain i c t = t\<lparr>tb_version_chains := (tb_version_chains t)[i := c]\<rparr>"

definition restored_table :: "string \<times> column_meta list \<times> row_version list list \<Rightarrow> table" where
  "restored_table ct = (case ct of (name, columns, cs) \<Rightarrow> (table_new name columns)\<lparr>tb_version_chains := cs\<rparr>)"

definition replay_insert :: "row \<Rightarrow> u64 \<Rightarrow> table \<Rightarrow> table" where
  "replay_insert r txid t =
     (case validate_row t r of
        Inl _ \<Rightarrow> t
      | Inr _ \<Rightarrow> t\<lparr>tb_version_chains := tb_version_chains t @ [[new_insert txid r]]\<rparr>)"

definition replay_update :: "nat \<Rightarrow> row \<Rightarrow> u64 \<Rightarrow> table \<Rightarrow> table" where
  "replay_update row_idx new_row txid t =
     (if row_idx < length (tb_version_chains t)
      then set_chain row_idx (push_version txid (new_update txid new_row) (tb_version_chains t ! row_idx)) t
      else t)"

definition replay_delete :: "nat \<Rightarrow> u64 \<Rightarrow> table \<Rightarrow> table" where
  "replay_delete row_idx txid t =
     (if row_idx < length (tb_version_chains t) \<and> tb_version_chains t ! row_idx \<noteq> []
      then set_chain row_idx
             (push_version txid (new_delete txid (rv_row (last (tb_version_chains t ! row_idx))))
                (tb_version_chains t ! row_idx)) t
      else t)"

fun apply_wal_record :: "table list \<Rightarrow> wal_record \<Rightarrow> table list" where
  "apply_wal_record tables (WCreateTable name columns) =
     (if list_ex (\<lambda>t. tb_name t = name) tables then tables else tables @ [table_new name columns])"
| "apply_wal_record tables (WDropTable name) = filter (\<lambda>t. tb_name t \<noteq> name) tables"
| "apply_wal_record tables (WInsert name r txid) = find_table name (replay_insert r txid) tables"
| "apply_wal_record tables (WUpdate name row_idx new_row txid) =
     find_table name (replay_update row_idx new_row txid) tables"
| "apply_wal_record tables (WDelete name row_idx txid) =
     find_table name (replay_delete row_idx txid) tables"
| "apply_wal_record tables (WCommit txid) = tables"
| "apply_wal_record tables (WCheckpoint table_count checkpoint_tables) =
     map restored_table checkpoint_tables"
| "apply_wal_record tables (WCreateUser username password_hash) = tables"
| "apply_wal_record tables (WDropUser username) = tables"
| "apply_wal_record tables (WGrant username tbl permission) = tables"
| "apply_wal_record tables (WRevoke username tbl permission) = tables"

text \<open>
  One round of the loop of \<open>replay_wal_buf\<close> at an offset: \<open>bs\<close> is the buffer from the offset on.
  The addition \<open>offset + record_len + 4\<close> is one on \<open>usize\<close>; when it overflows, the round panics:
  the addition itself with overflow checks, the slice after it without them.
\<close>

definition wal_next :: "codec \<Rightarrow> nat \<Rightarrow> byte list \<Rightarrow> wal_record frame_step" where
  "wal_next C offset bs =
     (if length bs < 8 then Stop
      else
        let record_len = le_nat (take 8 bs);
            rest = drop 8 bs
        in if 2 ^ 64 \<le> offset + 8 + record_len + 4 then Panic
           else if length rest < record_len + 4 then Stop
           else
             let data = take record_len rest;
                 stored_checksum = le_nat (take 4 (drop record_len rest));
                 used = 8 + record_len + 4
             in if stored_checksum \<noteq> unat (cd_crc32 C data) then Skip used
                else (case cd_deserialize C data of None \<Rightarrow> Skip used | Some r \<Rightarrow> Got r used))"

lemma wal_next_used:
  "wal_next C off bs = Skip n \<Longrightarrow> bs \<noteq> [] \<and> 0 < n" "wal_next C off bs = Got r n \<Longrightarrow> bs \<noteq> [] \<and> 0 < n"
  by (auto simp: wal_next_def Let_def split: if_splits option.splits)

function replay_loop ::
  "codec \<Rightarrow> nat \<Rightarrow> byte list \<Rightarrow> table list \<Rightarrow> wal_record list \<Rightarrow> (table list \<times> wal_record list) option" where
  "replay_loop C offset bs tables records =
     (case wal_next C offset bs of
        Stop \<Rightarrow> Some (tables, records)
      | Panic \<Rightarrow> None
      | Skip n \<Rightarrow> replay_loop C (offset + n) (drop n bs) tables records
      | Got r n \<Rightarrow>
          replay_loop C (offset + n) (drop n bs) (apply_wal_record tables r) (records @ [r]))"
  by pat_completeness auto
termination
  by (relation "measure (\<lambda>(C, off, bs, ts, rs). length bs)") (auto dest: wal_next_used)

declare replay_loop.simps [simp del]

definition replay_wal_buf :: "codec \<Rightarrow> table list \<Rightarrow> byte list \<Rightarrow> (table list \<times> wal_record list) option" where
  "replay_wal_buf C tables buf = replay_loop C 0 buf tables []"

text \<open>\<open>replay_wal\<close>: the old file, then the current one.\<close>

definition replay_wal :: "codec \<Rightarrow> wal_files \<Rightarrow> (table list \<times> wal_record list) option" where
  "replay_wal C d =
     Option.bind
       (case wf_old d of None \<Rightarrow> Some ([], []) | Some buf \<Rightarrow> replay_wal_buf C [] buf)
       (\<lambda>(tables, all_records).
          case wf_current d of
            None \<Rightarrow> Some (tables, all_records)
          | Some buf \<Rightarrow>
              map_option (\<lambda>(tables', records). (tables', all_records @ records)) (replay_wal_buf C tables buf))"

subsection \<open>The records of a buffer\<close>

function wal_records :: "codec \<Rightarrow> nat \<Rightarrow> byte list \<Rightarrow> wal_record list option" where
  "wal_records C offset bs =
     (case wal_next C offset bs of
        Stop \<Rightarrow> Some []
      | Panic \<Rightarrow> None
      | Skip n \<Rightarrow> wal_records C (offset + n) (drop n bs)
      | Got r n \<Rightarrow> map_option (Cons r) (wal_records C (offset + n) (drop n bs)))"
  by pat_completeness auto
termination
  by (relation "measure (\<lambda>(C, off, bs). length bs)") (auto dest: wal_next_used)

declare wal_records.simps [simp del]

lemma replay_loop_records:
  "replay_loop C off bs tables rs =
     map_option (\<lambda>rs'. (foldl apply_wal_record tables rs', rs @ rs')) (wal_records C off bs)"
proof (induction C off bs tables rs rule: replay_loop.induct)
  case (1 C off bs tables rs)
  show ?case
    using 1 by (subst replay_loop.simps, subst wal_records.simps)
      (auto split: frame_step.splits simp: option.map_comp o_def)
qed

lemma replay_wal_buf_records:
  "replay_wal_buf C tables buf =
     map_option (\<lambda>rs. (foldl apply_wal_record tables rs, rs)) (wal_records C 0 buf)"
  by (simp add: replay_wal_buf_def replay_loop_records)

definition record_frame :: "codec \<Rightarrow> wal_record \<Rightarrow> byte list" where
  "record_frame C r = (case cd_serialize C r of Inl _ \<Rightarrow> [] | Inr b \<Rightarrow> wal_frame C b)"

definition serializable :: "codec \<Rightarrow> wal_record \<Rightarrow> bool" where
  "serializable C r \<longleftrightarrow> (case cd_serialize C r of Inl _ \<Rightarrow> False | Inr b \<Rightarrow> cd_deserialize C b = Some r)"

lemma length_wal_frame [simp]: "length (wal_frame C b) = length b + 12"
  by (simp add: wal_frame_def)

lemma serializableE:
  assumes "serializable C r"
  obtains b where "cd_serialize C r = Inr b" "cd_deserialize C b = Some r" "record_frame C r = wal_frame C b"
  using assms by (auto simp: serializable_def record_frame_def split: sum.splits)

lemma crc_bytes: "le_nat (le_bytes 4 (unat (c::u32))) = unat c"
  using unsigned_less [of c, where ?'a = nat] by (simp add: le_nat_le_bytes)

lemma wal_next_whole:
  assumes "serializable C r" "off + length (record_frame C r) \<le> 2 ^ 63"
  shows "wal_next C off (record_frame C r @ rest) = Got r (length (record_frame C r))"
proof -
  obtain b where b: "cd_deserialize C b = Some r" "record_frame C r = wal_frame C b"
    using assms(1) by (rule serializableE)
  have len: "le_nat (le_bytes 8 (length b)) = length b"
    using assms(2) b(2) by (intro le_nat_le_bytes) simp
  show ?thesis
    using assms(2) b by (simp add: wal_next_def Let_def wal_frame_def len crc_bytes)
qed

lemma wal_next_torn:
  assumes "serializable C r" "off + length (record_frame C r) \<le> 2 ^ 63" "n < length (record_frame C r)"
  shows "wal_next C off (take n (record_frame C r)) = Stop"
proof -
  obtain b where b: "record_frame C r = wal_frame C b" using assms(1) by (rule serializableE)
  have len: "le_nat (le_bytes 8 (length b)) = length b"
    using assms(2) b by (intro le_nat_le_bytes) simp
  show ?thesis
  proof (cases "n < 8")
    case False
    then have "le_nat (take 8 (take n (wal_frame C b))) = length b"
      using len by (simp add: wal_frame_def)
    moreover have "n - 8 < length b + 4" using assms(3) b False by simp
    ultimately show ?thesis using assms(2,3) b False by (simp add: wal_next_def Let_def)
  next
    case True
    then have "length (take n (record_frame C r)) < 8" by simp
    then show ?thesis by (simp only: wal_next_def if_True)
  qed
qed

interpretation wal: framing "record_frame C" "serializable C" "2 ^ 63" "wal_next C" "wal_records C" for C
proof
  show "wal_next C off [] = Stop" for off by (simp add: wal_next_def)
  show "serializable C x \<Longrightarrow> off + length (record_frame C x) \<le> 2 ^ 63 \<Longrightarrow>
      wal_next C off (record_frame C x @ rest) = Got x (length (record_frame C x))" for x off rest
    by (rule wal_next_whole)
  show "serializable C x \<Longrightarrow> off + length (record_frame C x) \<le> 2 ^ 63 \<Longrightarrow> n < length (record_frame C x) \<Longrightarrow>
      wal_next C off (take n (record_frame C x)) = Stop" for x off n
    by (rule wal_next_torn)
  show "wal_records C off bs = (case wal_next C off bs of Stop \<Rightarrow> Some [] | Panic \<Rightarrow> None
      | Skip n \<Rightarrow> wal_records C (off + n) (drop n bs)
      | Got x n \<Rightarrow> map_option (Cons x) (wal_records C (off + n) (drop n bs)))" for off bs
    by (rule wal_records.simps)
qed

definition log_of :: "codec \<Rightarrow> wal_record list \<Rightarrow> byte list" where
  "log_of C rs = concat (map (record_frame C) rs)"

lemma log_of_simps [simp]:
  "log_of C [] = []" "log_of C (r # rs) = record_frame C r @ log_of C rs"
  "log_of C (rs @ rs') = log_of C rs @ log_of C rs'"
  by (simp_all add: log_of_def)

definition all_serializable :: "codec \<Rightarrow> wal_record list \<Rightarrow> bool" where
  "all_serializable C rs \<longleftrightarrow> (\<forall>r \<in> set rs. serializable C r)"

lemma serializable_codec_ok: "codec_ok C \<Longrightarrow> serializable C r \<longleftrightarrow> (\<exists>b. cd_serialize C r = Inr b)"
  by (auto simp: serializable_def codec_ok_def split: sum.splits)

lemma wal_records_log:
  "all_serializable C rs \<Longrightarrow> length (log_of C rs) \<le> 2 ^ 63 \<Longrightarrow> wal_records C 0 (log_of C rs) = Some rs"
  using wal.loop_frames [of rs C 0] by (simp add: all_serializable_def log_of_def)

lemma wal_records_truncated:
  "all_serializable C rs \<Longrightarrow> length (log_of C rs) \<le> 2 ^ 63 \<Longrightarrow>
   wal_records C 0 (take n (log_of C rs)) = Some (take (complete_frames (record_frame C) n rs) rs)"
  using wal.loop_truncated [of rs C 0 n] by (simp add: all_serializable_def log_of_def)

lemma wal_records_log_append:
  "all_serializable C rs \<Longrightarrow> length (log_of C rs) \<le> 2 ^ 63 \<Longrightarrow>
   wal_records C 0 (log_of C rs @ rest) = map_option ((@) rs) (wal_records C (length (log_of C rs)) rest)"
  using wal.loop_frames_append [of rs C 0 rest] by (simp add: all_serializable_def log_of_def)

subsection \<open>Properties of the writer\<close>

text \<open>The bytes of the file are accounted for: what is not counted as unsynced is durable.\<close>

definition writer_ok :: "wal_writer \<Rightarrow> bool" where
  "writer_ok w \<longleftrightarrow> ww_synced w + ww_unsynced_bytes w = length (ww_file w) \<and>
     (if ww_durability w = ''sync'' then ww_unsynced_bytes w = 0 else ww_unsynced_bytes w \<le> 1048576)"

lemma wal_append_Inr:
  assumes "wal_append C fault r w = (w', Inr u)"
  obtains b where "cd_serialize C r = Inr b" "ww_file w' = ww_file w @ wal_frame C b"
    "ww_durability w' = ww_durability w"
    "writer_ok w \<Longrightarrow> writer_ok w'"
proof -
  obtain b where b: "cd_serialize C r = Inr b"
    using assms by (auto simp: wal_append_def split: sum.splits)
  moreover have "ww_file w' = ww_file w @ wal_frame C b" "ww_durability w' = ww_durability w"
    using assms b
    by (auto simp: wal_append_def Let_def sync_all_def split: option.splits io_fault.splits if_splits)
  moreover have "writer_ok w'" if "writer_ok w"
    using assms b that
    by (auto simp: wal_append_def Let_def sync_all_def writer_ok_def
        split: option.splits io_fault.splits if_splits)
  ultimately show ?thesis using that by blast
qed

text \<open>The file is the log of the records, and the last sync ended after one of them.\<close>

definition writer_log :: "codec \<Rightarrow> wal_record list \<Rightarrow> wal_writer \<Rightarrow> bool" where
  "writer_log C rs w \<longleftrightarrow> writer_ok w \<and> ww_file w = log_of C rs \<and>
     (\<exists>j. ww_synced w = length (log_of C (take j rs)))"

lemma log_of_split: "length (log_of C rs) = length (log_of C (take k rs)) + length (log_of C (drop k rs))"
  by (metis append_take_drop_id length_append log_of_simps(3))

lemma log_of_drop_mono: "j \<le> k \<Longrightarrow> length (log_of C (drop k rs)) \<le> length (log_of C (drop j rs))"
  using log_of_split [of C "drop j rs" "k - j"] by simp

lemma writer_log_lost:
  assumes "writer_log C rs w" "ww_synced w \<le> n"
  shows "length (log_of C (drop (complete_frames (record_frame C) n rs) rs)) \<le> ww_unsynced_bytes w"
proof -
  obtain j where j: "ww_synced w = length (log_of C (take j rs))"
    using assms(1) by (auto simp: writer_log_def)
  have "length (take j rs) \<le> complete_frames (record_frame C) n (take j rs @ drop j rs)"
    using assms(2) j by (intro complete_frames_all) (simp add: log_of_def)
  then have "length (take j rs) \<le> complete_frames (record_frame C) n rs" by simp
  then have "length (log_of C (drop (complete_frames (record_frame C) n rs) rs)) \<le> length (log_of C (drop j rs))"
    using log_of_drop_mono [of j "complete_frames (record_frame C) n rs" C rs] by (cases "j \<le> length rs") auto
  also have "\<dots> = ww_unsynced_bytes w"
  proof -
    have "ww_synced w + ww_unsynced_bytes w = length (log_of C rs)"
      using assms(1) by (simp only: writer_log_def writer_ok_def)
    then show ?thesis using j log_of_split [of C rs j] by linarith
  qed
  finally show ?thesis .
qed

lemma writer_log_append:
  assumes "writer_log C rs w" "wal_append C fault r w = (w', Inr u)"
  shows "writer_log C (rs @ [r]) w' \<and> ww_durability w' = ww_durability w \<and> (\<exists>b. cd_serialize C r = Inr b)"
proof -
  obtain j where j: "ww_synced w = length (log_of C (take j rs))" "j \<le> length rs"
    using assms(1) unfolding writer_log_def by (metis nat_le_linear take_all)
  obtain b where b: "cd_serialize C r = Inr b" "ww_file w' = ww_file w @ wal_frame C b"
    "ww_durability w' = ww_durability w" "writer_ok w'"
    using wal_append_Inr [OF assms(2)] assms(1) by (metis writer_log_def)
  have log: "ww_file w' = log_of C (rs @ [r])"
    using assms(1) b by (simp add: writer_log_def record_frame_def)
  have "ww_synced w' = ww_synced w \<or> ww_synced w' = length (ww_file w')"
    using assms(2) b(1)
    by (auto simp: wal_append_def Let_def sync_all_def split: option.splits io_fault.splits if_splits)
  then have "\<exists>j. ww_synced w' = length (log_of C (take j (rs @ [r])))"
  proof
    assume "ww_synced w' = ww_synced w"
    then show ?thesis using j by (intro exI [of _ j]) simp
  next
    assume "ww_synced w' = length (ww_file w')"
    then show ?thesis using log by (intro exI [of _ "length (rs @ [r])"]) simp
  qed
  then show ?thesis using b log by (auto simp: writer_log_def)
qed

subsection \<open>Properties\<close>

text \<open>C14: an append that reports success leaves the log of all the records; and when a crash then keeps
  at least the bytes that were synced, replay returns the appended records in order, without loss in
  sync mode, and in async mode without at most the last ones, whose frames together take no more
  than one mebibyte.\<close>
theorem append_durable:
  assumes "codec_ok C" "writer_log C rs w" "all_serializable C rs"
    and "wal_append C fault r w = (w', Inr u)" "length (ww_file w') \<le> 2 ^ 63" "ww_synced w' \<le> n"
  shows "writer_log C (rs @ [r]) w' \<and>
    (\<exists>k. wal_records C 0 (take n (ww_file w')) = Some (take k (rs @ [r])) \<and>
       length (log_of C (drop k (rs @ [r]))) \<le> (if ww_durability w = ''sync'' then 0 else 1048576))"
proof -
  have w': "writer_log C (rs @ [r]) w'" "ww_durability w' = ww_durability w" "\<exists>b. cd_serialize C r = Inr b"
    using writer_log_append [OF assms(2,4)] by auto
  have ser: "all_serializable C (rs @ [r])"
    using assms(1,3) w'(3) by (auto simp: all_serializable_def serializable_codec_ok)
  let ?k = "complete_frames (record_frame C) n (rs @ [r])"
  have "ww_file w' = log_of C (rs @ [r])" using w'(1) by (simp add: writer_log_def)
  then have "wal_records C 0 (take n (ww_file w')) = Some (take ?k (rs @ [r]))"
    using wal_records_truncated [OF ser] assms(5) by simp
  moreover have "length (log_of C (drop ?k (rs @ [r]))) \<le> (if ww_durability w = ''sync'' then 0 else 1048576)"
    using writer_log_lost [OF w'(1) assms(6)] w'(1,2) by (auto simp: writer_log_def writer_ok_def split: if_splits)
  ultimately show ?thesis using w'(1) by blast
qed

text \<open>A codec on which the witnesses evaluate: it knows one insertion and one commit.\<close>

definition sample_row :: row where
  "sample_row = \<lparr>row_values = [DInteger 2, DText ''z'']\<rparr>"

definition sample_codec :: codec where
  "sample_codec =
     \<lparr>cd_serialize = (\<lambda>r. if r = WCommit 5 then Inr [5]
        else if r = WInsert ''t'' sample_row 5 then Inr (replicate 16 7) else Inl ''unknown''),
      cd_deserialize = (\<lambda>bs. if bs = [5] then Some (WCommit 5)
        else if bs = replicate 16 7 then Some (WInsert ''t'' sample_row 5) else None),
      cd_crc32 = (\<lambda>bs. of_nat (length bs + sum_list (map unat bs)))\<rparr>"

lemma sample_codec_ok: "codec_ok sample_codec"
proof -
  have "replicate 16 (7::byte) \<noteq> [5]" by code_simp
  then show ?thesis by (simp add: codec_ok_def sample_codec_def)
qed

abbreviation sample_insert :: wal_record where
  "sample_insert \<equiv> WInsert ''t'' sample_row 5"

lemma sample_serialize [simp]:
  "cd_serialize sample_codec sample_insert = Inr (replicate 16 7)"
  "cd_serialize sample_codec (WCommit 5) = Inr [5]"
  by (simp_all add: sample_codec_def)

lemma sample_serializable [simp]: "serializable sample_codec sample_insert" "serializable sample_codec (WCommit 5)"
  by (simp_all add: serializable_codec_ok [OF sample_codec_ok])

lemma sample_frame_length [simp]:
  "length (record_frame sample_codec sample_insert) = 28"
  "length (record_frame sample_codec (WCommit 5)) = 13"
  by (simp_all add: record_frame_def)

theorem append_durable_witness:
  "\<exists>w'. wal_append sample_codec None (WCommit 5) (wal_open ''sync'' (log_of sample_codec [sample_insert])) = (w', Inr ()) \<and>
     (\<exists>k. wal_records sample_codec 0 (take 41 (ww_file w')) = Some (take k [sample_insert, WCommit 5]))"
proof -
  let ?w = "wal_open ''sync'' (log_of sample_codec [sample_insert])"
  let ?w' = "sync_all (?w\<lparr>ww_file := ww_file ?w @ wal_frame sample_codec [5], ww_unsynced_bytes := 13\<rparr>)"
  have app: "wal_append sample_codec None (WCommit 5) ?w = (?w', Inr ())"
    by (simp add: wal_append_def Let_def wal_open_def sync_all_def)
  have log: "writer_log sample_codec [sample_insert] ?w"
    by (auto simp: writer_log_def wal_open_def writer_ok_def intro: exI [of _ 1])
  have len: "length (ww_file ?w') \<le> 2 ^ 63" "ww_synced ?w' \<le> 41"
    by (simp_all add: sync_all_def wal_open_def)
  show ?thesis
    using append_durable [OF sample_codec_ok log _ app len] app by (auto simp: all_serializable_def)
qed

text \<open>C12: replay reads back what was appended: from the log of any sequence of records it recovers
  exactly that sequence, without a panic, and the tables are the records applied in order to the
  tables it started from.\<close>
theorem replay_roundtrip:
  assumes "codec_ok C" "\<forall>r \<in> set rs. \<exists>b. cd_serialize C r = Inr b" "length (log_of C rs) \<le> 2 ^ 63"
  shows "replay_wal_buf C tables (log_of C rs) = Some (foldl apply_wal_record tables rs, rs)"
proof -
  have "all_serializable C rs" using assms(1,2) by (simp add: all_serializable_def serializable_codec_ok)
  then show ?thesis using assms(3) by (simp add: replay_wal_buf_records wal_records_log)
qed

theorem replay_roundtrip_witness:
  "replay_wal_buf sample_codec [] (log_of sample_codec [sample_insert, WCommit 5]) =
     Some (foldl apply_wal_record [] [sample_insert, WCommit 5], [sample_insert, WCommit 5])"
  by (rule replay_roundtrip [OF sample_codec_ok]) simp_all

text \<open>C13: a log cut off at any byte, as a crash during an append leaves it, is replayed without a panic to
  the records whose frames are complete: a prefix of the appended records, and the longest one that
  fits; the torn frame is ignored.\<close>
theorem replay_truncated:
  assumes "codec_ok C" "\<forall>r \<in> set rs. \<exists>b. cd_serialize C r = Inr b" "length (log_of C rs) \<le> 2 ^ 63"
  shows "\<exists>k. replay_wal_buf C tables (take n (log_of C rs)) =
      Some (foldl apply_wal_record tables (take k rs), take k rs) \<and>
    length (log_of C (take k rs)) \<le> n \<and> (k < length rs \<longrightarrow> n < length (log_of C (take (Suc k) rs)))"
proof -
  have "all_serializable C rs" using assms(1,2) by (simp add: all_serializable_def serializable_codec_ok)
  then show ?thesis
    using assms(3) complete_frames_fit [of "record_frame C" n rs, folded log_of_def]
      complete_frames_next [of "record_frame C" n rs, folded log_of_def]
    by (intro exI [of _ "complete_frames (record_frame C) n rs"])
      (simp add: replay_wal_buf_records wal_records_truncated)
qed

theorem replay_truncated_witness:
  "\<exists>k. replay_wal_buf sample_codec [] (take 20 (log_of sample_codec [sample_insert, WCommit 5])) =
      Some (foldl apply_wal_record [] (take k [sample_insert, WCommit 5]), take k [sample_insert, WCommit 5])"
  using replay_truncated [OF sample_codec_ok, of "[sample_insert, WCommit 5]" "[]" 20] by auto

text \<open>a frame whose bytes were altered is skipped: when the checksum of the stored bytes does not match,
  replay loses that record and no other.\<close>
theorem replay_corrupted_frame:
  assumes "codec_ok C" "\<forall>r \<in> set (rs @ rs'). \<exists>b. cd_serialize C r = Inr b"
    and "bad = le_bytes 8 (length data) @ data @ le_bytes 4 (unat c)" "c \<noteq> cd_crc32 C data"
    and "length (log_of C rs @ bad @ log_of C rs') \<le> 2 ^ 63"
  shows "replay_wal_buf C tables (log_of C rs @ bad @ log_of C rs') =
    Some (foldl apply_wal_record tables (rs @ rs'), rs @ rs')"
proof -
  have ser: "all_serializable C rs" "all_serializable C rs'"
    using assms(1,2) by (auto simp: all_serializable_def serializable_codec_ok)
  let ?off = "length (log_of C rs)"
  have len: "le_nat (le_bytes 8 (length data)) = length data"
    using assms(3,5) by (intro le_nat_le_bytes) simp
  have "unat c \<noteq> unat (cd_crc32 C data)" using assms(4) by (metis word_unat_eq_iff)
  then have "wal_next C ?off (bad @ log_of C rs') = Skip (length bad)"
    using assms(3,5) by (simp add: wal_next_def Let_def len crc_bytes)
  then have "wal_records C ?off (bad @ log_of C rs') = wal_records C (?off + length bad) (log_of C rs')"
    by (subst wal_records.simps) simp
  also have "\<dots> = Some rs'"
    using wal.loop_frames [of rs' C "?off + length bad"] ser(2) assms(5)
    by (simp add: all_serializable_def log_of_def)
  finally show ?thesis
    using wal_records_log_append [OF ser(1), of "bad @ log_of C rs'"] assms(5)
    by (simp add: replay_wal_buf_records)
qed

theorem replay_corrupted_frame_witness:
  "replay_wal_buf sample_codec [] (log_of sample_codec [sample_insert] @
     (le_bytes 8 1 @ [9] @ le_bytes 4 0) @ log_of sample_codec [WCommit 5]) =
   Some (foldl apply_wal_record [] [sample_insert, WCommit 5], [sample_insert, WCommit 5])"
proof -
  have "(0::u32) \<noteq> cd_crc32 sample_codec [9]" by (simp add: sample_codec_def)
  then show ?thesis
    using replay_corrupted_frame [OF sample_codec_ok, of "[sample_insert]" "[WCommit 5]"
        "le_bytes 8 1 @ [9] @ le_bytes 4 0" "[9]" 0 "[]"] by simp
qed

text \<open>a frame with an absurd length stops the recovery for good: when the length field is so large that
  the reader's bound check overflows, replay panics instead of treating the rest as truncated,
  whatever complete records precede it.\<close>
theorem replay_huge_length_panics:
  assumes "codec_ok C" "\<forall>r \<in> set rs. \<exists>b. cd_serialize C r = Inr b" "length (log_of C rs) \<le> 2 ^ 63"
    and "2 ^ 64 - 12 \<le> len" "len < 2 ^ 64"
  shows "replay_wal_buf C tables (log_of C rs @ le_bytes 8 len @ rest) = None"
proof -
  have ser: "all_serializable C rs" using assms(1,2) by (simp add: all_serializable_def serializable_codec_ok)
  have len: "le_nat (le_bytes 8 len) = len" using assms(5) by (intro le_nat_le_bytes) simp
  have "wal_next C (length (log_of C rs)) (le_bytes 8 len @ rest) = Panic"
    using assms(4) by (simp add: wal_next_def Let_def len)
  then have "wal_records C (length (log_of C rs)) (le_bytes 8 len @ rest) = None"
    by (subst wal_records.simps) simp
  then show ?thesis
    using wal_records_log_append [OF ser assms(3)] by (simp add: replay_wal_buf_records)
qed

theorem replay_huge_length_panics_witness:
  "replay_wal_buf sample_codec [] (log_of sample_codec [sample_insert] @ le_bytes 8 (2 ^ 64 - 1) @ [1, 2]) = None"
  by (rule replay_huge_length_panics [OF sample_codec_ok]) simp_all

text \<open>a failed append is not undone. When an append fails after its length prefix reached the file, the
  next append, which succeeds, is lost: replay takes its frame for the missing data of the failed one
  (here with a frame shorter than that data) and recovers only the records before.\<close>
theorem append_after_failure_lost:
  assumes "codec_ok C" "\<forall>r \<in> set rs. \<exists>b. cd_serialize C r = Inr b" "length (log_of C rs) \<le> 2 ^ 62"
    and "ww_file w = log_of C rs" "cd_serialize C r1 = Inr b1" "cd_serialize C r2 = Inr b2"
    and "wal_append C (Some (WriteFails 8 e)) r1 w = (w1, Inl (Io e))" "wal_append C None r2 w1 = (w2, Inr ())"
    and "length b2 + 12 < length b1 + 4" "length b1 \<le> 2 ^ 62"
  shows "replay_wal_buf C tables (ww_file w2) = Some (foldl apply_wal_record tables rs, rs)"
proof -
  have ser: "all_serializable C rs" using assms(1,2) by (simp add: all_serializable_def serializable_codec_ok)
  have w1: "ww_file w1 = log_of C rs @ le_bytes 8 (length b1)"
    using assms(4,5,7) by (auto simp: wal_append_def wal_frame_def)
  obtain b where "cd_serialize C r2 = Inr b" "ww_file w2 = ww_file w1 @ wal_frame C b"
    using wal_append_Inr [OF assms(8)] by metis
  then have w2: "ww_file w2 = log_of C rs @ le_bytes 8 (length b1) @ wal_frame C b2"
    using w1 assms(6) by simp
  have len: "le_nat (le_bytes 8 (length b1)) = length b1"
    using assms(10) by (intro le_nat_le_bytes) simp
  have "wal_next C (length (log_of C rs)) (le_bytes 8 (length b1) @ wal_frame C b2) = Stop"
    using assms(3,9,10) by (simp add: wal_next_def Let_def len)
  then have "wal_records C (length (log_of C rs)) (le_bytes 8 (length b1) @ wal_frame C b2) = Some []"
    by (subst wal_records.simps) simp
  then show ?thesis
    using wal_records_log_append [OF ser] assms(3) w2 by (simp add: replay_wal_buf_records)
qed

theorem append_after_failure_lost_witness:
  "\<exists>w1 w2. wal_append sample_codec (Some (WriteFails 8 [])) sample_insert (wal_open ''async'' []) = (w1, Inl (Io [])) \<and>
     wal_append sample_codec None (WCommit 5) w1 = (w2, Inr ()) \<and>
     replay_wal_buf sample_codec [] (ww_file w2) = Some ([], [])"
proof -
  let ?w = "wal_open ''async'' []"
  let ?w1 = "?w\<lparr>ww_file := take 8 (wal_frame sample_codec (replicate 16 7))\<rparr>"
  let ?w2 = "?w1\<lparr>ww_file := ww_file ?w1 @ wal_frame sample_codec [5], ww_unsynced_bytes := 13\<rparr>"
  have 1: "wal_append sample_codec (Some (WriteFails 8 [])) sample_insert ?w = (?w1, Inl (Io []))"
    by (simp add: wal_append_def wal_open_def)
  have 2: "wal_append sample_codec None (WCommit 5) ?w1 = (?w2, Inr ())"
    by (simp add: wal_append_def wal_open_def Let_def)
  have "replay_wal_buf sample_codec [] (ww_file ?w2) = Some (foldl apply_wal_record [] [], [])"
    by (rule append_after_failure_lost [OF sample_codec_ok _ _ _ sample_serialize 1 2]) (simp_all add: wal_open_def)
  then show ?thesis using 1 2 by (intro exI [of _ ?w1] exI [of _ ?w2]) simp
qed

end
