(* ===== verification/Users.thy ===== *)
theory Users
  imports Helion_Types
begin

text \<open>
  The users (\<open>src/src/storage/users.rs\<close>). The argon2 crate is a parameter: what hashing a
  password with a salt returns, and whether a stored text parses as a hash and verifies a
  password. A fresh salt is an argument of the operation that draws it.
\<close>

record argon =
  ar_hash :: "string \<Rightarrow> string \<Rightarrow> string + string"
  ar_parses :: "string \<Rightarrow> bool"
  ar_verify :: "string \<Rightarrow> string \<Rightarrow> bool"

text \<open>What the crate documents: a produced hash parses and verifies the password it was made from.\<close>

definition argon_ok :: "argon \<Rightarrow> bool" where
  "argon_ok K \<longleftrightarrow> (\<forall>pw salt h. ar_hash K pw salt = Inr h \<longrightarrow> ar_parses K h \<and> ar_verify K h pw)"

record user =
  us_username :: string
  us_password_hash :: string

definition hash_password :: "argon \<Rightarrow> string \<Rightarrow> string \<Rightarrow> string res" where
  "hash_password K password salt =
     (case ar_hash K password salt of
        Inl e \<Rightarrow> Inl (Internal (''Password hashing error: '' @ e))
      | Inr h \<Rightarrow> Inr h)"

definition user_new :: "argon \<Rightarrow> string \<Rightarrow> string \<Rightarrow> string \<Rightarrow> user res" where
  "user_new K salt username password =
     and_then (hash_password K password salt)
       (\<lambda>h. Inr \<lparr>us_username = username, us_password_hash = h\<rparr>)"

definition verify_password :: "argon \<Rightarrow> user \<Rightarrow> string \<Rightarrow> bool" where
  "verify_password K u password \<longleftrightarrow>
     ar_parses K (us_password_hash u) \<and> ar_verify K (us_password_hash u) password"

definition set_password :: "argon \<Rightarrow> string \<Rightarrow> string \<Rightarrow> user \<Rightarrow> user res" where
  "set_password K salt new_password u =
     and_then (hash_password K new_password salt) (\<lambda>h. Inr (u\<lparr>us_password_hash := h\<rparr>))"

type_synonym user_store = "user list"

definition get_user :: "user_store \<Rightarrow> string \<Rightarrow> user option" where
  "get_user us username = find (\<lambda>u. eq_ignore_ascii_case (us_username u) username) us"

definition user_exists :: "user_store \<Rightarrow> string \<Rightarrow> bool" where
  "user_exists us username = list_ex (\<lambda>u. eq_ignore_ascii_case (us_username u) username) us"

definition create_user :: "argon \<Rightarrow> string \<Rightarrow> string \<Rightarrow> string \<Rightarrow> user_store \<Rightarrow> user_store res" where
  "create_user K salt username password us =
     (if user_exists us username
      then Inl (Internal (''User '' @ quoted username @ '' already exists''))
      else and_then (user_new K salt username password) (\<lambda>u. Inr (us @ [u])))"

definition insert_user :: "user \<Rightarrow> user_store \<Rightarrow> user_store res" where
  "insert_user u us =
     (if user_exists us (us_username u)
      then Inl (Internal (''User '' @ quoted (us_username u) @ '' already exists''))
      else Inr (us @ [u]))"

definition drop_user :: "string \<Rightarrow> user_store \<Rightarrow> user_store res" where
  "drop_user username us =
     (let kept = filter (\<lambda>u. \<not> eq_ignore_ascii_case (us_username u) username) us in
      if length kept = length us
      then Inl (Internal (''User '' @ quoted username @ '' not found''))
      else Inr kept)"

definition update_password :: "argon \<Rightarrow> string \<Rightarrow> string \<Rightarrow> string \<Rightarrow> user_store \<Rightarrow> user_store res" where
  "update_password K salt username new_password us =
     (case get_user us username of
        None \<Rightarrow> Inl (Internal (''User '' @ quoted username @ '' not found''))
      | Some u \<Rightarrow>
          and_then (set_password K salt new_password u)
            (\<lambda>u'. Inr (update_first (\<lambda>u. eq_ignore_ascii_case (us_username u) username) (\<lambda>_. u') us)))"

definition verify_login :: "argon \<Rightarrow> user_store \<Rightarrow> string \<Rightarrow> string \<Rightarrow> bool" where
  "verify_login K us username password =
     (case get_user us username of None \<Rightarrow> False | Some u \<Rightarrow> verify_password K u password)"

definition user_count :: "user_store \<Rightarrow> nat" where
  "user_count us = length us"

subsection \<open>One user per name\<close>

definition users_ok :: "user_store \<Rightarrow> bool" where
  "users_ok us \<longleftrightarrow> distinct (map (to_lowercase \<circ> us_username) us)"

abbreviation named :: "string \<Rightarrow> user \<Rightarrow> bool" where
  "named name u \<equiv> eq_ignore_ascii_case (us_username u) name"

lemma named_iff: "named name u \<longleftrightarrow> to_lowercase (us_username u) = to_lowercase name"
  by (simp add: eq_ignore_ascii_case_def)

lemma user_exists_iff: "user_exists us name \<longleftrightarrow> to_lowercase name \<in> set (map (to_lowercase \<circ> us_username) us)"
  by (simp add: user_exists_def list_ex_iff named_iff image_iff eq_commute [of "to_lowercase name"])

lemma user_exists_get: "user_exists us name \<longleftrightarrow> get_user us name \<noteq> None"
  by (auto simp: user_exists_def get_user_def list_ex_iff find_None_iff)

lemma get_user_append:
  "get_user (us @ [u]) name =
     (case get_user us name of None \<Rightarrow> if named name u then Some u else None | Some v \<Rightarrow> Some v)"
  by (simp add: get_user_def find_append split: option.splits)

lemma find_filter_imp:
  "(\<And>x. P x \<Longrightarrow> Q x) \<Longrightarrow> find P (filter Q xs) = find P xs"
  "(\<And>x. P x \<Longrightarrow> \<not> Q x) \<Longrightarrow> find P (filter Q xs) = None"
  by (induction xs) auto

lemma get_user_filter:
  "get_user (filter (\<lambda>u. \<not> named name u) us) other =
     (if to_lowercase other = to_lowercase name then None else get_user us other)"
  using find_filter_imp(1) [of "named other" "\<lambda>u. \<not> named name u" us]
    find_filter_imp(2) [of "named other" "\<lambda>u. \<not> named name u" us]
  by (auto simp: get_user_def named_iff)

lemma get_user_name: "get_user us name = Some u \<Longrightarrow> to_lowercase (us_username u) = to_lowercase name"
  using find_SomeD [of "named name" us u] by (simp add: get_user_def named_iff)

lemma get_user_update:
  assumes "get_user us name = Some u" "us_username u' = us_username u"
  shows "get_user (update_first (named name) (\<lambda>_. u') us) other =
     (if to_lowercase other = to_lowercase name then Some u' else get_user us other)"
proof (cases "to_lowercase other = to_lowercase name")
  case True
  then have eq: "named other = named name" by (auto simp: fun_eq_iff named_iff)
  show ?thesis
    using find_update_first_same [of "named name" us u "\<lambda>_. u'"] assms get_user_name [OF assms(1)] True
    by (simp add: get_user_def eq named_iff)
next
  case False
  then show ?thesis
    using find_update_first_other [of "named name" "named other" "\<lambda>_. u'" us] assms get_user_name [OF assms(1)]
    by (simp add: get_user_def named_iff)
qed

lemma users_ok_update:
  assumes "get_user us name = Some u" "us_username u' = us_username u" "users_ok us"
  shows "users_ok (update_first (named name) (\<lambda>_. u') us)"
proof -
  have "map us_username (update_first (named name) (\<lambda>_. u') us) = map us_username us"
    using assms(1,2) unfolding get_user_def
  proof (induction us)
    case (Cons v us)
    then show ?case by (auto split: if_splits)
  qed simp
  then have "map to_lowercase (map us_username (update_first (named name) (\<lambda>_. u') us)) =
      map to_lowercase (map us_username us)" by simp
  then show ?thesis using assms(3) by (simp add: users_ok_def o_def del: map_eq_conv)
qed

lemma users_ok_snoc: "users_ok us \<Longrightarrow> \<not> user_exists us (us_username u) \<Longrightarrow> users_ok (us @ [u])"
  by (simp add: users_ok_def user_exists_iff)

lemma users_ok_filter: "users_ok us \<Longrightarrow> users_ok (filter P us)"
  by (simp add: users_ok_def distinct_map_filter)

lemma user_new_simps:
  "user_new K salt name pw = Inr u \<longleftrightarrow>
     us_username u = name \<and> ar_hash K pw salt = Inr (us_password_hash u)"
  by (cases u) (auto simp: user_new_def hash_password_def split: sum.splits)

lemma set_password_simps:
  "set_password K salt pw u = Inr u' \<longleftrightarrow> (\<exists>h. ar_hash K pw salt = Inr h \<and> u' = u\<lparr>us_password_hash := h\<rparr>)"
  by (auto simp: set_password_def hash_password_def split: sum.splits)

subsection \<open>Properties\<close>

text \<open>no two users have names that differ in case only, whichever operation succeeds.\<close>
theorem user_names_unique:
  assumes "users_ok us"
  shows "(create_user K salt name pw us = Inr us1 \<longrightarrow> users_ok us1) \<and>
    (insert_user u us = Inr us2 \<longrightarrow> users_ok us2) \<and>
    (drop_user name us = Inr us3 \<longrightarrow> users_ok us3) \<and>
    (update_password K salt name pw us = Inr us4 \<longrightarrow> users_ok us4)"
proof (intro conjI impI)
  show "users_ok us1" if "create_user K salt name pw us = Inr us1"
    using that assms by (auto simp: create_user_def and_then_eq_Inr user_new_simps users_ok_snoc split: if_splits)
  show "users_ok us2" if "insert_user u us = Inr us2"
    using that assms by (auto simp: insert_user_def users_ok_snoc split: if_splits)
  show "users_ok us3" if "drop_user name us = Inr us3"
    using that assms by (auto simp: drop_user_def Let_def users_ok_filter split: if_splits)
  show "users_ok us4" if "update_password K salt name pw us = Inr us4"
    using that assms by (auto simp: update_password_def and_then_eq_Inr set_password_simps users_ok_update split: option.splits)
qed

definition sample_argon :: argon where
  "sample_argon = \<lparr>ar_hash = (\<lambda>pw salt. Inr (CHR ''$'' # pw)), ar_parses = (\<lambda>h. h \<noteq> []),
     ar_verify = (\<lambda>h pw. tl h = pw)\<rparr>"

theorem user_names_unique_witness:
  "\<exists>us. create_user sample_argon [] ''ann'' ''pw'' [] = Inr us \<and> users_ok us"
proof -
  have h: "create_user sample_argon [] ''ann'' ''pw'' [] =
      Inr [\<lparr>us_username = ''ann'', us_password_hash = ''$pw''\<rparr>]" by code_simp
  have "users_ok []" by (simp add: users_ok_def)
  from user_names_unique [OF this] h show ?thesis by blast
qed

text \<open>logging in. After a user is created, or a password changed, that user can log in with the new
  password under any spelling of the name, and verification of every other user is as before; after
  a user is dropped no password is accepted for the name; a name in use cannot be created again.\<close>
theorem login_after:
  assumes "argon_ok K"
  shows "(create_user K salt name pw us = Inr us1 \<longrightarrow>
      \<not> user_exists us name \<and>
      (if to_lowercase other = to_lowercase name then verify_login K us1 other pw
       else verify_login K us1 other q = verify_login K us other q)) \<and>
    (update_password K salt name pw us = Inr us2 \<longrightarrow>
      (if to_lowercase other = to_lowercase name then verify_login K us2 other pw
       else verify_login K us2 other q = verify_login K us other q)) \<and>
    (drop_user name us = Inr us3 \<longrightarrow>
      user_exists us name \<and>
      verify_login K us3 other q = (to_lowercase other \<noteq> to_lowercase name \<and> verify_login K us other q))"
proof (intro conjI impI)
  have hash: "ar_parses K h \<and> ar_verify K h pw" if "ar_hash K pw salt = Inr h" for h
    using assms that by (simp add: argon_ok_def)
  {
    assume "create_user K salt name pw us = Inr us1"
    then obtain u where u: "\<not> user_exists us name" "us1 = us @ [u]" "us_username u = name"
      "ar_hash K pw salt = Inr (us_password_hash u)"
      by (auto simp: create_user_def and_then_eq_Inr user_new_simps split: if_splits)
    then have "get_user us other = None" if "to_lowercase other = to_lowercase name"
      using that by (simp add: user_exists_iff user_exists_get [of us other, symmetric, THEN arg_cong [of _ _ Not], simplified])
    then show "\<not> user_exists us name" "if to_lowercase other = to_lowercase name then verify_login K us1 other pw
       else verify_login K us1 other q = verify_login K us other q"
      using u hash by (auto simp: verify_login_def verify_password_def get_user_append named_iff split: option.splits)
  }
  {
    assume "update_password K salt name pw us = Inr us2"
    then obtain u h where u: "get_user us name = Some u" "ar_hash K pw salt = Inr h"
      "us2 = update_first (named name) (\<lambda>_. u\<lparr>us_password_hash := h\<rparr>) us"
      by (auto simp: update_password_def and_then_eq_Inr set_password_simps split: option.splits)
    show "if to_lowercase other = to_lowercase name then verify_login K us2 other pw
       else verify_login K us2 other q = verify_login K us other q"
      using get_user_update [OF u(1), of "u\<lparr>us_password_hash := h\<rparr>" other] u hash
      by (simp add: verify_login_def verify_password_def)
  }
  assume "drop_user name us = Inr us3"
  then have d: "us3 = filter (\<lambda>u. \<not> named name u) us" "length us3 \<noteq> length us"
    by (auto simp: drop_user_def Let_def split: if_splits)
  have "user_exists us name"
    using d by (auto simp: user_exists_def list_ex_iff) (metis filter_True)
  then show "user_exists us name"
    "verify_login K us3 other q = (to_lowercase other \<noteq> to_lowercase name \<and> verify_login K us other q)"
    by (auto simp: d(1) verify_login_def get_user_filter)
qed

theorem login_after_witness:
  "\<exists>us. create_user sample_argon [] ''ann'' ''pw'' [] = Inr us \<and> verify_login sample_argon us ''ANN'' ''pw''"
proof -
  have K: "argon_ok sample_argon" by (simp add: argon_ok_def sample_argon_def)
  have h: "create_user sample_argon [] ''ann'' ''pw'' [] =
      Inr [\<lparr>us_username = ''ann'', us_password_hash = ''$pw''\<rparr>]" by code_simp
  have l: "to_lowercase ''ANN'' = to_lowercase ''ann''" by code_simp
  show ?thesis
    using login_after [OF K, of "[]" "''ann''" "''pw''" "[]" "[\<lparr>us_username = ''ann'', us_password_hash = ''$pw''\<rparr>]" "''ANN''"] h l
    by simp
qed

end
