(* ===== verification/Engine.thy ===== *)
theory Engine
  imports Catalog Wal Users
begin

text \<open>
  The database engine (\<open>src/src/storage/engine.rs\<close>, \<open>checkpoint.rs\<close>): the tables in memory, the
  catalog of storage engines, the transactions, the log, the users and the grants; commit and
  rollback, the definition of tables, users and grants with their log records, checkpoint,
  shutdown and recovery.

  The lock guards are dropped between the steps of an operation in the sources; here each
  operation runs alone. A fault of the log or of a storage engine is an argument, and the state
  is returned beside the result, because the sources do not undo what an operation did before
  its error. The iteration order of a hash map is an argument too.
\<close>

record database =
  db_tables :: "table list"
  db_catalog :: catalog
  db_mvcc :: mvcc_store
  db_wal :: wal_writer
  db_old_wal :: "byte list option"
  db_users :: user_store
  db_permissions :: permission_store

subsection \<open>Recovery\<close>

definition compute_max_txid :: "table list \<Rightarrow> u64 option" where
  "compute_max_txid tables =
     foldl (\<lambda>max_txid version.
         let current = (case max_txid of None \<Rightarrow> 0 | Some m \<Rightarrow> m);
             current = max current (rv_txid_min version);
             current = (if rv_txid_max version \<noteq> u64_MAX then max current (rv_txid_max version) else current)
         in Some current)
       None (concat (concat (map tb_version_chains tables)))"

definition replay_user_record :: "user_store \<Rightarrow> wal_record \<Rightarrow> user_store" where
  "replay_user_record store rcd =
     (case rcd of
        WCreateUser username password_hash \<Rightarrow>
          (case insert_user \<lparr>us_username = username, us_password_hash = password_hash\<rparr> store of
             Inl _ \<Rightarrow> store | Inr store' \<Rightarrow> store')
      | WDropUser username \<Rightarrow> (case drop_user username store of Inl _ \<Rightarrow> store | Inr store' \<Rightarrow> store')
      | _ \<Rightarrow> store)"

definition replay_users_from_wal :: "wal_record list \<Rightarrow> user_store" where
  "replay_users_from_wal records = foldl replay_user_record [] records"

definition replay_permission_record :: "permission_store \<Rightarrow> wal_record \<Rightarrow> permission_store" where
  "replay_permission_record store rcd =
     (case rcd of
        WGrant username tbl permission \<Rightarrow> grant username tbl permission store
      | WRevoke username tbl permission \<Rightarrow> revoke username tbl permission store
      | _ \<Rightarrow> store)"

definition replay_permissions_from_wal :: "wal_record list \<Rightarrow> permission_store" where
  "replay_permissions_from_wal records = foldl replay_permission_record permission_store_new records"

definition rebuild_if_needed :: "table \<Rightarrow> table" where
  "rebuild_if_needed t = (if list_ex index_is_empty (tb_indexes t) then rebuild_indexes t else t)"

text \<open>\<open>restore_tables_to_engines\<close>: a table whose restore fails is only warned about.\<close>

definition restore_one :: "catalog \<Rightarrow> fault \<Rightarrow> table \<Rightarrow> catalog res" where
  "restore_one c fault t =
     (let engine_name = (case table_engine_name c (tb_name t) of Some e \<Rightarrow> e | None \<Rightarrow> ct_default_engine c) in
      case get_engine c engine_name of
        Inl e \<Rightarrow> Inl e
      | Inr (ename, engine) \<Rightarrow> Inr (set_engine ename (fst (engine_restore_table fault t engine)) c))"

definition restore_tables_to_engines :: "(string \<Rightarrow> fault) \<Rightarrow> table list \<Rightarrow> catalog \<Rightarrow> catalog res" where
  "restore_tables_to_engines faults tables c = try_fold (\<lambda>c t. restore_one c (faults (tb_name t)) t) c tables"

text \<open>\<open>HELION_PASSWORD\<close> is the first argument; the password of the default user is hashed with a fresh salt.\<close>

definition bootstrap_default_user ::
  "string option \<Rightarrow> argon \<Rightarrow> string \<Rightarrow> database \<Rightarrow> database res" where
  "bootstrap_default_user env K salt db =
     (if user_count (db_users db) \<noteq> 0 then Inr db
      else case env of
          None \<Rightarrow> Inr db
        | Some password \<Rightarrow>
            and_then (create_user K salt ''helion'' password (db_users db))
              (\<lambda>us. Inr (db\<lparr>db_users := us,
                 db_permissions := foldl (\<lambda>S t. grant ''helion'' (tb_name t) PAll S) (db_permissions db) (db_tables db)\<rparr>)))"

definition start_id :: "table list \<Rightarrow> u64" where
  "start_id tables = (case compute_max_txid tables of None \<Rightarrow> 1 | Some i \<Rightarrow> i + 1)"

text \<open>Opening a data directory. None is the panic of replay.\<close>

definition open_database ::
  "codec \<Rightarrow> argon \<Rightarrow> string option \<Rightarrow> string \<Rightarrow> (string \<Rightarrow> fault) \<Rightarrow> wal_files \<Rightarrow> string \<Rightarrow> catalog \<Rightarrow> database res option" where
  "open_database C K env salt faults files durability cat =
     map_option (\<lambda>(tables, wal_records).
         let rebuilt = map rebuild_if_needed tables
         in and_then (restore_tables_to_engines faults rebuilt cat)
              (\<lambda>cat'. bootstrap_default_user env K salt
                 \<lparr>db_tables = rebuilt, db_catalog = cat', db_mvcc = with_start_id (start_id tables),
                  db_wal = wal_open durability (case wf_current files of None \<Rightarrow> [] | Some b \<Rightarrow> b),
                  db_old_wal = wf_old files,
                  db_users = replay_users_from_wal wal_records,
                  db_permissions = replay_permissions_from_wal wal_records\<rparr>))
       (replay_wal C files)"

definition files_of :: "database \<Rightarrow> wal_files" where
  "files_of db = \<lparr>wf_old = db_old_wal db, wf_current = Some (ww_file (db_wal db))\<rparr>"

subsection \<open>The log\<close>

definition log_append :: "codec \<Rightarrow> io_fault option \<Rightarrow> wal_record \<Rightarrow> database \<Rightarrow> database \<times> unit res" where
  "log_append C fault r db = (case wal_append C fault r (db_wal db) of (w, res) \<Rightarrow> (db\<lparr>db_wal := w\<rparr>, res))"

text \<open>\<open>for record in records { wal.append(record).await?; }\<close>; the faults are numbered from the given position.\<close>

fun log_append_all :: "codec \<Rightarrow> (nat \<Rightarrow> io_fault option) \<Rightarrow> nat \<Rightarrow> wal_record list \<Rightarrow> database \<Rightarrow> database \<times> unit res" where
  "log_append_all C faults i [] db = (db, Inr ())"
| "log_append_all C faults i (r # rs) db =
     (case log_append C (faults i) r db of
        (db', Inl e) \<Rightarrow> (db', Inl e)
      | (db', Inr _) \<Rightarrow> log_append_all C faults (Suc i) rs db')"

definition wal_record_of :: "u64 \<Rightarrow> write_entry \<Rightarrow> wal_record" where
  "wal_record_of txid e =
     (case we_operation e of
        Insert r \<Rightarrow> WInsert (we_table_name e) r txid
      | Update r \<Rightarrow> WUpdate (we_table_name e) (we_row_idx e) r txid
      | Delete \<Rightarrow> WDelete (we_table_name e) (we_row_idx e) txid)"

subsection \<open>Commit\<close>

definition begin_txn :: "database \<Rightarrow> transaction \<times> database" where
  "begin_txn db = (case begin_transaction (db_mvcc db) of (tx, m) \<Rightarrow> (tx, db\<lparr>db_mvcc := m\<rparr>))"

definition get_visible_row :: "table \<Rightarrow> nat \<Rightarrow> row option" where
  "get_visible_row t row_idx =
     (if row_idx < length (tb_version_chains t)
      then map_option rv_row
             (find (\<lambda>v. rv_txid_max v = u64_MAX \<and> \<not> rv_is_deleted v) (rev (tb_version_chains t ! row_idx)))
      else None)"

definition tables_snapshot :: "table list \<Rightarrow> (string \<rightharpoonup> table)" where
  "tables_snapshot tables = foldl (\<lambda>m t. m(tb_name t \<mapsto> t)) Map.empty tables"

definition check_entry_unique :: "ext \<Rightarrow> (string \<rightharpoonup> table) \<Rightarrow> write_entry \<Rightarrow> unit res" where
  "check_entry_unique X snap entry =
     (case snap (we_table_name entry) of
        None \<Rightarrow> Inr ()
      | Some t \<Rightarrow>
          (case we_operation entry of
             Insert r \<Rightarrow> check_unique_constraints X t True (we_row_idx entry) r
           | Update r \<Rightarrow> check_unique_constraints X t False (we_row_idx entry) r
           | Delete \<Rightarrow> Inr ()))"

text \<open>The storage engine of one table of the write set.\<close>

definition engine_write :: "fault \<Rightarrow> string \<Rightarrow> changes \<Rightarrow> catalog \<Rightarrow> catalog \<times> unit res" where
  "engine_write fault name chs c =
     (let engine_name = (case table_engine_name c name of Some e \<Rightarrow> e | None \<Rightarrow> ct_default_engine c) in
      case get_engine c engine_name of
        Inl e \<Rightarrow> (c, Inl e)
      | Inr (ename, engine) \<Rightarrow>
          (case engine_apply_write_set fault name chs engine of (engine', r) \<Rightarrow> (set_engine ename engine' c, r)))"

fun engine_writes ::
  "(string \<Rightarrow> fault) \<Rightarrow> (string \<rightharpoonup> changes) \<Rightarrow> string list \<Rightarrow> catalog \<Rightarrow> catalog \<times> unit res" where
  "engine_writes faults chs [] c = (c, Inr ())"
| "engine_writes faults chs (name # names) c =
     (case chs name of
        None \<Rightarrow> engine_writes faults chs names c
      | Some l \<Rightarrow>
          (case engine_write (faults name) name l c of
             (c', Inl e) \<Rightarrow> (c', Inl e)
           | (c', Inr _) \<Rightarrow> engine_writes faults chs names c'))"

text \<open>The indexes of a table follow the entries of the write set for it.\<close>

fun index_entries :: "ext \<Rightarrow> table option \<Rightarrow> write_entry list \<Rightarrow> table \<Rightarrow> table \<times> unit res" where
  "index_entries X old [] t = (t, Inr ())"
| "index_entries X old (e # es) t =
     (if we_table_name e \<noteq> tb_name t then index_entries X old es t
      else
        let old_row = Option.bind old (\<lambda>tb. get_visible_row tb (we_row_idx e)) in
        (case apply_index_changes X t (we_operation e) old_row (we_row_idx e) of
           (t', Inl err) \<Rightarrow> (t', Inl err)
         | (t', Inr _) \<Rightarrow> index_entries X old es t'))"

definition install_table ::
  "ext \<Rightarrow> (string \<rightharpoonup> table) \<Rightarrow> write_entry list \<Rightarrow> string \<Rightarrow> row_version list list \<Rightarrow> table list \<Rightarrow> table list \<times> unit res" where
  "install_table X snap ws name new_chains tables =
     (case find (\<lambda>t. tb_name t = name) tables of
        None \<Rightarrow> (tables, Inr ())
      | Some t \<Rightarrow>
          (case index_entries X (snap name) ws (t\<lparr>tb_version_chains := new_chains\<rparr>) of
             (t', r) \<Rightarrow> (update_first (\<lambda>t. tb_name t = name) (\<lambda>_. t') tables, r)))"

fun install_tables ::
  "ext \<Rightarrow> (string \<rightharpoonup> table) \<Rightarrow> write_entry list \<Rightarrow> (string \<rightharpoonup> row_version list list) \<Rightarrow> string list \<Rightarrow> table list \<Rightarrow> table list \<times> unit res" where
  "install_tables X snap ws chs [] tables = (tables, Inr ())"
| "install_tables X snap ws chs (name # names) tables =
     (case chs name of
        None \<Rightarrow> install_tables X snap ws chs names tables
      | Some new_chains \<Rightarrow>
          (case install_table X snap ws name new_chains tables of
             (tables', Inl e) \<Rightarrow> (tables', Inl e)
           | (tables', Inr _) \<Rightarrow> install_tables X snap ws chs names tables'))"

text \<open>The faults of a commit, and the orders in which the two hash maps are traversed.\<close>

record commit_plan =
  cp_wal :: "nat \<Rightarrow> io_fault option"
  cp_engine :: "string \<Rightarrow> fault"
  cp_engine_order :: "string list"
  cp_table_order :: "string list"

definition commit ::
  "ext \<Rightarrow> codec \<Rightarrow> commit_plan \<Rightarrow> transaction \<Rightarrow> database \<Rightarrow> transaction \<times> database \<times> unit res" where
  "commit X C plan tx db =
     (if tx_status tx \<noteq> InProgress
      then (tx, db, Inl (TransactionError (''Transaction '' @ show_nat (unat (tx_id tx)) @ '' is not in progress'')))
      else
        let snap = tables_snapshot (db_tables db) in
        (case check_conflicts tx snap of
           Inl conflicting \<Rightarrow>
             (tx\<lparr>tx_status := Aborted\<rparr>, db\<lparr>db_mvcc := rollback_transaction tx (db_mvcc db)\<rparr>,
              Inl (Conflict (tx_id tx)))
         | Inr _ \<Rightarrow>
             (case try_fold (\<lambda>_ entry. check_entry_unique X snap entry) () (tx_write_set tx) of
                Inl e \<Rightarrow> (tx, db, Inl e)
              | Inr _ \<Rightarrow>
                  let changes = apply_write_set (tx_write_set tx) snap (tx_id tx);
                      engine_changes = collect_changes (tx_write_set tx) snap (tx_id tx);
                      records = map (wal_record_of (tx_id tx)) (tx_write_set tx) @ [WCommit (tx_id tx)]
                  in
                  (case log_append_all C (cp_wal plan) 0 records db of
                     (db1, Inl e) \<Rightarrow> (tx, db1, Inl e)
                   | (db1, Inr _) \<Rightarrow>
                       (case engine_writes (cp_engine plan) engine_changes (cp_engine_order plan) (db_catalog db1) of
                          (cat, Inl e) \<Rightarrow> (tx, db1\<lparr>db_catalog := cat\<rparr>, Inl e)
                        | (cat, Inr _) \<Rightarrow>
                            let db2 = db1\<lparr>db_catalog := cat\<rparr> in
                            (case install_tables X snap (tx_write_set tx) changes (cp_table_order plan) (db_tables db2) of
                               (tables, Inl e) \<Rightarrow> (tx, db2\<lparr>db_tables := tables\<rparr>, Inl e)
                             | (tables, Inr _) \<Rightarrow>
                                 (tx\<lparr>tx_status := Committed\<rparr>,
                                  db2\<lparr>db_tables := tables, db_mvcc := commit_transaction tx (db_mvcc db2)\<rparr>,
                                  Inr ())))))))"

definition rollback :: "transaction \<Rightarrow> database \<Rightarrow> transaction \<times> database" where
  "rollback tx db =
     (if tx_status tx \<noteq> InProgress then (tx, db)
      else (tx\<lparr>tx_status := Aborted\<rparr>, db\<lparr>db_mvcc := rollback_transaction tx (db_mvcc db)\<rparr>))"

definition with_read_txn :: "(transaction \<Rightarrow> table list \<Rightarrow> 'r res) \<Rightarrow> database \<Rightarrow> database \<times> 'r res" where
  "with_read_txn f db =
     (case begin_txn db of
        (tx, db1) \<Rightarrow>
          (case f tx (db_tables db1) of
             Inl e \<Rightarrow> (db1, Inl e)
           | Inr r \<Rightarrow> (db1\<lparr>db_mvcc := commit_transaction tx (db_mvcc db1)\<rparr>, Inr r)))"

definition with_write_txn ::
  "ext \<Rightarrow> codec \<Rightarrow> commit_plan \<Rightarrow> (transaction \<Rightarrow> table list \<Rightarrow> write_entry list res) \<Rightarrow> database \<Rightarrow> database \<times> unit res" where
  "with_write_txn X C plan f db =
     (case begin_txn db of
        (tx, db1) \<Rightarrow>
          (case f tx (db_tables db1) of
             Inl e \<Rightarrow> (db1, Inl e)
           | Inr entries \<Rightarrow>
               (case commit X C plan (foldl (\<lambda>tx e. add_write e tx) tx entries) db1 of (_, db2, r) \<Rightarrow> (db2, r))))"

subsection \<open>Tables by name\<close>

lemma tables_snapshot_find:
  assumes "distinct (map tb_name tables)"
  shows "tables_snapshot tables name = find (\<lambda>t. tb_name t = name) tables"
  using assms unfolding tables_snapshot_def
proof (induction tables rule: rev_induct)
  case (snoc t ts)
  have "find (\<lambda>u. tb_name u = name) ts = None" if "tb_name t = name"
    using snoc.prems that by (auto simp: find_None_iff) (metis image_eqI)
  then show ?case using snoc by (cases "tb_name t = name") (auto simp: find_append split: option.splits)
qed simp

lemma tables_snapshot_Some:
  assumes "distinct (map tb_name tables)"
  shows "tables_snapshot tables name = Some t \<longleftrightarrow> t \<in> set tables \<and> tb_name t = name"
  using assms unfolding tables_snapshot_find [OF assms]
  by (induction tables) auto

lemma update_first_map:
  assumes "distinct (map tb_name tables)"
  shows "update_first (\<lambda>t. tb_name t = name) f tables = map (\<lambda>t. if tb_name t = name then f t else t) tables"
  using assms
proof (induction tables)
  case (Cons t ts)
  show ?case
  proof (cases "tb_name t = name")
    case True
    then have "\<forall>u \<in> set ts. tb_name u \<noteq> name" using Cons.prems by (metis distinct.simps(2) image_eqI list.set_map list.simps(9))
    then have "map (\<lambda>t. if tb_name t = name then f t else t) ts = ts" by (intro map_idI) auto
    then show ?thesis using True by simp
  qed (use Cons in simp)
qed simp

lemma map_name_cong: "(\<And>t. tb_name (f t) = tb_name t) \<Longrightarrow> map tb_name (map f ts) = map tb_name ts"
  by simp

subsection \<open>The steps of a commit\<close>

lemma log_append_Inr:
  assumes "log_append C fault r db = (db', Inr u)"
  obtains w where "wal_append C fault r (db_wal db) = (w, Inr u)" "db' = db\<lparr>db_wal := w\<rparr>"
  using assms by (auto simp: log_append_def split: prod.splits)

lemma log_append_all_frame:
  "log_append_all C faults i rs db = (db', r) \<Longrightarrow> db' = db\<lparr>db_wal := db_wal db'\<rparr>"
proof (induction rs arbitrary: i db)
  case (Cons x xs)
  obtain d1 r1 where d1: "log_append C (faults i) x db = (d1, r1)" by fastforce
  then have "d1 = db\<lparr>db_wal := db_wal d1\<rparr>" by (auto simp: log_append_def split: prod.splits)
  then show ?case using Cons d1 by (cases r1) (auto, metis database.surjective database.update_convs(4))
qed simp

lemma log_append_all_log:
  assumes "log_append_all C faults i rs db = (db', Inr u)" "writer_log C rs0 (db_wal db)"
  shows "writer_log C (rs0 @ rs) (db_wal db') \<and> ww_durability (db_wal db') = ww_durability (db_wal db) \<and>
    (\<forall>r \<in> set rs. \<exists>b. cd_serialize C r = Inr b)"
  using assms
proof (induction rs arbitrary: i db rs0)
  case (Cons x xs)
  obtain d1 u1 where d1: "log_append C (faults i) x db = (d1, Inr u1)"
    and rest: "log_append_all C faults (Suc i) xs d1 = (db', Inr u)"
    using Cons.prems(1) by (auto split: prod.splits sum.splits)
  obtain w where w: "wal_append C (faults i) x (db_wal db) = (w, Inr u1)" "d1 = db\<lparr>db_wal := w\<rparr>"
    using log_append_Inr [OF d1] by blast
  show ?case
    using Cons.IH [OF rest, of "rs0 @ [x]"] writer_log_append [OF Cons.prems(2) w(1)] w(2) by simp
qed simp

lemma index_entries_frame [simp, frame_simps]:
  "tb_name (fst (index_entries X old es t)) = tb_name t"
  "tb_columns (fst (index_entries X old es t)) = tb_columns t"
  "tb_version_chains (fst (index_entries X old es t)) = tb_version_chains t"
  "tb_primary_key_idx (fst (index_entries X old es t)) = tb_primary_key_idx t"
proof -
  have "tb_name (fst (index_entries X old es t)) = tb_name t \<and> tb_columns (fst (index_entries X old es t)) = tb_columns t \<and>
      tb_version_chains (fst (index_entries X old es t)) = tb_version_chains t \<and>
      tb_primary_key_idx (fst (index_entries X old es t)) = tb_primary_key_idx t"
  proof (induction es arbitrary: t)
    case (Cons e es)
    let ?old = "Option.bind old (\<lambda>tb. get_visible_row tb (we_row_idx e))"
    obtain t1 r1 where ap: "apply_index_changes X t (we_operation e) ?old (we_row_idx e) = (t1, r1)" by fastforce
    have "tb_name t1 = tb_name t" "tb_columns t1 = tb_columns t"
      "tb_version_chains t1 = tb_version_chains t" "tb_primary_key_idx t1 = tb_primary_key_idx t"
      using apply_index_changes_frame [of X t "we_operation e" ?old "we_row_idx e"] ap by simp_all
    then show ?case using Cons.IH [of t] Cons.IH [of t1] ap by (cases r1) (simp_all add: Let_def)
  qed simp
  then show "tb_name (fst (index_entries X old es t)) = tb_name t"
    "tb_columns (fst (index_entries X old es t)) = tb_columns t"
    "tb_version_chains (fst (index_entries X old es t)) = tb_version_chains t"
    "tb_primary_key_idx (fst (index_entries X old es t)) = tb_primary_key_idx t"
    by blast+
qed

text \<open>What installing makes of one table.\<close>

definition installed ::
  "ext \<Rightarrow> (string \<rightharpoonup> table) \<Rightarrow> write_entry list \<Rightarrow> (string \<rightharpoonup> row_version list list) \<Rightarrow> table \<Rightarrow> table \<times> unit res" where
  "installed X snap ws chs t =
     (case chs (tb_name t) of
        None \<Rightarrow> (t, Inr ())
      | Some new_chains \<Rightarrow> index_entries X (snap (tb_name t)) ws (t\<lparr>tb_version_chains := new_chains\<rparr>))"

lemma installed_frame [simp, frame_simps]:
  "tb_name (fst (installed X snap ws chs t)) = tb_name t"
  "tb_columns (fst (installed X snap ws chs t)) = tb_columns t"
  "tb_primary_key_idx (fst (installed X snap ws chs t)) = tb_primary_key_idx t"
  "tb_version_chains (fst (installed X snap ws chs t)) =
     (case chs (tb_name t) of None \<Rightarrow> tb_version_chains t | Some c \<Rightarrow> c)"
  by (simp_all add: installed_def split: option.splits)

lemma install_table_distinct:
  assumes "distinct (map tb_name tables)" "chs name = Some c"
  shows "install_table X snap ws name c tables =
    (map (\<lambda>t. if tb_name t = name then fst (installed X snap ws chs t) else t) tables,
     case find (\<lambda>t. tb_name t = name) tables of None \<Rightarrow> Inr () | Some t \<Rightarrow> snd (installed X snap ws chs t))"
proof (cases "find (\<lambda>t. tb_name t = name) tables")
  case None
  then have "map (\<lambda>t. if tb_name t = name then fst (installed X snap ws chs t) else t) tables = tables"
    by (intro map_idI) (auto simp: find_None_iff)
  then show ?thesis using None by (simp add: install_table_def)
next
  case (Some t)
  then have t: "t \<in> set tables" "tb_name t = name" by (auto dest: find_SomeD)
  have "map (\<lambda>x. if tb_name x = name then fst (installed X snap ws chs t) else x) tables =
      map (\<lambda>x. if tb_name x = name then fst (installed X snap ws chs x) else x) tables"
    using assms(1) t by (auto simp: distinct_map inj_on_def)
  then show ?thesis
    using Some t assms by (auto simp: install_table_def installed_def update_first_map split: prod.splits)
qed

lemma install_tables_Inr:
  assumes "install_tables X snap ws chs names tables = (tables', Inr u)"
    and "distinct (map tb_name tables)" "distinct names"
  shows "tables' = map (\<lambda>t. if tb_name t \<in> set names then fst (installed X snap ws chs t) else t) tables \<and>
    (\<forall>t \<in> set tables. tb_name t \<in> set names \<longrightarrow> snd (installed X snap ws chs t) = Inr ())"
  using assms
proof (induction names arbitrary: tables)
  case (Cons name names)
  show ?case
  proof (cases "chs name")
    case None
    then have keep: "tb_name t = name \<Longrightarrow> installed X snap ws chs t = (t, Inr ())" for t by (simp add: installed_def)
    have eq: "(if tb_name t \<in> set (name # names) then fst (installed X snap ws chs t) else t) =
        (if tb_name t \<in> set names then fst (installed X snap ws chs t) else t)" for t
      using keep [of t] by auto
    have "tables' = map (\<lambda>t. if tb_name t \<in> set names then fst (installed X snap ws chs t) else t) tables \<and>
        (\<forall>t \<in> set tables. tb_name t \<in> set names \<longrightarrow> snd (installed X snap ws chs t) = Inr ())"
      using Cons.IH [of tables] Cons.prems None by simp
    then show ?thesis unfolding eq using keep by auto
  next
    case (Some c)
    let ?f = "\<lambda>t. if tb_name t = name then fst (installed X snap ws chs t) else t"
    have i: "install_table X snap ws name c tables = (map ?f tables,
       case find (\<lambda>t. tb_name t = name) tables of None \<Rightarrow> Inr () | Some t \<Rightarrow> snd (installed X snap ws chs t))"
      by (rule install_table_distinct [OF Cons.prems(2), of chs, OF Some])
    have found: "find (\<lambda>t. tb_name t = name) tables = Some t \<longleftrightarrow> t \<in> set tables \<and> tb_name t = name" for t
      using tables_snapshot_Some [OF Cons.prems(2), unfolded tables_snapshot_find [OF Cons.prems(2)]] .
    have snd: "(case find (\<lambda>t. tb_name t = name) tables of None \<Rightarrow> Inr () | Some t \<Rightarrow> snd (installed X snap ws chs t)) = Inr ()"
      and rest: "install_tables X snap ws chs names (map ?f tables) = (tables', Inr u)"
      using Cons.prems(1) Some i by (auto split: sum.splits prod.splits)
    have ok: "\<forall>t \<in> set tables. tb_name t = name \<longrightarrow> snd (installed X snap ws chs t) = Inr ()"
      using snd found by (metis option.case(2))
    have names: "map tb_name (map ?f tables) = map tb_name tables" by (intro map_name_cong) simp
    have IH: "tables' = map (\<lambda>t. if tb_name t \<in> set names then fst (installed X snap ws chs t) else t) (map ?f tables) \<and>
        (\<forall>t \<in> set (map ?f tables). tb_name t \<in> set names \<longrightarrow> snd (installed X snap ws chs t) = Inr ())"
      by (rule Cons.IH [OF rest]) (use names Cons.prems(2,3) in \<open>simp_all only: distinct.simps\<close>)
    have notin: "name \<notin> set names" using Cons.prems(3) by simp
    have "tables' = map (\<lambda>t. if tb_name t \<in> set (name # names) then fst (installed X snap ws chs t) else t) tables"
      using IH notin by auto
    moreover have "snd (installed X snap ws chs t) = Inr ()" if "t \<in> set tables" "tb_name t \<in> set (name # names)" for t
      using IH ok that notin by (cases "tb_name t = name") auto
    ultimately show ?thesis by blast
  qed
qed simp

lemma begin_txn_simps [simp]:
  "tx_id (fst (begin_txn db)) = mv_next_txid (db_mvcc db)"
  "tx_status (fst (begin_txn db)) = InProgress"
  "tx_write_set (fst (begin_txn db)) = []"
  "tx_snapshot (fst (begin_txn db)) = \<lparr>sn_txid = mv_next_txid (db_mvcc db), sn_active = mv_active_txns (db_mvcc db)\<rparr>"
  "snd (begin_txn db) = db\<lparr>db_mvcc := snd (begin_transaction (db_mvcc db))\<rparr>"
  using begin_transaction_simps [of "db_mvcc db"] by (simp_all add: begin_txn_def split_beta)

end
