(* ===== verification/Commit.thy ===== *)
theory Commit
  imports Engine
begin

text \<open>
  What a commit of the engine guarantees: the new version chains, the indexes that follow them,
  the unique constraints, and what a commit that fails leaves behind. The write sets are those a
  statement of the executor produces: insertions at consecutive new positions, updates and
  deletions of distinct existing rows.
\<close>

subsection \<open>The current row of a chain\<close>

definition head_row :: "row_version list \<Rightarrow> row option" where
  "head_row c = (if c = [] \<or> rv_is_deleted (last c) then None else Some (rv_row (last c)))"

lemma head_row_push [simp]: "head_row (push_version x v c) = (if rv_is_deleted v then None else Some (rv_row v))"
  by (simp add: head_row_def)

lemma head_row_single [simp]: "head_row [v] = (if rv_is_deleted v then None else Some (rv_row v))"
  by (simp add: head_row_def)

lemma chain_ok_ended: "chain_ok (c @ [w]) \<Longrightarrow> v \<in> set c \<Longrightarrow> rv_txid_max v \<noteq> u64_MAX"
proof (induction c rule: induct_list012)
  case (3 x y zs)
  then show ?case by auto
qed auto

lemma find_open:
  assumes "chain_ok c"
  shows "find (\<lambda>v. rv_txid_max v = u64_MAX \<and> \<not> rv_is_deleted v) (rev c) =
    (if c = [] \<or> rv_is_deleted (last c) then None else Some (last c))"
proof (cases c rule: rev_cases)
  case (snoc ys y)
  have "find (\<lambda>v. rv_txid_max v = u64_MAX \<and> \<not> rv_is_deleted v) (rev ys) = None"
    using chain_ok_ended [of ys y] assms snoc by (auto simp: find_None_iff)
  then show ?thesis using chain_ok_last [of ys y] assms snoc by simp
qed simp

lemma latest_head:
  assumes "chain_ok c"
  shows "map_option rv_row (latest_visible c u64_MAX {}) = head_row c"
proof (cases "c = []")
  case False
  then have "newest_at u64_MAX c = Some (last c)" by (intro newest_at_all) auto
  then show ?thesis using False find_visible [OF assms, of u64_MAX "{}"]
    by (simp add: latest_visible_def head_row_def)
qed (simp add: latest_visible_def head_row_def)

definition chains_ok :: "table \<Rightarrow> bool" where
  "chains_ok t \<longleftrightarrow> (\<forall>c \<in> set (tb_version_chains t). c \<noteq> [] \<and> chain_ok c)"

lemma get_visible_head:
  assumes "chains_ok t"
  shows "get_visible_row t i = (if i < length (tb_version_chains t) then head_row (tb_version_chains t ! i) else None)"
  using assms by (simp add: get_visible_row_def chains_ok_def find_open head_row_def)

lemma current_rows_head:
  assumes "chains_ok t"
  shows "(i, r) \<in> set (current_rows t) \<longleftrightarrow>
    i < length (tb_version_chains t) \<and> head_row (tb_version_chains t ! i) = Some r"
proof (cases "i < length (tb_version_chains t)")
  case True
  then have "chain_ok (tb_version_chains t ! i)" using assms by (simp add: chains_ok_def)
  from latest_head [OF this] show ?thesis
    using True by (auto simp: current_rows_def scan_visible_iff get_visible_version_def bind_eq_Some_conv)
qed (simp add: current_rows_def scan_visible_iff get_visible_version_def bind_eq_Some_conv)

subsection \<open>Write sets of a statement\<close>

text \<open>The entries of one table, with the number of its rows so far and the rows already written.\<close>

fun entries_ok :: "table \<Rightarrow> nat \<Rightarrow> nat set \<Rightarrow> write_entry list \<Rightarrow> bool" where
  "entries_ok t n seen [] = True"
| "entries_ok t n seen (e # es) =
     (case we_operation e of
        Insert r \<Rightarrow> we_row_idx e = n \<and> validate_row t r = Inr () \<and> entries_ok t (Suc n) seen es
      | _ \<Rightarrow> we_row_idx e < length (tb_version_chains t) \<and> we_row_idx e \<notin> seen \<and>
          entries_ok t n (insert (we_row_idx e) seen) es)"

abbreviation entries_of :: "string \<Rightarrow> write_entry list \<Rightarrow> write_entry list" where
  "entries_of name ws \<equiv> filter (\<lambda>e. we_table_name e = name) ws"

definition statement_ok :: "table list \<Rightarrow> write_entry list \<Rightarrow> bool" where
  "statement_ok tables ws \<longleftrightarrow>
     (\<forall>t \<in> set tables. entries_ok t (length (tb_version_chains t)) {} (entries_of (tb_name t) ws))"

definition apply_entry :: "table \<Rightarrow> u64 \<Rightarrow> row_version list list \<Rightarrow> write_entry \<Rightarrow> row_version list list" where
  "apply_entry t txid cs e = apply_change txid cs (we_row_idx e, version_of t txid e)"

lemma map_filter_changes:
  assumes "tables name = Some t" "\<forall>e \<in> set es. we_table_name e = name" "\<forall>c \<in> set (tb_version_chains t). c \<noteq> []"
    and "entries_ok t n seen es"
  shows "List.map_filter (change_of_entry tables txid) es = map (\<lambda>e. (we_row_idx e, version_of t txid e)) es"
  using assms(2,4)
proof (induction es arbitrary: n seen)
  case (Cons e es)
  have "change_of_entry tables txid e = Some (we_row_idx e, version_of t txid e)"
  proof (cases "we_operation e")
    case (Insert r)
    then show ?thesis by (simp add: change_of_entry_def version_of_def)
  next
    case (Update r)
    then show ?thesis by (simp add: change_of_entry_def version_of_def)
  next
    case Delete
    then have "we_row_idx e < length (tb_version_chains t)" using Cons.prems by simp
    then show ?thesis using assms(1,3) Cons.prems(1) by (intro change_of_entry_in_range) auto
  qed
  moreover have "\<exists>n seen. entries_ok t n seen es" using Cons.prems(2) by (auto split: write_op.splits)
  ultimately show ?case using Cons by (auto simp: map_filter_simps)
qed (simp add: map_filter_simps)

text \<open>The chains a commit computes for a table.\<close>

lemma apply_write_set_entries:
  assumes "tables name = Some t" "\<forall>c \<in> set (tb_version_chains t). c \<noteq> []"
    and "entries_ok t n seen (entries_of name ws)"
  shows "apply_write_set ws tables txid name =
    (if entries_of name ws = [] then None
     else Some (foldl (apply_entry t txid) (tb_version_chains t) (entries_of name ws)))"
proof -
  have "List.map_filter (change_of_entry tables txid) (entries_of name ws) =
      map (\<lambda>e. (we_row_idx e, version_of t txid e)) (entries_of name ws)"
    by (rule map_filter_changes [of tables name, OF assms(1) _ assms(2,3)]) simp
  moreover have "foldl (apply_change txid) cs (map (\<lambda>e. (we_row_idx e, version_of t txid e)) es) =
      foldl (apply_entry t txid) cs es" for cs es
    by (induction es arbitrary: cs) (simp_all add: apply_entry_def)
  ultimately show ?thesis
    using assms(1) by (auto simp: apply_write_set_def collect_changes_conv filter_empty_conv)
qed

text \<open>An entry at a position that the invariant of the loop allows.\<close>

definition entry_fits :: "row_version list list \<Rightarrow> write_entry \<Rightarrow> bool" where
  "entry_fits cs e \<longleftrightarrow>
     (case we_operation e of Insert r \<Rightarrow> we_row_idx e = length cs | _ \<Rightarrow> we_row_idx e < length cs)"

lemma apply_entry_eq:
  assumes "entry_fits cs e"
  shows "apply_entry t txid cs e =
    (case we_operation e of
       Insert r \<Rightarrow> cs @ [[version_of t txid e]]
     | _ \<Rightarrow> cs[we_row_idx e := push_version txid (version_of t txid e) (cs ! we_row_idx e)])"
  using assms by (auto simp: entry_fits_def apply_entry_def apply_change_def split: write_op.splits)

lemma version_head [simp]:
  "(if rv_is_deleted (version_of t txid e) then None else Some (rv_row (version_of t txid e))) = op_row (we_operation e)"
  by (rule version_of_simps(3))

lemma apply_entry_heads:
  assumes "entry_fits cs e"
  shows "length (apply_entry t txid cs e) = (case we_operation e of Insert r \<Rightarrow> Suc (length cs) | _ \<Rightarrow> length cs)"
    and "i < length (apply_entry t txid cs e) \<Longrightarrow> head_row (apply_entry t txid cs e ! i) =
      (if i = we_row_idx e then op_row (we_operation e) else head_row (cs ! i))"
  using assms version_of_simps(3) [of t txid e]
  by (auto simp: apply_entry_eq entry_fits_def nth_append nth_list_update head_row_push head_row_single
      split: write_op.splits if_splits)

text \<open>The loop: every entry fits, and its row has the chain of the table at the start.\<close>

lemma entries_fit_step:
  assumes "entries_ok t n seen (e # es)" "length cs = n" "length (tb_version_chains t) \<le> n"
    and "\<forall>i < length (tb_version_chains t). i \<notin> seen \<longrightarrow> cs ! i = tb_version_chains t ! i"
  shows "entry_fits cs e" "we_operation e = Delete \<or> (\<exists>r. we_operation e = Update r) \<Longrightarrow>
      we_row_idx e < length (tb_version_chains t) \<and> cs ! we_row_idx e = tb_version_chains t ! we_row_idx e"
    and "\<exists>n' seen'. entries_ok t n' seen' es \<and> length (apply_entry t txid cs e) = n' \<and>
      length (tb_version_chains t) \<le> n' \<and>
      (\<forall>i < length (tb_version_chains t). i \<notin> seen' \<longrightarrow> apply_entry t txid cs e ! i = tb_version_chains t ! i)"
proof -
  show fit: "entry_fits cs e"
    using assms(1-3) by (auto simp: entry_fits_def split: write_op.splits)
  show "we_row_idx e < length (tb_version_chains t) \<and> cs ! we_row_idx e = tb_version_chains t ! we_row_idx e"
    if "we_operation e = Delete \<or> (\<exists>r. we_operation e = Update r)"
    using assms that by auto
  let ?n = "case we_operation e of Insert r \<Rightarrow> Suc n | _ \<Rightarrow> n"
  let ?seen = "case we_operation e of Insert r \<Rightarrow> seen | _ \<Rightarrow> insert (we_row_idx e) seen"
  have "entries_ok t ?n ?seen es \<and> length (apply_entry t txid cs e) = ?n \<and> length (tb_version_chains t) \<le> ?n \<and>
      (\<forall>i < length (tb_version_chains t). i \<notin> ?seen \<longrightarrow> apply_entry t txid cs e ! i = tb_version_chains t ! i)"
    using assms fit by (cases "we_operation e") (auto simp: apply_entry_eq nth_append)
  then show "\<exists>n' seen'. entries_ok t n' seen' es \<and> length (apply_entry t txid cs e) = n' \<and>
      length (tb_version_chains t) \<le> n' \<and>
      (\<forall>i < length (tb_version_chains t). i \<notin> seen' \<longrightarrow> apply_entry t txid cs e ! i = tb_version_chains t ! i)"
    by blast
qed

subsection \<open>The indexes follow\<close>

definition rows_synced :: "row_version list list \<Rightarrow> index \<Rightarrow> bool" where
  "rows_synced cs ix \<longleftrightarrow> index_ok ix \<and>
     (\<forall>k. index_rows ix k = {i. i < length cs \<and> (\<exists>r. head_row (cs ! i) = Some r \<and> extract_key ix r = k)})"

lemma rows_synced_iff:
  "chains_ok t \<Longrightarrow> rows_synced (tb_version_chains t) ix \<longleftrightarrow> index_ok ix \<and> index_synced t ix"
  by (simp add: rows_synced_def index_synced_def current_rows_head)

text \<open>A successful change of an index, by the kind of the entry.\<close>

lemma index_change_Inr:
  assumes "index_ok ix" "index_change X op old i ix = (ix', Inr u)"
  shows "index_ok ix' \<and> ix_meta ix' = ix_meta ix \<and>
    (im_is_unique (ix_meta ix) \<longrightarrow> index_single ix \<longrightarrow> index_single ix') \<and>
    (case op of
       Insert r \<Rightarrow> ix' = insert_entry ix (extract_key ix r) i
     | Update r \<Rightarrow> (\<exists>o'. old = Some o' \<and>
         ix' = insert_entry (index_remove ix (extract_key ix o') i) (extract_key ix r) i)
     | Delete \<Rightarrow> ix' = (case old of None \<Rightarrow> ix | Some o' \<Rightarrow> index_remove ix (extract_key ix o') i))"
proof -
  have single: "index_ok jx \<Longrightarrow> index_single jx = bx.single jx" for jx
    by (simp add: index_single_iff bx.single_def)
  have ins: "im_is_unique (ix_meta jx) \<longrightarrow> index_single jx \<longrightarrow> index_single (insert_entry jx k i)"
    if "index_ok jx" "index_insert X jx k i = (insert_entry jx k i, Inr ())" for jx k
    using that bx.ins_single [of jx X k i] single bx.ok_add [OF that(1)] by fastforce
  have insD: "jx' = insert_entry jx k i \<and> index_insert X jx k i = (insert_entry jx k i, Inr ())"
    if "index_ok jx" "index_insert X jx k i = (jx', res)" "map_err f res = Inr u" for jx jx' k f res
    using that by (auto simp: index_insert_eq map_err_def split: if_splits)
  show ?thesis
  proof (cases op)
    case (Insert r)
    obtain jx res where res: "index_insert X ix (extract_key ix r) i = (jx, res)" by fastforce
    have "jx = ix'" "map_err (\<lambda>e. Internal (''Index insert failed after commit: '' @ error_display e)) res = Inr u"
      using assms(2) Insert res by (auto simp: index_change_def)
    then show ?thesis using insD [OF assms(1) res] ins [OF assms(1)] Insert bx.ok_add [OF assms(1)] by auto
  next
    case (Update r)
    then obtain o' where old: "old = Some o'" using assms(2) by (cases old) (auto simp: index_change_def)
    let ?rx = "index_remove ix (extract_key ix o') i"
    have okr: "index_ok ?rx" using bx.ok_del [OF assms(1)] .
    obtain jx res where res: "index_insert X ?rx (extract_key ix r) i = (jx, res)" by fastforce
    have "jx = ix'" "map_err (\<lambda>e. Internal (''Index update failed after commit: '' @ error_display e)) res = Inr u"
      using assms(2) Update old res by (auto simp: index_change_def index_update_def)
    moreover have "index_single ix \<longrightarrow> index_single ?rx"
      using bx.del_single [OF assms(1)] single [OF assms(1)] single [OF okr] by simp
    ultimately show ?thesis using insD [OF okr res] ins [OF okr] Update old bx.ok_add [OF okr] by auto
  next
    case Delete
    then show ?thesis
      using assms bx.ok_del [OF assms(1)] bx.del_single [OF assms(1)] single
      by (cases old) (auto simp: index_change_def)
  qed
qed

lemma rows_synced_step:
  assumes "rows_synced cs ix" "entry_fits cs e"
    and "index_change X (we_operation e) old (we_row_idx e) ix = (ix', Inr u)"
    and "we_operation e = Delete \<or> (\<exists>r. we_operation e = Update r) \<Longrightarrow> old = head_row (cs ! we_row_idx e)"
  shows "rows_synced (apply_entry t txid cs e) ix'"
proof -
  let ?cs = "apply_entry t txid cs e" and ?i = "we_row_idx e"
  have ok: "index_ok ix" and rows: "index_rows ix k = {i. i < length cs \<and> (\<exists>r. head_row (cs ! i) = Some r \<and> extract_key ix r = k)}" for k
    using assms(1) by (auto simp: rows_synced_def)
  note ch = index_change_Inr [OF ok assms(3)]
  have key: "extract_key ix' r = extract_key ix r" for r using ch extract_key_meta by blast
  have len: "length ?cs = (case we_operation e of Insert r \<Rightarrow> Suc (length cs) | _ \<Rightarrow> length cs)"
    and heads: "i < length ?cs \<Longrightarrow> head_row (?cs ! i) = (if i = ?i then op_row (we_operation e) else head_row (cs ! i))" for i
    using apply_entry_heads(1) [OF assms(2), of t txid] apply_entry_heads(2) [OF assms(2), of _ t txid] by blast+
  have "index_rows ix' k = {i. i < length ?cs \<and> (\<exists>r. head_row (?cs ! i) = Some r \<and> extract_key ix' r = k)}" for k
  proof (cases "we_operation e")
    case (Insert r)
    have "?i = length cs" using assms(2) Insert by (simp add: entry_fits_def)
    then show ?thesis
      using ch Insert bx.rows_add [OF ok] len heads by (auto simp: key rows split: if_splits)
  next
    case (Update r)
    obtain o' where o': "old = Some o'" "ix' = insert_entry (index_remove ix (extract_key ix o') ?i) (extract_key ix r) ?i"
      using ch Update by auto
    have i: "?i < length cs" "head_row (cs ! ?i) = Some o'"
      using assms(2,4) Update o'(1) by (auto simp: entry_fits_def)
    have "index_rows ix' k = (if k = extract_key ix r then insert ?i (index_rows ix k)
        else index_rows ix k - {?i})"
      using i rows bx.rows_add [OF bx.ok_del [OF ok]] bx.rows_del [OF ok] by (auto simp: o'(2))
    then show ?thesis using Update i len heads by (auto simp: key rows split: if_splits)
  next
    case Delete
    have i: "?i < length cs" "old = head_row (cs ! ?i)"
      using assms(2,4) Delete by (auto simp: entry_fits_def)
    have "index_rows ix' k = index_rows ix k - {?i}"
    proof (cases old)
      case None
      then show ?thesis using ch Delete i by (auto simp: rows)
    next
      case (Some o')
      then show ?thesis using ch Delete i bx.rows_del [OF ok] by (auto simp: rows)
    qed
    then show ?thesis using Delete i len heads by (auto simp: key rows split: if_splits)
  qed
  then show ?thesis using ch by (simp add: rows_synced_def)
qed

text \<open>The entries of other tables do not touch the indexes of a table.\<close>

lemma index_entries_own:
  "index_entries X old ws t = index_entries X old (entries_of (tb_name t) ws) t"
proof (induction ws arbitrary: t)
  case (Cons e es)
  let ?old = "Option.bind old (\<lambda>tb. get_visible_row tb (we_row_idx e))"
  obtain t1 r1 where ap: "apply_index_changes X t (we_operation e) ?old (we_row_idx e) = (t1, r1)" by fastforce
  have "tb_name t1 = tb_name t"
    using apply_index_changes_frame(1) [of X t "we_operation e" ?old "we_row_idx e"] ap by simp
  then show ?case using Cons.IH [of t] Cons.IH [of t1] ap by (cases r1) (simp_all add: Let_def)
qed simp

text \<open>All entries succeeded: the indexes follow the loop of the chains.\<close>

lemma index_entries_synced:
  assumes "entries_ok t n seen es" "length cs = n" "length (tb_version_chains t) \<le> n"
    and "\<forall>i < length (tb_version_chains t). i \<notin> seen \<longrightarrow> cs ! i = tb_version_chains t ! i"
    and "\<forall>e \<in> set es. we_table_name e = tb_name t1" "chains_ok t"
    and "\<forall>ix \<in> set (tb_indexes t1). rows_synced cs ix \<and> (im_is_unique (ix_meta ix) \<longrightarrow> index_single ix)"
    and "index_entries X (Some t) es t1 = (t2, Inr u)"
  shows "\<forall>ix \<in> set (tb_indexes t2). rows_synced (foldl (apply_entry t txid) cs es) ix \<and>
    (im_is_unique (ix_meta ix) \<longrightarrow> index_single ix)"
  using assms
proof (induction es arbitrary: n seen cs t1)
  case (Cons e es)
  note step = entries_fit_step [OF Cons.prems(1-4)]
  let ?old = "get_visible_row t (we_row_idx e)"
  obtain t' u' where ap: "apply_index_changes X t1 (we_operation e) ?old (we_row_idx e) = (t', Inr u')"
    and rest: "index_entries X (Some t) es t' = (t2, Inr u)"
    using Cons.prems(5,8) by (auto simp: Let_def split: prod.splits sum.splits)
  have name: "tb_name t' = tb_name t1"
    using apply_index_changes_frame(1) [of X t1 "we_operation e" ?old "we_row_idx e"] ap by simp
  have "list_all2 (\<lambda>ix ix'. index_change X (we_operation e) ?old (we_row_idx e) ix = (ix', Inr ()))
      (tb_indexes t1) (tb_indexes t')"
    using ap by (auto simp: apply_index_changes_def each_index_ok split: prod.splits)
  then have ch: "\<exists>ix \<in> set (tb_indexes t1). index_change X (we_operation e) ?old (we_row_idx e) ix = (ix', Inr ())"
    if "ix' \<in> set (tb_indexes t')" for ix'
    using that unfolding list_all2_conv_all_nth by (metis in_set_conv_nth)
  have old: "?old = head_row (cs ! we_row_idx e)"
    if "we_operation e = Delete \<or> (\<exists>r. we_operation e = Update r)"
    using step(2) [OF that] get_visible_head [OF Cons.prems(6)] by simp
  have now: "rows_synced (apply_entry t txid cs e) ix' \<and> (im_is_unique (ix_meta ix') \<longrightarrow> index_single ix')"
    if mem: "ix' \<in> set (tb_indexes t')" for ix'
  proof -
    obtain ix where ix: "ix \<in> set (tb_indexes t1)"
      "index_change X (we_operation e) ?old (we_row_idx e) ix = (ix', Inr ())" using ch [OF mem] by blast
    have s: "rows_synced cs ix" "im_is_unique (ix_meta ix) \<longrightarrow> index_single ix"
      using Cons.prems(7) ix(1) by blast+
    then have "index_ok ix" by (simp add: rows_synced_def)
    then show ?thesis
      using rows_synced_step [OF s(1) step(1) ix(2) old, of t txid] index_change_Inr [OF _ ix(2)] s(2) by auto
  qed
  obtain n' seen' where nxt: "entries_ok t n' seen' es" "length (apply_entry t txid cs e) = n'"
    "length (tb_version_chains t) \<le> n'"
    "\<forall>i < length (tb_version_chains t). i \<notin> seen' \<longrightarrow> apply_entry t txid cs e ! i = tb_version_chains t ! i"
    using step(3) [of txid] by blast
  show ?case
    using Cons.IH [OF nxt _ Cons.prems(6) _ rest] now name Cons.prems(5) by simp
qed simp

subsection \<open>The chains of the rows\<close>

text \<open>A row that was not last written by a younger transaction, or does not exist yet.\<close>

definition writable_at :: "u64 \<Rightarrow> row_version list list \<Rightarrow> write_entry \<Rightarrow> bool" where
  "writable_at txid cs e \<longleftrightarrow>
     (we_row_idx e < length cs \<longrightarrow> rv_txid_min (last (cs ! we_row_idx e)) \<le> txid)"

lemma apply_entry_chain:
  assumes "entry_fits cs e" "\<forall>c \<in> set cs. c \<noteq> [] \<and> chain_ok c" "writable_at txid cs e" "txid \<noteq> u64_MAX"
  shows "(\<forall>c \<in> set (apply_entry t txid cs e). c \<noteq> [] \<and> chain_ok c) \<and>
    (\<forall>s A i. s < txid \<longrightarrow> i < length (apply_entry t txid cs e) \<longrightarrow>
       map_option rv_row (latest_visible (apply_entry t txid cs e ! i) s A) =
       (if i < length cs then map_option rv_row (latest_visible (cs ! i) s A) else None))"
proof (cases "\<exists>r. we_operation e = Insert r")
  case True
  then have eq: "apply_entry t txid cs e = cs @ [[version_of t txid e]]"
    using apply_entry_eq [OF assms(1)] by auto
  have "latest_visible [version_of t txid e] s A = None" if "s < txid" for s A
    using that by (simp add: latest_visible_def is_version_visible_def)
  then show ?thesis using assms(2) by (auto simp: eq nth_append)
next
  case False
  then have i: "we_row_idx e < length cs"
    and eq: "apply_entry t txid cs e = cs[we_row_idx e := push_version txid (version_of t txid e) (cs ! we_row_idx e)]"
    using apply_entry_eq [OF assms(1)] assms(1) by (auto simp: entry_fits_def split: write_op.splits)
  let ?c = "cs ! we_row_idx e"
  have c: "?c \<noteq> []" "chain_ok ?c" "rv_txid_min (last ?c) \<le> txid"
    using assms(2,3) i by (auto simp: writable_at_def)
  have "chain_ok (push_version txid (version_of t txid e) ?c)"
    by (rule chain_ok_push) (use c assms(4) in auto)
  then have "\<forall>c \<in> set (apply_entry t txid cs e). c \<noteq> [] \<and> chain_ok c"
    using assms(2) by (auto simp: eq dest!: set_update_subset_insert [THEN subsetD])
  moreover have old: "map_option rv_row (latest_visible (push_version txid (version_of t txid e) ?c) s A) =
      map_option rv_row (latest_visible ?c s A)" if "s < txid" for s A
    by (rule latest_visible_push_later) (use that last_max [OF c(2,1)] in auto)
  moreover have "map_option rv_row (latest_visible (apply_entry t txid cs e ! i) s A) =
      map_option rv_row (latest_visible (cs ! i) s A)" if "s < txid" "i < length cs" for s A i
    using that i old by (cases "i = we_row_idx e") (simp_all add: eq)
  ultimately show ?thesis by (simp add: eq)
qed

lemma entries_ok_range:
  "entries_ok t n seen es \<Longrightarrow> e \<in> set es \<Longrightarrow>
     n \<le> we_row_idx e \<or> (we_row_idx e < length (tb_version_chains t) \<and> we_row_idx e \<notin> seen)"
proof (induction es arbitrary: n seen)
  case (Cons x xs)
  show ?case
  proof (cases "e = x")
    case False
    have "\<exists>n' seen'. n \<le> n' \<and> seen \<subseteq> seen' \<and> entries_ok t n' seen' xs"
      using Cons.prems(1) by (cases "we_operation x") (auto 4 4 intro: le_SucI)
    then obtain n' seen' where ok: "n \<le> n'" "seen \<subseteq> seen'" "entries_ok t n' seen' xs" by blast
    show ?thesis using Cons.IH [OF ok(3)] ok(1,2) Cons.prems(2) False by auto
  qed (use Cons.prems(1) in \<open>auto split: write_op.splits\<close>)
qed simp

text \<open>The position of an entry is not used again.\<close>

lemma entries_ok_fresh:
  assumes "entries_ok t n seen (e # es)" "length (tb_version_chains t) \<le> n" "e' \<in> set es"
  shows "we_row_idx e' \<noteq> we_row_idx e"
  using assms entries_ok_range [of t "Suc n" seen es e'] entries_ok_range [of t n "insert (we_row_idx e) seen" es e']
  by (cases "we_operation e") auto

definition is_insert :: "write_entry \<Rightarrow> bool" where
  "is_insert e = (case we_operation e of Insert r \<Rightarrow> True | _ \<Rightarrow> False)"

definition entry_at :: "write_entry list \<Rightarrow> nat \<Rightarrow> write_entry option" where
  "entry_at es i = find (\<lambda>e. we_row_idx e = i) es"

lemma entry_at_new:
  "entries_ok t n seen es \<Longrightarrow> n \<le> i \<Longrightarrow> i < n + length (filter is_insert es) \<Longrightarrow> entry_at es i \<noteq> None"
proof (induction es arbitrary: n seen)
  case (Cons e es)
  show ?case
  proof (cases "we_operation e")
    case (Insert r)
    then show ?thesis using Cons by (cases "i = n") (auto simp: entry_at_def is_insert_def)
  qed (use Cons in \<open>auto simp: entry_at_def is_insert_def\<close>)
qed simp

lemma entry_at_own:
  "entries_ok t n seen es \<Longrightarrow> length (tb_version_chains t) \<le> n \<Longrightarrow> e \<in> set es \<Longrightarrow> entry_at es (we_row_idx e) = Some e"
proof (induction es arbitrary: n seen)
  case (Cons x xs)
  show ?case
  proof (cases "e = x")
    case False
    then have mem: "e \<in> set xs" using Cons.prems(3) by simp
    have "\<exists>n' seen'. n \<le> n' \<and> entries_ok t n' seen' xs"
      using Cons.prems(1) by (cases "we_operation x") (auto 4 4 intro: le_SucI)
    then have "entry_at xs (we_row_idx e) = Some e"
      using Cons.IH [OF _ _ mem] Cons.prems(2) by (meson le_trans)
    then show ?thesis using entries_ok_fresh [OF Cons.prems(1,2) mem] by (simp add: entry_at_def)
  qed (simp add: entry_at_def)
qed simp

lemma entry_in_range:
  "entries_ok t n seen es \<Longrightarrow> length (tb_version_chains t) \<le> n \<Longrightarrow> e \<in> set es \<Longrightarrow>
     we_row_idx e < n + length (filter is_insert es)"
proof (induction es arbitrary: n seen)
  case (Cons x xs)
  show ?case
  proof (cases "we_operation x")
    case (Insert r)
    then show ?thesis
      using Cons.IH [of "Suc n" seen] Cons.prems by (auto simp: is_insert_def)
  qed (use Cons.IH [of n "insert (we_row_idx x) seen"] Cons.prems in \<open>auto simp: is_insert_def\<close>)
qed simp

lemma fold_entries:
  assumes "entries_ok t n seen es" "length cs = n" "length (tb_version_chains t) \<le> n"
    and "\<forall>i < length (tb_version_chains t). i \<notin> seen \<longrightarrow> cs ! i = tb_version_chains t ! i"
    and "\<forall>c \<in> set cs. c \<noteq> [] \<and> chain_ok c" "txid \<noteq> u64_MAX"
    and "\<forall>e \<in> set es. writable_at txid (tb_version_chains t) e"
  shows "(\<forall>c \<in> set (foldl (apply_entry t txid) cs es). c \<noteq> [] \<and> chain_ok c) \<and>
    length (foldl (apply_entry t txid) cs es) = length cs + length (filter is_insert es) \<and>
    (\<forall>i < length (foldl (apply_entry t txid) cs es). head_row (foldl (apply_entry t txid) cs es ! i) =
       (case entry_at es i of Some e \<Rightarrow> op_row (we_operation e) | None \<Rightarrow> head_row (cs ! i))) \<and>
    (\<forall>s A i. s < txid \<longrightarrow> i < length (foldl (apply_entry t txid) cs es) \<longrightarrow>
       map_option rv_row (latest_visible (foldl (apply_entry t txid) cs es ! i) s A) =
       (if i < length cs then map_option rv_row (latest_visible (cs ! i) s A) else None))"
  using assms
proof (induction es arbitrary: n seen cs)
  case (Cons e es)
  note step = entries_fit_step [OF Cons.prems(1-4)]
  let ?cs1 = "apply_entry t txid cs e" and ?cs = "foldl (apply_entry t txid) (apply_entry t txid cs e) es"
  have w: "writable_at txid cs e"
  proof (cases "\<exists>r. we_operation e = Insert r")
    case True
    then show ?thesis using step(1) by (auto simp: entry_fits_def writable_at_def)
  next
    case False
    then have "we_operation e = Delete \<or> (\<exists>r. we_operation e = Update r)" by (cases "we_operation e") auto
    then show ?thesis using step(2) Cons.prems(7) by (simp add: writable_at_def)
  qed
  have ch: "\<forall>c \<in> set ?cs1. c \<noteq> [] \<and> chain_ok c"
    and old: "\<And>s A i. s < txid \<Longrightarrow> i < length ?cs1 \<Longrightarrow>
       map_option rv_row (latest_visible (?cs1 ! i) s A) =
       (if i < length cs then map_option rv_row (latest_visible (cs ! i) s A) else None)"
    using apply_entry_chain [OF step(1) Cons.prems(5) w Cons.prems(6), of t] by blast+
  obtain n' seen' where nxt: "entries_ok t n' seen' es" "length ?cs1 = n'" "length (tb_version_chains t) \<le> n'"
    "\<forall>i < length (tb_version_chains t). i \<notin> seen' \<longrightarrow> ?cs1 ! i = tb_version_chains t ! i"
    using step(3) [of txid] by blast
  have IH: "(\<forall>c \<in> set ?cs. c \<noteq> [] \<and> chain_ok c) \<and>
    length ?cs = length ?cs1 + length (filter is_insert es) \<and>
    (\<forall>i < length ?cs. head_row (?cs ! i) =
       (case entry_at es i of Some e \<Rightarrow> op_row (we_operation e) | None \<Rightarrow> head_row (?cs1 ! i))) \<and>
    (\<forall>s A i. s < txid \<longrightarrow> i < length ?cs \<longrightarrow>
       map_option rv_row (latest_visible (?cs ! i) s A) =
       (if i < length ?cs1 then map_option rv_row (latest_visible (?cs1 ! i) s A) else None))"
    by (rule Cons.IH [OF nxt ch Cons.prems(6)]) (use Cons.prems(7) in simp)
  have len: "length ?cs1 = (if is_insert e then Suc (length cs) else length cs)"
    using apply_entry_heads(1) [OF step(1), of t txid] by (simp add: is_insert_def split: write_op.splits)
  have fresh: "entry_at es (we_row_idx e) = None"
    using entries_ok_fresh [OF Cons.prems(1,3)] by (auto simp: entry_at_def find_None_iff)
  have head: "head_row (?cs ! i) =
      (case entry_at (e # es) i of Some e \<Rightarrow> op_row (we_operation e) | None \<Rightarrow> head_row (cs ! i))"
    if i: "i < length ?cs" for i
  proof (cases "i < length ?cs1")
    case True
    then have "head_row (?cs1 ! i) = (if i = we_row_idx e then op_row (we_operation e) else head_row (cs ! i))"
      using apply_entry_heads(2) [OF step(1), of i t txid] by simp
    then show ?thesis using IH i fresh by (auto simp: entry_at_def split: option.splits)
  next
    case False
    then have "we_row_idx e \<noteq> i"
      using step(1) len by (auto simp: entry_fits_def is_insert_def split: write_op.splits if_splits)
    moreover have "entry_at es i \<noteq> None"
      using entry_at_new [OF nxt(1), of i] nxt(2) IH i False by simp
    ultimately show ?thesis using IH i by (auto simp: entry_at_def)
  qed
  have "map_option rv_row (latest_visible (?cs ! i) s A) =
       (if i < length cs then map_option rv_row (latest_visible (cs ! i) s A) else None)"
    if "s < txid" "i < length ?cs" for s A i
    using IH old that len by auto
  then show ?case using IH head len by auto
qed (simp add: entry_at_def)

subsection \<open>The commit of a database\<close>

text \<open>A table in order: well-formed chains, indexes that agree with the rows, unique ones without duplicates.\<close>

definition table_ok :: "table \<Rightarrow> bool" where
  "table_ok t \<longleftrightarrow> chains_ok t \<and> table_synced t \<and>
     (\<forall>ix \<in> set (tb_indexes t). im_is_unique (ix_meta ix) \<longrightarrow> index_single ix)"

lemma table_ok_rows_synced:
  "chains_ok t \<Longrightarrow> table_ok t \<longleftrightarrow>
     (\<forall>ix \<in> set (tb_indexes t). rows_synced (tb_version_chains t) ix \<and> (im_is_unique (ix_meta ix) \<longrightarrow> index_single ix))"
  by (auto simp: table_ok_def rows_synced_iff table_synced_def indexes_ok_def)

lemma unique_rows:
  assumes "table_ok t" "ix \<in> set (tb_indexes t)" "im_is_unique (ix_meta ix)"
    and "(i, r) \<in> set (current_rows t)" "(j, s) \<in> set (current_rows t)" "extract_key ix r = extract_key ix s"
  shows "i = j"
proof -
  have ok: "index_ok ix" "index_synced t ix" "index_single ix"
    using assms(1-3) by (auto simp: table_ok_def table_synced_def indexes_ok_def)
  then have "i \<in> index_rows ix (extract_key ix r)" "j \<in> index_rows ix (extract_key ix r)"
    using assms(4-6) unfolding index_synced_def by auto
  then show ?thesis using ok index_single_iff by metis
qed

text \<open>What the write set of a statement, executed as a transaction, makes of a table.\<close>

definition table_after :: "u64 \<Rightarrow> write_entry list \<Rightarrow> table \<Rightarrow> table \<Rightarrow> bool" where
  "table_after txid es t t' \<longleftrightarrow>
     tb_name t' = tb_name t \<and> tb_columns t' = tb_columns t \<and>
     row_count t' = row_count t + length (filter is_insert es) \<and>
     (\<forall>i < row_count t'. head_row (tb_version_chains t' ! i) =
        (case entry_at es i of Some e \<Rightarrow> op_row (we_operation e) | None \<Rightarrow> head_row (tb_version_chains t ! i))) \<and>
     (\<forall>s A i. s < txid \<longrightarrow> map_option rv_row (get_visible_version t' i s A) = map_option rv_row (get_visible_version t i s A))"

definition plan_covers :: "commit_plan \<Rightarrow> write_entry list \<Rightarrow> bool" where
  "plan_covers plan ws \<longleftrightarrow> distinct (cp_table_order plan) \<and> we_table_name ` set ws \<subseteq> set (cp_table_order plan)"

definition commit_ready :: "transaction \<Rightarrow> table list \<Rightarrow> bool" where
  "commit_ready tx tables \<longleftrightarrow> distinct (map tb_name tables) \<and> (\<forall>t \<in> set tables. table_ok t) \<and>
     statement_ok tables (tx_write_set tx) \<and> tx_id tx \<noteq> u64_MAX \<and>
     (\<forall>t \<in> set tables. \<forall>e \<in> set (entries_of (tb_name t) (tx_write_set tx)).
        writable_at (tx_id tx) (tb_version_chains t) e)"

lemma commit_Inr:
  assumes "commit X C plan tx db = (tx', db', Inr u)"
  obtains db1 cat where "tx_status tx = InProgress" "tx' = tx\<lparr>tx_status := Committed\<rparr>"
    "check_conflicts tx (tables_snapshot (db_tables db)) = Inr ()"
    "\<forall>e \<in> set (tx_write_set tx). check_entry_unique X (tables_snapshot (db_tables db)) e = Inr ()"
    "log_append_all C (cp_wal plan) 0 (map (wal_record_of (tx_id tx)) (tx_write_set tx) @ [WCommit (tx_id tx)]) db = (db1, Inr ())"
    "engine_writes (cp_engine plan) (collect_changes (tx_write_set tx) (tables_snapshot (db_tables db)) (tx_id tx))
       (cp_engine_order plan) (db_catalog db) = (cat, Inr ())"
    "install_tables X (tables_snapshot (db_tables db)) (tx_write_set tx)
       (apply_write_set (tx_write_set tx) (tables_snapshot (db_tables db)) (tx_id tx)) (cp_table_order plan)
       (db_tables db) = (db_tables db', Inr ())"
    "db' = db\<lparr>db_wal := db_wal db1, db_catalog := cat, db_tables := db_tables db',
       db_mvcc := commit_transaction tx (db_mvcc db)\<rparr>"
proof -
  let ?snap = "tables_snapshot (db_tables db)"
  have st: "tx_status tx = InProgress" using assms by (auto simp: commit_def split: if_splits)
  have cc: "check_conflicts tx ?snap = Inr ()"
    using assms st by (cases "check_conflicts tx ?snap") (auto simp: commit_def Let_def)
  have un: "try_fold (\<lambda>_ entry. check_entry_unique X ?snap entry) () (tx_write_set tx) = Inr ()"
    using assms st cc
    by (cases "try_fold (\<lambda>_ entry. check_entry_unique X ?snap entry) () (tx_write_set tx)") (auto simp: commit_def Let_def)
  let ?recs = "map (wal_record_of (tx_id tx)) (tx_write_set tx) @ [WCommit (tx_id tx)]"
  obtain db1 r1 where l: "log_append_all C (cp_wal plan) 0 ?recs db = (db1, r1)" by fastforce
  have r1: "r1 = Inr ()" using assms st cc un l by (cases r1) (auto simp: commit_def Let_def)
  have fr: "db1 = db\<lparr>db_wal := db_wal db1\<rparr>" by (rule log_append_all_frame [OF l])
  have cat1: "db_catalog db1 = db_catalog db" by (subst fr) simp
  let ?chs = "collect_changes (tx_write_set tx) ?snap (tx_id tx)"
  obtain cat r2 where e: "engine_writes (cp_engine plan) ?chs (cp_engine_order plan) (db_catalog db1) = (cat, r2)" by fastforce
  have r2: "r2 = Inr ()" using assms st cc un l r1 e by (cases r2) (auto simp: commit_def Let_def)
  have tab1: "db_tables db1 = db_tables db" "db_mvcc db1 = db_mvcc db" by (subst fr, simp)+
  obtain tabs r3 where i: "install_tables X ?snap (tx_write_set tx) (apply_write_set (tx_write_set tx) ?snap (tx_id tx))
      (cp_table_order plan) (db_tables db) = (tabs, r3)" by fastforce
  have r3: "r3 = Inr ()" using assms st cc un l r1 e r2 i tab1 by (cases r3) (auto simp: commit_def Let_def)
  have fin: "tx' = tx\<lparr>tx_status := Committed\<rparr>"
    "db' = (db1\<lparr>db_catalog := cat\<rparr>)\<lparr>db_tables := tabs, db_mvcc := commit_transaction tx (db_mvcc db)\<rparr>"
    using assms st cc un l r1 e r2 i r3 tab1 by (auto simp: commit_def Let_def)
  show ?thesis
  proof (rule that [of db1 cat])
    show "db' = db\<lparr>db_wal := db_wal db1, db_catalog := cat, db_tables := db_tables db',
       db_mvcc := commit_transaction tx (db_mvcc db)\<rparr>"
      unfolding fin(2) by (subst fr) simp
  qed (use st cc un l r1 e r2 i r3 fin cat1 in \<open>auto simp: try_fold_unit\<close>)
qed

text \<open>One table of a successful commit.\<close>

lemma installed_table:
  assumes "commit_ready tx tables" "t \<in> set tables" "es = entries_of (tb_name t) (tx_write_set tx)"
    and "chs = apply_write_set (tx_write_set tx) (tables_snapshot tables) (tx_id tx)"
    and "snd (installed X (tables_snapshot tables) (tx_write_set tx) chs t) = Inr ()"
    and "t' = fst (installed X (tables_snapshot tables) (tx_write_set tx) chs t)"
  shows "tb_version_chains t' = foldl (apply_entry t (tx_id tx)) (tb_version_chains t) es \<and>
    table_ok t' \<and> table_after (tx_id tx) es t t'"
proof -
  have snap: "tables_snapshot tables (tb_name t) = Some t"
    using assms(1,2) by (simp add: commit_ready_def tables_snapshot_Some)
  have ok: "table_ok t" "chains_ok t" and e0: "entries_ok t (length (tb_version_chains t)) {} es"
    and txid: "tx_id tx \<noteq> u64_MAX" and wr: "\<forall>e \<in> set es. writable_at (tx_id tx) (tb_version_chains t) e"
    using assms(1-3) by (auto simp: commit_ready_def statement_ok_def table_ok_def)
  have ne: "\<forall>c \<in> set (tb_version_chains t). c \<noteq> []" "\<forall>c \<in> set (tb_version_chains t). c \<noteq> [] \<and> chain_ok c"
    using ok(2) by (auto simp: chains_ok_def)
  let ?cs = "foldl (apply_entry t (tx_id tx)) (tb_version_chains t) es"
  have chs: "chs (tb_name t) = (if es = [] then None else Some ?cs)"
    using apply_write_set_entries [of "tables_snapshot tables" "tb_name t", OF snap ne(1), of _ _ "tx_write_set tx" "tx_id tx"] e0
    by (simp add: assms(3,4))
  have t': "t' = (if es = [] then t else fst (index_entries X (Some t) es (t\<lparr>tb_version_chains := ?cs\<rparr>)))"
    and r: "es \<noteq> [] \<Longrightarrow> snd (index_entries X (Some t) es (t\<lparr>tb_version_chains := ?cs\<rparr>)) = Inr ()"
    using assms(5,6) index_entries_own [of X "Some t" "tx_write_set tx" "t\<lparr>tb_version_chains := ?cs\<rparr>"]
    by (auto simp: installed_def chs snap assms(3))
  have frame: "tb_name t' = tb_name t" "tb_columns t' = tb_columns t" "tb_version_chains t' = ?cs"
    by (auto simp: t')
  note fold = fold_entries [OF e0 refl le_refl _ ne(2) txid wr]
  have ok': "chains_ok t'" using fold by (simp add: chains_ok_def frame)
  have "\<forall>ix \<in> set (tb_indexes t'). rows_synced ?cs ix \<and> (im_is_unique (ix_meta ix) \<longrightarrow> index_single ix)"
  proof (cases "es = []")
    case True
    then show ?thesis using ok table_ok_rows_synced t' by simp
  next
    case False
    obtain t2 where t2: "index_entries X (Some t) es (t\<lparr>tb_version_chains := ?cs\<rparr>) = (t2, Inr ())"
      using r [OF False] by (metis prod.collapse)
    have "\<forall>ix \<in> set (tb_indexes t2). rows_synced ?cs ix \<and> (im_is_unique (ix_meta ix) \<longrightarrow> index_single ix)"
      by (rule index_entries_synced [OF e0 refl le_refl _ _ ok(2) _ t2])
        (use ok table_ok_rows_synced assms(3) in auto)
    then show ?thesis using t' False t2 by simp
  qed
  then have tok: "table_ok t'" using table_ok_rows_synced [OF ok'] frame(3) by simp
  have "map_option rv_row (get_visible_version t' i s A) = map_option rv_row (get_visible_version t i s A)"
    if "s < tx_id tx" for s A i
  proof -
    have "i < length ?cs \<Longrightarrow> map_option rv_row (latest_visible (?cs ! i) s A) =
       (if i < length (tb_version_chains t) then map_option rv_row (latest_visible (tb_version_chains t ! i) s A) else None)"
      using fold that by blast
    moreover have "length (tb_version_chains t) \<le> length ?cs" using fold by simp
    ultimately show ?thesis
      by (cases "i < length ?cs"; cases "i < length (tb_version_chains t)")
        (simp_all add: get_visible_version_def frame nth_opt_def)
  qed
  then have "table_after (tx_id tx) es t t'"
    using fold by (simp add: table_after_def frame row_count_def)
  then show ?thesis using frame tok by blast
qed

lemma commit_tables:
  assumes "commit X C plan tx db = (tx', db', Inr u)" "commit_ready tx (db_tables db)" "plan_covers plan (tx_write_set tx)"
  shows "list_all2 (\<lambda>t t'. tb_version_chains t' =
        foldl (apply_entry t (tx_id tx)) (tb_version_chains t) (entries_of (tb_name t) (tx_write_set tx)) \<and>
      table_ok t' \<and> table_after (tx_id tx) (entries_of (tb_name t) (tx_write_set tx)) t t')
    (db_tables db) (db_tables db')"
proof -
  let ?snap = "tables_snapshot (db_tables db)"
  let ?chs = "apply_write_set (tx_write_set tx) ?snap (tx_id tx)"
  have inst: "install_tables X ?snap (tx_write_set tx) ?chs (cp_table_order plan) (db_tables db) = (db_tables db', Inr ())"
    by (rule commit_Inr [OF assms(1)])
  have dist: "distinct (map tb_name (db_tables db))" "distinct (cp_table_order plan)"
    using assms(2,3) by (auto simp: commit_ready_def plan_covers_def)
  note all = install_tables_Inr [OF inst dist]
  have none: "installed X ?snap (tx_write_set tx) ?chs t = (t, Inr ())"
    if "tb_name t \<notin> set (cp_table_order plan)" for t
  proof -
    have "\<not> (\<exists>e \<in> set (tx_write_set tx). we_table_name e = tb_name t)"
      using that assms(3) by (auto simp: plan_covers_def)
    then have "?chs (tb_name t) = None" by (simp add: apply_write_set_def collect_changes_conv)
    then show ?thesis by (simp add: installed_def)
  qed
  have "db_tables db' = map (\<lambda>t. fst (installed X ?snap (tx_write_set tx) ?chs t)) (db_tables db)"
    using all none by (auto intro!: map_cong)
  moreover have "snd (installed X ?snap (tx_write_set tx) ?chs t) = Inr ()" if "t \<in> set (db_tables db)" for t
    using all none that by (cases "tb_name t \<in> set (cp_table_order plan)") auto
  ultimately show ?thesis
    using installed_table [OF assms(2) _ refl refl _ refl] by (simp only: list_all2_map2 list_all2_same) blast
qed

subsection \<open>A small database\<close>

definition sample_catalog :: catalog where
  "sample_catalog =
     fst (catalog_restore_table None sample_table
       (fst (catalog_create_table None None 0 ''t'' sample_columns None (catalog_open disk_empty None ''memory''))))"

definition sample_database :: database where
  "sample_database =
     \<lparr>db_tables = [sample_table], db_catalog = sample_catalog,
      db_mvcc = \<lparr>mv_next_txid = 6, mv_active_txns = {0, 5}\<rparr>, db_wal = wal_open ''async'' [], db_old_wal = None,
      db_users = [], db_permissions = permission_store_new\<rparr>"

definition sample_plan :: commit_plan where
  "sample_plan = \<lparr>cp_wal = (\<lambda>_. None), cp_engine = (\<lambda>_. None), cp_engine_order = [''t''], cp_table_order = [''t'']\<rparr>"

definition sample_writer :: transaction where
  "sample_writer = sample_tx 5 {0} [insert_entry_at 1 sample_row]"

lemma sample_table_ok: "table_ok sample_table"
proof -
  have "list_all (\<lambda>c. c \<noteq> [] \<and> chain_ok c) (tb_version_chains sample_table)"
    "list_all (\<lambda>ix. im_is_unique (ix_meta ix) \<longrightarrow> index_single ix) (tb_indexes sample_table)"
    by code_simp+
  moreover have "table_synced sample_table"
    unfolding sample_table_def by (rule rebuild_indexes_synced)
  ultimately show ?thesis by (simp add: table_ok_def chains_ok_def list_all_iff)
qed

lemma sample_database_simps [simp]:
  "db_tables sample_database = [sample_table]" "db_catalog sample_database = sample_catalog"
  "db_wal sample_database = wal_open ''async'' []" "db_mvcc sample_database = \<lparr>mv_next_txid = 6, mv_active_txns = {0, 5}\<rparr>"
  "tx_id sample_writer = 5" "tx_status sample_writer = InProgress" "tx_write_set sample_writer = [insert_entry_at 1 sample_row]"
  "cp_wal sample_plan = (\<lambda>_. None)" "cp_engine sample_plan = (\<lambda>_. None)"
  "cp_engine_order sample_plan = [''t'']" "cp_table_order sample_plan = [''t'']"
  by (simp_all add: sample_database_def sample_writer_def sample_plan_def sample_tx_def)

lemma sample_records [simp]: "map (wal_record_of 5) [insert_entry_at 1 sample_row] @ [WCommit 5] = [sample_insert, WCommit 5]"
  by (simp add: wal_record_of_def insert_entry_at_def)

lemma sample_ready: "commit_ready sample_writer (db_tables sample_database)"
proof -
  have "statement_ok [sample_table] (tx_write_set sample_writer)"
    "list_all (\<lambda>e. writable_at 5 (tb_version_chains sample_table) e) (tx_write_set sample_writer)"
    by code_simp+
  then show ?thesis using sample_table_ok by (auto simp: commit_ready_def)
qed

lemma sample_covers: "plan_covers sample_plan (tx_write_set sample_writer)"
  by (simp add: plan_covers_def insert_entry_at_def)

lemma sample_writer_log: "writer_log sample_codec [] (db_wal sample_database)"
  by (simp add: writer_log_def writer_ok_def wal_open_def)

lemma commit_succeeds:
  assumes "tx_status tx = InProgress" "check_conflicts tx (tables_snapshot (db_tables db)) = Inr ()"
    and "\<forall>e \<in> set (tx_write_set tx). check_entry_unique X (tables_snapshot (db_tables db)) e = Inr ()"
    and "snd (log_append_all C (cp_wal plan) 0 (map (wal_record_of (tx_id tx)) (tx_write_set tx) @ [WCommit (tx_id tx)]) db) = Inr ()"
    and "snd (engine_writes (cp_engine plan) (collect_changes (tx_write_set tx) (tables_snapshot (db_tables db)) (tx_id tx))
       (cp_engine_order plan) (db_catalog db)) = Inr ()"
    and "snd (install_tables X (tables_snapshot (db_tables db)) (tx_write_set tx)
       (apply_write_set (tx_write_set tx) (tables_snapshot (db_tables db)) (tx_id tx)) (cp_table_order plan)
       (db_tables db)) = Inr ()"
  shows "\<exists>tx' db'. commit X C plan tx db = (tx', db', Inr ())"
proof -
  obtain db1 where l: "log_append_all C (cp_wal plan) 0 (map (wal_record_of (tx_id tx)) (tx_write_set tx) @ [WCommit (tx_id tx)]) db = (db1, Inr ())"
    using assms(4) by (metis prod.collapse)
  have fr: "db1 = db\<lparr>db_wal := db_wal db1\<rparr>" by (rule log_append_all_frame [OF l])
  have "db_catalog db1 = db_catalog db" "db_tables db1 = db_tables db" by (subst fr, simp)+
  moreover have "try_fold (\<lambda>_ entry. check_entry_unique X (tables_snapshot (db_tables db)) entry) () (tx_write_set tx) = Inr ()"
    using assms(3) by (simp add: try_fold_unit)
  ultimately show ?thesis
    using assms l by (auto simp: commit_def Let_def split: prod.splits)
qed

lemma log_append_all_ok:
  assumes "\<forall>i. faults i = None" "\<forall>r \<in> set rs. \<exists>b. cd_serialize C r = Inr b"
  shows "snd (log_append_all C faults i rs db) = Inr ()"
  using assms(2)
proof (induction rs arbitrary: i db)
  case (Cons r rs)
  then obtain b where "cd_serialize C r = Inr b" by auto
  then have "snd (wal_append C (faults i) r (db_wal db)) = Inr ()"
    using assms(1) by (simp add: wal_append_def Let_def)
  then obtain w where "wal_append C (faults i) r (db_wal db) = (w, Inr ())" by (metis prod.collapse)
  then show ?case using Cons by (simp add: log_append_def)
qed simp

lemma sample_commit:
  assumes "\<exists>b. cd_serialize C sample_insert = Inr b" "\<exists>b. cd_serialize C (WCommit 5) = Inr b"
    and "db_tables db = [sample_table]" "db_catalog db = sample_catalog"
  shows "\<exists>tx' db'. commit X C sample_plan sample_writer db = (tx', db', Inr ())"
proof (rule commit_succeeds)
  show "check_conflicts sample_writer (tables_snapshot (db_tables db)) = Inr ()"
    unfolding assms by code_simp
  show "\<forall>e \<in> set (tx_write_set sample_writer). check_entry_unique X (tables_snapshot (db_tables db)) e = Inr ()"
    unfolding assms sample_database_simps by code_simp
  show "snd (engine_writes (cp_engine sample_plan)
      (collect_changes (tx_write_set sample_writer) (tables_snapshot (db_tables db)) (tx_id sample_writer))
      (cp_engine_order sample_plan) (db_catalog db)) = Inr ()"
    unfolding assms sample_database_simps by code_simp
  show "snd (install_tables X (tables_snapshot (db_tables db)) (tx_write_set sample_writer)
       (apply_write_set (tx_write_set sample_writer) (tables_snapshot (db_tables db)) (tx_id sample_writer))
       (cp_table_order sample_plan) (db_tables db)) = Inr ()"
    unfolding assms sample_database_simps by code_simp
  show "snd (log_append_all C (cp_wal sample_plan) 0
      (map (wal_record_of (tx_id sample_writer)) (tx_write_set sample_writer) @ [WCommit (tx_id sample_writer)]) db) = Inr ()"
    unfolding sample_database_simps sample_records using assms(1,2) by (intro log_append_all_ok) auto
qed simp

lemma sample_database_commit: "\<exists>tx' db'. commit X sample_codec sample_plan sample_writer sample_database = (tx', db', Inr ())"
  by (rule sample_commit) simp_all

subsection \<open>Properties\<close>

text \<open>C3: a successful commit does to every table what the statement's entries say: the table gains one row per
  insertion, the current row at each position is the one its entry wrote (none after a deletion) or
  the old one, and readers with an older snapshot see every row as before. The log holds the
  transaction's records, its commit record last; the transaction has left the active set.\<close>
theorem commit_success:
  assumes "commit_ready tx (db_tables db)" "plan_covers plan (tx_write_set tx)" "writer_log C rs (db_wal db)"
    and "commit X C plan tx db = (tx', db', Inr u)"
  shows "list_all2 (\<lambda>t t'. table_after (tx_id tx) (entries_of (tb_name t) (tx_write_set tx)) t t')
      (db_tables db) (db_tables db') \<and>
    writer_log C (rs @ map (wal_record_of (tx_id tx)) (tx_write_set tx) @ [WCommit (tx_id tx)]) (db_wal db') \<and>
    tx_status tx = InProgress \<and> tx_status tx' = Committed \<and>
    mv_active_txns (db_mvcc db') = mv_active_txns (db_mvcc db) - {tx_id tx} \<and>
    db_users db' = db_users db \<and> db_permissions db' = db_permissions db"
proof -
  obtain db1 cat where st: "tx_status tx = InProgress" "tx' = tx\<lparr>tx_status := Committed\<rparr>"
    and l: "log_append_all C (cp_wal plan) 0 (map (wal_record_of (tx_id tx)) (tx_write_set tx) @ [WCommit (tx_id tx)]) db = (db1, Inr ())"
    and db': "db' = db\<lparr>db_wal := db_wal db1, db_catalog := cat, db_tables := db_tables db',
       db_mvcc := commit_transaction tx (db_mvcc db)\<rparr>"
    by (rule commit_Inr [OF assms(4)])
  have fields: "db_wal db' = db_wal db1" "db_mvcc db' = commit_transaction tx (db_mvcc db)"
    "db_users db' = db_users db" "db_permissions db' = db_permissions db"
    by (subst db', simp)+
  have "list_all2 (\<lambda>t t'. table_after (tx_id tx) (entries_of (tb_name t) (tx_write_set tx)) t t')
      (db_tables db) (db_tables db')"
    using commit_tables [OF assms(4,1,2)] by (rule list_all2_mono) blast
  then show ?thesis using log_append_all_log [OF l assms(3)] st fields by simp
qed

theorem commit_success_witness:
  "\<exists>tx' db'. commit sample_ext sample_codec sample_plan sample_writer sample_database = (tx', db', Inr ()) \<and>
     writer_log sample_codec [sample_insert, WCommit 5] (db_wal db')"
proof -
  obtain tx' db' where c: "commit sample_ext sample_codec sample_plan sample_writer sample_database = (tx', db', Inr ())"
    using sample_database_commit by blast
  show ?thesis
    using commit_success [OF sample_ready sample_covers sample_writer_log c] c by (simp add: insert_entry_at_def wal_record_of_def)
qed

text \<open>C4: a successful commit keeps every table in order: chains well formed, every index leading from a key to
  exactly the current rows that carry it, and in a unique index no two current rows with one key.\<close>
theorem commit_keeps_tables_ok:
  assumes "commit_ready tx (db_tables db)" "plan_covers plan (tx_write_set tx)"
    and "commit X C plan tx db = (tx', db', Inr u)"
  shows "map tb_name (db_tables db') = map tb_name (db_tables db) \<and>
    (\<forall>t \<in> set (db_tables db'). table_ok t \<and>
      (\<forall>ix \<in> set (tb_indexes t). im_is_unique (ix_meta ix) \<longrightarrow>
        (\<forall>i j r s. (i, r) \<in> set (current_rows t) \<longrightarrow> (j, s) \<in> set (current_rows t) \<longrightarrow>
           extract_key ix r = extract_key ix s \<longrightarrow> i = j)))"
proof -
  have all: "list_all2 (\<lambda>t t'. tb_name t' = tb_name t \<and> table_ok t') (db_tables db) (db_tables db')"
    using commit_tables [OF assms(3,1,2)] by (rule list_all2_mono) (simp add: table_after_def)
  then have "map tb_name (db_tables db') = map tb_name (db_tables db)"
    by (simp add: list_all2_conv_all_nth list_eq_iff_nth_eq)
  moreover have ok: "\<forall>t \<in> set (db_tables db'). table_ok t"
    using all by (metis (no_types, lifting) in_set_conv_nth list_all2_conv_all_nth)
  ultimately show ?thesis using unique_rows by blast
qed

theorem commit_keeps_tables_ok_witness:
  "\<exists>tx' db'. commit sample_ext sample_codec sample_plan sample_writer sample_database = (tx', db', Inr ()) \<and>
     (\<forall>t \<in> set (db_tables db'). table_ok t)"
proof -
  obtain tx' db' where c: "commit sample_ext sample_codec sample_plan sample_writer sample_database = (tx', db', Inr ())"
    using sample_database_commit by blast
  show ?thesis using commit_keeps_tables_ok [OF sample_ready sample_covers c] c by blast
qed

text \<open>C11: write-ahead. Whatever the outcome of a commit, when the tables in memory differ from before, the
  log already holds all records of the transaction, its commit record included.\<close>
theorem write_ahead:
  assumes "commit X C plan tx db = (tx', db', r)" "writer_log C rs (db_wal db)" "db_tables db' \<noteq> db_tables db"
  shows "writer_log C (rs @ map (wal_record_of (tx_id tx)) (tx_write_set tx) @ [WCommit (tx_id tx)]) (db_wal db')"
proof -
  let ?recs = "map (wal_record_of (tx_id tx)) (tx_write_set tx) @ [WCommit (tx_id tx)]"
  obtain db1 r1 where l: "log_append_all C (cp_wal plan) 0 ?recs db = (db1, r1)" by fastforce
  have fr: "db1 = db\<lparr>db_wal := db_wal db1\<rparr>" by (rule log_append_all_frame [OF l])
  have same: "db_tables db1 = db_tables db" by (subst fr) simp
  have "db_wal db' = db_wal db1 \<and> (\<exists>u. r1 = Inr u)"
    using assms(1,3) l same by (auto simp: commit_def Let_def split: if_splits sum.splits prod.splits)
  then show ?thesis using log_append_all_log [of C "cp_wal plan" 0 ?recs db db1 "()" rs] l assms(2) by auto
qed

theorem write_ahead_witness:
  "\<exists>tx' db' r. commit sample_ext sample_codec sample_plan sample_writer sample_database = (tx', db', r) \<and>
     writer_log sample_codec [sample_insert, WCommit 5] (db_wal db')"
proof -
  obtain tx' db' where c: "commit sample_ext sample_codec sample_plan sample_writer sample_database = (tx', db', Inr ())"
    using sample_database_commit by blast
  have "list_all2 (\<lambda>t t'. table_after 5 [insert_entry_at 1 sample_row] t t') [sample_table] (db_tables db')"
    using commit_tables [OF c sample_ready sample_covers]
    by (auto simp: list_all2_Cons1 insert_entry_at_def sample_table_def table_new_indexes)
  then have "db_tables db' \<noteq> db_tables sample_database"
    by (auto simp: table_after_def is_insert_def insert_entry_at_def list_all2_Cons1)
  then show ?thesis
    using write_ahead [OF c sample_writer_log] c by (auto simp: insert_entry_at_def wal_record_of_def)
qed

end
