(* ===== verification/Recovery.thy ===== *)
theory Recovery
  imports Commit
begin

text \<open>
  What the log is worth: replaying it rebuilds the tables the engine held, up to their indexes,
  which opening rebuilds from the rows; what a crash inside a transaction leaves; and the
  identifiers handed out after opening.
\<close>

subsection \<open>Replaying the records of a transaction\<close>

definition replay_entry :: "u64 \<Rightarrow> write_entry \<Rightarrow> table \<Rightarrow> table" where
  "replay_entry txid e t =
     (case we_operation e of
        Insert r \<Rightarrow> replay_insert r txid t
      | Update r \<Rightarrow> replay_update (we_row_idx e) r txid t
      | Delete \<Rightarrow> replay_delete (we_row_idx e) txid t)"

lemma apply_record_of_entry:
  "apply_wal_record tables (wal_record_of txid e) = find_table (we_table_name e) (replay_entry txid e) tables"
  by (cases "we_operation e") (simp_all add: wal_record_of_def replay_entry_def [abs_def])

lemma replay_entry_frame [simp, frame_simps]:
  "tb_name (replay_entry txid e t) = tb_name t" "tb_columns (replay_entry txid e t) = tb_columns t"
  "tb_indexes (replay_entry txid e t) = tb_indexes t"
  "tb_primary_key_idx (replay_entry txid e t) = tb_primary_key_idx t"
  by (auto simp: replay_entry_def replay_insert_def replay_update_def replay_delete_def set_chain_def
      split: write_op.splits sum.splits)

definition replay_entries :: "u64 \<Rightarrow> write_entry list \<Rightarrow> table \<Rightarrow> table" where
  "replay_entries txid es t = foldl (\<lambda>t e. replay_entry txid e t) t es"

lemma replay_entries_simps [simp]:
  "replay_entries txid [] t = t"
  "replay_entries txid (e # es) t = replay_entries txid es (replay_entry txid e t)"
  by (simp_all add: replay_entries_def)

lemma replay_entries_frame [simp, frame_simps]:
  "tb_name (replay_entries txid es t) = tb_name t" "tb_columns (replay_entries txid es t) = tb_columns t"
  "tb_indexes (replay_entries txid es t) = tb_indexes t"
  "tb_primary_key_idx (replay_entries txid es t) = tb_primary_key_idx t"
  by (induction es arbitrary: t) simp_all

text \<open>Tables are replayed independently of each other.\<close>

lemma replay_records_map:
  assumes "distinct (map tb_name tables)"
  shows "foldl apply_wal_record tables (map (wal_record_of txid) ws) =
    map (\<lambda>t. replay_entries txid (entries_of (tb_name t) ws) t) tables"
  using assms
proof (induction ws arbitrary: tables)
  case (Cons e es)
  let ?f = "\<lambda>t. if tb_name t = we_table_name e then replay_entry txid e t else t"
  have one: "apply_wal_record tables (wal_record_of txid e) = map ?f tables"
    using update_first_map [OF Cons.prems] by (simp add: apply_record_of_entry find_table_def)
  have "map tb_name (map ?f tables) = map tb_name tables" by (intro map_name_cong) simp
  then have "foldl apply_wal_record (map ?f tables) (map (wal_record_of txid) es) =
      map (\<lambda>t. replay_entries txid (entries_of (tb_name t) es) t) (map ?f tables)"
    by (intro Cons.IH) (simp only: Cons.prems)
  then show ?case by (simp add: one o_def)
qed simp

lemma validate_row_cong: "tb_columns t' = tb_columns t \<Longrightarrow> validate_row t' r = Inr () \<longleftrightarrow> validate_row t r = Inr ()"
  by (simp add: validate_row_ok)

text \<open>On the entries of a statement, replay computes the chains the commit computes.\<close>

lemma replay_entries_chains:
  assumes "entries_ok t n seen es" "length (tb_version_chains t1) = n" "length (tb_version_chains t) \<le> n"
    and "\<forall>i < length (tb_version_chains t). i \<notin> seen \<longrightarrow> tb_version_chains t1 ! i = tb_version_chains t ! i"
    and "tb_columns t1 = tb_columns t" "\<forall>c \<in> set (tb_version_chains t). c \<noteq> []"
  shows "tb_version_chains (replay_entries txid es t1) = foldl (apply_entry t txid) (tb_version_chains t1) es"
  using assms(1-5)
proof (induction es arbitrary: n seen t1)
  case (Cons e es)
  note step = entries_fit_step [OF Cons.prems(1-4)]
  have one: "tb_version_chains (replay_entry txid e t1) = apply_entry t txid (tb_version_chains t1) e"
  proof (cases "we_operation e")
    case (Insert r)
    then have "validate_row t1 r = Inr ()"
      using Cons.prems(1) validate_row_cong [OF Cons.prems(5), of r] by simp
    then show ?thesis
      using Insert by (simp add: apply_entry_eq [OF step(1)] replay_entry_def replay_insert_def version_of_def)
  next
    case (Update r)
    then show ?thesis
      using step(1) by (simp add: apply_entry_eq [OF step(1)] replay_entry_def replay_update_def set_chain_def
          version_of_def entry_fits_def)
  next
    case Delete
    then have "we_row_idx e < length (tb_version_chains t)"
      "tb_version_chains t1 ! we_row_idx e = tb_version_chains t ! we_row_idx e"
      "tb_version_chains t ! we_row_idx e \<noteq> []"
      using step(2) assms(6) by auto
    then show ?thesis
      using Delete step(1) by (simp add: apply_entry_eq [OF step(1)] replay_entry_def replay_delete_def set_chain_def
          version_of_def entry_fits_def)
  qed
  obtain n' seen' where nxt: "entries_ok t n' seen' es" "length (apply_entry t txid (tb_version_chains t1) e) = n'"
    "length (tb_version_chains t) \<le> n'"
    "\<forall>i < length (tb_version_chains t). i \<notin> seen' \<longrightarrow> apply_entry t txid (tb_version_chains t1) e ! i = tb_version_chains t ! i"
    using step(3) [of txid] by blast
  have "tb_version_chains (replay_entries txid es (replay_entry txid e t1)) =
      foldl (apply_entry t txid) (tb_version_chains (replay_entry txid e t1)) es"
    by (rule Cons.IH [OF nxt(1) _ nxt(3)]) (use nxt Cons.prems(5) in \<open>simp_all add: one\<close>)
  then show ?case by (simp add: one)
qed simp

subsection \<open>The log determines the tables\<close>

definition table_core :: "table \<Rightarrow> string \<times> column_meta list \<times> row_version list list" where
  "table_core t = (tb_name t, tb_columns t, tb_version_chains t)"

definition tables_logged :: "wal_record list \<Rightarrow> table list \<Rightarrow> bool" where
  "tables_logged rs tables \<longleftrightarrow> map table_core (foldl apply_wal_record [] rs) = map table_core tables"

lemma core_names: "map table_core ts = map table_core us \<Longrightarrow> map tb_name ts = map tb_name us"
  by (induction ts us rule: list_induct2') (simp_all add: table_core_def)

lemma replay_entries_core:
  assumes "table_core t1 = table_core t" "chains_ok t" "entries_ok t (length (tb_version_chains t)) {} es"
  shows "table_core (replay_entries txid es t1) =
    (tb_name t, tb_columns t, foldl (apply_entry t txid) (tb_version_chains t) es)"
proof -
  have eq: "tb_name t1 = tb_name t" "tb_columns t1 = tb_columns t" "tb_version_chains t1 = tb_version_chains t"
    using assms(1) by (simp_all add: table_core_def)
  have "tb_version_chains (replay_entries txid es t1) = foldl (apply_entry t txid) (tb_version_chains t1) es"
    by (rule replay_entries_chains [OF assms(3)]) (use eq assms(2) in \<open>auto simp: chains_ok_def\<close>)
  then show ?thesis by (simp add: table_core_def eq)
qed

text \<open>The replayed tables after the records of a write set.\<close>

definition core_after :: "u64 \<Rightarrow> write_entry list \<Rightarrow> table \<Rightarrow> string \<times> column_meta list \<times> row_version list list" where
  "core_after txid ws t =
     (tb_name t, tb_columns t, foldl (apply_entry t txid) (tb_version_chains t) (entries_of (tb_name t) ws))"

lemma replay_write_set:
  assumes "tables_logged rs tables" "distinct (map tb_name tables)" "\<forall>t \<in> set tables. chains_ok t" "statement_ok tables ws"
  shows "map table_core (foldl apply_wal_record [] (rs @ map (wal_record_of txid) ws)) = map (core_after txid ws) tables"
proof -
  let ?ts = "foldl apply_wal_record [] rs"
  have core: "map table_core ?ts = map table_core tables" using assms(1) by (simp add: tables_logged_def)
  then have all: "list_all2 (\<lambda>t1 t. table_core t1 = table_core t) ?ts tables"
    by (simp add: list_all2_conv_all_nth list_eq_iff_nth_eq)
  have dist: "distinct (map tb_name ?ts)" using core_names [OF core] assms(2) by simp
  have "list_all2 (\<lambda>t1 t. table_core (replay_entries txid (entries_of (tb_name t1) ws) t1) = core_after txid ws t) ?ts tables"
  proof (rule list_all2_all_nthI)
    show "length ?ts = length tables" using all by (rule list_all2_lengthD)
    fix i assume i: "i < length ?ts"
    then have c: "table_core (?ts ! i) = table_core (tables ! i)" using list_all2_nthD [OF all] by simp
    have "tables ! i \<in> set tables" using i all list_all2_lengthD by fastforce
    then show "table_core (replay_entries txid (entries_of (tb_name (?ts ! i)) ws) (?ts ! i)) = core_after txid ws (tables ! i)"
      using replay_entries_core [OF c, of "entries_of (tb_name (tables ! i)) ws" txid] assms(3,4) c
      by (simp add: statement_ok_def core_after_def table_core_def)
  qed
  then show ?thesis
    by (simp add: replay_records_map [OF dist] list_all2_conv_all_nth list_eq_iff_nth_eq)
qed

lemma commit_records_logged:
  assumes "commit X C plan tx db = (tx', db', Inr u)" "commit_ready tx (db_tables db)" "plan_covers plan (tx_write_set tx)"
    and "tables_logged rs (db_tables db)"
  shows "tables_logged (rs @ map (wal_record_of (tx_id tx)) (tx_write_set tx) @ [WCommit (tx_id tx)]) (db_tables db')"
proof -
  have "map table_core (db_tables db') = map (core_after (tx_id tx) (tx_write_set tx)) (db_tables db)"
    using commit_tables [OF assms(1-3)]
    by (auto simp: list_all2_conv_all_nth list_eq_iff_nth_eq table_core_def core_after_def table_after_def)
  moreover have "map table_core (foldl apply_wal_record [] (rs @ map (wal_record_of (tx_id tx)) (tx_write_set tx))) =
      map (core_after (tx_id tx) (tx_write_set tx)) (db_tables db)"
    using assms(2,4) by (intro replay_write_set) (auto simp: commit_ready_def table_ok_def)
  ultimately show ?thesis by (simp add: tables_logged_def)
qed

subsection \<open>Opening\<close>

text \<open>Replay leaves the indexes of a table as they were made: with the table's own definitions, and empty.\<close>

definition unindexed :: "table \<Rightarrow> bool" where
  "unindexed t \<longleftrightarrow> tb_indexes t = tb_indexes (table_new (tb_name t) (tb_columns t)) \<and>
     tb_primary_key_idx t = tb_primary_key_idx (table_new (tb_name t) (tb_columns t))"

lemma table_new_frame [simp]:
  "tb_name (table_new name cols) = name" "tb_columns (table_new name cols) = cols"
  "tb_version_chains (table_new name cols) = []"
  using table_new_indexes [of name cols] by simp_all

lemma unindexed_new [simp]: "unindexed (table_new name cols)"
  by (simp add: unindexed_def)

lemma unindexed_chains [simp]: "unindexed (t\<lparr>tb_version_chains := cs\<rparr>) = unindexed t"
  by (simp add: unindexed_def)

lemma replay_ops_unindexed [simp]:
  "unindexed t \<Longrightarrow> unindexed (replay_insert r x t)" "unindexed t \<Longrightarrow> unindexed (replay_update i r x t)"
  "unindexed t \<Longrightarrow> unindexed (replay_delete i x t)"
  by (auto simp: replay_insert_def replay_update_def replay_delete_def set_chain_def split: sum.splits)

lemma update_first_all:
  "\<forall>x \<in> set xs. P x \<Longrightarrow> (\<And>x. P x \<Longrightarrow> P (f x)) \<Longrightarrow> \<forall>x \<in> set (update_first Q f xs). P x"
  by (induction xs) auto

lemma find_table_unindexed:
  "\<forall>t \<in> set tables. unindexed t \<Longrightarrow> (\<And>t. unindexed t \<Longrightarrow> unindexed (f t)) \<Longrightarrow>
   \<forall>t \<in> set (find_table name f tables). unindexed t"
  unfolding find_table_def by (rule update_first_all)

lemma apply_record_unindexed:
  assumes "\<forall>t \<in> set tables. unindexed t"
  shows "\<forall>t \<in> set (apply_wal_record tables r). unindexed t"
proof (cases r)
  case (WInsert name r x)
  then show ?thesis
    using find_table_unindexed [OF assms, of "replay_insert r x"] replay_ops_unindexed(1) by simp
next
  case (WUpdate name i r x)
  then show ?thesis
    using find_table_unindexed [OF assms, of "replay_update i r x"] replay_ops_unindexed(2) by simp
next
  case (WDelete name i x)
  then show ?thesis
    using find_table_unindexed [OF assms, of "replay_delete i x"] replay_ops_unindexed(3) by simp
next
  case (WCheckpoint n ts)
  then show ?thesis by (simp add: restored_table_def split: prod.splits)
qed (use assms in simp_all)

lemma replay_unindexed: "\<forall>t \<in> set tables. unindexed t \<Longrightarrow> \<forall>t \<in> set (foldl apply_wal_record tables rs). unindexed t"
proof (induction rs arbitrary: tables)
  case (Cons r rs)
  then show ?case using apply_record_unindexed by (metis foldl_Cons)
qed simp

text \<open>A fresh table's indexes are empty, so a replayed table is rebuilt unless it has none.\<close>

lemma build_unique_indexes_empty:
  "\<forall>ix \<in> set (tb_indexes t). index_is_empty ix \<Longrightarrow> \<forall>ix \<in> set (tb_indexes (build_unique_indexes t)). index_is_empty ix"
  by (rule build_unique_indexes_invariant)
    (auto simp: index_is_empty_def index_new_unique_def index_new_def om_empty_def)

lemma table_new_empty: "\<forall>ix \<in> set (tb_indexes (table_new name cols)). index_is_empty ix"
  unfolding table_new_def
  by (rule build_unique_indexes_empty)
    (auto simp: build_pk_index_def Let_def index_is_empty_def index_new_unique_def index_new_def om_empty_def split: option.splits)

lemma rebuild_if_needed_frame [simp, frame_simps]:
  "tb_name (rebuild_if_needed t) = tb_name t" "tb_columns (rebuild_if_needed t) = tb_columns t"
  "tb_version_chains (rebuild_if_needed t) = tb_version_chains t"
  "table_core (rebuild_if_needed t) = table_core t"
  "map ix_meta (tb_indexes (rebuild_if_needed t)) = map ix_meta (tb_indexes t)"
  by (simp_all add: rebuild_if_needed_def table_core_def rebuild_indexes_metas)

lemma rebuild_if_needed_synced:
  assumes "unindexed t"
  shows "table_synced (rebuild_if_needed t)"
proof (cases "tb_indexes t = []")
  case True
  then show ?thesis by (simp add: rebuild_if_needed_def table_synced_def indexes_ok_def)
next
  case False
  then obtain ix where "ix \<in> set (tb_indexes t)" by (cases "tb_indexes t") auto
  moreover from this have "index_is_empty ix"
    using assms table_new_empty unfolding unindexed_def by metis
  ultimately have "list_ex index_is_empty (tb_indexes t)" by (auto simp: list_ex_iff)
  then show ?thesis by (simp add: rebuild_if_needed_def rebuild_indexes_synced)
qed

subsection \<open>Identifiers after opening\<close>

definition all_versions :: "table list \<Rightarrow> row_version list" where
  "all_versions tables = concat (concat (map tb_version_chains tables))"

definition below :: "u64 \<Rightarrow> row_version \<Rightarrow> bool" where
  "below m v \<longleftrightarrow> rv_txid_min v < m \<and> (rv_txid_max v = u64_MAX \<or> rv_txid_max v < m)"

lemma compute_max_txid_bound:
  assumes "compute_max_txid tables = r" "\<forall>v \<in> set (all_versions tables). rv_txid_min v \<noteq> u64_MAX"
  shows "(r = None \<longrightarrow> all_versions tables = []) \<and>
    (\<forall>m. r = Some m \<longrightarrow> m \<noteq> u64_MAX \<and>
       (\<forall>v \<in> set (all_versions tables). rv_txid_min v \<le> m \<and> (rv_txid_max v \<noteq> u64_MAX \<longrightarrow> rv_txid_max v \<le> m)))"
proof -
  let ?f = "\<lambda>max_txid version.
         let current = (case max_txid of None \<Rightarrow> 0 | Some m \<Rightarrow> m);
             current = max current (rv_txid_min version);
             current = (if rv_txid_max version \<noteq> u64_MAX then max current (rv_txid_max version) else current)
         in Some current"
  have "(foldl ?f None vs = None \<longrightarrow> vs = []) \<and>
    (\<forall>m. foldl ?f None vs = Some m \<longrightarrow> m \<noteq> u64_MAX \<and>
       (\<forall>v \<in> set vs. rv_txid_min v \<le> m \<and> (rv_txid_max v \<noteq> u64_MAX \<longrightarrow> rv_txid_max v \<le> m)))"
    if "\<forall>v \<in> set vs. rv_txid_min v \<noteq> u64_MAX" for vs
    using that
  proof (induction vs rule: rev_induct)
    case (snoc v vs)
    then show ?case
      by (cases "foldl ?f None vs") (auto simp: Let_def max_def split: if_splits)
  qed simp
  then show ?thesis using assms unfolding compute_max_txid_def all_versions_def by blast
qed

lemma start_id_fresh:
  assumes "\<forall>v \<in> set (all_versions tables). rv_txid_min v \<noteq> u64_MAX" "v \<in> set (all_versions tables)"
  shows "below (mv_next_txid (with_start_id (start_id tables))) v"
proof (cases "compute_max_txid tables")
  case None
  then show ?thesis using compute_max_txid_bound [OF refl assms(1)] assms(2) by simp
next
  case (Some m)
  then have m: "m \<noteq> u64_MAX" "rv_txid_min v \<le> m" "rv_txid_max v \<noteq> u64_MAX \<longrightarrow> rv_txid_max v \<le> m"
    using compute_max_txid_bound [OF refl assms(1)] assms(2) by blast+
  have "x < max (m + 1) 1" if "x \<le> m" for x
    using u64_le_less_succ [OF m(1) that] by (simp add: less_max_iff_disj)
  then show ?thesis using m by (auto simp: below_def start_id_def with_start_id_def Some)
qed

lemma visible_after_start:
  assumes "chain_ok c" "\<forall>v \<in> set c. rv_txid_min v \<noteq> 0 \<and> rv_txid_min v < s"
  shows "map_option rv_row (latest_visible c s {0}) = head_row c"
proof (cases "c = []")
  case False
  then have "newest_at s c = Some (last c)" using assms(2) by (intro newest_at_all) auto
  moreover have "rv_txid_min (last c) \<noteq> 0" using assms(2) False by simp
  ultimately show ?thesis using find_visible [OF assms(1), of s "{0}"] False
    by (simp add: latest_visible_def head_row_def)
qed (simp add: latest_visible_def head_row_def)

subsection \<open>The files of a database\<close>

text \<open>The two log files hold the records, the older ones in the file that was rotated away.\<close>

definition files_log :: "codec \<Rightarrow> wal_record list \<Rightarrow> wal_files \<Rightarrow> bool" where
  "files_log C rs d \<longleftrightarrow> (\<exists>ro rc. rs = ro @ rc \<and> wf_current d = Some (log_of C rc) \<and>
     (case wf_old d of None \<Rightarrow> ro = [] | Some b \<Rightarrow> b = log_of C ro \<and> length b \<le> 2 ^ 63) \<and>
     all_serializable C rs \<and> length (log_of C rc) \<le> 2 ^ 63)"

lemma replay_files_log:
  assumes "files_log C rs d"
  shows "replay_wal C d = Some (foldl apply_wal_record [] rs, rs)"
proof -
  obtain ro rc where f: "rs = ro @ rc" "wf_current d = Some (log_of C rc)"
    "case wf_old d of None \<Rightarrow> ro = [] | Some b \<Rightarrow> b = log_of C ro \<and> length b \<le> 2 ^ 63"
    "all_serializable C rs" "length (log_of C rc) \<le> 2 ^ 63"
    using assms by (auto simp: files_log_def)
  have ser: "all_serializable C ro" "all_serializable C rc" using f(1,4) by (auto simp: all_serializable_def)
  have cur: "replay_wal_buf C ts (log_of C rc) = Some (foldl apply_wal_record ts rc, rc)" for ts
    using wal_records_log [OF ser(2) f(5)] by (simp add: replay_wal_buf_records)
  show ?thesis
  proof (cases "wf_old d")
    case None
    then show ?thesis using f cur by (simp add: replay_wal_def)
  next
    case (Some b)
    then have b: "b = log_of C ro" "length (log_of C ro) \<le> 2 ^ 63" using f(3) by auto
    then have "replay_wal_buf C [] b = Some (foldl apply_wal_record [] ro, ro)"
      using wal_records_log [OF ser(1) b(2)] by (simp add: replay_wal_buf_records)
    then show ?thesis using f Some cur by (simp add: replay_wal_def)
  qed
qed

text \<open>The log files determine the tables of the database.\<close>

definition database_logged :: "codec \<Rightarrow> wal_record list \<Rightarrow> database \<Rightarrow> bool" where
  "database_logged C rs db \<longleftrightarrow> files_log C rs (files_of db) \<and> tables_logged rs (db_tables db)"

lemma bootstrap_frame:
  "bootstrap_default_user env K salt db = Inr db' \<Longrightarrow>
     db_tables db' = db_tables db \<and> db_mvcc db' = db_mvcc db \<and> db_wal db' = db_wal db \<and> db_old_wal db' = db_old_wal db \<and>
     (db_users db \<noteq> [] \<or> env = None \<longrightarrow> db_users db' = db_users db \<and> db_permissions db' = db_permissions db)"
  by (auto simp: bootstrap_default_user_def user_count_def and_then_eq_Inr split: if_splits option.splits)

lemma open_database_cases:
  assumes "files_log C rs files"
  shows "\<exists>r. open_database C K env salt faults files durability cat = Some r \<and>
    (\<forall>db2. r = Inr db2 \<longrightarrow>
       db_tables db2 = map rebuild_if_needed (foldl apply_wal_record [] rs) \<and>
       db_mvcc db2 = with_start_id (start_id (foldl apply_wal_record [] rs)) \<and>
       files_of db2 = files \<and>
       (replay_users_from_wal rs \<noteq> [] \<or> env = None \<longrightarrow>
          db_users db2 = replay_users_from_wal rs \<and> db_permissions db2 = replay_permissions_from_wal rs))"
proof -
  have cur: "\<exists>b. wf_current files = Some b" using assms by (auto simp: files_log_def)
  show ?thesis
    using replay_files_log [OF assms] cur
    by (auto simp: open_database_def and_then_eq_Inr Let_def files_of_def wal_open_def dest!: bootstrap_frame)
qed

lemma logged_tables:
  assumes "tables_logged rs tables"
  shows "list_all2 (\<lambda>t t2. table_core t2 = table_core t \<and> table_synced t2 \<and>
      map ix_meta (tb_indexes t2) = map ix_meta (tb_indexes (table_new (tb_name t) (tb_columns t))))
    tables (map rebuild_if_needed (foldl apply_wal_record [] rs))"
proof (rule list_all2_all_nthI)
  let ?ts = "foldl apply_wal_record [] rs"
  have core: "map table_core ?ts = map table_core tables" using assms by (simp add: tables_logged_def)
  then show len: "length tables = length (map rebuild_if_needed ?ts)" by (metis length_map)
  fix i assume i: "i < length tables"
  then have c: "table_core (?ts ! i) = table_core (tables ! i)"
    using core len by (metis length_map nth_map)
  have u: "unindexed (?ts ! i)" using replay_unindexed [of "[]" rs] i len by simp
  have "tb_name (?ts ! i) = tb_name (tables ! i)" "tb_columns (?ts ! i) = tb_columns (tables ! i)"
    using c by (simp_all add: table_core_def)
  then show "table_core (map rebuild_if_needed ?ts ! i) = table_core (tables ! i) \<and>
      table_synced (map rebuild_if_needed ?ts ! i) \<and>
      map ix_meta (tb_indexes (map rebuild_if_needed ?ts ! i)) =
      map ix_meta (tb_indexes (table_new (tb_name (tables ! i)) (tb_columns (tables ! i))))"
    using i len c u rebuild_if_needed_synced [OF u] by (simp add: unindexed_def)
qed

lemma entries_ok_prefix: "entries_ok t n seen (xs @ ys) \<Longrightarrow> entries_ok t n seen xs"
  by (induction xs arbitrary: n seen) (auto split: write_op.splits)

lemma statement_ok_take: "statement_ok tables ws \<Longrightarrow> statement_ok tables (take k ws)"
  unfolding statement_ok_def by (metis append_take_drop_id entries_ok_prefix filter_append)

subsection \<open>Properties\<close>

text \<open>C5: durability of a commit. When the log files determine the tables before it, they determine them
  after it: replaying the files with the transaction's records gives every table with its name,
  columns and version chains as the commit left them in memory.\<close>
theorem commit_recoverable:
  assumes "commit_ready tx (db_tables db)" "plan_covers plan (tx_write_set tx)"
    and "commit X C plan tx db = (tx', db', Inr u)"
    and "tables_logged rs (db_tables db)" "writer_log C rs (db_wal db)"
  shows "\<exists>rs'. rs' = rs @ map (wal_record_of (tx_id tx)) (tx_write_set tx) @ [WCommit (tx_id tx)] \<and>
    writer_log C rs' (db_wal db') \<and> tables_logged rs' (db_tables db')"
proof -
  obtain db1 cat where
    l: "log_append_all C (cp_wal plan) 0 (map (wal_record_of (tx_id tx)) (tx_write_set tx) @ [WCommit (tx_id tx)]) db = (db1, Inr ())"
    and db': "db' = db\<lparr>db_wal := db_wal db1, db_catalog := cat, db_tables := db_tables db',
       db_mvcc := commit_transaction tx (db_mvcc db)\<rparr>"
    by (rule commit_Inr [OF assms(3)])
  have "db_wal db' = db_wal db1" by (subst db') simp
  then show ?thesis
    using commit_records_logged [OF assms(3,1,2,4)] log_append_all_log [OF l assms(5)] by simp
qed

text \<open>The log of the small database: its table with the row of transaction 1, updated by transaction 3.\<close>

definition sample_history :: "wal_record list" where
  "sample_history = [WCreateTable ''t'' sample_columns, WInsert ''t'' \<lparr>row_values = [DInteger 1, DText ''a'']\<rparr> 1,
     WCommit 1, WUpdate ''t'' 0 \<lparr>row_values = [DInteger 1, DText ''b'']\<rparr> 3, WCommit 3]"

lemma sample_tables_logged: "tables_logged sample_history [sample_table]"
  unfolding tables_logged_def table_core_def by code_simp

text \<open>A codec for any log: the records are numbered by their position.\<close>

definition list_codec :: "wal_record list \<Rightarrow> codec" where
  "list_codec rs =
     \<lparr>cd_serialize = (\<lambda>r. case position (\<lambda>x. x = r) rs of None \<Rightarrow> Inl ''unknown'' | Some i \<Rightarrow> Inr (replicate i 0)),
      cd_deserialize = (\<lambda>bs. nth_opt rs (length bs)),
      cd_crc32 = (\<lambda>bs. of_nat (length bs))\<rparr>"

lemma list_codec_ok: "codec_ok (list_codec rs)"
  unfolding codec_ok_def list_codec_def by (auto simp: position_Some_iff split: option.splits)

lemma list_codec_serializes: "r \<in> set rs \<Longrightarrow> \<exists>b. cd_serialize (list_codec rs) r = Inr b"
  using position_None_iff [of "\<lambda>x. x = r" rs] by (auto simp: list_codec_def split: option.splits)

lemma list_codec_length: "length (log_of (list_codec rs) xs) \<le> length xs * (length rs + 12)"
proof (induction xs)
  case (Cons x xs)
  have "length (record_frame (list_codec rs) x) \<le> length rs + 12"
    using position_less [of "\<lambda>y. y = x" rs]
    by (auto simp: record_frame_def list_codec_def wal_frame_def split: option.splits)
  then show ?case using Cons by simp
qed simp

abbreviation sample_log_codec :: codec where
  "sample_log_codec \<equiv> list_codec (sample_history @ [sample_insert, WCommit 5])"

definition sample_logged_database :: database where
  "sample_logged_database = sample_database\<lparr>db_wal := wal_open ''async'' (log_of sample_log_codec sample_history)\<rparr>"

lemma sample_logged_simps [simp]:
  "db_tables sample_logged_database = [sample_table]" "db_catalog sample_logged_database = sample_catalog"
  "db_wal sample_logged_database = wal_open ''async'' (log_of sample_log_codec sample_history)"
  "db_old_wal sample_logged_database = None"
  by (simp_all add: sample_logged_database_def sample_database_def)

lemma writer_log_open: "writer_log C rs (wal_open durability (log_of C rs))"
  by (auto simp: writer_log_def writer_ok_def wal_open_def intro: exI [of _ "length rs"])

lemma sample_logged_commit:
  "\<exists>tx' db'. commit X sample_log_codec sample_plan sample_writer sample_logged_database = (tx', db', Inr ())"
  by (rule sample_commit) (auto intro: list_codec_serializes)

theorem commit_recoverable_witness:
  "\<exists>tx' db'. commit sample_ext sample_log_codec sample_plan sample_writer sample_logged_database = (tx', db', Inr ()) \<and>
     tables_logged (sample_history @ [sample_insert, WCommit 5]) (db_tables db')"
proof -
  obtain tx' db' where c: "commit sample_ext sample_log_codec sample_plan sample_writer sample_logged_database = (tx', db', Inr ())"
    using sample_logged_commit by blast
  have ready: "commit_ready sample_writer (db_tables sample_logged_database)"
    using sample_ready by simp
  show ?thesis
    using commit_recoverable [OF ready sample_covers c, of sample_history] c sample_tables_logged writer_log_open
    by (auto simp: insert_entry_at_def wal_record_of_def)
qed

text \<open>What opening makes of a database whose log files determine its tables.\<close>

lemma opened_tables:
  assumes "database_logged C rs db" "\<forall>t \<in> set (db_tables db). chains_ok t"
    and "\<forall>v \<in> set (all_versions (db_tables db)). rv_txid_min v \<noteq> 0 \<and> rv_txid_min v \<noteq> u64_MAX"
  shows "\<exists>r. open_database C K env salt faults (files_of db) durability cat = Some r \<and>
    (\<forall>db2. r = Inr db2 \<longrightarrow>
      list_all2 (\<lambda>t t2. table_core t2 = table_core t \<and> table_synced t2 \<and>
          map ix_meta (tb_indexes t2) = map ix_meta (tb_indexes (table_new (tb_name t) (tb_columns t))) \<and>
          (\<forall>i < row_count t. map_option rv_row (get_visible_version t2 i (tx_id (fst (begin_txn db2)))
              (sn_active (tx_snapshot (fst (begin_txn db2))))) = head_row (tb_version_chains t ! i)))
        (db_tables db) (db_tables db2) \<and>
      (\<forall>v \<in> set (all_versions (db_tables db2)). below (tx_id (fst (begin_txn db2))) v))"
proof -
  let ?ts = "foldl apply_wal_record [] rs"
  have fl: "files_log C rs (files_of db)" and tl: "tables_logged rs (db_tables db)"
    using assms(1) by (auto simp: database_logged_def)
  obtain r where r: "open_database C K env salt faults (files_of db) durability cat = Some r"
    and db2: "\<And>db2. r = Inr db2 \<Longrightarrow> db_tables db2 = map rebuild_if_needed ?ts \<and>
       db_mvcc db2 = with_start_id (start_id ?ts)"
    using open_database_cases [OF fl, of K env salt faults durability cat] by blast
  have core: "map table_core ?ts = map table_core (db_tables db)" using tl by (simp add: tables_logged_def)
  have chains: "map tb_version_chains ts = map tb_version_chains us" if "map table_core ts = map table_core us" for ts us
    using that by (induction ts us rule: list_induct2') (simp_all add: table_core_def)
  have same: "all_versions ?ts = all_versions (db_tables db)"
    using chains [OF core] by (simp add: all_versions_def)
  have reb: "all_versions (map rebuild_if_needed ?ts) = all_versions ?ts"
    by (simp add: all_versions_def o_def)
  have vis: "map_option rv_row (get_visible_version t2 i (mv_next_txid (with_start_id (start_id ?ts))) {0}) =
      head_row (tb_version_chains t ! i)"
    if "t \<in> set (db_tables db)" "table_core t2 = table_core t" "i < row_count t" for t t2 i
  proof -
    have i: "i < length (tb_version_chains t)" "tb_version_chains t2 = tb_version_chains t"
      using that(2,3) by (simp_all add: table_core_def row_count_def)
    have c: "chain_ok (tb_version_chains t ! i)" using assms(2) that(1) i by (simp add: chains_ok_def)
    have "rv_txid_min v \<noteq> 0 \<and> rv_txid_min v < mv_next_txid (with_start_id (start_id ?ts))"
      if "v \<in> set (tb_version_chains t ! i)" for v
    proof -
      have "v \<in> set (all_versions (db_tables db))"
        using that \<open>t \<in> set (db_tables db)\<close> nth_mem [OF i(1)] unfolding all_versions_def by fastforce
      then show ?thesis using start_id_fresh [of ?ts v] assms(3) same by (simp add: below_def)
    qed
    then have "map_option rv_row (latest_visible (tb_version_chains t ! i)
        (mv_next_txid (with_start_id (start_id ?ts))) {0}) = head_row (tb_version_chains t ! i)"
      using visible_after_start [OF c] by blast
    then show ?thesis using i by (simp add: get_visible_version_def nth_opt_def)
  qed
  have "list_all2 (\<lambda>t t2. table_core t2 = table_core t \<and> table_synced t2 \<and>
          map ix_meta (tb_indexes t2) = map ix_meta (tb_indexes (table_new (tb_name t) (tb_columns t))) \<and>
          (\<forall>i < row_count t. map_option rv_row (get_visible_version t2 i
              (mv_next_txid (with_start_id (start_id ?ts))) {0}) = head_row (tb_version_chains t ! i)))
        (db_tables db) (map rebuild_if_needed ?ts)"
    using logged_tables [OF tl] vis by (auto simp: list_all2_conv_all_nth)
  moreover have "below (mv_next_txid (with_start_id (start_id ?ts))) v" if "v \<in> set (all_versions ?ts)" for v
    using start_id_fresh [of ?ts v] that assms(3) same by simp
  ultimately show ?thesis
    using r db2 reb by (intro exI [of _ r]) (auto simp: with_start_id_def)
qed

text \<open>C6: opening a data directory. From log files that determine the tables, replay never panics, and
  opening returns every table with its name, columns and version chains; its indexes are those its
  column definitions give (an index a user added is gone) and agree with the rows; and a transaction
  begun first after opening gets an identifier above every one in the tables and sees the current
  row of every chain.\<close>
theorem open_recovers:
  assumes "database_logged C rs db" "\<forall>t \<in> set (db_tables db). chains_ok t"
    and "\<forall>v \<in> set (all_versions (db_tables db)). rv_txid_min v \<noteq> 0 \<and> rv_txid_min v \<noteq> u64_MAX"
  shows "\<exists>r. open_database C K env salt faults (files_of db) durability cat = Some r \<and>
    (\<forall>db2. r = Inr db2 \<longrightarrow>
      list_all2 (\<lambda>t t2. table_core t2 = table_core t \<and> table_synced t2 \<and>
          map ix_meta (tb_indexes t2) = map ix_meta (tb_indexes (table_new (tb_name t) (tb_columns t))) \<and>
          (\<forall>i < row_count t. map_option rv_row (get_visible_version t2 i (tx_id (fst (begin_txn db2)))
              (sn_active (tx_snapshot (fst (begin_txn db2))))) = head_row (tb_version_chains t ! i)))
        (db_tables db) (db_tables db2) \<and>
      (\<forall>v \<in> set (all_versions (db_tables db2)). below (tx_id (fst (begin_txn db2))) v))"
  by (rule opened_tables [OF assms])

lemma sample_files_log: "files_log sample_log_codec sample_history (files_of sample_logged_database)"
proof -
  have "all_serializable sample_log_codec sample_history"
    using list_codec_serializes by (auto simp: all_serializable_def serializable_codec_ok [OF list_codec_ok])
  moreover have "length (log_of sample_log_codec sample_history) \<le> 2 ^ 63"
    using list_codec_length [of "sample_history @ [sample_insert, WCommit 5]" sample_history]
    by (simp add: sample_history_def)
  ultimately show ?thesis by (auto simp: files_log_def files_of_def wal_open_def)
qed

theorem open_recovers_witness:
  "\<forall>K salt faults cat. \<exists>r. open_database sample_log_codec K None salt faults (files_of sample_logged_database) ''async'' cat = Some r \<and>
    (\<forall>db2. r = Inr db2 \<longrightarrow> list_all2 (\<lambda>t t2. table_core t2 = table_core t) [sample_table] (db_tables db2))"
proof (intro allI)
  fix K salt faults cat
  have log: "database_logged sample_log_codec sample_history sample_logged_database"
    using sample_files_log sample_tables_logged by (simp add: database_logged_def)
  have chains: "\<forall>t \<in> set (db_tables sample_logged_database). chains_ok t"
    using sample_table_ok by (simp add: table_ok_def)
  have "list_all (\<lambda>v. rv_txid_min v \<noteq> 0 \<and> rv_txid_min v \<noteq> u64_MAX) (all_versions [sample_table])"
    by code_simp
  then have ids: "\<forall>v \<in> set (all_versions (db_tables sample_logged_database)). rv_txid_min v \<noteq> 0 \<and> rv_txid_min v \<noteq> u64_MAX"
    by (simp add: list_all_iff)
  show "\<exists>r. open_database sample_log_codec K None salt faults (files_of sample_logged_database) ''async'' cat = Some r \<and>
    (\<forall>db2. r = Inr db2 \<longrightarrow> list_all2 (\<lambda>t t2. table_core t2 = table_core t) [sample_table] (db_tables db2))"
    using open_recovers [OF log chains ids, of K None salt faults "''async''" cat]
    by (auto simp: list_all2_conv_all_nth)
qed

text \<open>a crash inside a transaction. When the log files end after any number of the transaction's records
  and before its commit record, replay does not notice that the transaction never committed: every
  row the logged part of the write set wrote is a current row of the recovered tables, or gone if
  that part deletes it.\<close>
theorem torn_transaction_replayed:
  assumes "commit_ready tx (db_tables db)" "tables_logged rs (db_tables db)"
    and "files_log C (rs @ map (wal_record_of (tx_id tx)) (take k (tx_write_set tx))) files"
  shows "\<exists>ts. replay_wal C files = Some (ts, rs @ map (wal_record_of (tx_id tx)) (take k (tx_write_set tx))) \<and>
    list_all2 (\<lambda>t t2. tb_name t2 = tb_name t \<and>
      (\<forall>e \<in> set (entries_of (tb_name t) (take k (tx_write_set tx))).
         we_row_idx e < row_count t2 \<and>
         head_row (tb_version_chains t2 ! we_row_idx e) = op_row (we_operation e)))
      (db_tables db) ts"
proof -
  let ?ws = "take k (tx_write_set tx)" and ?x = "tx_id tx"
  let ?ts = "foldl apply_wal_record [] (rs @ map (wal_record_of ?x) ?ws)"
  have stmt: "statement_ok (db_tables db) ?ws"
    using assms(1) by (simp add: commit_ready_def statement_ok_take)
  have core: "map table_core ?ts = map (core_after ?x ?ws) (db_tables db)"
    using assms(1,2) stmt by (intro replay_write_set) (auto simp: commit_ready_def table_ok_def)
  have rows: "we_row_idx e < length (foldl (apply_entry t ?x) (tb_version_chains t) (entries_of (tb_name t) ?ws)) \<and>
      head_row (foldl (apply_entry t ?x) (tb_version_chains t) (entries_of (tb_name t) ?ws) ! we_row_idx e) = op_row (we_operation e)"
    if t: "t \<in> set (db_tables db)" and e: "e \<in> set (entries_of (tb_name t) ?ws)" for t e
  proof -
    let ?es = "entries_of (tb_name t) ?ws"
    have ok: "entries_ok t (length (tb_version_chains t)) {} ?es" using stmt t by (simp add: statement_ok_def)
    have ch: "\<forall>c \<in> set (tb_version_chains t). c \<noteq> [] \<and> chain_ok c" "?x \<noteq> u64_MAX"
      and w: "\<forall>e \<in> set ?es. writable_at ?x (tb_version_chains t) e"
      using assms(1) t by (auto simp: commit_ready_def table_ok_def chains_ok_def dest: in_set_takeD)
    note fold = fold_entries [OF ok refl le_refl _ ch w]
    have at: "entry_at ?es (we_row_idx e) = Some e"
      by (rule entry_at_own [OF ok le_refl e])
    have "we_row_idx e < length (tb_version_chains t) + length (filter is_insert ?es)"
      by (rule entry_in_range [OF ok le_refl e])
    then show ?thesis using fold at by simp
  qed
  have "list_all2 (\<lambda>t t2. tb_name t2 = tb_name t \<and>
      (\<forall>e \<in> set (entries_of (tb_name t) ?ws). we_row_idx e < row_count t2 \<and>
         head_row (tb_version_chains t2 ! we_row_idx e) = op_row (we_operation e))) (db_tables db) ?ts"
  proof (rule list_all2_all_nthI)
    show "length (db_tables db) = length ?ts" using core by (metis length_map)
    fix i assume i: "i < length (db_tables db)"
    then have "table_core (?ts ! i) = core_after ?x ?ws (db_tables db ! i)"
      using core by (metis length_map nth_map)
    then show "tb_name (?ts ! i) = tb_name (db_tables db ! i) \<and>
      (\<forall>e \<in> set (entries_of (tb_name (db_tables db ! i)) ?ws). we_row_idx e < row_count (?ts ! i) \<and>
         head_row (tb_version_chains (?ts ! i) ! we_row_idx e) = op_row (we_operation e))"
      using rows [of "db_tables db ! i"] i by (simp add: table_core_def core_after_def row_count_def)
  qed
  then show ?thesis using replay_files_log [OF assms(3)] by blast
qed

theorem torn_transaction_replayed_witness:
  "\<exists>ts. replay_wal sample_log_codec \<lparr>wf_old = None, wf_current = Some (log_of sample_log_codec (sample_history @ [sample_insert]))\<rparr> =
     Some (ts, sample_history @ [sample_insert]) \<and>
     map (\<lambda>t. head_row (tb_version_chains t ! 1)) ts = [Some sample_row]"
proof -
  let ?f = "\<lparr>wf_old = None, wf_current = Some (log_of sample_log_codec (sample_history @ [sample_insert]))\<rparr>"
  have ser: "all_serializable sample_log_codec (sample_history @ [sample_insert])"
    using list_codec_serializes by (auto simp: all_serializable_def serializable_codec_ok [OF list_codec_ok])
  have "length (log_of sample_log_codec (sample_history @ [sample_insert])) \<le> 2 ^ 63"
    using list_codec_length [of "sample_history @ [sample_insert, WCommit 5]" "sample_history @ [sample_insert]"]
    by (simp add: sample_history_def)
  then have f: "files_log sample_log_codec (sample_history @ map (wal_record_of (tx_id sample_writer)) (take 1 (tx_write_set sample_writer))) ?f"
    using ser by (auto simp: files_log_def wal_record_of_def insert_entry_at_def)
  have ready: "commit_ready sample_writer (db_tables sample_logged_database)" using sample_ready by simp
  have name: "tb_name sample_table = ''t''" by (simp add: sample_table_def table_new_indexes)
  show ?thesis
    using torn_transaction_replayed [OF ready _ f] sample_tables_logged name
    by (auto simp: list_all2_Cons1 insert_entry_at_def wal_record_of_def)
qed

end
