(* ===== verification/Admin.thy ===== *)
theory Admin
  imports Recovery
begin

text \<open>
  The administrative operations of the engine (\<open>src/src/storage/engine.rs\<close>, \<open>checkpoint.rs\<close>):
  tables, users and grants with their log records, the permission checks, the checkpoint and the
  shutdown. What the log keeps of each is stated as an invariant between the log and the state.
\<close>

subsection \<open>Tables\<close>

record ddl_plan =
  dp_now :: u64
  dp_engine :: fault
  dp_save :: fault
  dp_wal :: "io_fault option"
  dp_undo_engine :: fault
  dp_undo_save :: fault
  dp_undo_restore :: fault

abbreviation same_name :: "string \<Rightarrow> table \<Rightarrow> bool" where
  "same_name name t \<equiv> eq_ignore_ascii_case (tb_name t) name"

definition set_catalog :: "catalog \<Rightarrow> database \<Rightarrow> database" where
  "set_catalog c db = db\<lparr>db_catalog := c\<rparr>"

definition set_tables :: "table list \<Rightarrow> database \<Rightarrow> database" where
  "set_tables ts db = db\<lparr>db_tables := ts\<rparr>"

definition create_table ::
  "codec \<Rightarrow> ddl_plan \<Rightarrow> string \<Rightarrow> column_meta list \<Rightarrow> string option \<Rightarrow> database \<Rightarrow> database \<times> unit res" where
  "create_table C P name columns engine_name db =
     (if list_ex (same_name name) (db_tables db) then (db, Inl (TableAlreadyExists name))
      else
        let engine = (case engine_name of Some e \<Rightarrow> normalize_engine_name e
                      | None \<Rightarrow> ct_default_engine (db_catalog db)) in
        (case catalog_create_table (dp_engine P) (dp_save P) (dp_now P) name columns (Some engine) (db_catalog db) of
           (c1, Inl e) \<Rightarrow> (set_catalog c1 db, Inl e)
         | (c1, Inr _) \<Rightarrow>
             let db1 = set_tables (db_tables db @ [table_new name columns]) (set_catalog c1 db) in
             (case log_append C (dp_wal P) (WCreateTable name columns) db1 of
                (db2, Inl e) \<Rightarrow>
                  (set_tables (filter (\<lambda>t. \<not> same_name name t) (db_tables db2))
                     (set_catalog (fst (catalog_drop_table (dp_undo_engine P) (dp_undo_save P) name (db_catalog db2))) db2), Inl e)
              | (db2, Inr _) \<Rightarrow>
                  ((if user_exists (db_users db2) ''helion''
                    then db2\<lparr>db_permissions := grant ''helion'' name PAll (db_permissions db2)\<rparr> else db2), Inr ()))))"

definition drop_table :: "codec \<Rightarrow> ddl_plan \<Rightarrow> string \<Rightarrow> database \<Rightarrow> database \<times> unit res" where
  "drop_table C P name db =
     (case find (same_name name) (db_tables db) of
        None \<Rightarrow> (db, Inl (TableNotFound name))
      | Some snap \<Rightarrow>
          let engine = (case table_engine_name (db_catalog db) name of Some e \<Rightarrow> e
                        | None \<Rightarrow> ct_default_engine (db_catalog db)) in
          (case catalog_drop_table (dp_engine P) (dp_save P) name (db_catalog db) of
             (c1, Inl e) \<Rightarrow> (set_catalog c1 db, Inl e)
           | (c1, Inr _) \<Rightarrow>
               let db1 = set_tables (filter (\<lambda>t. \<not> same_name name t) (db_tables db)) (set_catalog c1 db) in
               (case log_append C (dp_wal P) (WDropTable name) db1 of
                  (db2, Inl e) \<Rightarrow>
                    let c2 = fst (catalog_create_table (dp_undo_engine P) (dp_undo_save P) (dp_now P)
                                   (tb_name snap) (tb_columns snap) (Some engine) (db_catalog db2));
                        c3 = fst (catalog_restore_table (dp_undo_restore P) snap c2)
                    in (set_tables (db_tables db2 @ [snap]) (set_catalog c3 db2), Inl e)
                | (db2, Inr _) \<Rightarrow> (db2\<lparr>db_permissions := remove_table name (db_permissions db2)\<rparr>, Inr ()))))"

definition alter_table_engine :: "migration_faults \<Rightarrow> u64 \<Rightarrow> string \<Rightarrow> string \<Rightarrow> database \<Rightarrow> database \<times> unit res" where
  "alter_table_engine F now name target_engine db =
     (case migrate_table F now name target_engine (db_catalog db) of (c, r) \<Rightarrow> (set_catalog c db, r))"

subsection \<open>Users\<close>

definition db_create_user :: "codec \<Rightarrow> argon \<Rightarrow> string \<Rightarrow> io_fault option \<Rightarrow> string \<Rightarrow> string \<Rightarrow> database \<Rightarrow> database \<times> unit res" where
  "db_create_user C K salt fault username password db =
     (case create_user K salt username password (db_users db) of
        Inl e \<Rightarrow> (db, Inl e)
      | Inr us \<Rightarrow>
          let db1 = db\<lparr>db_users := us\<rparr> in
          (case get_user us username of
             None \<Rightarrow> (db1, Inl (Internal (''Failed to find just-created user '' @ quoted username)))
           | Some u \<Rightarrow> log_append C fault (WCreateUser (us_username u) (us_password_hash u)) db1))"

definition db_drop_user :: "codec \<Rightarrow> io_fault option \<Rightarrow> string \<Rightarrow> database \<Rightarrow> database \<times> unit res" where
  "db_drop_user C fault username db =
     (case drop_user username (db_users db) of
        Inl e \<Rightarrow> (db, Inl e)
      | Inr us \<Rightarrow>
          (case log_append C fault (WDropUser username) (db\<lparr>db_users := us\<rparr>) of
             (db1, Inl e) \<Rightarrow> (db1, Inl e)
           | (db1, Inr _) \<Rightarrow> (db1\<lparr>db_permissions := remove_user username (db_permissions db1)\<rparr>, Inr ())))"

definition alter_user_password ::
  "codec \<Rightarrow> argon \<Rightarrow> string \<Rightarrow> io_fault option \<Rightarrow> string \<Rightarrow> string \<Rightarrow> database \<Rightarrow> database \<times> unit res" where
  "alter_user_password C K salt fault username new_password db =
     (case update_password K salt username new_password (db_users db) of
        Inl e \<Rightarrow> (db, Inl e)
      | Inr us \<Rightarrow>
          let db1 = db\<lparr>db_users := us\<rparr> in
          (case get_user us username of
             None \<Rightarrow> (db1, Inl (Internal (''Failed to find updated user '' @ quoted username)))
           | Some u \<Rightarrow> log_append C fault (WCreateUser (us_username u) (us_password_hash u)) db1))"

definition verify_user :: "argon \<Rightarrow> database \<Rightarrow> string \<Rightarrow> string \<Rightarrow> bool" where
  "verify_user K db username password = verify_login K (db_users db) username password"

text \<open>\<open>get_user_count\<close> is a stub of the sources.\<close>

definition get_user_count :: "database \<Rightarrow> nat" where
  "get_user_count db = 0"

subsection \<open>Grants\<close>

definition grant_permission ::
  "codec \<Rightarrow> io_fault option \<Rightarrow> string \<Rightarrow> string \<Rightarrow> permission \<Rightarrow> database \<Rightarrow> database \<times> unit res" where
  "grant_permission C fault username tbl p db =
     (if \<not> user_exists (db_users db) username
      then (db, Inl (AuthError (''User '' @ quoted username @ '' does not exist'')))
      else if \<not> list_ex (same_name tbl) (db_tables db) then (db, Inl (TableNotFound tbl))
      else log_append C fault (WGrant username tbl p)
             (db\<lparr>db_permissions := grant username tbl p (db_permissions db)\<rparr>))"

definition revoke_permission ::
  "codec \<Rightarrow> io_fault option \<Rightarrow> string \<Rightarrow> string \<Rightarrow> permission \<Rightarrow> database \<Rightarrow> database \<times> unit res" where
  "revoke_permission C fault username tbl p db =
     log_append C fault (WRevoke username tbl p)
       (db\<lparr>db_permissions := revoke username tbl p (db_permissions db)\<rparr>)"

text \<open>The debug form of a list of names, as in an error message; names are taken to be printable.\<close>

definition debug_names :: "string list \<Rightarrow> string" where
  "debug_names names =
     ''['' @ join_with '', '' (map (\<lambda>s. CHR 0x22 # concat (map (\<lambda>c.
        if c = CHR 0x22 \<or> c = CHR 0x5C then [CHR 0x5C, c] else [c]) s) @ [CHR 0x22]) names) @ '']''"

definition denied :: "string \<Rightarrow> string \<Rightarrow> string \<Rightarrow> string list \<Rightarrow> helion_error" where
  "denied what username tbl columns =
     PermissionDenied (''User '' @ quoted username @ '' does not have '' @ what @ '' permission on '' @ quoted tbl @
       '' for columns '' @ debug_names columns)"

definition has_permission :: "database \<Rightarrow> string \<Rightarrow> string \<Rightarrow> string list \<Rightarrow> bool" where
  "has_permission db username tbl columns = can_select (db_permissions db) username tbl columns"

definition check_select :: "database \<Rightarrow> string \<Rightarrow> string \<Rightarrow> string list \<Rightarrow> unit res" where
  "check_select db username tbl columns =
     (if can_select (db_permissions db) username tbl columns then Inr () else Inl (denied ''SELECT'' username tbl columns))"

definition check_insert :: "database \<Rightarrow> string \<Rightarrow> string \<Rightarrow> string list \<Rightarrow> unit res" where
  "check_insert db username tbl columns =
     (if can_insert (db_permissions db) username tbl columns then Inr () else Inl (denied ''INSERT'' username tbl columns))"

definition check_update :: "database \<Rightarrow> string \<Rightarrow> string \<Rightarrow> string list \<Rightarrow> unit res" where
  "check_update db username tbl columns =
     (if can_update (db_permissions db) username tbl columns then Inr () else Inl (denied ''UPDATE'' username tbl columns))"

definition check_delete :: "database \<Rightarrow> string \<Rightarrow> string \<Rightarrow> unit res" where
  "check_delete db username tbl =
     (if can_delete (db_permissions db) username tbl then Inr ()
      else Inl (PermissionDenied (''User '' @ quoted username @ '' does not have DELETE permission on '' @ quoted tbl)))"

subsection \<open>Checkpoint and shutdown\<close>

definition write_checkpoint :: "codec \<Rightarrow> io_fault option \<Rightarrow> database \<Rightarrow> database \<times> unit res" where
  "write_checkpoint C fault db =
     log_append C fault (WCheckpoint (of_nat (length (db_tables db)))
       (map (\<lambda>t. (tb_name t, tb_columns t, tb_version_chains t)) (db_tables db))) db"

text \<open>Loading a checkpoint file: absent, unreadable by the decoder (a warning), or tables.\<close>

definition load_checkpoint ::
  "(byte list \<Rightarrow> (string \<times> column_meta list \<times> row_version list list) list option) \<Rightarrow> byte list option \<Rightarrow> table list option" where
  "load_checkpoint deserialize file =
     (case file of
        None \<Rightarrow> None
      | Some bytes \<Rightarrow> map_option (map restored_table) (deserialize bytes))"

text \<open>
  A rotation can fail at its sync, at the rename (the old file is removed by then), or when the new
  file is opened; the shutdown only warns.
\<close>

datatype rotate_fault = RotateSyncFails | RotateRenameFails | RotateOpenFails

definition rotate_log :: "rotate_fault option \<Rightarrow> database \<Rightarrow> database \<times> wal_files" where
  "rotate_log fault db =
     (case fault of
        None \<Rightarrow>
          (case wal_rotate (db_wal db) (files_of db) of
             (w, d) \<Rightarrow> (db\<lparr>db_wal := w, db_old_wal := wf_old d\<rparr>, d))
      | Some RotateSyncFails \<Rightarrow> (db, files_of db)
      | Some RotateRenameFails \<Rightarrow> let db' = db\<lparr>db_old_wal := None\<rparr> in (db', files_of db')
      | Some RotateOpenFails \<Rightarrow>
          (db\<lparr>db_old_wal := Some (ww_file (db_wal db))\<rparr>,
           \<lparr>wf_old = Some (ww_file (db_wal db)), wf_current = None\<rparr>))"

record shutdown_plan =
  sp_checkpoint :: "io_fault option"
  sp_rotate :: "rotate_fault option"
  sp_engine :: "string \<Rightarrow> fault"
  sp_tables :: "string list"
  sp_flush :: "io_fault option"

definition shutdown :: "codec \<Rightarrow> shutdown_plan \<Rightarrow> database \<Rightarrow> database \<times> wal_files \<times> unit res" where
  "shutdown C P db =
     (case write_checkpoint C (sp_checkpoint P) db of
        (db1, Inl e) \<Rightarrow> (db1, files_of db1, Inl e)
      | (db1, Inr _) \<Rightarrow>
          (case rotate_log (sp_rotate P) db1 of
             (db2, d) \<Rightarrow>
               (case catalog_flush (sp_engine P) (sp_tables P) (db_catalog db2) of
                  (c, Inl e) \<Rightarrow> (set_catalog c db2, d, Inl e)
                | (c, Inr _) \<Rightarrow>
                    (case wal_flush (sp_flush P) (db_wal db2) of
                       (w, r) \<Rightarrow> ((set_catalog c db2)\<lparr>db_wal := w\<rparr>, d, r)))))"

end
