(* ===== verification/Executor.thy ===== *)
theory Executor
  imports Planner Admin
begin

text \<open>
  The executor (\<open>src/src/executor/ops.rs\<close>): the evaluation of query plans over a snapshot of the
  tables, with the three join algorithms, and the execution of every other plan on the database.

  A plan is executed over a list of tables, a snapshot, and the record \<open>exec_env\<close> of what the
  executor takes from elsewhere: the evaluator's environment, the identifiers drawn by
  \<open>uuidv7()\<close> for a row, and the orders in which the hash maps of a join and of the permission
  check are walked. \<open>sort_by\<close> is a stable sort; where the comparison of two rows is no
  preorder the standard library leaves its result open, and the definition is one of its
  answers. The async calls run one after the other here; where a statement can be interrupted, its
  parts are definitions of their own.
\<close>

record exec_env =
  xe_env :: eval_env
  xe_supply :: "datum list \<Rightarrow> uuid_supply"
  xe_hash_order :: "(datum list \<times> datum list list) list \<Rightarrow> (datum list \<times> datum list list) list"
  xe_perm_order :: "(string \<times> string list) list \<Rightarrow> (string \<times> string list) list"

record exec_ctx =
  cx_tables :: "table list"
  cx_snapshot :: u64
  cx_active :: "u64 set"

type_synonym data_rows = "datum list list"
type_synonym tree_result = "data_rows \<times> string list \<times> string list"

record query_result =
  qr_columns :: "string list"
  qr_column_types :: "string list"
  qr_rows :: "string list list"
  qr_rows_affected :: nat

subsection \<open>Shared parts\<close>

text \<open>A condition holds on a row when it evaluates to TRUE; NULL, any other value and an error fail it.\<close>

definition row_passes :: "exec_env \<Rightarrow> table_map \<Rightarrow> expression \<Rightarrow> datum list \<Rightarrow> bool" where
  "row_passes XE tm e r \<longleftrightarrow> evaluate_join (xe_env XE) (xe_supply XE r) r tm e = Inr (DBoolean True)"

definition passes_opt :: "exec_env \<Rightarrow> table_map \<Rightarrow> expression option \<Rightarrow> datum list \<Rightarrow> bool" where
  "passes_opt XE tm cond r = (case cond of None \<Rightarrow> True | Some e \<Rightarrow> row_passes XE tm e r)"

definition shift_by :: "nat \<Rightarrow> table_map \<Rightarrow> table_map" where
  "shift_by w tm = map (\<lambda>(n, off, c). (n, off + w, c)) tm"

definition info_width :: "table_map \<Rightarrow> nat" where
  "info_width tm = sum_list (map (\<lambda>(_, _, c). length c) tm)"

fun collect_expr_table_info :: "logical_plan \<Rightarrow> table_map" where
  "collect_expr_table_info (TableScan table columns _ _ _) = [(table, 0, columns)]"
| "collect_expr_table_info (Join left right _ _) =
     (let left_info = collect_expr_table_info left in
      left_info @ shift_by (info_width left_info) (collect_expr_table_info right))"
| "collect_expr_table_info (Filter input _) = collect_expr_table_info input"
| "collect_expr_table_info (Projection input _ _) = collect_expr_table_info input"
| "collect_expr_table_info (Sort input _) = collect_expr_table_info input"
| "collect_expr_table_info (Limit input _ _) = collect_expr_table_info input"
| "collect_expr_table_info _ = []"

definition build_names :: "table_info list \<Rightarrow> string list" where
  "build_names tables =
     (let names = concat (map (\<lambda>(_, cols). map cm_name cols) tables) in
      concat (map (\<lambda>(tname, cols).
        map (\<lambda>c. if 1 < count_list names (cm_name c) then tname @ ''.'' @ cm_name c else cm_name c) cols) tables))"

definition build_combined_col_names :: "table_map \<Rightarrow> string list" where
  "build_combined_col_names tm = build_names (map (\<lambda>(n, _, c). (n, c)) tm)"

definition build_combined_col_types :: "table_map \<Rightarrow> string list" where
  "build_combined_col_types tm = concat (map (\<lambda>(_, _, cols). map (type_name \<circ> cm_data_type) cols) tm)"

subsection \<open>Scans\<close>

definition find_table_named :: "table list \<Rightarrow> string \<Rightarrow> table res" where
  "find_table_named tables name =
     (case find (\<lambda>t. tb_name t = name) tables of Some t \<Rightarrow> Inr t | None \<Rightarrow> Inl (TableNotFound name))"

definition find_index_named :: "table \<Rightarrow> string \<Rightarrow> index res" where
  "find_index_named t name =
     (case find (\<lambda>i. im_name (ix_meta i) = name) (tb_indexes t) of
        Some ix \<Rightarrow> Inr ix | None \<Rightarrow> Inl (IndexNotFound name))"

definition visible_values :: "exec_ctx \<Rightarrow> table \<Rightarrow> nat list \<Rightarrow> data_rows" where
  "visible_values cx t idxs =
     List.map_filter
       (\<lambda>ri. map_option (\<lambda>rv. row_values (rv_row rv)) (get_visible_version t ri (cx_snapshot cx) (cx_active cx)))
       idxs"

definition index_row_list :: "index \<Rightarrow> datum list \<Rightarrow> nat list" where
  "index_row_list ix key = (case index_get ix key of Some s \<Rightarrow> sorted_list_of_set s | None \<Rightarrow> [])"

definition index_lookup :: "exec_ctx \<Rightarrow> table \<Rightarrow> index \<Rightarrow> datum list \<Rightarrow> data_rows" where
  "index_lookup cx t ix keys = visible_values cx t (index_row_list ix keys)"

definition full_scan :: "exec_ctx \<Rightarrow> table \<Rightarrow> data_rows" where
  "full_scan cx t = map (row_values \<circ> snd) (scan_visible t (cx_snapshot cx) (cx_active cx))"

definition execute_table_scan ::
    "exec_env \<Rightarrow> exec_ctx \<Rightarrow> string \<Rightarrow> column_meta list \<Rightarrow> expression option \<Rightarrow> string option \<Rightarrow>
     datum list option \<Rightarrow> tree_result res" where
  "execute_table_scan XE cx table columns filter_opt index_name index_keys =
     and_then (find_table_named (cx_tables cx) table) (\<lambda>t.
     and_then (case index_name of
         Some idx_name \<Rightarrow>
           and_then (find_index_named t idx_name) (\<lambda>ix.
           Inr (index_lookup cx t ix (case index_keys of Some ks \<Rightarrow> ks | None \<Rightarrow> [])))
       | None \<Rightarrow> Inr (full_scan cx t)) (\<lambda>visible.
     Inr (filter (passes_opt XE [(table, 0, columns)] filter_opt) visible,
          map cm_name columns, map (type_name \<circ> cm_data_type) columns)))"

subsection \<open>Joins\<close>

definition nulls :: "nat \<Rightarrow> datum list" where
  "nulls n = replicate n DNull"

definition nested_left ::
    "(datum list \<Rightarrow> bool) \<Rightarrow> bool \<Rightarrow> nat \<Rightarrow> data_rows \<Rightarrow> datum list \<Rightarrow> data_rows" where
  "nested_left on_match is_left right_width right_rows l =
     (let hits = filter on_match (map (\<lambda>r. l @ r) right_rows) in
      if hits = [] \<and> is_left then [l @ nulls right_width] else hits)"

definition nested_loop_join ::
    "(datum list \<Rightarrow> bool) \<Rightarrow> join_type \<Rightarrow> nat \<Rightarrow> nat \<Rightarrow> data_rows \<Rightarrow> data_rows \<Rightarrow> data_rows" where
  "nested_loop_join on_match jt left_width right_width left_rows right_rows =
     concat (map (nested_left on_match (jt = JLeft) right_width right_rows) left_rows) @
     (if jt = JRight
      then map (\<lambda>r. nulls left_width @ r)
             (filter (\<lambda>r. \<not> list_ex (\<lambda>l. on_match (l @ r)) left_rows) right_rows)
      else [])"

definition key_of :: "nat list \<Rightarrow> datum list \<Rightarrow> datum list" where
  "key_of indices r = List.map_filter (nth_opt r) indices"

definition index_join_row ::
    "exec_ctx \<Rightarrow> table \<Rightarrow> index \<Rightarrow> (datum list \<Rightarrow> bool) \<Rightarrow> bool \<Rightarrow> nat \<Rightarrow> nat list \<Rightarrow> datum list \<Rightarrow> data_rows" where
  "index_join_row cx t ix on_match is_left inner_width outer_keys l =
     (let hits = filter on_match (map (\<lambda>r. l @ r) (index_lookup cx t ix (key_of outer_keys l))) in
      if hits = [] \<and> is_left then [l @ nulls inner_width] else hits)"

text \<open>
  Datums as hash keys: derived equality, under which a NaN differs from itself and the two zeros are
  equal, and a hash of the bits, which tells the zeros apart. Distinct keys are taken to have
  distinct hashes.
\<close>

fun has_nan :: "datum \<Rightarrow> bool" where
  "has_nan (DReal f) = f32_is_nan f"
| "has_nan (DDouble f) = f64_is_nan f"
| "has_nan _ = False"

definition key_match :: "datum list \<Rightarrow> datum list \<Rightarrow> bool" where
  "key_match a b \<longleftrightarrow> a = b \<and> \<not> list_ex has_nan a"

definition datum_peq :: "datum \<Rightarrow> datum \<Rightarrow> bool" where
  "datum_peq a b =
     (case (a, b) of
        (DReal x, DReal y) \<Rightarrow>
          \<not> f32_is_nan x \<and> \<not> f32_is_nan y \<and> (x = y \<or> take_bit 31 x = 0 \<and> take_bit 31 y = 0)
      | (DDouble x, DDouble y) \<Rightarrow>
          \<not> f64_is_nan x \<and> \<not> f64_is_nan y \<and> (x = y \<or> take_bit 63 x = 0 \<and> take_bit 63 y = 0)
      | _ \<Rightarrow> a = b)"

type_synonym hash_table = "(datum list \<times> datum list list) list"

fun hash_push :: "datum list \<Rightarrow> datum list \<Rightarrow> hash_table \<Rightarrow> hash_table" where
  "hash_push key r [] = [(key, [r])]"
| "hash_push key r ((k, rs) # h) =
     (if key_match k key then (k, rs @ [r]) # h else (k, rs) # hash_push key r h)"

definition hash_get :: "hash_table \<Rightarrow> datum list \<Rightarrow> data_rows" where
  "hash_get h key = (case find (\<lambda>(k, _). key_match k key) h of Some (_, rs) \<Rightarrow> rs | None \<Rightarrow> [])"

definition hash_build :: "nat list \<Rightarrow> data_rows \<Rightarrow> hash_table" where
  "hash_build keys rows =
     foldl (\<lambda>h r. if list_ex is_null (key_of keys r) then h else hash_push (key_of keys r) r h) [] rows"

definition probe_has_key :: "datum list \<Rightarrow> data_rows \<Rightarrow> nat list \<Rightarrow> bool" where
  "probe_has_key key probe_rows probe_keys \<longleftrightarrow>
     list_ex (\<lambda>r. list_all2 datum_peq (key_of probe_keys r) key) probe_rows"

definition hash_probe ::
    "(datum list \<Rightarrow> bool) \<Rightarrow> bool \<Rightarrow> hash_table \<Rightarrow> nat list \<Rightarrow> datum list \<Rightarrow> data_rows" where
  "hash_probe on_match build_left h probe_keys p =
     (let key = key_of probe_keys p in
      if list_ex is_null key then []
      else filter on_match (map (\<lambda>b. if build_left then b @ p else p @ b) (hash_get h key)))"

definition hash_join ::
    "(hash_table \<Rightarrow> hash_table) \<Rightarrow> (datum list \<Rightarrow> bool) \<Rightarrow> join_type \<Rightarrow> bool \<Rightarrow> nat list \<Rightarrow> nat list \<Rightarrow>
     nat \<Rightarrow> nat \<Rightarrow> data_rows \<Rightarrow> data_rows \<Rightarrow> data_rows" where
  "hash_join order on_match jt build_left build_key_indices probe_key_indices left_width right_width
       left_rows right_rows =
     (let (build_rows, probe_rows, build_keys, probe_keys, probe_width) =
            (if build_left then (left_rows, right_rows, build_key_indices, probe_key_indices, right_width)
             else (right_rows, left_rows, probe_key_indices, build_key_indices, left_width));
          h = hash_build build_keys build_rows;
          unmatched = concat (map snd (filter (\<lambda>(k, _). \<not> probe_has_key k probe_rows probe_keys) (order h)))
      in concat (map (hash_probe on_match build_left h probe_keys) probe_rows) @
         (if jt = JLeft \<and> build_left then map (\<lambda>r. r @ nulls probe_width) unmatched
          else if jt = JRight \<and> \<not> build_left then map (\<lambda>r. nulls probe_width @ r) unmatched
          else []))"

subsection \<open>Sorting, slicing and projection\<close>

definition order_cmp ::
    "exec_env \<Rightarrow> table_map \<Rightarrow> order_by_expr \<Rightarrow> datum list \<Rightarrow> datum list \<Rightarrow> ordering" where
  "order_cmp XE tm ob a b =
     (let value = (\<lambda>r. evaluate_join (xe_env XE) (xe_supply XE r) r tm (ob_expr ob));
          c = (case (value a, value b) of
                 (Inr av, Inr bv) \<Rightarrow> cmp_or_equal (ee_float (xe_env XE)) av bv
               | _ \<Rightarrow> Equal)
      in case ob_direction ob of
           Asc \<Rightarrow> c
         | Desc \<Rightarrow> (case c of Less \<Rightarrow> Greater | Equal \<Rightarrow> Equal | Greater \<Rightarrow> Less))"

fun rows_cmp :: "exec_env \<Rightarrow> table_map \<Rightarrow> order_by_expr list \<Rightarrow> datum list \<Rightarrow> datum list \<Rightarrow> ordering" where
  "rows_cmp XE tm [] a b = Equal"
| "rows_cmp XE tm (ob # obs) a b =
     (if order_cmp XE tm ob a b \<noteq> Equal then order_cmp XE tm ob a b else rows_cmp XE tm obs a b)"

fun insort_by :: "('a \<Rightarrow> 'a \<Rightarrow> ordering) \<Rightarrow> 'a \<Rightarrow> 'a list \<Rightarrow> 'a list" where
  "insort_by c x [] = [x]"
| "insort_by c x (y # ys) = (if c x y = Greater then y # insort_by c x ys else x # y # ys)"

definition sort_by :: "('a \<Rightarrow> 'a \<Rightarrow> ordering) \<Rightarrow> 'a list \<Rightarrow> 'a list" where
  "sort_by c xs = foldr (insort_by c) xs []"

definition limit_rows :: "u64 \<Rightarrow> u64 \<Rightarrow> data_rows \<Rightarrow> data_rows" where
  "limit_rows lm off rows =
     (if length rows \<le> unat off then [] else take (unat lm) (drop (unat off) rows))"

fun type_at :: "table_info list \<Rightarrow> nat \<Rightarrow> string option" where
  "type_at [] i = None"
| "type_at ((_, cols) # rest) i =
     (if i < length cols then Some (type_name (cm_data_type (cols ! i))) else type_at rest (i - length cols))"

definition project_rows :: "nat \<Rightarrow> nat list \<Rightarrow> data_rows \<Rightarrow> data_rows" where
  "project_rows width columns rows =
     (if list_ex (\<lambda>i. width \<le> i) columns then rows else map (key_of columns) rows)"

subsection \<open>Plan trees\<close>

text \<open>The parts of the two inputs of a join that its algorithm works on.\<close>

definition join_result ::
    "exec_env \<Rightarrow> exec_ctx \<Rightarrow> table_map \<Rightarrow> table_map \<Rightarrow> join_type \<Rightarrow> join_algorithm \<Rightarrow>
     data_rows \<Rightarrow> data_rows res \<Rightarrow> tree_result res" where
  "join_result XE cx left_info right_info jt algorithm left_rows right_result =
     (let tm = left_info @ shift_by (info_width left_info) right_info;
          lw = info_width left_info; rw = info_width right_info in
      case algorithm of
        NestedLoop on_clause \<Rightarrow>
          and_then right_result (\<lambda>right_rows.
          Inr (nested_loop_join (passes_opt XE tm on_clause) jt lw rw left_rows right_rows,
               build_combined_col_names tm, build_combined_col_types tm))
      | HashJoin build_left build_keys probe_keys remaining_on \<Rightarrow>
          and_then right_result (\<lambda>right_rows.
          Inr (hash_join (xe_hash_order XE) (passes_opt XE tm remaining_on) jt build_left build_keys probe_keys
                 lw rw left_rows right_rows,
               build_combined_col_names tm, build_combined_col_types tm))
      | IndexNestedLoop inner_table inner_columns index_name outer_keys remaining_on \<Rightarrow>
          and_then (find_table_named (cx_tables cx) inner_table) (\<lambda>t.
          and_then (find_index_named t index_name) (\<lambda>ix.
          let im = left_info @ [(inner_table, lw, inner_columns)] in
          Inr (concat (map (index_join_row cx t ix (passes_opt XE im remaining_on) (jt = JLeft)
                              (length inner_columns) outer_keys) left_rows),
               build_combined_col_names im, build_combined_col_types im))))"

fun execute_tree :: "exec_env \<Rightarrow> exec_ctx \<Rightarrow> logical_plan \<Rightarrow> tree_result res" where
  "execute_tree XE cx (TableScan table columns filter_opt index_name index_keys) =
     execute_table_scan XE cx table columns filter_opt index_name index_keys"
| "execute_tree XE cx (Join left right jt algorithm) =
     and_then (execute_tree XE cx left) (\<lambda>(left_rows, _, _).
     join_result XE cx (collect_expr_table_info left) (collect_expr_table_info right) jt algorithm left_rows
       (and_then (execute_tree XE cx right) (\<lambda>(right_rows, _, _). Inr right_rows)))"
| "execute_tree XE cx (Filter input predicate) =
     and_then (execute_tree XE cx input) (\<lambda>(rows, names, types).
     Inr (filter (row_passes XE (collect_expr_table_info input) predicate) rows, names, types))"
| "execute_tree XE cx (Projection input columns table_map) =
     and_then (execute_tree XE cx input) (\<lambda>(rows, _, _).
     let col_names = build_names table_map in
     Inr (project_rows (length col_names) columns rows,
          List.map_filter (nth_opt col_names) columns,
          List.map_filter (type_at table_map) columns))"
| "execute_tree XE cx (Sort input order_by) =
     and_then (execute_tree XE cx input) (\<lambda>(rows, names, types).
     Inr (sort_by (rows_cmp XE (collect_expr_table_info input) order_by) rows, names, types))"
| "execute_tree XE cx (Limit input lm off) =
     and_then (execute_tree XE cx input) (\<lambda>(rows, names, types).
     Inr (limit_rows lm off rows, names, types))"
| "execute_tree XE cx (Flat _) = Inl (Internal ''Unexpected flat plan node in tree execution'')"

text \<open>\<open>resolve_index_scan\<close>, which no part of the program calls: an equality of a column with a literal, answered by
  the first index that covers the column.\<close>

definition resolve_index_scan :: "table \<Rightarrow> expression option \<Rightarrow> column_meta list \<Rightarrow> nat list option" where
  "resolve_index_scan t where_clause table_columns = (case where_clause of
      Some (BinaryOp left op right) \<Rightarrow>
        Option.bind (case (left, right) of
            (Column c, Literal v) \<Rightarrow> Some (c, v)
          | (Literal v, Column c) \<Rightarrow> (if op = OpEq \<or> op = OpNe then Some (c, v) else None)
          | _ \<Rightarrow> None) (\<lambda>(col_name, literal).
        Option.bind (position (\<lambda>c. cm_name c = col_name) table_columns) (\<lambda>col_idx.
        Option.bind (find (\<lambda>ix. col_idx \<in> set (im_columns (ix_meta ix))) (tb_indexes t)) (\<lambda>ix.
        if op = OpEq then map_option sorted_list_of_set (index_get ix [literal]) else None)))
    | _ \<Rightarrow> None)"

end
