(* ===== verification/Sql_Convert.thy ===== *)
theory Sql_Convert
  imports Planner
begin

text \<open>
  The second half of the SQL front end (\<open>src/src/sql/parser.rs\<close>): \<open>convert_statement\<close> and its
  helpers turn the syntax tree of the \<open>sqlparser\<close> crate into the statements of the planner, and
  \<open>DataType::from_sql\<close> (\<open>src/src/storage/types.rs\<close>) its column types.

  The tree is represented by the constructors and fields that the code inspects. Every other
  constructor is an \<open>Other\<close>, a name is its printed form, which is all that is read of it, and the
  flags \<open>negated\<close>, which the code skips with \<open>..\<close>, are kept so that what is lost can be stated.
  The printed form of a syntax tree and the fresh identifiers of \<open>UUIDV7()\<close> are parameters.
\<close>

subsection \<open>The syntax tree\<close>

datatype sql_value =
    ValNumber string
  | ValSingleQuoted string
  | ValNational string
  | ValBoolean bool
  | ValNull
  | ValOther

datatype sql_binary =
    SqlEq | SqlNotEq | SqlLt | SqlLtEq | SqlGt | SqlGtEq | SqlAnd | SqlOr
  | SqlPlus | SqlMinus | SqlMultiply | SqlDivide | SqlOtherBinary

datatype sql_unary = SqlUnaryNot | SqlUnaryMinus | SqlOtherUnary

datatype 'e sql_arg = UnnamedArg 'e | OtherArg

datatype 'e sql_args = ArgList "'e sql_arg list" | OtherArgs

datatype sql_expr =
    SxIdentifier string
  | SxCompound "string list"
  | SxValue sql_value
  | SxBinary sql_expr sql_binary sql_expr
  | SxUnary sql_unary sql_expr
  | SxIsNull sql_expr
  | SxIsNotNull sql_expr
  | SxInList sql_expr "sql_expr list" bool
  | SxBetween sql_expr bool sql_expr sql_expr
  | SxLike sql_expr bool sql_expr
  | SxFunction string "sql_expr sql_args"
  | SxNested sql_expr
  | SxCast sql_expr
  | SxOther string

datatype char_length = IntegerLength u64 | MaxLength

datatype sql_type =
    SqBoolean | SqSmallInt | SqInt | SqInteger | SqBigInt | SqReal | SqDouble | SqFloat
  | SqVarchar "char_length option" | SqChar "char_length option" | SqText
  | SqDate | SqTime | SqTimestamp | SqUuid | SqCustom string | SqOtherType string

datatype column_option =
    OptNotNull | OptNull | OptUnique bool | OptDefault sql_expr
  | OptForeignKey string "string list" | OptOther

record sql_column =
  sc_name :: string
  sc_type :: sql_type
  sc_options :: "column_option list"

datatype table_constraint =
    ConForeignKey "string list" string "string list"
  | ConOther

datatype join_constraint = JoinOn sql_expr | JoinOtherConstraint

datatype join_operator =
    OpInner join_constraint | OpJoin join_constraint | OpLeftOuter join_constraint | OpLeft join_constraint
  | OpRightOuter join_constraint | OpRight join_constraint | OpCrossJoin | OpFullOuter join_constraint
  | OpOtherJoin

datatype table_factor = FactorTable string | FactorOther string

record table_with_joins =
  tj_relation :: table_factor
  tj_joins :: "(table_factor \<times> join_operator) list"

datatype select_item =
    ItemWildcard | ItemUnnamed sql_expr | ItemAliased sql_expr string | ItemQualifiedWildcard string

record sql_select =
  sl_from :: "table_with_joins list"
  sl_projection :: "select_item list"
  sl_selection :: "sql_expr option"

datatype set_expr = SetSelect sql_select | SetValues "sql_expr list list" | SetOther

datatype order_by_kind = OrderExpressions "(sql_expr \<times> bool option) list" | OrderOther

record sql_query =
  qy_body :: set_expr
  qy_order_by :: "order_by_kind option"
  qy_limit :: "sql_expr option"
  qy_offset :: "sql_expr option"

record sql_insert =
  si_table :: "string option"
  si_columns :: "string list"
  si_source :: "sql_query option"
  si_assignments :: "sql_expr list"

datatype sql_statement =
    AstCreateTable string "sql_column list" "table_constraint list"
  | AstExplain bool bool string
  | AstDrop bool bool "string list"
  | AstInsert sql_insert
  | AstQuery sql_query
  | AstUpdate string "(string option \<times> sql_expr) list" "sql_expr option"
  | AstDelete "string list" "sql_expr option"
  | AstOther string

record sql_front =
  sf_parse :: "string \<Rightarrow> string + sql_statement list"
  sf_show :: "sql_expr \<Rightarrow> string"
  sf_debug :: "sql_expr \<Rightarrow> string"
  sf_debug_statement :: "sql_statement \<Rightarrow> string"
  sf_uuid :: "nat list \<Rightarrow> byte list"

definition debug_str :: "string \<Rightarrow> string" where
  "debug_str s =
     CHR 0x22 # concat (map (\<lambda>c. if c = CHR 0x22 \<or> c = CHR 0x5C then [CHR 0x5C, c] else [c]) s) @ [CHR 0x22]"

subsection \<open>Numbers\<close>

text \<open>\<open>str::parse\<close> for \<open>i64\<close>, \<open>u64\<close>, and for \<open>f64\<close> on texts that contain a decimal point.\<close>

definition is_digit :: "char \<Rightarrow> bool" where
  "is_digit c = (let n = (of_char c :: nat) in 48 \<le> n \<and> n \<le> 57)"

definition digit_value :: "char \<Rightarrow> nat" where
  "digit_value c = of_char c - 48"

fun digits_value :: "nat \<Rightarrow> string \<Rightarrow> nat" where
  "digits_value acc [] = acc"
| "digits_value acc (c # s) = digits_value (10 * acc + digit_value c) s"

definition parse_digits :: "string \<Rightarrow> nat option" where
  "parse_digits s = (if s \<noteq> [] \<and> list_all is_digit s then Some (digits_value 0 s) else None)"

definition split_sign :: "string \<Rightarrow> bool \<times> string" where
  "split_sign s = (case s of
      c # t \<Rightarrow> if c = CHR ''-'' then (True, t) else if c = CHR ''+'' then (False, t) else (False, s)
    | [] \<Rightarrow> (False, []))"

definition parse_int :: "string \<Rightarrow> int option" where
  "parse_int s = (case split_sign s of
      (neg, t) \<Rightarrow> map_option (\<lambda>n. if neg then - int n else int n) (parse_digits t))"

definition parse_i64 :: "string \<Rightarrow> i64 option" where
  "parse_i64 s = (case parse_int s of
      Some i \<Rightarrow> if - (2 ^ 63) \<le> i \<and> i < 2 ^ 63 then Some (word_of_int i) else None
    | None \<Rightarrow> None)"

definition parse_u64 :: "string \<Rightarrow> u64 option" where
  "parse_u64 s = (case s of
      CHR ''-'' # _ \<Rightarrow> None
    | _ \<Rightarrow> (case parse_int s of
        Some i \<Rightarrow> if i < 2 ^ 64 then Some (word_of_int i) else None
      | None \<Rightarrow> None))"

definition split_at :: "(char \<Rightarrow> bool) \<Rightarrow> string \<Rightarrow> string \<times> string option" where
  "split_at P s = (takeWhile (\<lambda>c. \<not> P c) s,
     case dropWhile (\<lambda>c. \<not> P c) s of [] \<Rightarrow> None | _ # t \<Rightarrow> Some t)"

definition parse_f64 :: "string \<Rightarrow> u64 option" where
  "parse_f64 s =
     (case split_sign s of (neg, body) \<Rightarrow>
      case split_at (\<lambda>c. c = CHR ''e'' \<or> c = CHR ''E'') body of (mantissa, expo) \<Rightarrow>
      case split_at (\<lambda>c. c = CHR ''.'') mantissa of (whole, places) \<Rightarrow>
        (let digits = whole @ (case places of Some f \<Rightarrow> f | None \<Rightarrow> []);
             k0 = (case places of Some f \<Rightarrow> length f | None \<Rightarrow> 0)
         in case (parse_digits digits, case expo of None \<Rightarrow> Some 0 | Some x \<Rightarrow> parse_int x) of
              (Some n, Some k) \<Rightarrow>
                Some (f64_of_rat neg
                  (of_nat n * (if 0 \<le> k - int k0 then 10 ^ nat (k - int k0)
                               else 1 / 10 ^ nat (int k0 - k))))
            | _ \<Rightarrow> None))"

subsection \<open>Values and expressions\<close>

definition sql_value_to_datum :: "sql_value \<Rightarrow> datum" where
  "sql_value_to_datum v = (case v of
      ValNumber n \<Rightarrow>
        if CHR ''.'' \<in> set n
        then (case parse_f64 n of Some d \<Rightarrow> DDouble d | None \<Rightarrow> DNull)
        else (case parse_i64 n of Some i \<Rightarrow> DBigInt i | None \<Rightarrow> DNull)
    | ValSingleQuoted s \<Rightarrow> DText s
    | ValNational s \<Rightarrow> DText s
    | ValBoolean b \<Rightarrow> DBoolean b
    | ValNull \<Rightarrow> DNull
    | ValOther \<Rightarrow> DNull)"

definition sql_literal_to_datum :: "sql_expr \<Rightarrow> datum option" where
  "sql_literal_to_datum e = (case e of SxValue v \<Rightarrow> Some (sql_value_to_datum v) | _ \<Rightarrow> None)"

definition sql_expr_to_datum_opt :: "sql_expr \<Rightarrow> datum option" where
  "sql_expr_to_datum_opt e = (case e of SxValue v \<Rightarrow> Some (sql_value_to_datum v) | _ \<Rightarrow> None)"

text \<open>\<open>-n.parse::<i64>()? as i32\<close>: the negation binds first, the cast keeps the low 32 bits.\<close>

definition negative_number :: "string \<Rightarrow> datum res" where
  "negative_number n =
     (if CHR ''.'' \<in> set n
      then (case parse_f64 n of
              Some d \<Rightarrow> Inr (DDouble (f64_neg d)) | None \<Rightarrow> Inl (Parse (''Invalid number: '' @ n)))
      else (case parse_i64 n of
              Some i \<Rightarrow> Inr (DInteger (ucast (- i))) | None \<Rightarrow> Inl (Parse (''Invalid integer: '' @ n))))"

definition sql_expr_to_datum :: "sql_front \<Rightarrow> byte list \<Rightarrow> sql_expr \<Rightarrow> datum res" where
  "sql_expr_to_datum F uuid e = (case e of
      SxValue v \<Rightarrow> Inr (sql_value_to_datum v)
    | SxFunction name _ \<Rightarrow>
        if to_uppercase name = ''UUIDV7'' then Inr (DUuidV7 uuid)
        else Inl (Parse (''Unsupported function in literal context: '' @ name))
    | SxUnary SqlUnaryMinus inner \<Rightarrow>
        (case inner of
           SxValue (ValNumber n) \<Rightarrow> negative_number n
         | _ \<Rightarrow> Inl (Parse ''Invalid negative expression''))
    | _ \<Rightarrow> Inl (Parse (''Expected literal value, got: '' @ sf_debug F e)))"

definition binary_operator_of :: "sql_binary \<Rightarrow> binary_operator option" where
  "binary_operator_of op = (case op of
      SqlEq \<Rightarrow> Some OpEq | SqlNotEq \<Rightarrow> Some OpNe | SqlLt \<Rightarrow> Some OpLt | SqlLtEq \<Rightarrow> Some OpLe
    | SqlGt \<Rightarrow> Some OpGt | SqlGtEq \<Rightarrow> Some OpGe | SqlAnd \<Rightarrow> Some OpAnd | SqlOr \<Rightarrow> Some OpOr
    | SqlPlus \<Rightarrow> Some OpAdd | SqlMinus \<Rightarrow> Some OpSub | SqlMultiply \<Rightarrow> Some OpMul | SqlDivide \<Rightarrow> Some OpDiv
    | SqlOtherBinary \<Rightarrow> None)"

definition like_pattern :: "sql_front \<Rightarrow> sql_expr \<Rightarrow> string" where
  "like_pattern F e = (case e of SxValue (ValSingleQuoted s) \<Rightarrow> s | _ \<Rightarrow> sf_show F e)"

fun unnamed_args :: "sql_expr sql_args \<Rightarrow> sql_expr list" where
  "unnamed_args (ArgList xs) = List.map_filter (\<lambda>a. case a of UnnamedArg e \<Rightarrow> Some e | OtherArg \<Rightarrow> None) xs"
| "unnamed_args OtherArgs = []"

lemma size_unnamed_args [termination_simp]: "e \<in> set (unnamed_args args) \<Longrightarrow> size e < Suc (size_sql_args size args)"
proof (cases args)
  case (ArgList xs)
  assume "e \<in> set (unnamed_args args)"
  then have "UnnamedArg e \<in> set xs"
    using ArgList by (auto simp: map_filter_def split: sql_arg.splits)
  then have "size_sql_arg size (UnnamedArg e) \<le> size_list (size_sql_arg size) xs"
    by (simp add: size_list_estimation')
  then show ?thesis using ArgList by simp
qed simp

fun sql_expr_to_expression :: "sql_front \<Rightarrow> sql_expr \<Rightarrow> expression" where
  "sql_expr_to_expression F (SxIdentifier name) = Column name"
| "sql_expr_to_expression F (SxCompound names) =
     (case names of [t, c] \<Rightarrow> QualifiedColumn t c | _ \<Rightarrow> Column (join_with ''.'' names))"
| "sql_expr_to_expression F (SxValue v) = Literal (sql_value_to_datum v)"
| "sql_expr_to_expression F (SxBinary l op r) =
     (case binary_operator_of op of
        None \<Rightarrow> Literal DNull
      | Some b \<Rightarrow> BinaryOp (sql_expr_to_expression F l) b (sql_expr_to_expression F r))"
| "sql_expr_to_expression F (SxUnary op e) =
     (case op of
        SqlUnaryNot \<Rightarrow> UnaryOp OpNot (sql_expr_to_expression F e)
      | SqlUnaryMinus \<Rightarrow> UnaryOp OpNeg (sql_expr_to_expression F e)
      | SqlOtherUnary \<Rightarrow> Literal DNull)"
| "sql_expr_to_expression F (SxIsNull e) = IsNull (sql_expr_to_expression F e)"
| "sql_expr_to_expression F (SxIsNotNull e) = IsNotNull (sql_expr_to_expression F e)"
| "sql_expr_to_expression F (SxInList e xs negated) =
     In (sql_expr_to_expression F e) (List.map_filter sql_expr_to_datum_opt xs)"
| "sql_expr_to_expression F (SxBetween e negated low high) =
     Between (sql_expr_to_expression F e) (sql_expr_to_expression F low) (sql_expr_to_expression F high)"
| "sql_expr_to_expression F (SxLike e negated pattern) =
     Like (sql_expr_to_expression F e) (like_pattern F pattern)"
| "sql_expr_to_expression F (SxFunction name args) =
     Function name (map (sql_expr_to_expression F) (unnamed_args args))"
| "sql_expr_to_expression F (SxNested e) = sql_expr_to_expression F e"
| "sql_expr_to_expression F (SxCast e) = sql_expr_to_expression F e"
| "sql_expr_to_expression F (SxOther text) = Literal DNull"

subsection \<open>Column definitions\<close>

definition char_len :: "char_length option \<Rightarrow> nat option" where
  "char_len cl = (case cl of Some (IntegerLength n) \<Rightarrow> Some (unat n) | _ \<Rightarrow> None)"

definition from_sql :: "sql_type \<Rightarrow> data_type res" where
  "from_sql dt = (case dt of
      SqBoolean \<Rightarrow> Inr TyBoolean
    | SqSmallInt \<Rightarrow> Inr TySmallInt
    | SqInt \<Rightarrow> Inr TyInteger
    | SqInteger \<Rightarrow> Inr TyInteger
    | SqBigInt \<Rightarrow> Inr TyBigInt
    | SqReal \<Rightarrow> Inr TyReal
    | SqDouble \<Rightarrow> Inr TyDouble
    | SqFloat \<Rightarrow> Inr TyDouble
    | SqVarchar cl \<Rightarrow> Inr (TyVarChar (char_len cl))
    | SqChar cl \<Rightarrow> Inr (TyChar (char_len cl))
    | SqText \<Rightarrow> Inr TyText
    | SqDate \<Rightarrow> Inr TyDate
    | SqTime \<Rightarrow> Inr TyTime
    | SqTimestamp \<Rightarrow> Inr TyTimestamp
    | SqUuid \<Rightarrow> Inr TyUuid
    | SqCustom name \<Rightarrow>
        (let raw = to_uppercase name in
         if raw = ''U_SMALLINT'' then Inr TyUnsignedSmallInt
         else if raw = ''U_INTEGER'' then Inr TyUnsignedInteger
         else if raw = ''U_BIGINT'' then Inr TyUnsignedBigInt
         else if raw = ''UUIDV7'' then Inr TyUuidV7
         else Inl (Internal (''Unsupported SQL type: '' @ debug_str raw)))
    | SqOtherType debug \<Rightarrow> Inl (Internal (''Unsupported SQL type: '' @ debug)))"

definition apply_option :: "column_option \<Rightarrow> column_meta \<Rightarrow> column_meta" where
  "apply_option opt m = (case opt of
      OptNotNull \<Rightarrow> m\<lparr>cm_nullable := False\<rparr>
    | OptNull \<Rightarrow> m\<lparr>cm_nullable := True\<rparr>
    | OptUnique is_primary \<Rightarrow>
        (if is_primary then m\<lparr>cm_is_primary_key := True, cm_is_unique := True, cm_nullable := False\<rparr>
         else m\<lparr>cm_is_unique := True\<rparr>)
    | OptDefault e \<Rightarrow>
        (case sql_literal_to_datum e of Some d \<Rightarrow> m\<lparr>cm_default := Some d\<rparr> | None \<Rightarrow> m)
    | OptForeignKey foreign_table referred \<Rightarrow>
        (case referred of
           ref_col # _ \<Rightarrow> m\<lparr>cm_references := Some \<lparr>fk_foreign_table = foreign_table, fk_foreign_column = ref_col\<rparr>\<rparr>
         | [] \<Rightarrow> m)
    | OptOther \<Rightarrow> m)"

definition convert_column :: "sql_column \<Rightarrow> column_meta res" where
  "convert_column col =
     and_then (from_sql (sc_type col)) (\<lambda>ty.
     Inr (fold apply_option (sc_options col) (column_new (sc_name col) ty)))"

definition reference_column :: "string \<Rightarrow> string \<times> string \<Rightarrow> column_meta list \<Rightarrow> column_meta list" where
  "reference_column foreign_table pair cols =
     update_first (\<lambda>c. eq_ignore_ascii_case (cm_name c) (fst pair))
       (\<lambda>c. c\<lparr>cm_references := Some \<lparr>fk_foreign_table = foreign_table, fk_foreign_column = snd pair\<rparr>\<rparr>) cols"

definition apply_constraint :: "table_constraint \<Rightarrow> column_meta list \<Rightarrow> column_meta list" where
  "apply_constraint con cols = (case con of
      ConForeignKey columns foreign_table referred \<Rightarrow>
        fold (reference_column foreign_table) (zip columns referred) cols
    | ConOther \<Rightarrow> cols)"

definition convert_create_table ::
    "string \<Rightarrow> sql_column list \<Rightarrow> table_constraint list \<Rightarrow> helion_statement res" where
  "convert_create_table name columns constraints =
     and_then (try_map convert_column columns) (\<lambda>cols.
     Inr (StCreateTable name (fold apply_constraint constraints cols) None))"

subsection \<open>Queries\<close>

definition constraint_to_expr :: "sql_front \<Rightarrow> join_constraint \<Rightarrow> expression option" where
  "constraint_to_expr F con = (case con of
      JoinOn e \<Rightarrow> Some (sql_expr_to_expression F e) | JoinOtherConstraint \<Rightarrow> None)"

definition factor_text :: "table_factor \<Rightarrow> string" where
  "factor_text f = (case f of FactorTable name \<Rightarrow> name | FactorOther debug \<Rightarrow> debug)"

definition convert_join_operator :: "sql_front \<Rightarrow> join_operator \<Rightarrow> join_type \<times> expression option" where
  "convert_join_operator F op = (case op of
      OpInner c \<Rightarrow> (JInner, constraint_to_expr F c)
    | OpJoin c \<Rightarrow> (JInner, constraint_to_expr F c)
    | OpLeftOuter c \<Rightarrow> (JLeft, constraint_to_expr F c)
    | OpLeft c \<Rightarrow> (JLeft, constraint_to_expr F c)
    | OpRightOuter c \<Rightarrow> (JRight, constraint_to_expr F c)
    | OpRight c \<Rightarrow> (JRight, constraint_to_expr F c)
    | OpCrossJoin \<Rightarrow> (JCross, None)
    | OpFullOuter _ \<Rightarrow> (JInner, None)
    | OpOtherJoin \<Rightarrow> (JInner, None))"

definition extract_joins :: "sql_front \<Rightarrow> table_with_joins \<Rightarrow> join_clause list" where
  "extract_joins F from = map (\<lambda>(relation, op).
     case convert_join_operator F op of
       (jt, on) \<Rightarrow> \<lparr>jc_right_table = factor_text relation, jc_join_type = jt, jc_on_clause = on\<rparr>) (tj_joins from)"

definition convert_item :: "sql_front \<Rightarrow> select_item \<Rightarrow> select_column" where
  "convert_item F item = (case item of
      ItemWildcard \<Rightarrow> Wildcard
    | ItemUnnamed e \<Rightarrow> Expr (sql_expr_to_expression F e)
    | ItemAliased e alias \<Rightarrow> Qualified (sf_show F e) (Some alias)
    | ItemQualifiedWildcard name \<Rightarrow> QualWildcard name)"

definition convert_order_by :: "sql_front \<Rightarrow> order_by_kind option \<Rightarrow> order_by_expr list" where
  "convert_order_by F ob = (case ob of
      Some (OrderExpressions exprs) \<Rightarrow> map (\<lambda>(e, asc).
        \<lparr>ob_expr = sql_expr_to_expression F e,
         ob_direction = (if asc = Some False then Desc else Asc)\<rparr>) exprs
    | _ \<Rightarrow> [])"

definition literal_u64 :: "sql_expr option \<Rightarrow> u64 option" where
  "literal_u64 e = (case e of Some (SxValue (ValNumber n)) \<Rightarrow> parse_u64 n | _ \<Rightarrow> None)"

definition convert_query :: "sql_front \<Rightarrow> sql_query \<Rightarrow> helion_statement res" where
  "convert_query F query = (case qy_body query of
      SetSelect sel \<Rightarrow>
        (case sl_from sel of
           [] \<Rightarrow> Inl (Parse ''SELECT requires a FROM clause'')
         | from # _ \<Rightarrow>
             (case tj_relation from of
                FactorOther debug \<Rightarrow> Inl (Parse (''Unsupported table expression: '' @ debug))
              | FactorTable name \<Rightarrow>
                  Inr (StSelect \<lparr>
                    ss_table_name = name,
                    ss_columns = map (convert_item F) (sl_projection sel),
                    ss_where_clause = map_option (sql_expr_to_expression F) (sl_selection sel),
                    ss_order_by = convert_order_by F (qy_order_by query),
                    ss_limit = literal_u64 (qy_limit query),
                    ss_offset = literal_u64 (qy_offset query),
                    ss_joins = extract_joins F from\<rparr>)))
    | _ \<Rightarrow> Inl (Parse ''Only SELECT queries are supported''))"

subsection \<open>Statements\<close>

definition row_datums :: "sql_front \<Rightarrow> nat \<Rightarrow> nat \<Rightarrow> sql_expr list \<Rightarrow> datum list res" where
  "row_datums F k i exprs =
     try_map (\<lambda>(j, e). sql_expr_to_datum F (sf_uuid F [k, i, j]) e) (enumerate 0 exprs)"

definition insert_values :: "sql_front \<Rightarrow> nat \<Rightarrow> sql_query option \<Rightarrow> datum list list res" where
  "insert_values F k source = (case source of
      Some q \<Rightarrow>
        (case qy_body q of
           SetValues rows \<Rightarrow> try_map (\<lambda>(i, r). row_datums F k i r) (enumerate 0 rows)
         | _ \<Rightarrow> Inr [])
    | None \<Rightarrow> Inr [])"

definition convert_insert :: "sql_front \<Rightarrow> nat \<Rightarrow> sql_insert \<Rightarrow> helion_statement res" where
  "convert_insert F k ins = (case si_table ins of
      None \<Rightarrow> Inl (Parse ''Only named tables supported in INSERT'')
    | Some table_name \<Rightarrow>
        and_then (insert_values F k (si_source ins)) (\<lambda>rows.
        and_then (if si_assignments ins = [] then Inr []
                  else and_then (row_datums F k (length rows) (si_assignments ins)) (\<lambda>r. Inr [r])) (\<lambda>extra.
        Inr (StInsert table_name (si_columns ins) (rows @ extra)))))"

definition convert_assignment :: "sql_front \<Rightarrow> nat \<Rightarrow> nat \<times> string option \<times> sql_expr \<Rightarrow> (string \<times> datum) res" where
  "convert_assignment F k a = (case a of
      (i, None, e) \<Rightarrow> Inl (Parse ''Only simple column assignments supported'')
    | (i, Some c, e) \<Rightarrow> and_then (sql_expr_to_datum F (sf_uuid F [k, i]) e) (\<lambda>d. Inr (c, d)))"

definition convert_statement :: "sql_front \<Rightarrow> nat \<Rightarrow> sql_statement \<Rightarrow> helion_statement res" where
  "convert_statement F k stmt = (case stmt of
      AstCreateTable name columns constraints \<Rightarrow> convert_create_table name columns constraints
    | AstExplain analyze verbose text \<Rightarrow> Inr (StExplain analyze verbose text)
    | AstDrop is_table if_exists names \<Rightarrow>
        if is_table then Inr (StDropTable (case names of n # _ \<Rightarrow> n | [] \<Rightarrow> []) if_exists)
        else Inl (Parse ''Only DROP TABLE is supported'')
    | AstInsert ins \<Rightarrow> convert_insert F k ins
    | AstQuery q \<Rightarrow> convert_query F q
    | AstUpdate table_name assignments selection \<Rightarrow>
        and_then (try_map (convert_assignment F k) (enumerate 0 assignments)) (\<lambda>assigns.
        Inr (StUpdate table_name assigns (map_option (sql_expr_to_expression F) selection)))
    | AstDelete tables selection \<Rightarrow>
        Inr (StDelete (case tables of t # _ \<Rightarrow> t | [] \<Rightarrow> [])
          (map_option (sql_expr_to_expression F) selection))
    | AstOther debug \<Rightarrow> Inl (Parse (''Unsupported statement: '' @ debug)))"

end
