(* ===== verification/Sql_Text.thy ===== *)
theory Sql_Text
  imports Sql_Convert
begin

text \<open>
  The first half of the SQL front end (\<open>src/src/sql/parser.rs\<close>): \<open>parse\<close>, which hands a text to
  the \<open>sqlparser\<close> crate and falls back to parsers of its own for the statements that crate or the
  conversion refuses: users, grants, indexes, storage engines, SHOW and USE. These work by searching
  and slicing strings; a slice whose end lies before its start panics, which is None here.
\<close>

subsection \<open>String operations of the standard library\<close>

definition starts_with :: "string \<Rightarrow> string \<Rightarrow> bool" where
  "starts_with p s \<longleftrightarrow> take (length p) s = p"

fun find_str :: "string \<Rightarrow> string \<Rightarrow> nat option" where
  "find_str p [] = (if p = [] then Some 0 else None)"
| "find_str p (c # s) = (if starts_with p (c # s) then Some 0 else map_option Suc (find_str p s))"

fun rfind_str :: "string \<Rightarrow> string \<Rightarrow> nat option" where
  "rfind_str p [] = (if p = [] then Some 0 else None)"
| "rfind_str p (c # s) =
     (case rfind_str p s of
        Some i \<Rightarrow> Some (Suc i) | None \<Rightarrow> if starts_with p (c # s) then Some 0 else None)"

definition contains_str :: "string \<Rightarrow> string \<Rightarrow> bool" where
  "contains_str p s \<longleftrightarrow> find_str p s \<noteq> None"

definition strip_prefix :: "string \<Rightarrow> string \<Rightarrow> string option" where
  "strip_prefix p s = (if starts_with p s then Some (drop (length p) s) else None)"

definition trim_start :: "string \<Rightarrow> string" where
  "trim_start s = dropWhile is_whitespace s"

definition trim_end_matches :: "char \<Rightarrow> string \<Rightarrow> string" where
  "trim_end_matches c s = rev (dropWhile (\<lambda>x. x = c) (rev s))"

definition trim_matches :: "char \<Rightarrow> string \<Rightarrow> string" where
  "trim_matches c s = trim_end_matches c (dropWhile (\<lambda>x. x = c) s)"

fun split_char :: "char \<Rightarrow> string \<Rightarrow> string list" where
  "split_char c [] = [[]]"
| "split_char c (x # s) =
     (if x = c then [] # split_char c s
      else case split_char c s of y # ys \<Rightarrow> (x # y) # ys | [] \<Rightarrow> [[x]])"

fun split_spaces :: "string \<Rightarrow> string list" where
  "split_spaces [] = [[]]"
| "split_spaces (x # s) =
     (if is_whitespace x then [] # split_spaces s
      else case split_spaces s of y # ys \<Rightarrow> (x # y) # ys | [] \<Rightarrow> [[x]])"

definition split_whitespace :: "string \<Rightarrow> string list" where
  "split_whitespace s = filter (\<lambda>w. w \<noteq> []) (split_spaces s)"

definition slice :: "nat \<Rightarrow> nat \<Rightarrow> string \<Rightarrow> string option" where
  "slice a b s = (if a \<le> b \<and> b \<le> length s then Some (take (b - a) (drop a s)) else None)"

definition first_some :: "'a option \<Rightarrow> 'a option \<Rightarrow> 'a option" where
  "first_some a b = (case a of Some x \<Rightarrow> Some x | None \<Rightarrow> b)"

definition column_names :: "string \<Rightarrow> string list" where
  "column_names s = filter (\<lambda>c. c \<noteq> []) (map trim (split_char (CHR '','') s))"

type_synonym parsed = "helion_statement list res option"

subsection \<open>Users\<close>

definition trim_statement :: "string \<Rightarrow> string" where
  "trim_statement s = trim (trim_end_matches (CHR '';'') (trim s))"

definition password_text :: "string \<Rightarrow> string" where
  "password_text rest =
     (case rest of
        q # stripped \<Rightarrow>
          if q = CHR 0x27 then takeWhile (\<lambda>c. c \<noteq> CHR 0x27) stripped
          else (case split_whitespace rest of w # _ \<Rightarrow> w | [] \<Rightarrow> rest)
      | [] \<Rightarrow> [])"

fun find_keyword :: "string list \<Rightarrow> string \<Rightarrow> (nat \<times> string) option" where
  "find_keyword [] upper = None"
| "find_keyword (kw # kws) upper =
     (case find_str kw upper of Some pos \<Rightarrow> Some (pos, kw) | None \<Rightarrow> find_keyword kws upper)"

definition parse_user_with_password :: "string \<Rightarrow> (string \<times> string) res" where
  "parse_user_with_password s0 =
     (let s = trim_statement s0 in
      case find_keyword ['' WITH PASSWORD '', '' PASSWORD ''] (to_uppercase s) of
        None \<Rightarrow> Inl (Parse ''Expected PASSWORD clause in user statement'')
      | Some (pos, kw) \<Rightarrow>
          Inr (trim (take pos s), password_text (trim_statement (drop (pos + length kw) s))))"

definition find_user_in_stmt :: "string \<Rightarrow> bool" where
  "find_user_in_stmt username = False"

definition strip_keyword :: "string \<Rightarrow> string \<Rightarrow> string \<Rightarrow> string" where
  "strip_keyword upper_kw lower_kw sql =
     trim (case first_some (strip_prefix upper_kw sql) (strip_prefix lower_kw sql) of
             Some rest \<Rightarrow> rest | None \<Rightarrow> [])"

definition parse_create_user :: "string \<Rightarrow> string \<Rightarrow> helion_statement list res" where
  "parse_create_user upper sql =
     (let exists = contains_str ''IF NOT EXISTS'' upper;
          stripped = (if exists then strip_keyword ''CREATE USER IF NOT EXISTS'' ''create user if not exists'' sql
                      else strip_keyword ''CREATE USER'' ''create user'' sql)
      in and_then (parse_user_with_password stripped) (\<lambda>(username, password).
           if exists \<and> find_user_in_stmt username then Inr []
           else Inr [StCreateUser username password]))"

definition parse_drop_user :: "string \<Rightarrow> string \<Rightarrow> helion_statement list" where
  "parse_drop_user upper sql =
     (let if_exists = contains_str ''IF EXISTS'' upper;
          stripped = (if if_exists then strip_keyword ''DROP USER IF EXISTS'' ''drop user if exists'' sql
                      else strip_keyword ''DROP USER'' ''drop user'' sql)
      in [StDropUser (trim (trim_end_matches (CHR '';'') stripped)) if_exists])"

definition parse_alter_user :: "string \<Rightarrow> helion_statement list res" where
  "parse_alter_user sql =
     and_then (parse_user_with_password (strip_keyword ''ALTER USER'' ''alter user'' sql))
       (\<lambda>(username, password). Inr [StAlterUser username password])"

subsection \<open>Indexes\<close>

definition index_name_start :: "string \<Rightarrow> nat option" where
  "index_name_start upper =
     (if contains_str ''UNIQUE'' upper
      then map_option (\<lambda>idx. idx + (if starts_with ''UNIQUE INDEX'' (drop idx upper) then 12 else 6))
             (first_some (find_str ''UNIQUE INDEX'' upper) (find_str ''UNIQUE'' upper))
      else map_option (\<lambda>idx. idx + 6) (first_some (find_str '' INDEX '' upper) (find_str ''INDEX '' upper)))"

definition index_columns :: "string \<Rightarrow> nat \<Rightarrow> string list res option" where
  "index_columns after_on pos =
     (case rfind_str '')'' after_on of
        None \<Rightarrow> Some (Inl (Parse ''Expected closing parenthesis''))
      | Some close \<Rightarrow>
          (case slice (pos + 1) close after_on of
             None \<Rightarrow> None
           | Some col_list \<Rightarrow>
               Some (if column_names (trim col_list) = []
                     then Inl (Parse ''Expected at least one column for index'')
                     else Inr (column_names (trim col_list)))))"

definition parse_create_index :: "string \<Rightarrow> parsed" where
  "parse_create_index sql0 =
     (let sql = trim_end_matches (CHR '';'') (trim sql0);
          upper = to_uppercase sql;
          uniq = contains_str ''UNIQUE'' upper;
          if_not_exists = contains_str ''IF NOT EXISTS'' upper
      in case index_name_start upper of
           None \<Rightarrow> None
         | Some start \<Rightarrow>
             (let after_index = trim_start (drop start sql);
                  name_rest = (if if_not_exists
                    then case first_some (strip_prefix ''IF NOT EXISTS '' after_index)
                                (strip_prefix ''if not exists '' after_index) of
                           Some rest \<Rightarrow> rest | None \<Rightarrow> after_index
                    else after_index);
                  index_name = takeWhile (\<lambda>c. \<not> (is_whitespace c \<or> c = CHR ''('')) name_rest
              in case rfind_str '' ON '' upper of
                   None \<Rightarrow> Some (Inl (Parse ''Expected ON table_name (col1, col2)''))
                 | Some on_pos \<Rightarrow>
                     (let after_on = trim (drop (on_pos + 4) sql) in
                      case find_str ''('' after_on of
                        None \<Rightarrow> Some (Inl (Parse ''Expected column list in parentheses''))
                      | Some pos \<Rightarrow>
                          map_option (\<lambda>r. and_then r (\<lambda>columns.
                            Inr [StCreateIndex index_name (trim (take pos after_on)) columns uniq if_not_exists]))
                            (index_columns after_on pos))))"

definition parse_drop_index :: "string \<Rightarrow> helion_statement list res" where
  "parse_drop_index sql0 =
     (let sql = trim_end_matches (CHR '';'') (trim sql0);
          upper = to_uppercase sql;
          if_exists = contains_str ''IF EXISTS'' upper;
          drop_kw = (if if_exists then ''DROP INDEX IF EXISTS '' else ''DROP INDEX '')
      in case find_str drop_kw upper of
           None \<Rightarrow> Inl (Parse ''Expected DROP INDEX statement'')
         | Some pos \<Rightarrow>
             (let after_drop = trim (drop (pos + length drop_kw) sql) in
              case find_str '' ON '' (to_uppercase after_drop) of
                None \<Rightarrow> Inl (Parse ''Expected ON table_name'')
              | Some on_pos \<Rightarrow>
                  Inr [StDropIndex (trim (take on_pos after_drop)) (trim (drop (on_pos + 4) after_drop)) if_exists]))"

subsection \<open>Grants\<close>

definition permission_keyword :: "string \<Rightarrow> (grant_permission_type \<times> nat) option" where
  "permission_keyword upper =
     (if starts_with ''ALL'' upper then Some (GAll, 3)
      else if starts_with ''SELECT'' upper then Some (GSelect, 6)
      else if starts_with ''INSERT'' upper then Some (GInsert, 6)
      else if starts_with ''UPDATE'' upper then Some (GUpdate, 6)
      else if starts_with ''DELETE'' upper then Some (GDelete, 6)
      else None)"

definition grant_columns :: "string \<Rightarrow> string list \<times> string" where
  "grant_columns rest =
     (if starts_with ''('' rest
      then (case find_str '')'' rest of
              Some close \<Rightarrow> (column_names (take (close - 1) (drop 1 rest)), trim (drop (close + 1) rest))
            | None \<Rightarrow> ([], rest))
      else ([], rest))"

definition split_target :: "bool \<Rightarrow> string \<Rightarrow> string \<times> string" where
  "split_target is_grant rest =
     (let upper = to_uppercase rest in
      if is_grant
      then (case find_str '' TO '' upper of
              Some pos \<Rightarrow> (take pos rest, drop (pos + 4) rest)
            | None \<Rightarrow>
                (case find_str '' TO'' upper of
                   Some pos \<Rightarrow> (take pos rest, drop (pos + 3) rest)
                 | None \<Rightarrow> (trim rest, [])))
      else (case find_str '' FROM '' upper of
              Some pos \<Rightarrow> (take pos rest, drop (pos + 5) rest)
            | None \<Rightarrow>
                (case find_str '' FROM'' upper of
                   Some pos \<Rightarrow> (take pos rest, drop (pos + 5) rest)
                 | None \<Rightarrow> (trim rest, []))))"

definition parse_grant_revoke :: "string \<Rightarrow> bool \<Rightarrow> helion_statement list res" where
  "parse_grant_revoke sql is_grant =
     (let action = (if is_grant then ''GRANT'' else ''REVOKE'') in
      case find_str action (to_uppercase sql) of
        None \<Rightarrow> Inl (Parse (''Expected '' @ action @ '' keyword''))
      | Some at0 \<Rightarrow>
          (let rest = trim (drop (at0 + length action) sql) in
           case permission_keyword (to_uppercase rest) of
             None \<Rightarrow> Inl (Parse (''Unknown permission type in '' @ action @ '': '' @ rest))
           | Some (perm_type, k) \<Rightarrow>
               (case grant_columns (trim (drop k rest)) of
                  (columns, rest2) \<Rightarrow>
                    if \<not> starts_with ''ON '' (to_uppercase rest2)
                    then Inl (Parse (''Expected ON in '' @ action @ '' statement''))
                    else (case split_target is_grant (trim (if length rest2 > 3 then drop 3 rest2 else [])) of
                       (tbl, target) \<Rightarrow>
                         (let table_name = trim_end_matches (CHR '';'') (trim tbl);
                              username = trim_statement target
                          in if username = []
                             then Inl (Parse (''Expected username in '' @ action @ '' statement''))
                             else Inr [if is_grant then StGrant username table_name columns perm_type
                                       else StRevoke username table_name columns perm_type])))))"

subsection \<open>Storage engines\<close>

definition looks_like_create_table_with_engine :: "string \<Rightarrow> bool" where
  "looks_like_create_table_with_engine sql =
     (let upper = to_uppercase sql in starts_with ''CREATE TABLE '' upper \<and> contains_str '' ENGINE'' upper)"

definition looks_like_alter_table_engine :: "string \<Rightarrow> bool" where
  "looks_like_alter_table_engine sql =
     (let upper = to_uppercase sql in starts_with ''ALTER TABLE '' upper \<and> contains_str '' ENGINE'' upper)"

definition parse_engine_clause :: "string \<Rightarrow> string res" where
  "parse_engine_clause clause0 =
     (let clause = trim_statement clause0 in
      if \<not> starts_with ''ENGINE'' (to_uppercase clause) then Inl (Parse ''Expected ENGINE clause'')
      else
        (let rhs = trim (drop 6 clause);
             rhs' = trim (case strip_prefix ''='' rhs of Some r \<Rightarrow> r | None \<Rightarrow> rhs)
         in case split_whitespace rhs' of
              [] \<Rightarrow> Inl (Parse ''Expected engine name'')
            | engine # _ \<Rightarrow> Inr (trim_matches (CHR 0x60) engine)))"

definition with_engine :: "string \<Rightarrow> helion_statement \<Rightarrow> helion_statement" where
  "with_engine engine stmt =
     (case stmt of StCreateTable name columns _ \<Rightarrow> StCreateTable name columns (Some engine) | _ \<Rightarrow> stmt)"

definition convert_all :: "sql_front \<Rightarrow> sql_statement list \<Rightarrow> helion_statement list res" where
  "convert_all F stmts = try_map (\<lambda>(k, stmt). convert_statement F k stmt) (enumerate 0 stmts)"

definition parse_create_table_with_engine :: "sql_front \<Rightarrow> string \<Rightarrow> helion_statement list res" where
  "parse_create_table_with_engine F sql0 =
     (let sql = trim_statement sql0 in
      case rfind_str '' ENGINE'' (to_uppercase sql) of
        None \<Rightarrow> Inl (Parse ''Expected ENGINE clause in CREATE TABLE statement'')
      | Some engine_pos \<Rightarrow>
          and_then (parse_engine_clause (trim (drop engine_pos sql))) (\<lambda>engine.
          case sf_parse F (trim (take engine_pos sql)) of
            Inl e \<Rightarrow> Inl (Parse e)
          | Inr stmts \<Rightarrow> and_then (convert_all F stmts) (\<lambda>converted. Inr (map (with_engine engine) converted))))"

definition parse_alter_table_engine :: "string \<Rightarrow> parsed" where
  "parse_alter_table_engine sql0 =
     (let sql = trim_statement sql0 in
      if length sql < 12 then Some (Inl (Parse ''Expected ALTER TABLE statement''))
      else case rfind_str '' ENGINE'' (to_uppercase sql) of
        None \<Rightarrow> Some (Inl (Parse ''Expected ENGINE clause in ALTER TABLE statement''))
      | Some engine_pos \<Rightarrow>
          (case slice 12 engine_pos sql of
             None \<Rightarrow> None
           | Some before_engine \<Rightarrow>
               Some (case split_whitespace (trim before_engine) of
                       [] \<Rightarrow> Inl (Parse ''Expected table name in ALTER TABLE statement'')
                     | [name] \<Rightarrow>
                         and_then (parse_engine_clause (trim (drop engine_pos sql))) (\<lambda>engine.
                         Inr [StAlterTableEngine (trim_matches (CHR 0x60) name) engine])
                     | _ \<Rightarrow> Inl (Parse ''Unsupported ALTER TABLE syntax''))))"

subsection \<open>EXPLAIN\<close>

definition explain_statement :: "sql_front \<Rightarrow> sql_statement \<Rightarrow> helion_statement res" where
  "explain_statement F stmt = (case stmt of
      AstExplain analyze verbose text \<Rightarrow> Inr (StExplain analyze verbose text)
    | _ \<Rightarrow> Inl (Parse (''Unsupported EXPLAIN statement: '' @ sf_debug_statement F stmt)))"

definition parse_explain :: "sql_front \<Rightarrow> string \<Rightarrow> helion_statement list res" where
  "parse_explain F sql =
     (case sf_parse F sql of
        Inl e \<Rightarrow> Inl (Parse e)
      | Inr stmts \<Rightarrow> try_map (explain_statement F) stmts)"

subsection \<open>All statements\<close>

definition parse_use :: "string \<Rightarrow> helion_statement list res" where
  "parse_use sql =
     (let name = trim_statement (drop 3 sql) in
      if name = [] then Inl (Parse ''Expected database name after USE'') else Inr [StUseDatabase name])"

definition parse_custom :: "sql_front \<Rightarrow> string \<Rightarrow> parsed" where
  "parse_custom F sql0 =
     (let sql = trim_end_matches (CHR '';'') (trim sql0);
          upper = trim (to_uppercase sql)
      in if starts_with ''CREATE TABLE '' upper then Some (parse_create_table_with_engine F sql)
         else if starts_with ''ALTER TABLE '' upper then parse_alter_table_engine sql
         else if starts_with ''EXPLAIN '' upper then Some (parse_explain F sql)
         else if starts_with ''CREATE USER '' upper then Some (parse_create_user upper sql)
         else if starts_with ''DROP USER '' upper then Some (Inr (parse_drop_user upper sql))
         else if starts_with ''ALTER USER '' upper then Some (parse_alter_user sql)
         else if starts_with ''GRANT '' upper then Some (parse_grant_revoke sql True)
         else if starts_with ''REVOKE '' upper then Some (parse_grant_revoke sql False)
         else if starts_with ''CREATE '' upper \<and> contains_str '' INDEX '' upper then parse_create_index sql
         else if starts_with ''DROP INDEX '' upper then Some (parse_drop_index sql)
         else if starts_with ''SHOW TABLES'' upper then Some (Inr [StShowTables])
         else if starts_with ''SHOW DATABASES'' upper then Some (Inr [StShowDatabases])
         else if starts_with ''USE '' upper then Some (parse_use sql)
         else Some (Inl (Parse (''Unsupported SQL: '' @ sql))))"

definition parse :: "sql_front \<Rightarrow> string \<Rightarrow> parsed" where
  "parse F sql =
     (if looks_like_create_table_with_engine (trim sql) then Some (parse_create_table_with_engine F (trim sql))
      else if looks_like_alter_table_engine (trim sql) then parse_alter_table_engine (trim sql)
      else case sf_parse F sql of
        Inl _ \<Rightarrow> parse_custom F sql
      | Inr stmts \<Rightarrow>
          (case convert_all F stmts of
             Inr result \<Rightarrow> Some (Inr result)
           | Inl _ \<Rightarrow> parse_custom F sql))"

end
