(* ===== verification/Statements.thy ===== *)
theory Statements
  imports Executor Sql_Text
begin

text \<open>
  The execution of statements on the database (\<open>execute_as\<close> in \<open>src/src/executor/ops.rs\<close> and
  \<open>execute_statement\<close> in \<open>src/src/storage/engine.rs\<close>): queries with their permission check,
  INSERT, UPDATE and DELETE, the index statements, and the dispatch of every other plan to the
  engine's operations.

  UPDATE and DELETE find their rows under one transaction identifier and write them under another:
  \<open>update_entries\<close> and \<open>delete_entries\<close> are the first half, \<open>write_entries\<close> the second, and
  other transactions can run between them. None is a panic (an index out of bounds).
\<close>

record exec_plan =
  xp_exec :: exec_env
  xp_codec :: codec
  xp_commit :: commit_plan
  xp_ddl :: ddl_plan
  xp_migration :: migration_faults
  xp_wal :: "io_fault option"
  xp_argon :: argon
  xp_salt :: string
  xp_front :: sql_front
  xp_render :: "bool \<Rightarrow> logical_plan \<Rightarrow> string"

abbreviation xp_ext :: "exec_plan \<Rightarrow> ext" where
  "xp_ext XP \<equiv> ee_ext (xe_env (xp_exec XP))"

type_synonym outcome = "(database \<times> query_result res) option"

definition affected :: "nat \<Rightarrow> query_result" where
  "affected n = \<lparr>qr_columns = [], qr_column_types = [], qr_rows = [], qr_rows_affected = n\<rparr>"

definition one_column :: "string \<Rightarrow> string list \<Rightarrow> nat \<Rightarrow> query_result" where
  "one_column name vs n =
     \<lparr>qr_columns = [name], qr_column_types = [''TEXT''], qr_rows = map (\<lambda>v. [v]) vs, qr_rows_affected = n\<rparr>"

definition of_unit :: "nat \<Rightarrow> database \<times> unit res \<Rightarrow> outcome" where
  "of_unit n r = Some (fst r, and_then (snd r) (\<lambda>_. Inr (affected n)))"

subsection \<open>Permissions of a query\<close>

fun collect_plan_tables :: "logical_plan \<Rightarrow> string list" where
  "collect_plan_tables (TableScan table _ _ _ _) = [table]"
| "collect_plan_tables (Join left right _ _) = collect_plan_tables left @ collect_plan_tables right"
| "collect_plan_tables (Filter input _) = collect_plan_tables input"
| "collect_plan_tables (Projection input _ _) = collect_plan_tables input"
| "collect_plan_tables (Sort input _) = collect_plan_tables input"
| "collect_plan_tables (Limit input _ _) = collect_plan_tables input"
| "collect_plan_tables (Flat _) = []"

fun table_offsets :: "nat \<Rightarrow> table_info list \<Rightarrow> (string \<times> nat) list" where
  "table_offsets off [] = []"
| "table_offsets off ((tname, cols) # rest) = (tname, off) # table_offsets (off + length cols) rest"

definition column_owner :: "table_info list \<Rightarrow> nat \<Rightarrow> (string \<times> string) option" where
  "column_owner table_map i =
     find_map (\<lambda>(tname, off).
       case find (\<lambda>(n, _). n = tname) table_map of
         None \<Rightarrow> None
       | Some (_, cols) \<Rightarrow>
           if off \<le> i \<and> i < off + length cols then Some (tname, cm_name (cols ! (i - off))) else None)
       (table_offsets 0 table_map)"

fun push_column :: "string \<times> string \<Rightarrow> (string \<times> string list) list \<Rightarrow> (string \<times> string list) list" where
  "push_column (t, c) [] = [(t, [c])]"
| "push_column (t, c) ((u, cs) # m) = (if u = t then (u, cs @ [c]) # m else (u, cs) # push_column (t, c) m)"

definition plan_columns :: "table list \<Rightarrow> logical_plan \<Rightarrow> (string \<times> string list) list" where
  "plan_columns tables plan =
     (case plan of
        Projection _ columns table_map \<Rightarrow>
          foldl (\<lambda>m c. push_column c m) [] (List.map_filter (column_owner table_map) columns)
      | _ \<Rightarrow>
          List.map_filter (\<lambda>n. map_option (\<lambda>t. (n, map cm_name (tb_columns t))) (find (\<lambda>t. tb_name t = n) tables))
            (sort_dedup (collect_plan_tables plan)))"

definition check_plan_permissions :: "exec_env \<Rightarrow> database \<Rightarrow> logical_plan \<Rightarrow> string \<Rightarrow> unit res" where
  "check_plan_permissions XE db plan user =
     try_fold (\<lambda>_ (tbl, cols). check_select db user tbl cols) ()
       (xe_perm_order XE (plan_columns (db_tables db) plan))"

definition check_user :: "string option \<Rightarrow> (string \<Rightarrow> unit res) \<Rightarrow> unit res" where
  "check_user current_user check = (case current_user of None \<Rightarrow> Inr () | Some user \<Rightarrow> check user)"

subsection \<open>Queries\<close>

text \<open>A transaction that is begun for its snapshot and ended at once.\<close>

definition take_snapshot :: "database \<Rightarrow> snapshot \<times> database" where
  "take_snapshot db =
     (case begin_txn db of
        (tx, db1) \<Rightarrow> (tx_snapshot tx, db1\<lparr>db_mvcc := commit_transaction tx (db_mvcc db1)\<rparr>))"

definition ctx_of :: "table list \<Rightarrow> snapshot \<Rightarrow> exec_ctx" where
  "ctx_of tables snap = \<lparr>cx_tables = tables, cx_snapshot = sn_txid snap, cx_active = sn_active snap\<rparr>"

definition execute_query :: "exec_plan \<Rightarrow> string option \<Rightarrow> logical_plan \<Rightarrow> database \<Rightarrow> outcome" where
  "execute_query XP current_user plan db =
     (case take_snapshot db of
        (snap, db1) \<Rightarrow>
          Some (db1,
            and_then (check_user current_user (check_plan_permissions (xp_exec XP) db1 plan)) (\<lambda>_.
            and_then (execute_tree (xp_exec XP) (ctx_of (db_tables db) snap) plan) (\<lambda>(rows, names, types).
            Inr \<lparr>qr_columns = names, qr_column_types = types,
                 qr_rows = map (map (display (xp_ext XP))) rows, qr_rows_affected = length rows\<rparr>))))"

subsection \<open>INSERT, UPDATE, DELETE\<close>

definition write_entries :: "exec_plan \<Rightarrow> write_entry list \<Rightarrow> database \<Rightarrow> database \<times> unit res" where
  "write_entries XP entries db =
     with_write_txn (xp_ext XP) (xp_codec XP) (xp_commit XP) (\<lambda>_ _. Inr entries) db"

definition entry_for :: "string \<Rightarrow> nat \<Rightarrow> write_op \<Rightarrow> write_entry" where
  "entry_for table_name i operation =
     \<lparr>we_table_name = table_name, we_row_idx = i, we_old_txid_max = u64_MAX, we_operation = operation\<rparr>"

definition insert_entries :: "string \<Rightarrow> row list \<Rightarrow> table list \<Rightarrow> write_entry list res" where
  "insert_entries table_name rows tables =
     and_then (find_table_named tables table_name) (\<lambda>t.
     Inr (map (\<lambda>(i, r). entry_for table_name (row_count t + i) (Insert r)) (enumerate 0 rows)))"

definition execute_insert :: "exec_plan \<Rightarrow> string option \<Rightarrow> string \<Rightarrow> row list \<Rightarrow> database \<Rightarrow> outcome" where
  "execute_insert XP current_user table_name rows db =
     (let col_names = (case rows of [] \<Rightarrow> [] | r # _ \<Rightarrow> replicate (length (row_values r)) []) in
      case and_then (check_user current_user (\<lambda>user. check_insert db user table_name col_names))
             (\<lambda>_. insert_entries table_name rows (db_tables db)) of
        Inl e \<Rightarrow> Some (db, Inl e)
      | Inr entries \<Rightarrow> of_unit (length rows) (write_entries XP entries db))"

definition where_holds :: "exec_env \<Rightarrow> column_meta list \<Rightarrow> expression option \<Rightarrow> row \<Rightarrow> bool" where
  "where_holds XE columns where_clause r =
     (case where_clause of
        None \<Rightarrow> True
      | Some e \<Rightarrow>
          evaluate (xe_env XE) (xe_supply XE (row_values r)) (row_values r) columns e = Inr (DBoolean True))"

definition matching_rows ::
    "exec_env \<Rightarrow> table \<Rightarrow> snapshot \<Rightarrow> column_meta list \<Rightarrow> expression option \<Rightarrow> (nat \<times> row) list" where
  "matching_rows XE t snap columns where_clause =
     filter (\<lambda>(_, r). where_holds XE columns where_clause r) (scan_visible t (sn_txid snap) (sn_active snap))"

text \<open>The assignments on a row; a column position beyond the row is a panic.\<close>

fun assign :: "(nat \<times> datum option) list \<Rightarrow> datum list \<Rightarrow> datum list option" where
  "assign [] vs = Some vs"
| "assign ((i, None) # sets) vs = assign sets vs"
| "assign ((i, Some v) # sets) vs = (if i < length vs then assign sets (vs[i := v]) else None)"

definition set_pairs :: "nat list \<Rightarrow> datum list \<Rightarrow> (nat \<times> datum option) list" where
  "set_pairs set_indices set_values = map (\<lambda>(k, i). (i, nth_opt set_values k)) (enumerate 0 set_indices)"

definition those :: "'a option list \<Rightarrow> 'a list option" where
  "those xs = (if None \<in> set xs then None else Some (map the xs))"

definition update_entries ::
    "exec_env \<Rightarrow> string \<Rightarrow> nat list \<Rightarrow> datum list \<Rightarrow> expression option \<Rightarrow> column_meta list \<Rightarrow>
     table \<Rightarrow> snapshot \<Rightarrow> write_entry list option" where
  "update_entries XE table_name set_indices set_values where_clause columns t snap =
     those (map (\<lambda>(i, r).
       map_option (\<lambda>vs. entry_for table_name i (Update \<lparr>row_values = vs\<rparr>))
         (assign (set_pairs set_indices set_values) (row_values r)))
       (matching_rows XE t snap columns where_clause))"

definition delete_entries ::
    "exec_env \<Rightarrow> string \<Rightarrow> expression option \<Rightarrow> column_meta list \<Rightarrow> table \<Rightarrow> snapshot \<Rightarrow> write_entry list" where
  "delete_entries XE table_name where_clause columns t snap =
     map (\<lambda>(i, _). entry_for table_name i Delete) (matching_rows XE t snap columns where_clause)"

definition write_if_any :: "exec_plan \<Rightarrow> write_entry list \<Rightarrow> database \<Rightarrow> outcome" where
  "write_if_any XP entries db =
     (if entries = [] then Some (db, Inr (affected 0))
      else of_unit (length entries) (write_entries XP entries db))"

definition execute_update ::
    "exec_plan \<Rightarrow> string option \<Rightarrow> string \<Rightarrow> nat list \<Rightarrow> datum list \<Rightarrow> expression option \<Rightarrow>
     column_meta list \<Rightarrow> database \<Rightarrow> outcome" where
  "execute_update XP current_user table_name set_indices set_values where_clause columns db =
     (if current_user \<noteq> None \<and> list_ex (\<lambda>i. length columns \<le> i) set_indices then None
      else case and_then (check_user current_user (\<lambda>user.
               check_update db user table_name (map (\<lambda>i. cm_name (columns ! i)) set_indices)))
             (\<lambda>_. find_table_named (db_tables db) table_name) of
        Inl e \<Rightarrow> Some (db, Inl e)
      | Inr t \<Rightarrow>
          (case take_snapshot db of
             (snap, db1) \<Rightarrow>
               Option.bind (update_entries (xp_exec XP) table_name set_indices set_values where_clause columns t snap)
                 (\<lambda>entries. write_if_any XP entries db1)))"

definition execute_delete ::
    "exec_plan \<Rightarrow> string option \<Rightarrow> string \<Rightarrow> expression option \<Rightarrow> column_meta list \<Rightarrow> database \<Rightarrow> outcome" where
  "execute_delete XP current_user table_name where_clause columns db =
     (case and_then (check_user current_user (\<lambda>user. check_delete db user table_name))
             (\<lambda>_. find_table_named (db_tables db) table_name) of
        Inl e \<Rightarrow> Some (db, Inl e)
      | Inr t \<Rightarrow>
          (case take_snapshot db of
             (snap, db1) \<Rightarrow>
               write_if_any XP (delete_entries (xp_exec XP) table_name where_clause columns t snap) db1))"

subsection \<open>Indexes\<close>

definition exact_column :: "table \<Rightarrow> string \<Rightarrow> string \<Rightarrow> nat res" where
  "exact_column t table_name c =
     (case position (\<lambda>col. cm_name col = c) (tb_columns t) of
        Some i \<Rightarrow> Inr i | None \<Rightarrow> Inl (ColumnNotFound (table_name @ ''.'' @ c)))"

definition execute_create_index ::
    "exec_plan \<Rightarrow> string \<Rightarrow> string \<Rightarrow> string list \<Rightarrow> bool \<Rightarrow> bool \<Rightarrow> database \<Rightarrow> outcome" where
  "execute_create_index XP name table_name col_names uniq if_not_exists db =
     (case find_table_named (db_tables db) table_name of
        Inl e \<Rightarrow> Some (db, Inl e)
      | Inr t \<Rightarrow>
          (if if_not_exists \<and> has_index t name then Some (db, Inr (affected 0))
           else if has_index t name then Some (db, Inl (IndexAlreadyExists name))
           else case and_then (try_map (exact_column t table_name) col_names)
                  (\<lambda>cols. add_index (xp_ext XP) t name cols uniq) of
             Inl e \<Rightarrow> Some (db, Inl e)
           | Inr t' \<Rightarrow>
               Some (set_tables (update_first (\<lambda>u. tb_name u = table_name) (\<lambda>_. t') (db_tables db)) db,
                     Inr (affected 1))))"

definition execute_drop_index :: "string \<Rightarrow> string \<Rightarrow> bool \<Rightarrow> database \<Rightarrow> outcome" where
  "execute_drop_index name table_name if_exists db =
     (case find (\<lambda>t. tb_name t = table_name) (db_tables db) of
        None \<Rightarrow> Some (db, if if_exists then Inr (affected 1) else Inl (TableNotFound table_name))
      | Some t \<Rightarrow>
          (case drop_index t name of
             Inl e \<Rightarrow> Some (db, if if_exists then Inr (affected 1) else Inl e)
           | Inr t' \<Rightarrow>
               Some (set_tables (update_first (\<lambda>u. tb_name u = table_name) (\<lambda>_. t') (db_tables db)) db,
                     Inr (affected 1))))"

subsection \<open>All plans\<close>

definition execute_drop_table :: "exec_plan \<Rightarrow> string \<Rightarrow> bool \<Rightarrow> database \<Rightarrow> outcome" where
  "execute_drop_table XP name if_exists db =
     (case drop_table (xp_codec XP) (xp_ddl XP) name db of
        (db', Inl (TableNotFound n)) \<Rightarrow>
          Some (db', if if_exists then Inr (affected 0) else Inl (TableNotFound n))
      | r \<Rightarrow> of_unit 0 r)"

definition execute_drop_user :: "exec_plan \<Rightarrow> string \<Rightarrow> bool \<Rightarrow> database \<Rightarrow> outcome" where
  "execute_drop_user XP username if_exists db =
     (case db_drop_user (xp_codec XP) (xp_wal XP) username db of
        (db', Inl e) \<Rightarrow> Some (db', if if_exists then Inr (affected 0) else Inl e)
      | (db', Inr _) \<Rightarrow> Some (db', Inr (affected 1)))"

primrec execute_flat :: "exec_plan \<Rightarrow> string option \<Rightarrow> flat_plan \<Rightarrow> database \<Rightarrow> outcome" where
  "execute_flat XP user (PlanCreateTable name columns engine) db =
     of_unit 0 (create_table (xp_codec XP) (xp_ddl XP) name columns engine db)"
| "execute_flat XP user (PlanExplain analyze verbose stmt) db = None"
| "execute_flat XP user (PlanDropTable name if_exists) db = execute_drop_table XP name if_exists db"
| "execute_flat XP user (PlanAlterTableEngine name engine) db =
     of_unit 0 (alter_table_engine (xp_migration XP) (dp_now (xp_ddl XP)) name engine db)"
| "execute_flat XP user (PlanInsert table_name rows) db = execute_insert XP user table_name rows db"
| "execute_flat XP user (PlanUpdate table_name set_indices set_values where_clause columns) db =
     execute_update XP user table_name set_indices set_values where_clause columns db"
| "execute_flat XP user (PlanDelete table_name where_clause columns) db =
     execute_delete XP user table_name where_clause columns db"
| "execute_flat XP user (PlanCreateUser username password) db =
     of_unit 1 (db_create_user (xp_codec XP) (xp_argon XP) (xp_salt XP) (xp_wal XP) username password db)"
| "execute_flat XP user (PlanDropUser username if_exists) db = execute_drop_user XP username if_exists db"
| "execute_flat XP user (PlanAlterUser username password) db =
     of_unit 1 (alter_user_password (xp_codec XP) (xp_argon XP) (xp_salt XP) (xp_wal XP) username password db)"
| "execute_flat XP user (PlanGrant username tbl columns p) db =
     of_unit 1 (grant_permission (xp_codec XP) (xp_wal XP) username tbl p db)"
| "execute_flat XP user (PlanRevoke username tbl columns p) db =
     of_unit 1 (revoke_permission (xp_codec XP) (xp_wal XP) username tbl p db)"
| "execute_flat XP user (PlanCreateIndex name tbl columns uniq if_not_exists) db =
     execute_create_index XP name tbl columns uniq if_not_exists db"
| "execute_flat XP user (PlanDropIndex name tbl if_exists) db = execute_drop_index name tbl if_exists db"
| "execute_flat XP user PlanShowTables db =
     Some (db, Inr (one_column ''table_name'' (map tb_name (db_tables db)) 0))"
| "execute_flat XP user PlanShowDatabases db = Some (db, Inr (one_column ''database_name'' [''default''] 1))"
| "execute_flat XP user (PlanUseDatabase name) db =
     Some (db, if name = [] then Inl (Internal ''Database name cannot be empty'') else Inr (affected 0))"

text \<open>
  EXPLAIN parses and plans the statement it holds, and with ANALYZE executes it, which can be an
  EXPLAIN again: the fuel bounds that nesting. The printed plan is the debug form that Rust derives.
\<close>

definition explain_rows :: "exec_plan \<Rightarrow> bool \<Rightarrow> logical_plan \<Rightarrow> query_result option \<Rightarrow> query_result" where
  "explain_rows XP verbose plan analyzed =
     one_column ''QUERY PLAN''
       (xp_render XP verbose plan #
        (case analyzed of
           None \<Rightarrow> []
         | Some r \<Rightarrow> [''rows='' @ show_nat (qr_rows_affected r) @ '', columns='' @
                       show_nat (length (qr_columns r))])) 0"

definition explained_plan :: "exec_plan \<Rightarrow> string \<Rightarrow> table list \<Rightarrow> logical_plan res option" where
  "explained_plan XP stmt tables =
     map_option (\<lambda>r. and_then r (\<lambda>stmts.
       case stmts of
         [] \<Rightarrow> Inl (Parse ''Expected statement to explain'')
       | s # _ \<Rightarrow> plan_statement (xp_ext XP) s tables)) (parse (xp_front XP) stmt)"

fun execute_as :: "nat \<Rightarrow> exec_plan \<Rightarrow> string option \<Rightarrow> logical_plan \<Rightarrow> database \<Rightarrow> outcome" where
  "execute_as fuel XP user (Flat p) db =
     (case p of
        PlanExplain analyze verbose stmt \<Rightarrow>
          (case explained_plan XP stmt (db_tables db) of
             None \<Rightarrow> None
           | Some (Inl e) \<Rightarrow> Some (db, Inl e)
           | Some (Inr inner_plan) \<Rightarrow>
               (if \<not> analyze then Some (db, Inr (explain_rows XP verbose inner_plan None))
                else case fuel of
                  0 \<Rightarrow> None
                | Suc n \<Rightarrow>
                    (case execute_as n XP user inner_plan db of
                       None \<Rightarrow> None
                     | Some (db', r) \<Rightarrow>
                         Some (db', and_then r (\<lambda>q. Inr (explain_rows XP verbose inner_plan (Some q)))))))
      | _ \<Rightarrow> execute_flat XP user p db)"
| "execute_as fuel XP user tree db = execute_query XP user tree db"

definition execute_statement :: "nat \<Rightarrow> exec_plan \<Rightarrow> string option \<Rightarrow> helion_statement \<Rightarrow> database \<Rightarrow> outcome" where
  "execute_statement fuel XP user stmt db =
     (case plan_statement (xp_ext XP) stmt (db_tables db) of
        Inl e \<Rightarrow> Some (db, Inl e)
      | Inr plan \<Rightarrow> execute_as fuel XP user plan db)"

end
