(* ===== verification/Structured.thy ===== *)
theory Structured
  imports Statements
begin

text \<open>
  Structured queries (\<open>src/src/protocol/structured.rs\<close>): JSON conditions and values become
  expressions and datums, the query becomes a plan that is executed like the plan of an SQL
  statement (without the optimizer), and the rows of the answer are nested by parent row.

  A JSON value is a datatype with the constructors of \<open>serde_json::Value\<close>; an object lists its
  members in the order of the map's iterator. A number is what the code can ask of it: \<open>is_f64\<close>
  with \<open>as_f64\<close>, or \<open>as_i64\<close>, \<open>as_u64\<close> and \<open>as_f64\<close>, and its text. Printing and parsing
  of JSON texts are parameters.
\<close>

subsection \<open>JSON\<close>

datatype json_number =
    NumFloat u64 string
  | NumInt "i64 option" "u64 option" u64 string

datatype json =
    JNull
  | JBool bool
  | JNumber json_number
  | JString string
  | JArray "json list"
  | JObject "(string \<times> json) list"

record json_text =
  jt_print :: "json \<Rightarrow> string"
  jt_parse :: "string \<Rightarrow> string + json"

definition num_i64_or_zero :: "json_number \<Rightarrow> i64" where
  "num_i64_or_zero n = (case n of NumInt (Some i) _ _ _ \<Rightarrow> i | _ \<Rightarrow> 0)"

definition num_f64 :: "json_number \<Rightarrow> u64" where
  "num_f64 n = (case n of NumFloat d _ \<Rightarrow> d | NumInt _ _ d _ \<Rightarrow> d)"

definition num_text :: "json_number \<Rightarrow> string" where
  "num_text n = (case n of NumFloat _ s \<Rightarrow> s | NumInt _ _ _ s \<Rightarrow> s)"

definition number_datum :: "json_number \<Rightarrow> datum" where
  "number_datum n = (case n of NumFloat d _ \<Rightarrow> DDouble d | NumInt _ _ _ _ \<Rightarrow> DBigInt (num_i64_or_zero n))"

definition json_array :: "json option \<Rightarrow> json list option" where
  "json_array v = (case v of Some (JArray xs) \<Rightarrow> Some xs | _ \<Rightarrow> None)"

definition json_of_nat :: "nat \<Rightarrow> json" where
  "json_of_nat n = JNumber (NumInt (if n < 2 ^ 63 then Some (of_nat n) else None) (Some (of_nat n))
     (f64_of_int (int n)) (show_nat n))"

subsection \<open>Queries\<close>

record order_by_input =
  oi_field :: string
  oi_direction :: string

record include_input =
  ii_relation :: string
  ii_where :: "json option"
  ii_select :: "string list option"
  ii_order_by :: "order_by_input list"
  ii_take :: "u64 option"

record find_many_input =
  fm_from :: string
  fm_where :: "json option"
  fm_select :: "string list option"
  fm_include :: "include_input list"
  fm_order_by :: "order_by_input list"
  fm_take :: "u64 option"
  fm_skip :: "u64 option"

record find_unique_input =
  fu_from :: string
  fu_where :: json
  fu_select :: "string list option"
  fu_include :: "include_input list"

type_synonym json_members = "(string \<times> json) list"

record create_input =
  ci_from :: string
  ci_data :: json_members

record update_input =
  ui_from :: string
  ui_where :: json
  ui_data :: json_members

record delete_input =
  di_from :: string
  di_where :: json

record upsert_input =
  us_from :: string
  us_where :: json
  us_create :: json_members
  us_update :: json_members

datatype structured_query =
    SqFindMany find_many_input
  | SqFindUnique find_unique_input
  | SqCreate create_input
  | SqUpdate update_input
  | SqDelete delete_input
  | SqUpsert upsert_input

subsection \<open>Values\<close>

definition json_to_datum :: "json \<Rightarrow> datum" where
  "json_to_datum v = (case v of
      JNull \<Rightarrow> DNull | JBool b \<Rightarrow> DBoolean b | JNumber n \<Rightarrow> number_datum n | JString s \<Rightarrow> DText s
    | _ \<Rightarrow> DNull)"

definition json_value_to_datum :: "json \<Rightarrow> data_type \<Rightarrow> datum" where
  "json_value_to_datum v ty = (case v of
      JNull \<Rightarrow> DNull
    | JBool b \<Rightarrow> DBoolean b
    | JNumber n \<Rightarrow>
        (case ty of
           TyInteger \<Rightarrow> DInteger (ucast (num_i64_or_zero n))
         | TyBigInt \<Rightarrow> DBigInt (num_i64_or_zero n)
         | TyDouble \<Rightarrow> DDouble (num_f64 n)
         | TyReal \<Rightarrow> DDouble (num_f64 n)
         | _ \<Rightarrow> DBigInt (num_i64_or_zero n))
    | JString s \<Rightarrow>
        (case ty of
           TyText \<Rightarrow> DText s
         | TyVarChar _ \<Rightarrow> DVarChar s
         | TyChar _ \<Rightarrow> DChar s
         | _ \<Rightarrow> DText s)
    | _ \<Rightarrow> DNull)"

definition string_from_value :: "json \<Rightarrow> string" where
  "string_from_value v = (case v of
      JString s \<Rightarrow> s | JNumber n \<Rightarrow> num_text n | JBool b \<Rightarrow> show_bool b | _ \<Rightarrow> [])"

subsection \<open>Conditions\<close>

definition binary_op :: "expression \<Rightarrow> binary_operator \<Rightarrow> datum \<Rightarrow> expression" where
  "binary_op left op right = BinaryOp left op (Literal right)"

definition combine_with :: "binary_operator \<Rightarrow> expression list \<Rightarrow> expression option" where
  "combine_with op exprs =
     (case exprs of [] \<Rightarrow> None | e # es \<Rightarrow> Some (foldl (\<lambda>a b. BinaryOp a op b) e es))"

definition combine_and :: "expression list \<Rightarrow> expression option" where
  "combine_and exprs = combine_with OpAnd exprs"

definition combine_or :: "expression list \<Rightarrow> expression option" where
  "combine_or exprs = combine_with OpOr exprs"

definition parse_operator_condition :: "string \<Rightarrow> string \<Rightarrow> json \<Rightarrow> expression res" where
  "parse_operator_condition field op v =
     (let col = Column field; d = json_to_datum v in
      if op = ''eq'' then Inr (binary_op col OpEq d)
      else if op = ''ne'' \<or> op = ''not'' then Inr (binary_op col OpNe d)
      else if op = ''gt'' then Inr (binary_op col OpGt d)
      else if op = ''gte'' then Inr (binary_op col OpGe d)
      else if op = ''lt'' then Inr (binary_op col OpLt d)
      else if op = ''lte'' then Inr (binary_op col OpLe d)
      else if op = ''contains'' then Inr (Like col (''%'' @ string_from_value v @ ''%''))
      else if op = ''startsWith'' then Inr (Like col (string_from_value v @ ''%''))
      else if op = ''endsWith'' then Inr (Like col (''%'' @ string_from_value v))
      else if op = ''in'' then
        (case json_array (Some v) of
           Some items \<Rightarrow> Inr (In col (map json_to_datum items))
         | None \<Rightarrow> Inl (Parse (CHR 0x27 # ''in'' @ CHR 0x27 # '' requires an array'')))
      else Inl (Parse (''Unknown operator: '' @ op)))"

definition parse_field_condition :: "string \<Rightarrow> json \<Rightarrow> expression option res" where
  "parse_field_condition field condition =
     (let col = Column field in case condition of
        JNull \<Rightarrow> Inr (Some (IsNull col))
      | JBool b \<Rightarrow> Inr (Some (binary_op col OpEq (DBoolean b)))
      | JNumber n \<Rightarrow> Inr (Some (binary_op col OpEq (number_datum n)))
      | JString s \<Rightarrow> Inr (Some (binary_op col OpEq (DText s)))
      | JObject ops \<Rightarrow>
          and_then (try_map (\<lambda>(op, v). parse_operator_condition field op v) ops) (\<lambda>parts. Inr (combine_and parts))
      | JArray items \<Rightarrow> Inr (Some (In col (map json_to_datum items))))"

lemma try_map_cong [fundef_cong]:
  "xs = ys \<Longrightarrow> (\<And>x. x \<in> set ys \<Longrightarrow> f x = g x) \<Longrightarrow> try_map f xs = try_map g ys"
  by (induction ys arbitrary: xs) auto

lemma size_member:
  "map_of m k = Some v \<Longrightarrow> size v < Suc (size_list (size_prod (\<lambda>_. 0) size) m)"
  by (induction m) (auto split: if_splits)

lemma size_member_array [termination_simp]:
  assumes "json_array (map_of m k) = Some xs" "x \<in> set xs"
  shows "size x < Suc (size_list (size_prod (\<lambda>_. 0) size) m)"
proof -
  have "map_of m k = Some (JArray xs)"
    using assms(1) by (auto simp: json_array_def split: option.splits json.splits)
  moreover have "size x < size (JArray xs)"
    using assms(2) by (simp add: less_Suc_eq_le size_list_estimation')
  ultimately show ?thesis using size_member by fastforce
qed

declare size_member [termination_simp]

function parse_where_opt :: "json \<Rightarrow> expression option res" where
  "parse_where_opt value0 =
     (case value0 of
        JNull \<Rightarrow> Inr None
      | JObject m \<Rightarrow>
          (case json_array (map_of m ''AND'') of
             Some conds \<Rightarrow> and_then (try_map parse_where_opt conds) (\<lambda>es. Inr (combine_and (List.map_filter id es)))
           | None \<Rightarrow>
          (case json_array (map_of m ''OR'') of
             Some conds \<Rightarrow> and_then (try_map parse_where_opt conds) (\<lambda>es. Inr (combine_or (List.map_filter id es)))
           | None \<Rightarrow>
          (case map_of m ''NOT'' of
             Some cond \<Rightarrow> and_then (parse_where_opt cond) (\<lambda>inner. Inr (map_option (UnaryOp OpNot) inner))
           | None \<Rightarrow>
          (case m of
             (field, condition) # _ \<Rightarrow> parse_field_condition field condition
           | [] \<Rightarrow> Inr None))))
      | _ \<Rightarrow> Inl (Parse ''Invalid WHERE clause: expected object''))"
  by pat_completeness auto
termination by (relation "measure size") (auto simp: size_member size_member_array)

declare parse_where_opt.simps [simp del]

definition parse_where_clause :: "json \<Rightarrow> expression res" where
  "parse_where_clause v =
     (case parse_where_opt v of
        Inr (Some e) \<Rightarrow> Inr e
      | Inr None \<Rightarrow> Inl (Parse ''Empty WHERE clause'')
      | Inl e \<Rightarrow> Inl e)"

definition parse_where_clause_opt :: "json option \<Rightarrow> expression option res" where
  "parse_where_clause_opt v = (case v of Some w \<Rightarrow> parse_where_opt w | None \<Rightarrow> Inr None)"

subsection \<open>Relations\<close>

record fk_relationship =
  fr_child_column :: string
  fr_parent_column :: string

definition find_table_meta :: "table list \<Rightarrow> string \<Rightarrow> table res" where
  "find_table_meta tables name =
     (case find (\<lambda>t. tb_name t = name) tables of Some t \<Rightarrow> Inr t | None \<Rightarrow> Inl (TableNotFound name))"

definition declared_reference :: "string \<Rightarrow> column_meta list \<Rightarrow> (column_meta \<times> foreign_key_info) option" where
  "declared_reference parent_table cols =
     find_map (\<lambda>c. case cm_references c of
         Some fk \<Rightarrow> if fk_foreign_table fk = parent_table then Some (c, fk) else None
       | None \<Rightarrow> None) cols"

definition find_relationship :: "table list \<Rightarrow> string \<Rightarrow> string \<Rightarrow> (table \<times> fk_relationship) option" where
  "find_relationship tables parent_table child_table =
     Option.bind (find (\<lambda>t. tb_name t = child_table) tables) (\<lambda>child.
       case declared_reference parent_table (tb_columns child) of
         Some (c, fk) \<Rightarrow>
           map_option (\<lambda>parent. (parent, \<lparr>fr_child_column = cm_name c, fr_parent_column = fk_foreign_column fk\<rparr>))
             (find (\<lambda>t. tb_name t = parent_table) tables)
       | None \<Rightarrow>
           Option.bind (find (\<lambda>c. cm_name c = trim_end_matches (CHR ''s'') parent_table @ ''_id'') (tb_columns child)) (\<lambda>c.
             map_option (\<lambda>parent. (parent, \<lparr>fr_child_column = cm_name c, fr_parent_column = ''id''\<rparr>))
               (find (\<lambda>t. tb_name t = parent_table) tables)))"

subsection \<open>Plans\<close>

definition bare_table_scan :: "string \<Rightarrow> column_meta list \<Rightarrow> logical_plan" where
  "bare_table_scan name columns = TableScan name columns None None None"

text \<open>One included relation: a left join on the plan so far, skipped when no relationship is found.\<close>

type_synonym include_state = "logical_plan \<times> column_meta list \<times> table_info list \<times> nat"

definition include_scan :: "include_input \<Rightarrow> table \<Rightarrow> logical_plan res" where
  "include_scan inc right_table =
     (let right_scan = bare_table_scan (ii_relation inc) (tb_columns right_table) in
      case ii_where inc of
        None \<Rightarrow> Inr right_scan
      | Some w \<Rightarrow> and_then (parse_where_clause w) (\<lambda>wc. Inr (Filter right_scan wc)))"

definition include_on :: "string \<Rightarrow> string \<Rightarrow> fk_relationship \<Rightarrow> expression" where
  "include_on from relation fk =
     BinaryOp (QualifiedColumn from (fr_parent_column fk)) OpEq (QualifiedColumn relation (fr_child_column fk))"

definition add_include :: "table list \<Rightarrow> string \<Rightarrow> include_state \<Rightarrow> include_input \<Rightarrow> include_state res" where
  "add_include tables from st inc =
     (case st of (plan, all_columns, table_map, join_column_count) \<Rightarrow>
      case find_relationship tables from (ii_relation inc) of
        None \<Rightarrow> Inr st
      | Some (right_table, fk) \<Rightarrow>
          and_then (include_scan inc right_table) (\<lambda>right_input.
          Inr (Join plan right_input JLeft (NestedLoop (Some (include_on from (ii_relation inc) fk))),
               all_columns @ tb_columns right_table,
               table_map @ [(ii_relation inc, tb_columns right_table)],
               join_column_count + length (tb_columns right_table))))"

definition order_by_of :: "order_by_input \<Rightarrow> order_by_expr" where
  "order_by_of o1 = \<lparr>ob_expr = Column (oi_field o1),
     ob_direction = (if eq_ignore_ascii_case (oi_direction o1) ''desc'' then Desc else Asc)\<rparr>"

definition with_order :: "order_by_input list \<Rightarrow> logical_plan \<Rightarrow> logical_plan" where
  "with_order order_by plan = (if order_by = [] then plan else Sort plan (map order_by_of order_by))"

definition with_limit :: "u64 option \<Rightarrow> u64 option \<Rightarrow> logical_plan \<Rightarrow> logical_plan" where
  "with_limit tk skip plan =
     (let off = (case skip of Some n \<Rightarrow> n | None \<Rightarrow> 0) in
      if tk \<noteq> None \<or> off > 0 then Limit plan (case tk of Some n \<Rightarrow> n | None \<Rightarrow> u64_MAX) off else plan)"

definition projected_columns :: "string list option \<Rightarrow> column_meta list \<Rightarrow> nat \<Rightarrow> nat list" where
  "projected_columns select_cols all_columns n =
     (case select_cols of
        Some names \<Rightarrow> List.map_filter (\<lambda>sc. position (\<lambda>c. eq_ignore_ascii_case (cm_name c) sc) all_columns) names
      | None \<Rightarrow> [0..<n])"

definition build_find_many_plan :: "find_many_input \<Rightarrow> table list \<Rightarrow> logical_plan res" where
  "build_find_many_plan input tables =
     and_then (find_table_meta tables (fm_from input)) (\<lambda>t.
     and_then (parse_where_clause_opt (fm_where input)) (\<lambda>where_filter.
     let scan = bare_table_scan (fm_from input) (tb_columns t);
         base = (case where_filter of Some wc \<Rightarrow> Filter scan wc | None \<Rightarrow> scan)
     in and_then (try_fold (add_include tables (fm_from input))
            (base, tb_columns t, [(fm_from input, tb_columns t)], length (tb_columns t)) (fm_include input))
          (\<lambda>(plan, all_columns, table_map, n).
          Inr (Projection (with_limit (fm_take input) (fm_skip input) (with_order (fm_order_by input) plan))
                 (projected_columns (fm_select input) all_columns n) table_map))))"

definition unique_as_many :: "find_unique_input \<Rightarrow> find_many_input" where
  "unique_as_many input =
     \<lparr>fm_from = fu_from input, fm_where = Some (fu_where input), fm_select = fu_select input,
      fm_include = fu_include input, fm_order_by = [], fm_take = Some 1, fm_skip = None\<rparr>"

definition build_find_unique_plan :: "find_unique_input \<Rightarrow> table list \<Rightarrow> logical_plan res" where
  "build_find_unique_plan input tables =
     and_then (parse_where_clause (fu_where input)) (\<lambda>_. build_find_many_plan (unique_as_many input) tables)"

subsection \<open>Nested answers\<close>

type_synonym json_object = "(string, json) omap"

text \<open>The members of an object from paired columns and values; a map keeps one member per name.\<close>

definition object_of :: "(string \<times> string) list \<Rightarrow> json_object" where
  "object_of pairs = foldl (\<lambda>m (c, v). om_put m c (JString v)) [] pairs"

definition row_to_json :: "string list \<Rightarrow> string list \<Rightarrow> json" where
  "row_to_json columns r = JObject (object_of (zip columns r))"

definition rows_to_json :: "string list \<Rightarrow> string list list \<Rightarrow> json list" where
  "rows_to_json columns rows = map (row_to_json columns) rows"

record fk_info =
  fi_parent_idx :: nat
  fi_child_idx :: nat
  fi_parent_col :: string
  fi_child_col :: string
  fi_parent_table :: string
  fi_child_table :: string

fun resolve_includes :: "table list \<Rightarrow> string \<Rightarrow> nat \<Rightarrow> include_input list \<Rightarrow> fk_info list" where
  "resolve_includes tables from off [] = []"
| "resolve_includes tables from off (inc # incs) =
     (case (find_relationship tables from (ii_relation inc), find (\<lambda>t. tb_name t = ii_relation inc) tables) of
        (Some (_, fk), Some child) \<Rightarrow>
          \<lparr>fi_parent_idx = 0, fi_child_idx = off, fi_parent_col = fr_parent_column fk,
           fi_child_col = fr_child_column fk, fi_parent_table = from, fi_child_table = ii_relation inc\<rparr> #
          resolve_includes tables from (off + length (tb_columns child)) incs
      | _ \<Rightarrow> resolve_includes tables from off incs)"

definition resolve_fk_for_includes :: "find_many_input \<Rightarrow> table list \<Rightarrow> fk_info list" where
  "resolve_fk_for_includes input tables =
     (case find (\<lambda>t. tb_name t = fm_from input) tables of
        None \<Rightarrow> []
      | Some parent \<Rightarrow> resolve_includes tables (fm_from input) (length (tb_columns parent)) (fm_include input))"

definition first_child_offset :: "string list \<Rightarrow> fk_info list \<Rightarrow> nat" where
  "first_child_offset columns fks =
     (case map fi_child_idx fks of [] \<Rightarrow> length columns | i # is \<Rightarrow> foldl min i is)"

definition has_key :: "string list \<Rightarrow> json_object \<Rightarrow> bool" where
  "has_key parent_key obj =
     (case om_get obj ''_key'' of
        Some (JArray k) \<Rightarrow> list_all (\<lambda>(a, b). a = JString b) (zip k parent_key)
      | _ \<Rightarrow> False)"

definition new_parent :: "string list \<Rightarrow> fk_info list \<Rightarrow> string list \<Rightarrow> json_object" where
  "new_parent columns fks r =
     (let off = first_child_offset columns fks;
          obj = object_of (take off (zip columns r));
          obj2 = foldl (\<lambda>m fk. om_put m (fi_child_table fk) (JArray [])) obj fks
      in om_put obj2 ''_key'' (JArray (map JString (take off r))))"

text \<open>First pass: one object per parent. The branch for a known parent clones and changes nothing.\<close>

definition add_parent :: "string list \<Rightarrow> fk_info list \<Rightarrow> json_object list \<Rightarrow> string list \<Rightarrow> json_object list" where
  "add_parent columns fks grouped r =
     (case position (has_key (take (first_child_offset columns fks) r)) grouped of
        Some _ \<Rightarrow> grouped
      | None \<Rightarrow> grouped @ [new_parent columns fks r])"

text \<open>
  Second pass: the columns from the first child's offset on become one object in the array of the
  first relation, unless all are NULL or the array has an object with the same members.
\<close>

definition same_members :: "json_object \<Rightarrow> json \<Rightarrow> bool" where
  "same_members child_obj c =
     (case c of JObject m \<Rightarrow> list_all (\<lambda>(k, v). map_of m k = Some v) child_obj | _ \<Rightarrow> False)"

definition push_child :: "string \<Rightarrow> json_object \<Rightarrow> json_object \<Rightarrow> json_object" where
  "push_child child_table child_obj parent =
     (case om_get parent child_table of
        Some (JArray arr) \<Rightarrow>
          if list_ex (same_members child_obj) arr then parent
          else om_put parent child_table (JArray (arr @ [JObject child_obj]))
      | _ \<Rightarrow> parent)"

definition add_child :: "string list \<Rightarrow> fk_info list \<Rightarrow> json_object list \<Rightarrow> string list \<Rightarrow> json_object list" where
  "add_child columns fks grouped r =
     (case (position (has_key (take (first_child_offset columns fks) r)) grouped, fks) of
        (Some i, fk # _) \<Rightarrow>
          (let child_start = fi_child_idx fk; child_vals = drop child_start (take (length columns) r)
           in if length r \<le> child_start \<or> list_all (\<lambda>v. v = ''NULL'') child_vals then grouped
              else grouped[i := push_child (fi_child_table fk) (object_of (drop child_start (zip columns r))) (grouped ! i)])
      | _ \<Rightarrow> grouped)"

definition build_nested_json :: "query_result \<Rightarrow> fk_info list \<Rightarrow> json list" where
  "build_nested_json result fks =
     (if fks = [] \<or> qr_columns result = [] then rows_to_json (qr_columns result) (qr_rows result)
      else
        let grouped = foldl (add_parent (qr_columns result) fks) [] (qr_rows result);
            nested = foldl (add_child (qr_columns result) fks) grouped (qr_rows result)
        in map (\<lambda>m. JObject (om_del m ''_key'')) nested)"

subsection \<open>Execution\<close>

text \<open>\<open>worlds k\<close> is the environment of the \<open>k\<close>-th plan that the query executes.\<close>

type_synonym worlds = "nat \<Rightarrow> exec_plan"

type_synonym json_outcome = "(database \<times> json res) option"

definition on_result :: "outcome \<Rightarrow> (database \<Rightarrow> query_result \<Rightarrow> json_outcome) \<Rightarrow> json_outcome" where
  "on_result o1 f =
     (case o1 of
        None \<Rightarrow> None
      | Some (db, Inl e) \<Rightarrow> Some (db, Inl e)
      | Some (db, Inr r) \<Rightarrow> f db r)"

definition data_response :: "json \<Rightarrow> json" where
  "data_response v = JObject [(''data'', v)]"

definition execute_find_many :: "nat \<Rightarrow> worlds \<Rightarrow> string option \<Rightarrow> find_many_input \<Rightarrow> database \<Rightarrow> json_outcome" where
  "execute_find_many fuel W user input db =
     (case build_find_many_plan input (db_tables db) of
        Inl e \<Rightarrow> Some (db, Inl e)
      | Inr plan \<Rightarrow>
          on_result (execute_as fuel (W 0) user plan db) (\<lambda>db' result.
            Some (db', Inr (data_response (JArray
              (if fm_include input = [] then rows_to_json (qr_columns result) (qr_rows result)
               else build_nested_json result (resolve_fk_for_includes input (db_tables db))))))))"

definition execute_find_unique :: "nat \<Rightarrow> worlds \<Rightarrow> string option \<Rightarrow> find_unique_input \<Rightarrow> database \<Rightarrow> json_outcome" where
  "execute_find_unique fuel W user input db =
     (case build_find_unique_plan input (db_tables db) of
        Inl e \<Rightarrow> Some (db, Inl e)
      | Inr plan \<Rightarrow>
          on_result (execute_as fuel (W 0) user plan db) (\<lambda>db' result.
            Some (db', Inr (data_response
              (case qr_rows result of
                 [] \<Rightarrow> JNull
               | r # _ \<Rightarrow>
                   if fu_include input = [] then row_to_json (qr_columns result) r
                   else (case build_nested_json result
                                (resolve_fk_for_includes (unique_as_many input) (db_tables db)) of
                           j # _ \<Rightarrow> j | [] \<Rightarrow> JNull))))))"

definition member_position :: "table \<Rightarrow> string \<Rightarrow> string \<Rightarrow> nat res" where
  "member_position t from name =
     (case column_index t name of
        Some i \<Rightarrow> Inr i | None \<Rightarrow> Inl (ColumnNotFound (from @ ''.'' @ name)))"

definition member_value :: "table \<Rightarrow> string \<Rightarrow> string \<times> json \<Rightarrow> (nat \<times> datum) res" where
  "member_value t from p =
     and_then (member_position t from (fst p)) (\<lambda>i.
     Inr (i, json_value_to_datum (snd p) (cm_data_type (tb_columns t ! i))))"

definition create_values :: "table \<Rightarrow> string \<Rightarrow> json_members \<Rightarrow> datum list res" where
  "create_values t from members =
     and_then (try_map (member_value t from) members) (\<lambda>sets.
     Inr (foldl (\<lambda>vs (i, v). vs[i := v]) (replicate (length (tb_columns t)) DNull) sets))"

definition whole_table_plan :: "string \<Rightarrow> column_meta list \<Rightarrow> logical_plan" where
  "whole_table_plan from columns =
     Projection (bare_table_scan from columns) [0..<length columns] [(from, columns)]"

definition execute_create :: "nat \<Rightarrow> worlds \<Rightarrow> string option \<Rightarrow> create_input \<Rightarrow> database \<Rightarrow> json_outcome" where
  "execute_create fuel W user input db =
     (case and_then (find_table_meta (db_tables db) (ci_from input)) (\<lambda>t.
             and_then (create_values t (ci_from input) (ci_data input)) (\<lambda>vs. Inr (t, vs))) of
        Inl e \<Rightarrow> Some (db, Inl e)
      | Inr (t, vs) \<Rightarrow>
          on_result (execute_as fuel (W 0) user (Flat (PlanInsert (ci_from input) [\<lparr>row_values = vs\<rparr>])) db) (\<lambda>db1 result.
            if qr_rows_affected result > 0
            then on_result (execute_as fuel (W 1) user (whole_table_plan (ci_from input) (tb_columns t)) db1)
              (\<lambda>db2 fetched. Some (db2, Inr (data_response
                 (if qr_rows fetched = [] then JNull
                  else row_to_json (qr_columns fetched) (last (qr_rows fetched))))))
            else Some (db1, Inr (data_response JNull))))"

definition affected_response :: "query_result \<Rightarrow> json" where
  "affected_response result = data_response (JObject [(''rows_affected'', json_of_nat (qr_rows_affected result))])"

definition structured_update :: "nat \<Rightarrow> worlds \<Rightarrow> string option \<Rightarrow> update_input \<Rightarrow> database \<Rightarrow> json_outcome" where
  "structured_update fuel W user input db =
     (case and_then (find_table_meta (db_tables db) (ui_from input)) (\<lambda>t.
             and_then (parse_where_clause (ui_where input)) (\<lambda>where_expr.
             and_then (try_map (member_value t (ui_from input)) (ui_data input)) (\<lambda>sets.
             Inr (Flat (PlanUpdate (ui_from input) (map fst sets) (map snd sets) (Some where_expr) (tb_columns t)))))) of
        Inl e \<Rightarrow> Some (db, Inl e)
      | Inr plan \<Rightarrow>
          on_result (execute_as fuel (W 0) user plan db) (\<lambda>db' result. Some (db', Inr (affected_response result))))"

definition structured_delete :: "nat \<Rightarrow> worlds \<Rightarrow> string option \<Rightarrow> delete_input \<Rightarrow> database \<Rightarrow> json_outcome" where
  "structured_delete fuel W user input db =
     (case and_then (find_table_meta (db_tables db) (di_from input)) (\<lambda>t.
             and_then (parse_where_clause (di_where input)) (\<lambda>where_expr.
             Inr (Flat (PlanDelete (di_from input) (Some where_expr) (tb_columns t))))) of
        Inl e \<Rightarrow> Some (db, Inl e)
      | Inr plan \<Rightarrow>
          on_result (execute_as fuel (W 0) user plan db) (\<lambda>db' result. Some (db', Inr (affected_response result))))"

definition json_member :: "string \<Rightarrow> json \<Rightarrow> json" where
  "json_member k v = (case v of JObject m \<Rightarrow> (case map_of m k of Some w \<Rightarrow> w | None \<Rightarrow> JNull) | _ \<Rightarrow> JNull)"

definition json_u64_or_zero :: "json \<Rightarrow> u64" where
  "json_u64_or_zero v = (case v of JNumber (NumInt _ (Some n) _ _) \<Rightarrow> n | _ \<Rightarrow> 0)"

text \<open>The text of the update's answer is parsed back to learn how many rows it changed.\<close>

definition execute_upsert ::
    "json_text \<Rightarrow> nat \<Rightarrow> worlds \<Rightarrow> string option \<Rightarrow> upsert_input \<Rightarrow> database \<Rightarrow> json_outcome" where
  "execute_upsert JT fuel W user input db =
     (case structured_update fuel W user
             \<lparr>ui_from = us_from input, ui_where = us_where input, ui_data = us_update input\<rparr> db of
        None \<Rightarrow> None
      | Some (db1, Inl e) \<Rightarrow> Some (db1, Inl e)
      | Some (db1, Inr update_result) \<Rightarrow>
          (case jt_parse JT (jt_print JT update_result) of
             Inl e \<Rightarrow> Some (db1, Inl (Internal (''JSON parse: '' @ e)))
           | Inr update_json \<Rightarrow>
               if json_u64_or_zero (json_member ''rows_affected'' (json_member ''data'' update_json)) = 0
               then execute_create fuel (\<lambda>k. W (k + 1)) user \<lparr>ci_from = us_from input, ci_data = us_create input\<rparr> db1
               else Some (db1, Inr update_result)))"

definition execute_structured ::
    "json_text \<Rightarrow> nat \<Rightarrow> worlds \<Rightarrow> string option \<Rightarrow> structured_query \<Rightarrow> database \<Rightarrow> (database \<times> string res) option" where
  "execute_structured JT fuel W user query db =
     map_option (\<lambda>(db', r). (db', and_then r (\<lambda>j. Inr (jt_print JT j))))
       (case query of
          SqFindMany input \<Rightarrow> execute_find_many fuel W user input db
        | SqFindUnique input \<Rightarrow> execute_find_unique fuel W user input db
        | SqCreate input \<Rightarrow> execute_create fuel W user input db
        | SqUpdate input \<Rightarrow> structured_update fuel W user input db
        | SqDelete input \<Rightarrow> structured_delete fuel W user input db
        | SqUpsert input \<Rightarrow> execute_upsert JT fuel W user input db)"

end
