(* ===== verification/Session.thy ===== *)
theory Session
  imports Structured Framing
begin

text \<open>
  A client's connection (\<open>src/src/server/session.rs\<close>, \<open>src/src/protocol/auth.rs\<close>,
  \<open>src/src/protocol/messages.rs\<close>): the session tokens, the messages of both sides, framing,
  authentication, the message loop of a stream with USE and SHOW DATABASES, prepared statements, and
  the execution of SQL texts with the audit log.

  The databases are shared by all connections, sessions and prepared statements by the streams of
  one connection. A stream is its unread input bytes, the bytes written and the outcomes of the writes
  to come. \<open>cn_clock\<close> numbers the executed plans, so that each has its own environment. Decoding and
  encoding of messages, the certificate parser, the texts of transport errors and JSON are
  parameters.
\<close>

subsection \<open>Sessions\<close>

record session_manager =
  sm_next_token :: u64
  sm_active_sessions :: "(u64, string) omap"

definition session_manager_new :: session_manager where
  "session_manager_new = \<lparr>sm_next_token = 1, sm_active_sessions = om_empty\<rparr>"

definition create_session :: "string \<Rightarrow> session_manager \<Rightarrow> u64 \<times> session_manager" where
  "create_session username sm =
     (let token = sm_next_token sm in
      (token, \<lparr>sm_next_token = token + 1, sm_active_sessions = om_put (sm_active_sessions sm) token username\<rparr>))"

definition verify_token :: "session_manager \<Rightarrow> u64 \<Rightarrow> string option" where
  "verify_token sm token = om_get (sm_active_sessions sm) token"

definition remove_session :: "u64 \<Rightarrow> session_manager \<Rightarrow> session_manager" where
  "remove_session token sm = sm\<lparr>sm_active_sessions := om_del (sm_active_sessions sm) token\<rparr>"

definition active_count :: "session_manager \<Rightarrow> nat" where
  "active_count sm = length (sm_active_sessions sm)"

subsection \<open>Messages\<close>

datatype client_message =
    MsgQuery string u64
  | MsgPrepare string u64
  | MsgExecute u64 "string list" u64
  | MsgAuth string string string
  | MsgStructuredQuery string u64

datatype server_message =
    SrvQueryResult "string list" "string list list" u64 "string option"
  | SrvPrepared u64
  | SrvError string
  | SrvAuthResult bool u64 "string option"
  | SrvStructuredResult string "string option"

record session_env =
  se_front :: sql_front
  se_worlds :: worlds
  se_fuel :: nat
  se_argon :: argon
  se_json :: json_text
  se_query :: "string \<Rightarrow> string + structured_query"
  se_attributes :: "byte list \<Rightarrow> (string \<times> string option) list option"
  se_decode :: "byte list \<Rightarrow> string + client_message"
  se_encode :: "server_message \<Rightarrow> string + byte list"
  se_io_error :: string

record connection =
  cn_databases :: "(string \<times> database) list"
  cn_sessions :: session_manager
  cn_prepared :: "(u64, string) omap"
  cn_audit :: "(string \<times> string) list"
  cn_clock :: nat

record stream =
  st_in :: "byte list"
  st_out :: "byte list"
  st_writes :: "bool list"

subsection \<open>Prepared statements\<close>

text \<open>The bytes of a string are its characters.\<close>

definition simple_hash :: "string \<Rightarrow> u64" where
  "simple_hash s = foldl (\<lambda>h c. h * 33 + of_nat (of_char c)) 5381 s"

text \<open>\<open>str::replace\<close> for a non-empty pattern: the occurrences from the left, without overlap.\<close>

function replace_str :: "string \<Rightarrow> string \<Rightarrow> string \<Rightarrow> string" where
  "replace_str p r s =
     (case s of
        [] \<Rightarrow> []
      | c # t \<Rightarrow>
          if p \<noteq> [] \<and> starts_with p s then r @ replace_str p r (drop (length p) s)
          else c # replace_str p r t)"
  by pat_completeness auto
termination by (relation "measure (\<lambda>(p, r, s). length s)") auto

declare replace_str.simps [simp del]

definition needs_quoting :: "string \<Rightarrow> bool" where
  "needs_quoting param \<longleftrightarrow>
     param = [] \<or> CHR '' '' \<in> set param \<or> CHR 0x27 \<in> set param \<or> CHR '','' \<in> set param \<or> CHR '';'' \<in> set param"

definition param_value :: "string \<Rightarrow> string" where
  "param_value param =
     (if needs_quoting param then quoted (replace_str [CHR 0x27] [CHR 0x27, CHR 0x27] param) else param)"

definition substitute_params :: "string \<Rightarrow> string list \<Rightarrow> string" where
  "substitute_params sql params =
     foldl (\<lambda>result (i, param). replace_str (CHR ''$'' # show_nat (i + 1)) (param_value param) result)
       sql (enumerate 0 params)"

subsection \<open>Executing SQL\<close>

definition database_of :: "connection \<Rightarrow> string \<Rightarrow> database option" where
  "database_of cn name = map_of (cn_databases cn) name"

definition put_database :: "string \<Rightarrow> database \<Rightarrow> connection \<Rightarrow> connection" where
  "put_database name db cn =
     cn\<lparr>cn_databases := map (\<lambda>(n, d). if n = name then (n, db) else (n, d)) (cn_databases cn)\<rparr>"

definition audit_action :: "helion_statement \<Rightarrow> string option" where
  "audit_action stmt = (case stmt of
      StCreateTable name _ _ \<Rightarrow> Some (''CREATE TABLE '' @ name)
    | StDropTable name _ \<Rightarrow> Some (''DROP TABLE '' @ name)
    | StAlterTableEngine name _ \<Rightarrow> Some (''ALTER TABLE '' @ name @ '' ENGINE'')
    | StCreateUser username _ \<Rightarrow> Some (''CREATE USER '' @ username)
    | StDropUser username _ \<Rightarrow> Some (''DROP USER '' @ username)
    | StAlterUser username _ \<Rightarrow> Some (''ALTER USER '' @ username)
    | StGrant username tbl _ _ \<Rightarrow> Some (''GRANT ON '' @ tbl @ '' TO '' @ username)
    | StRevoke username tbl _ _ \<Rightarrow> Some (''REVOKE ON '' @ tbl @ '' FROM '' @ username)
    | StCreateIndex name tbl _ _ _ \<Rightarrow> Some (''CREATE INDEX '' @ name @ '' ON '' @ tbl)
    | StDropIndex name tbl _ \<Rightarrow> Some (''DROP INDEX '' @ name @ '' ON '' @ tbl)
    | _ \<Rightarrow> None)"

definition audit :: "string option \<Rightarrow> helion_statement \<Rightarrow> connection \<Rightarrow> connection" where
  "audit username stmt cn =
     (case (username, audit_action stmt) of
        (Some user, Some action) \<Rightarrow> cn\<lparr>cn_audit := cn_audit cn @ [(user, action)]\<rparr>
      | _ \<Rightarrow> cn)"

fun execute_statements ::
    "session_env \<Rightarrow> string \<Rightarrow> string option \<Rightarrow> helion_statement list \<Rightarrow> query_result option \<Rightarrow>
     database \<Rightarrow> connection \<Rightarrow> (connection \<times> query_result option res) option" where
  "execute_statements SE name username [] last_result db cn = Some (put_database name db cn, Inr last_result)"
| "execute_statements SE name username (stmt # stmts) last_result db cn =
     (case execute_statement (se_fuel SE) (se_worlds SE (cn_clock cn)) username stmt db of
        None \<Rightarrow> None
      | Some (db', Inl e) \<Rightarrow> Some (put_database name db' (cn\<lparr>cn_clock := cn_clock cn + 1\<rparr>), Inl e)
      | Some (db', Inr result) \<Rightarrow>
          execute_statements SE name username stmts (Some result) db'
            (audit username stmt (cn\<lparr>cn_clock := cn_clock cn + 1\<rparr>)))"

definition execute_sql_as ::
    "session_env \<Rightarrow> string \<Rightarrow> string \<Rightarrow> string option \<Rightarrow> database \<Rightarrow> connection \<Rightarrow> (connection \<times> query_result res) option" where
  "execute_sql_as SE sql name username db cn =
     (case parse (se_front SE) sql of
        None \<Rightarrow> None
      | Some (Inl e) \<Rightarrow> Some (cn, Inl e)
      | Some (Inr stmts) \<Rightarrow>
          map_option (\<lambda>(cn', r). (cn', and_then r (\<lambda>last_result.
            case last_result of Some q \<Rightarrow> Inr q | None \<Rightarrow> Inl (Internal ''No statements executed''))))
            (execute_statements SE name username stmts None db cn))"

definition execute_structured_sql ::
    "session_env \<Rightarrow> string \<Rightarrow> string \<Rightarrow> string option \<Rightarrow> database \<Rightarrow> connection \<Rightarrow> (connection \<times> string res) option" where
  "execute_structured_sql SE query_json name username db cn =
     (case se_query SE query_json of
        Inl e \<Rightarrow> Some (cn, Inl (Parse (''Structured query parse error: '' @ e)))
      | Inr query \<Rightarrow>
          map_option (\<lambda>(db', r). (put_database name db' (cn\<lparr>cn_clock := cn_clock cn + 3\<rparr>), r))
            (execute_structured (se_json SE) (se_fuel SE) (\<lambda>k. se_worlds SE (cn_clock cn + k)) username query db))"

subsection \<open>Authenticated messages\<close>

definition query_message :: "query_result res \<Rightarrow> server_message" where
  "query_message r = (case r of
      Inr q \<Rightarrow> SrvQueryResult (qr_columns q) (qr_rows q) (of_nat (qr_rows_affected q)) None
    | Inl e \<Rightarrow> SrvError (error_display e))"

definition structured_message :: "string res \<Rightarrow> server_message" where
  "structured_message r = (case r of
      Inr data_json \<Rightarrow> SrvStructuredResult data_json None | Inl e \<Rightarrow> SrvError (error_display e))"

definition process_message ::
    "session_env \<Rightarrow> client_message \<Rightarrow> string \<Rightarrow> string \<Rightarrow> database \<Rightarrow> connection \<Rightarrow> (connection \<times> server_message) option" where
  "process_message SE msg name username db cn = (case msg of
      MsgQuery sql _ \<Rightarrow>
        map_option (map_prod id query_message) (execute_sql_as SE sql name (Some username) db cn)
    | MsgPrepare sql _ \<Rightarrow>
        Some (cn\<lparr>cn_prepared := om_put (cn_prepared cn) (simple_hash sql) sql\<rparr>, SrvPrepared (simple_hash sql))
    | MsgExecute prepared_id params _ \<Rightarrow>
        (case om_get (cn_prepared cn) prepared_id of
           Some original_sql \<Rightarrow>
             map_option (map_prod id query_message)
               (execute_sql_as SE (substitute_params original_sql params) name (Some username) db cn)
         | None \<Rightarrow> Some (cn, SrvError (''Prepared statement '' @ show_nat (unat prepared_id) @ '' not found'')))
    | MsgStructuredQuery query_json _ \<Rightarrow>
        map_option (map_prod id structured_message)
          (execute_structured_sql SE query_json name (Some username) db cn)
    | MsgAuth _ _ _ \<Rightarrow> Some (cn, SrvError ''Already authenticated''))"

text \<open>The token checked is that of the stream; the one in the message is never read.\<close>

definition process_authenticated_message ::
    "session_env \<Rightarrow> client_message \<Rightarrow> string \<Rightarrow> u64 \<Rightarrow> string \<Rightarrow> database \<Rightarrow> connection \<Rightarrow>
     (connection \<times> server_message) option" where
  "process_authenticated_message SE msg name token username db cn =
     (if verify_token (cn_sessions cn) token \<noteq> Some username
      then Some (cn, SrvError ''Invalid session token'')
      else process_message SE msg name username db cn)"

subsection \<open>Input and output\<close>

fun be_bytes :: "nat \<Rightarrow> nat \<Rightarrow> byte list" where
  "be_bytes n x = rev (le_bytes n x)"

definition read_exact :: "nat \<Rightarrow> byte list \<Rightarrow> (byte list \<times> byte list) option" where
  "read_exact n bs = (if length bs < n then None else Some (take n bs, drop n bs))"

definition read_frame :: "string \<Rightarrow> byte list \<Rightarrow> (byte list \<times> byte list) res" where
  "read_frame io_error bs =
     (case read_exact 4 bs of
        None \<Rightarrow> Inl (Protocol (''Read length error: '' @ io_error))
      | Some (len_buf, rest) \<Rightarrow>
          (case read_exact (le_nat (rev len_buf)) rest of
             None \<Rightarrow> Inl (Protocol (''Read message error: '' @ io_error))
           | Some (buf, rest') \<Rightarrow> Inr (buf, rest')))"

definition read_client_message :: "session_env \<Rightarrow> byte list \<Rightarrow> (client_message \<times> byte list) res" where
  "read_client_message SE bs =
     and_then (read_frame (se_io_error SE) bs) (\<lambda>(buf, rest).
       case se_decode SE buf of
         Inl e \<Rightarrow> Inl (Protocol (''Deserialize error: '' @ e))
       | Inr msg \<Rightarrow> Inr (msg, rest))"

definition write_all :: "string \<Rightarrow> byte list \<Rightarrow> stream \<Rightarrow> stream \<times> unit res" where
  "write_all io_error bytes st =
     (case st_writes st of
        [] \<Rightarrow> (st\<lparr>st_out := st_out st @ bytes\<rparr>, Inr ())
      | works # ws \<Rightarrow>
          if works then (st\<lparr>st_out := st_out st @ bytes, st_writes := ws\<rparr>, Inr ())
          else (st\<lparr>st_writes := ws\<rparr>, Inl (Protocol (''Write error: '' @ io_error))))"

definition write_frame :: "string \<Rightarrow> byte list \<Rightarrow> stream \<Rightarrow> stream \<times> unit res" where
  "write_frame io_error bytes st =
     (case write_all io_error (be_bytes 4 (length bytes mod 2 ^ 32)) st of
        (st1, Inl e) \<Rightarrow> (st1, Inl e)
      | (st1, Inr _) \<Rightarrow> write_all io_error bytes st1)"

definition send_server_message :: "session_env \<Rightarrow> server_message \<Rightarrow> stream \<Rightarrow> stream \<times> unit res" where
  "send_server_message SE msg st =
     (case se_encode SE msg of
        Inl e \<Rightarrow> (st, Inl (Protocol (''Serialize error: '' @ e)))
      | Inr bytes \<Rightarrow> write_frame (se_io_error SE) bytes st)"

definition send_auth_response :: "session_env \<Rightarrow> bool \<Rightarrow> u64 \<Rightarrow> string option \<Rightarrow> stream \<Rightarrow> stream \<times> unit res" where
  "send_auth_response SE success token err st = send_server_message SE (SrvAuthResult success token err) st"

definition send_error :: "session_env \<Rightarrow> string \<Rightarrow> stream \<Rightarrow> stream \<times> unit res" where
  "send_error SE message st = send_server_message SE (SrvError message) st"

subsection \<open>Authentication\<close>

text \<open>The printed type of an attribute with its value, none where the value is no string.\<close>

fun first_common_name :: "(string \<times> string option) list \<Rightarrow> string option" where
  "first_common_name [] = None"
| "first_common_name ((ty, v) # attrs) =
     (case v of
        Some s \<Rightarrow>
          if contains_str ''CN'' ty \<and> trim s \<noteq> [] \<and> length (trim s) \<le> 255 then Some (trim s)
          else first_common_name attrs
      | None \<Rightarrow> first_common_name attrs)"

definition extract_cn_from_der :: "session_env \<Rightarrow> byte list \<Rightarrow> string option" where
  "extract_cn_from_der SE der = Option.bind (se_attributes SE der) first_common_name"

definition authenticate ::
    "session_env \<Rightarrow> byte list option \<Rightarrow> database \<Rightarrow> string \<Rightarrow> string \<Rightarrow> string \<times> bool" where
  "authenticate SE peer_cert_der db username password =
     (let by_password = (username, verify_user (se_argon SE) db username password) in
      case peer_cert_der of
        None \<Rightarrow> by_password
      | Some cert_der \<Rightarrow>
          (case extract_cn_from_der SE cert_der of
             None \<Rightarrow> by_password
           | Some cn \<Rightarrow> if user_exists (db_users db) cn then (cn, True) else by_password))"

subsection \<open>The message loop\<close>

definition database_names :: "connection \<Rightarrow> string list" where
  "database_names cn = sort (map fst (cn_databases cn))"

text \<open>The answer to one message and the database the stream uses afterwards.\<close>

definition handle_message ::
    "session_env \<Rightarrow> u64 \<Rightarrow> string \<Rightarrow> string \<Rightarrow> client_message \<Rightarrow> connection \<Rightarrow> (connection \<times> server_message \<times> string) option" where
  "handle_message SE token username name msg cn =
     (case database_of cn name of
        None \<Rightarrow> None
      | Some db \<Rightarrow>
          let process = map_option (\<lambda>(cn', reply). (cn', reply, name))
                (process_authenticated_message SE msg name token username db cn)
          in case msg of
            MsgQuery sql _ \<Rightarrow>
              (let sql_trimmed = trim_statement sql; upper = to_uppercase sql_trimmed in
               if upper = ''SHOW DATABASES''
               then Some (cn, SrvQueryResult [''database_name''] (map (\<lambda>n. [n]) (database_names cn))
                      (of_nat (length (database_names cn))) None, name)
               else if starts_with ''USE '' upper
               then (let target = trim (drop 3 sql_trimmed) in
                     if database_of cn target = None
                     then Some (cn, SrvError (''Database '' @ quoted target @ '' not found''), name)
                     else map_option (\<lambda>(cn', reply, _). (cn', reply, target)) process)
               else process)
          | _ \<Rightarrow> process)"

lemma read_client_message_shrinks:
  "read_client_message SE bs = Inr (msg, rest) \<Longrightarrow> length rest < length bs"
  by (auto simp: read_client_message_def read_frame_def read_exact_def split: if_splits sum.splits)

lemma write_all_keeps_in: "write_all io bytes st = (st', r) \<Longrightarrow> st_in st' = st_in st"
  by (auto simp: write_all_def split: list.splits if_splits)

lemma send_keeps_in: "send_server_message SE msg st = (st', r) \<Longrightarrow> st_in st' = st_in st"
  by (auto simp: send_server_message_def write_frame_def dest!: write_all_keeps_in split: sum.splits prod.splits)

function serve ::
    "session_env \<Rightarrow> u64 \<Rightarrow> string \<Rightarrow> string \<Rightarrow> stream \<Rightarrow> connection \<Rightarrow> (stream \<times> connection \<times> unit res) option" where
  "serve SE token username name st cn =
     (case read_client_message SE (st_in st) of
        Inl _ \<Rightarrow> Some (st, cn, Inr ())
      | Inr (msg, rest) \<Rightarrow>
          (case handle_message SE token username name msg cn of
             None \<Rightarrow> None
           | Some (cn', reply, name') \<Rightarrow>
               (case send_server_message SE reply (st\<lparr>st_in := rest\<rparr>) of
                  (st', Inl e) \<Rightarrow> Some (st', cn', Inl e)
                | (st', Inr _) \<Rightarrow> serve SE token username name' st' cn')))"
  by pat_completeness auto
termination
  by (relation "measure (\<lambda>(SE, token, username, name, st, cn). length (st_in st))")
    (auto dest!: read_client_message_shrinks send_keeps_in [OF sym])

declare serve.simps [simp del]

definition handle_stream ::
    "session_env \<Rightarrow> string \<Rightarrow> byte list option \<Rightarrow> stream \<Rightarrow> connection \<Rightarrow> (stream \<times> connection \<times> unit res) option" where
  "handle_stream SE default_database peer_cert_der st0 cn =
     (case read_client_message SE (st_in st0) of
        Inl e \<Rightarrow> Some (st0, cn, Inl e)
      | Inr (msg, rest) \<Rightarrow>
          (let st = st0\<lparr>st_in := rest\<rparr> in
           case msg of
             MsgAuth username password db0 \<Rightarrow>
               (let name = (if db0 = [] then default_database else db0) in
                case database_of cn name of
                  None \<Rightarrow> Some (st, cn, Inl (Protocol (''Database '' @ quoted name @ '' not found'')))
                | Some db \<Rightarrow>
                    (case authenticate SE peer_cert_der db username password of
                       (user, True) \<Rightarrow>
                         (case create_session user (cn_sessions cn) of
                            (token, sm) \<Rightarrow>
                              (case send_auth_response SE True token None st of
                                 (st', Inl e) \<Rightarrow> Some (st', cn\<lparr>cn_sessions := sm\<rparr>, Inl e)
                               | (st', Inr _) \<Rightarrow> serve SE token user name st' (cn\<lparr>cn_sessions := sm\<rparr>)))
                     | (_, False) \<Rightarrow>
                         (case send_auth_response SE False 0 (Some ''Invalid credentials'') st of
                            (st', r) \<Rightarrow> Some (st', cn, r))))
           | _ \<Rightarrow>
               (case send_error SE ''Authentication required. Send Auth message first.'' st of
                  (st', r) \<Rightarrow> Some (st', cn, r))))"

end
