(* ===== verification/Client.thy ===== *)
theory Client
  imports Session
begin

text \<open>
  The client of the shell (\<open>src/src/client/conn.rs\<close>, \<open>src/src/client/repl.rs\<close>,
  \<open>src/src/client/output.rs\<close>): connecting and reconnecting, one query per stream with its
  login, the commands of the shell and the printing of results.

  A stream is seen from the client here: its unread input are the bytes of the server. Message
  encoding, the transport and the terminal are parameters; what each step of a connection attempt
  reports is a field of \<open>dial\<close>, None for success.
\<close>

subsection \<open>Connecting\<close>

record dial =
  dl_endpoint :: "string option"
  dl_client_cert :: "string option"
  dl_tls :: "string option"
  dl_address :: "string option"
  dl_connect :: "string option"
  dl_connecting :: "string option"

fun first_failure :: "(string \<times> string option) list \<Rightarrow> unit res" where
  "first_failure [] = Inr ()"
| "first_failure ((what, failure) # steps) =
     (case failure of Some e \<Rightarrow> Inl (Protocol (what @ '': '' @ e)) | None \<Rightarrow> first_failure steps)"

definition reconnect :: "dial \<Rightarrow> unit res" where
  "reconnect D = first_failure
     [(''Endpoint error'', dl_endpoint D), (''TLS config error'', dl_tls D), (''Invalid address'', dl_address D),
      (''Connect error'', dl_connect D), (''Connection failed'', dl_connecting D)]"

datatype server_check = TrustedRoots | AcceptAny

record tls_config =
  tc_server_check :: server_check
  tc_client_auth :: bool

definition client_tls :: "bool \<Rightarrow> bool \<Rightarrow> string option \<Rightarrow> tls_config res" where
  "client_tls has_certs insecure cert_failure =
     (let check = (if insecure then AcceptAny else TrustedRoots) in
      if has_certs
      then (case cert_failure of
              Some e \<Rightarrow> Inl (Protocol (''Client cert error: '' @ e))
            | None \<Rightarrow> Inr \<lparr>tc_server_check = check, tc_client_auth = True\<rparr>)
      else Inr \<lparr>tc_server_check = check, tc_client_auth = False\<rparr>)"

record client_conn =
  cc_username :: string
  cc_password :: string
  cc_database :: string
  cc_tls :: tls_config

definition connect :: "dial \<Rightarrow> string \<Rightarrow> string \<Rightarrow> string \<Rightarrow> bool \<Rightarrow> bool \<Rightarrow> client_conn res" where
  "connect D username password database insecure has_certs =
     and_then (first_failure [(''Endpoint error'', dl_endpoint D)]) (\<lambda>_.
     and_then (client_tls has_certs insecure (dl_client_cert D)) (\<lambda>tls.
     and_then (first_failure
       [(''TLS config error'', dl_tls D), (''Invalid address'', dl_address D),
        (''Connect error'', dl_connect D), (''Connection failed'', dl_connecting D)]) (\<lambda>_.
     Inr \<lparr>cc_username = username, cc_password = password, cc_database = database, cc_tls = tls\<rparr>)))"

subsection \<open>Messages\<close>

record client_env =
  ce_encode :: "client_message \<Rightarrow> string + byte list"
  ce_decode :: "byte list \<Rightarrow> string + server_message"
  ce_io_error :: string

definition write_message :: "client_env \<Rightarrow> client_message \<Rightarrow> stream \<Rightarrow> stream \<times> unit res" where
  "write_message CE msg st =
     (case ce_encode CE msg of
        Inl e \<Rightarrow> (st, Inl (Protocol (''Serialize error: '' @ e)))
      | Inr bytes \<Rightarrow> write_frame (ce_io_error CE) bytes st)"

definition read_message :: "client_env \<Rightarrow> byte list \<Rightarrow> (server_message \<times> byte list) res" where
  "read_message CE bs =
     and_then (read_frame (ce_io_error CE) bs) (\<lambda>(buf, rest).
       case ce_decode CE buf of
         Inl e \<Rightarrow> Inl (Protocol (''Deserialize error: '' @ e))
       | Inr msg \<Rightarrow> Inr (msg, rest))"

subsection \<open>One query\<close>

definition auth_token :: "server_message \<Rightarrow> u64 res" where
  "auth_token msg = (case msg of
      SrvAuthResult success token err \<Rightarrow>
        if success then Inr token
        else (case err of Some e \<Rightarrow> Inl (AuthError e) | None \<Rightarrow> Inl (AuthError ''Unexpected auth response''))
    | SrvError message \<Rightarrow> Inl (AuthError message)
    | _ \<Rightarrow> Inl (AuthError ''Unexpected auth response''))"

definition query_answer :: "server_message \<Rightarrow> query_result res" where
  "query_answer msg = (case msg of
      SrvQueryResult columns rows rows_affected err \<Rightarrow>
        (case err of
           None \<Rightarrow> Inr \<lparr>qr_columns = columns, qr_column_types = [], qr_rows = rows,
                        qr_rows_affected = unat rows_affected\<rparr>
         | Some e \<Rightarrow> Inl (Internal e))
    | SrvError message \<Rightarrow> Inl (Internal message)
    | _ \<Rightarrow> Inl (Internal ''Unexpected response''))"

definition ask :: "client_env \<Rightarrow> client_message \<Rightarrow> stream \<Rightarrow> stream \<times> server_message res" where
  "ask CE msg st =
     (case write_message CE msg st of
        (st1, Inl e) \<Rightarrow> (st1, Inl e)
      | (st1, Inr _) \<Rightarrow>
          (case read_message CE (st_in st1) of
             Inl e \<Rightarrow> (st1, Inl e)
           | Inr (reply, rest) \<Rightarrow> (st1\<lparr>st_in := rest\<rparr>, Inr reply)))"

definition query_stream :: "client_env \<Rightarrow> client_conn \<Rightarrow> string \<Rightarrow> stream \<Rightarrow> stream \<times> query_result res" where
  "query_stream CE c sql st =
     (case ask CE (MsgAuth (cc_username c) (cc_password c) (cc_database c)) st of
        (st1, Inl e) \<Rightarrow> (st1, Inl e)
      | (st1, Inr msg) \<Rightarrow>
          (case auth_token msg of
             Inl e \<Rightarrow> (st1, Inl e)
           | Inr token \<Rightarrow>
               (case ask CE (MsgQuery sql token) st1 of
                  (st2, Inl e) \<Rightarrow> (st2, Inl e)
                | (st2, Inr reply) \<Rightarrow> (st2, query_answer reply))))"

text \<open>Opening a stream: a failure reconnects and tries once more.\<close>

record link =
  lk_first :: "string + stream"
  lk_dial :: dial
  lk_second :: "string + stream"

definition open_bi :: "link \<Rightarrow> stream res" where
  "open_bi L =
     (case lk_first L of
        Inr st \<Rightarrow> Inr st
      | Inl _ \<Rightarrow>
          and_then (reconnect (lk_dial L)) (\<lambda>_.
          case lk_second L of Inl e \<Rightarrow> Inl (Protocol (''Stream error: '' @ e)) | Inr st \<Rightarrow> Inr st))"

definition client_query :: "client_env \<Rightarrow> link \<Rightarrow> client_conn \<Rightarrow> string \<Rightarrow> query_result res" where
  "client_query CE L c sql = and_then (open_bi L) (\<lambda>st. snd (query_stream CE c sql st))"

end
