(* ===== verification/Eval_Props.thy ===== *)
theory Eval_Props
  imports Eval
begin

text \<open>
  What expression evaluation guarantees: LIKE against a declarative reading of patterns, integer
  comparison and arithmetic, the typing of expressions with its soundness, what NULL does, and
  the agreement of the evaluator of joins with that of a single table, on which the planner's
  movement of predicates rests.
\<close>

subsection \<open>LIKE\<close>

text \<open>What a pattern means: \<open>%\<close> stands for any string, \<open>_\<close> for any one character.\<close>

definition like_part :: "char \<Rightarrow> string \<Rightarrow> bool" where
  "like_part c part \<longleftrightarrow>
     (if c = CHR ''%'' then True else if c = CHR ''_'' then length part = 1 else part = [c])"

definition like_spec :: "string \<Rightarrow> string \<Rightarrow> bool" where
  "like_spec pattern s \<longleftrightarrow> (\<exists>parts. concat parts = s \<and> list_all2 like_part pattern parts)"

lemma like_to_regex_Cons: "like_to_regex (c # p) = like_char c @ like_to_regex p"
  by (simp add: like_to_regex_def)

lemma regex_no_star: "like_to_regex p = CHR ''*'' # q \<Longrightarrow> False"
  by (cases p) (auto simp: like_to_regex_def like_char_def regex_special_def split: if_splits)

lemma match_any:
  "simple_match (CHR ''.'' # CHR ''*'' # q) s \<longleftrightarrow> (\<exists>u v. s = u @ v \<and> simple_match q v)"
proof (induction s)
  case (Cons x s)
  have "(\<exists>u v. x # s = u @ v \<and> simple_match q v) \<longleftrightarrow>
      simple_match q (x # s) \<or> (\<exists>u v. s = u @ v \<and> simple_match q v)"
    by (auto simp: Cons_eq_append_conv)
  then show ?case using Cons by simp
qed simp

lemma match_one:
  assumes "\<And>r. q \<noteq> CHR ''*'' # r"
  shows "simple_match (CHR ''.'' # q) s \<longleftrightarrow> (\<exists>x v. s = x # v \<and> simple_match q v)"
  using assms by (cases s; cases q) auto

lemma match_escaped: "simple_match (CHR 0x5C # c # q) s \<longleftrightarrow> (\<exists>v. s = c # v \<and> simple_match q v)"
  by (cases s) auto

lemma match_char:
  assumes "c \<noteq> CHR ''.''" "c \<noteq> CHR 0x5C"
  shows "simple_match (c # q) s \<longleftrightarrow> (\<exists>v. s = c # v \<and> simple_match q v)"
  using assms by (cases s; cases q) auto

lemma like_spec_Cons:
  "like_spec (c # p) s \<longleftrightarrow> (\<exists>u v. s = u @ v \<and> like_part c u \<and> like_spec p v)"
  unfolding like_spec_def list_all2_Cons1 by (metis (no_types, lifting) concat.simps(2))

lemma match_like_Cons:
  "simple_match (like_char c @ like_to_regex p) s \<longleftrightarrow>
     (\<exists>u v. s = u @ v \<and> like_part c u \<and> simple_match (like_to_regex p) v)"
proof -
  have one: "simple_match (CHR ''.'' # like_to_regex p) s \<longleftrightarrow>
      (\<exists>x v. s = x # v \<and> simple_match (like_to_regex p) v)"
    by (rule match_one) (use regex_no_star in blast)
  have "(\<exists>x v. s = x # v \<and> P v) \<longleftrightarrow> (\<exists>u v. s = u @ v \<and> length u = 1 \<and> P v)" for P
    by (auto simp: length_Suc_conv) (metis append_Cons append_Nil)
  then show ?thesis
    using one match_any [of "like_to_regex p" s] match_escaped [of c "like_to_regex p" s]
      match_char [of c "like_to_regex p" s]
    by (auto simp: like_char_def like_part_def regex_special_def)
qed

text \<open>C16: LIKE matches exactly the strings its pattern describes: those that split into one part for each
  character of the pattern, any string for a percent sign, one character for an underscore, the
  character itself otherwise, the characters special to regular expressions included.\<close>
theorem like_correct:
  "regex_lite (like_to_regex pattern) s \<longleftrightarrow>
     (\<exists>parts. concat parts = s \<and> list_all2 like_part pattern parts)"
proof -
  have "simple_match (like_to_regex pattern) s \<longleftrightarrow> like_spec pattern s"
  proof (induction pattern arbitrary: s)
    case Nil
    then show ?case by (auto simp: like_to_regex_def like_spec_def)
  next
    case (Cons c p)
    then show ?case by (simp add: like_to_regex_Cons match_like_Cons like_spec_Cons)
  qed
  then show ?thesis by (simp add: regex_lite_def like_spec_def)
qed

subsection \<open>Integer comparison and arithmetic\<close>

lemma round_2_53_1: "round_bits 9007199254740993 1 = round_bits 9007199254740992 1"
  by code_simp

lemma f64_of_int_2_53_1: "f64_of_int 9007199254740993 = f64_of_int 9007199254740992"
  by (simp add: f64_of_int_nonzero round_2_53_1)

lemma datum_int_rank:
  "datum_int a = Some x \<Longrightarrow> numeric_rank F a = Some (Signed x) \<or>
     numeric_rank F a = Some (Unsigned x) \<and> 0 \<le> x"
  by (cases a) auto

lemma compare_numeric_int:
  "datum_int a = Some x \<Longrightarrow> datum_int b = Some y \<Longrightarrow> compare_numeric F a b = Some (cmp_of x y)"
  using datum_int_rank [of a x F] datum_int_rank [of b y F]
  by (auto simp: compare_numeric_def cmp_of_def)

text \<open>comparing two integers of any widths and signedness compares their mathematical values: a
  negative value is below every unsigned one and nothing wraps.\<close>
theorem compare_datums_integers:
  assumes "datum_int a = Some x" "datum_int b = Some y"
  shows "compare_datums F a b = Some (cmp_of x y)"
  using assms compare_numeric_int [OF assms, of F]
  by (cases a; cases b) (auto simp: compare_datums_def cmp_uint)

theorem compare_datums_integers_witness:
  "\<forall>F. compare_datums F (DSmallInt (- 1)) (DUnsignedBigInt (2 ^ 63)) = Some Less"
  using compare_datums_integers [of "DSmallInt (- 1)" "- 1" "DUnsignedBigInt (2 ^ 63)" "2 ^ 63"]
  by (simp add: cmp_of_def)

lemma numeric_to_f64_int: "datum_int a = Some x \<Longrightarrow> numeric_to_f64 F a = f64_of_int x"
  by (cases a) auto

lemma trunc_of_int [simp]: "trunc (of_int i) = i"
  by (simp add: trunc_def)

lemma f64_to_int_exact:
  "f64_extended r = of_int i \<Longrightarrow> \<not> f64_is_nan r \<Longrightarrow> f64_to_int lo hi r = max lo (min hi i)"
  by (simp add: f64_to_int_def)

definition clamp :: "int \<Rightarrow> int \<Rightarrow> int \<Rightarrow> int" where
  "clamp lo hi i = max lo (min hi i)"

text \<open>C32: addition of integers goes through \<open>f64\<close>. An INTEGER sum is always computed exactly and
  clamped to 32 bits, not wrapped; a BIGINT sum is exact as long as the operands and the sum stay
  within \<open>2 ^ 53\<close>, and beyond that digits are lost: \<open>2 ^ 53 + 1\<close> plus 0 is \<open>2 ^ 53\<close>.\<close>
theorem integer_addition:
  fixes a b :: i32 and c d :: i64
  shows "datum_arith F (f64_add F) (DInteger a) (DInteger b) =
      Inr (DInteger (word_of_int (clamp (- (2 ^ 31)) (2 ^ 31 - 1) (sint a + sint b)))) \<and>
    (\<bar>sint c\<bar> \<le> 2 ^ 53 \<and> \<bar>sint d\<bar> \<le> 2 ^ 53 \<and> \<bar>sint c + sint d\<bar> \<le> 2 ^ 53 \<longrightarrow>
      datum_arith F (f64_add F) (DBigInt c) (DBigInt d) = Inr (DBigInt (c + d))) \<and>
    datum_arith F (f64_add F) (DBigInt (2 ^ 53 + 1)) (DBigInt 0) = Inr (DBigInt (2 ^ 53))"
proof (intro conjI impI)
  have "\<bar>sint a\<bar> \<le> 2 ^ 31" "\<bar>sint b\<bar> \<le> 2 ^ 31"
    using sint_lower32 [of a] sint_upper32 [of a] sint_lower32 [of b] sint_upper32 [of b] by auto
  then have s: "\<bar>sint a\<bar> \<le> 2 ^ 53" "\<bar>sint b\<bar> \<le> 2 ^ 53" "\<bar>sint a + sint b\<bar> \<le> 2 ^ 53" by auto
  show "datum_arith F (f64_add F) (DInteger a) (DInteger b) =
      Inr (DInteger (word_of_int (clamp (- (2 ^ 31)) (2 ^ 31 - 1) (sint a + sint b))))"
    using f64_add_of_int [OF s, of F]
    by (simp add: datum_arith_def arith_result_def as_signed_def f64_to_int_exact clamp_def del: of_int_add)
next
  assume asm: "\<bar>sint c\<bar> \<le> 2 ^ 53 \<and> \<bar>sint d\<bar> \<le> 2 ^ 53 \<and> \<bar>sint c + sint d\<bar> \<le> 2 ^ 53"
  then have "max (- (2 ^ 63)) (min (2 ^ 63 - 1) (sint c + sint d)) = sint c + sint d" by auto
  then show "datum_arith F (f64_add F) (DBigInt c) (DBigInt d) = Inr (DBigInt (c + d))"
    using f64_add_of_int [of "sint c" "sint d" F] asm
    by (simp add: datum_arith_def arith_result_def as_signed_def f64_to_int_exact del: of_int_add)
      (simp add: wi_hom_add [symmetric])
next
  have "f64_extended (f64_add F (f64_of_int 9007199254740992) (f64_of_int 0)) = of_int 9007199254740992 \<and>
      \<not> f64_is_nan (f64_add F (f64_of_int 9007199254740992) (f64_of_int 0))"
    using f64_add_of_int [of 9007199254740992 0 F] by simp
  then show "datum_arith F (f64_add F) (DBigInt (2 ^ 53 + 1)) (DBigInt 0) = Inr (DBigInt (2 ^ 53))"
    by (simp add: datum_arith_def arith_result_def as_signed_def f64_of_int_2_53_1
        f64_to_int_exact [of _ 9007199254740992])
qed

theorem integer_addition_witness:
  "\<forall>F. datum_arith F (f64_add F) (DBigInt 4611686018427387) (DBigInt (- 7)) = Inr (DBigInt 4611686018427380)"
  using integer_addition [where c = 4611686018427387 and d = "- 7" and a = 0 and b = 0] by simp

subsection \<open>Types of expressions\<close>

fun comparison_op :: "binary_operator \<Rightarrow> bool" where
  "comparison_op op = (op \<notin> {OpAdd, OpSub, OpMul, OpDiv})"

definition integer_types :: "data_type set" where
  "integer_types =
     {TySmallInt, TyUnsignedSmallInt, TyInteger, TyUnsignedInteger, TyBigInt, TyUnsignedBigInt}"

definition function_type :: "string \<Rightarrow> data_type option" where
  "function_type name =
     (let n = to_lowercase name in
      if n = ''count'' then Some TyBigInt
      else if n = ''sum'' \<or> n = ''avg'' then Some TyDouble
      else if n = ''lower'' \<or> n = ''lcase'' \<or> n = ''upper'' \<or> n = ''ucase'' then Some TyText
      else if n = ''length'' \<or> n = ''len'' then Some TyInteger
      else None)"

text \<open>
  A typing of expressions over the columns of one table. Negation is left out: on NULL it is an
  error, not NULL.
\<close>

inductive has_type :: "column_meta list \<Rightarrow> expression \<Rightarrow> data_type \<Rightarrow> bool"
  for columns where
  lit: "has_type columns (Literal v) (datum_type v)"
| col: "column_position columns name = Some i \<Longrightarrow>
    has_type columns (Column name) (erase_length (cm_data_type (columns ! i)))"
| qcol: "column_position columns name = Some i \<Longrightarrow>
    has_type columns (QualifiedColumn table name) (erase_length (cm_data_type (columns ! i)))"
| compare: "has_type columns a S \<Longrightarrow> has_type columns b T \<Longrightarrow> comparison_op op \<Longrightarrow>
    has_type columns (BinaryOp a op b) TyBoolean"
| arith: "has_type columns a T \<Longrightarrow> has_type columns b T \<Longrightarrow> \<not> comparison_op op \<Longrightarrow>
    T \<in> insert TyDouble integer_types \<Longrightarrow> has_type columns (BinaryOp a op b) T"
| nots: "has_type columns a T \<Longrightarrow> has_type columns (UnaryOp OpNot a) TyBoolean"
| isnull: "has_type columns a T \<Longrightarrow> has_type columns (IsNull a) TyBoolean"
| isnotnull: "has_type columns a T \<Longrightarrow> has_type columns (IsNotNull a) TyBoolean"
| ins: "has_type columns a T \<Longrightarrow> has_type columns (In a list) TyBoolean"
| between: "has_type columns a T \<Longrightarrow> has_type columns b S \<Longrightarrow> has_type columns c R \<Longrightarrow>
    has_type columns (Between a b c) TyBoolean"
| like: "has_type columns a T \<Longrightarrow> has_type columns (Like a p) TyBoolean"
| func: "list_all (\<lambda>a. \<exists>S. has_type columns a S) args \<Longrightarrow> function_type name = Some T \<Longrightarrow>
    has_type columns (Function name args) T"
monos list.pred_mono_strong

definition conforms :: "column_meta list \<Rightarrow> datum list \<Rightarrow> bool" where
  "conforms columns r \<longleftrightarrow>
     list_all2 (\<lambda>c v. v = DNull \<or> erase_length (datum_type v) = erase_length (cm_data_type c)) columns r"

definition of_type :: "data_type \<Rightarrow> datum \<Rightarrow> bool" where
  "of_type T v \<longleftrightarrow> v = DNull \<or> datum_type v = T"

lemma erase_datum_type [simp]: "erase_length (datum_type v) = datum_type v"
  by (cases v) auto

lemma of_type_null [simp]: "of_type T DNull"
  by (simp add: of_type_def)

lemma of_type_bool [simp]: "of_type TyBoolean (DBoolean b)"
  by (simp add: of_type_def)

lemma column_value_type:
  assumes "column_position columns name = Some i" "conforms columns r"
  shows "of_type (erase_length (cm_data_type (columns ! i))) (row_value r i)"
  using assms position_less [of _ columns i]
  by (auto simp: column_position_def conforms_def list_all2_conv_all_nth row_value_def nth_opt_def of_type_def)

lemma binary_compare_type:
  "comparison_op op \<Longrightarrow> \<exists>v. binary_value F op l r = Inr v \<and> of_type TyBoolean v"
  by (cases op) (auto simp: binary_value_def)

lemma arith_result_type:
  assumes "datum_type l = T" "datum_type r = T" "T \<in> insert TyDouble integer_types"
  shows "datum_type (arith_result l r f) = T"
  using assms by (cases l; cases r) (auto simp: arith_result_def integer_types_def)

lemma binary_arith_type:
  assumes "\<not> comparison_op op" "T \<in> insert TyDouble integer_types" "of_type T l" "of_type T r"
  shows "\<exists>v. binary_value F op l r = Inr v \<and> of_type T v"
proof (cases "l = DNull \<or> r = DNull")
  case False
  then have t: "datum_type l = T" "datum_type r = T" using assms(3,4) by (auto simp: of_type_def)
  then have num: "is_numeric l" "is_numeric r"
    using assms(2) False by (cases l; cases r; auto simp: integer_types_def)+
  have "datum_arith F f l r = Inr (arith_result l r (f (numeric_to_f64 F l) (numeric_to_f64 F r)))" for f
    using num by (simp add: datum_arith_def)
  then show ?thesis
    using assms(1) False arith_result_type [OF t assms(2)]
    by (cases op) (auto simp: binary_value_def of_type_def)
qed (auto simp: binary_value_def)

lemma function_type_sound:
  "function_type name = Some T \<Longrightarrow> \<exists>v. evaluate_function E u name args = Inr v \<and> of_type T v"
  by (auto simp: function_type_def evaluate_function_def Let_def of_type_def split: if_splits)

lemma evaluate_args_total:
  "list_all (\<lambda>a. \<forall>d. \<exists>v. evaluate E d r columns a = Inr v) args \<Longrightarrow>
     \<exists>vs. evaluate_args E d r columns args = Inr vs"
proof (induction args arbitrary: d)
  case (Cons a args)
  obtain v where "evaluate E (sub_supply 0 d) r columns a = Inr v" using Cons.prems by auto
  moreover obtain vs where "evaluate_args E (sub_supply 1 d) r columns args = Inr vs"
    using Cons by fastforce
  ultimately show ?case by simp
qed simp

text \<open>C17: well-typed expressions do not go wrong. Over a row that conforms to the columns, an expression
  with a type evaluates without an error, and its value is NULL or of that type.\<close>
theorem evaluate_type_sound:
  assumes "has_type columns e T" "conforms columns r"
  shows "\<exists>v. evaluate E d r columns e = Inr v \<and> (v = DNull \<or> datum_type v = T)"
proof -
  have "\<exists>v. evaluate E d r columns e = Inr v \<and> of_type T v"
    using assms(1)
  proof (induction arbitrary: d rule: has_type.induct)
    case (compare a S b T op)
    then show ?case using binary_compare_type [OF compare.hyps(3)] by (metis and_then_Inr evaluate.simps(4))
  next
    case (arith a T b op)
    then show ?case using binary_arith_type [OF arith.hyps(3,4)] by (metis and_then_Inr evaluate.simps(4))
  next
    case (nots a T)
    then show ?case by (metis evaluate.simps(5) and_then_Inr unary_value_def unary_operator.simps(3) of_type_bool)
  next
    case (between a T b S c R)
    obtain v l h where "evaluate E (sub_supply 0 d) r columns a = Inr v"
      "evaluate E (sub_supply 1 d) r columns b = Inr l" "evaluate E (sub_supply 2 d) r columns c = Inr h"
      using between.IH by meson
    then show ?case by (simp add: between_value_def)
  next
    case (func args name T)
    have "list_all (\<lambda>a. \<forall>d. \<exists>v. evaluate E d r columns a = Inr v) args"
      using func.IH by (fastforce simp: list_all_iff)
    then obtain vs where "evaluate_args E (sub_supply 0 d) r columns args = Inr vs"
      using evaluate_args_total by blast
    then show ?case using function_type_sound [OF func.hyps] by simp
  next
    case (col name i)
    then show ?case using column_value_type [OF col assms(2)] by simp
  next
    case (qcol name i table)
    then show ?case using column_value_type [OF qcol assms(2)] by simp
  next
    case (isnull a T)
    then show ?case by (metis evaluate.simps(6) and_then_Inr of_type_bool)
  next
    case (isnotnull a T)
    then show ?case by (metis evaluate.simps(7) and_then_Inr of_type_bool)
  next
    case (ins a T list)
    then show ?case by (metis evaluate.simps(8) and_then_Inr of_type_bool)
  next
    case (like a T p)
    then show ?case by (metis evaluate.simps(10) and_then_Inr of_type_bool like_value_def)
  qed (simp add: of_type_def)
  then show ?thesis by (simp add: of_type_def)
qed

definition sample_expr_columns :: "column_meta list" where
  "sample_expr_columns = [column_new ''id'' TyInteger, column_new ''name'' (TyVarChar (Some 10))]"

definition sample_predicate :: expression where
  "sample_predicate = BinaryOp (BinaryOp (Column ''ID'') OpGt (Literal (DInteger 3))) OpAnd
     (Like (QualifiedColumn ''t'' ''name'') ''a%'')"

theorem evaluate_type_sound_witness:
  "\<forall>E d. \<exists>v. evaluate E d [DInteger 4, DVarChar ''abc''] sample_expr_columns sample_predicate = Inr v \<and>
     (v = DNull \<or> datum_type v = TyBoolean)"
proof (intro allI)
  fix E d
  have p: "column_position sample_expr_columns ''ID'' = Some 0" "column_position sample_expr_columns ''name'' = Some 1"
    by code_simp+
  have "has_type sample_expr_columns sample_predicate TyBoolean"
    unfolding sample_predicate_def
    by (rule compare [OF compare [OF col [OF p(1)] lit] like [OF qcol [OF p(2)]]]) simp_all
  moreover have "conforms sample_expr_columns [DInteger 4, DVarChar ''abc'']" by code_simp
  ultimately show "\<exists>v. evaluate E d [DInteger 4, DVarChar ''abc''] sample_expr_columns sample_predicate = Inr v \<and>
     (v = DNull \<or> datum_type v = TyBoolean)" by (rule evaluate_type_sound)
qed

subsection \<open>NULL\<close>

text \<open>the connectives are not those of three-valued logic. When a predicate is NULL on a row, so are its
  conjunction with FALSE and its disjunction with TRUE, but its negation is TRUE, so that NOT of a
  condition keeps the rows on which the condition is unknown.\<close>
theorem null_logic:
  assumes "\<And>d. evaluate E d r columns e = Inr DNull"
  shows "evaluate E d r columns (BinaryOp e OpAnd (Literal (DBoolean False))) = Inr DNull \<and>
    evaluate E d r columns (BinaryOp e OpOr (Literal (DBoolean True))) = Inr DNull \<and>
    evaluate E d r columns (UnaryOp OpNot e) = Inr (DBoolean True) \<and>
    evaluate E d r columns (Like e ''%'') = Inr (DBoolean True)"
  using assms by (auto simp: binary_value_def unary_value_def like_value_def regex_lite_def like_to_regex_def like_char_def)

theorem null_logic_witness:
  "\<forall>E d. evaluate E d [DNull] [column_new ''x'' TyInteger]
     (UnaryOp OpNot (BinaryOp (Column ''x'') OpGt (Literal (DInteger 1)))) = Inr (DBoolean True)"
proof (intro allI)
  fix E d
  have p: "column_position [column_new ''x'' TyInteger] ''x'' = Some 0" by code_simp
  have "\<And>d. evaluate E d [DNull] [column_new ''x'' TyInteger] (BinaryOp (Column ''x'') OpGt (Literal (DInteger 1))) = Inr DNull"
    by (simp add: p row_value_def binary_value_def nth_opt_def)
  from null_logic [OF this, of d]
  show "evaluate E d [DNull] [column_new ''x'' TyInteger]
     (UnaryOp OpNot (BinaryOp (Column ''x'') OpGt (Literal (DInteger 1)))) = Inr (DBoolean True)" by simp
qed

subsection \<open>Expressions over one table of a join\<close>

fun column_refs :: "expression \<Rightarrow> (string option \<times> string) list" where
  "column_refs (Column name) = [(None, name)]"
| "column_refs (QualifiedColumn table col) = [(Some table, col)]"
| "column_refs (Literal v) = []"
| "column_refs (BinaryOp a op b) = column_refs a @ column_refs b"
| "column_refs (UnaryOp op a) = column_refs a"
| "column_refs (IsNull a) = column_refs a"
| "column_refs (IsNotNull a) = column_refs a"
| "column_refs (In a list) = column_refs a"
| "column_refs (Between a b c) = column_refs a @ column_refs b @ column_refs c"
| "column_refs (Like a p) = column_refs a"
| "column_refs (Function name args) = concat (map column_refs args)"

definition other_lacks :: "table_map \<Rightarrow> string \<Rightarrow> bool" where
  "other_lacks tm name \<longleftrightarrow> list_all (\<lambda>(_, _, columns). column_position columns name = None) tm"

definition ref_local :: "table_map \<Rightarrow> string \<Rightarrow> table_map \<Rightarrow> string option \<times> string \<Rightarrow> bool" where
  "ref_local before t after ref =
     (case ref of
        (Some table, _) \<Rightarrow> eq_ignore_ascii_case t table \<and>
          list_all (\<lambda>(tname, _, _). \<not> eq_ignore_ascii_case tname table) before
      | (None, name) \<Rightarrow> other_lacks before name \<and> other_lacks after name)"

definition slice_of :: "datum list \<Rightarrow> nat \<Rightarrow> column_meta list \<Rightarrow> datum list \<Rightarrow> bool" where
  "slice_of r offset columns r0 \<longleftrightarrow> (\<forall>i < length columns. row_value r (offset + i) = row_value r0 i)"

lemma lookup_loop_lacks: "other_lacks tm name \<Longrightarrow> lookup_loop name found (tm @ rest) = lookup_loop name found rest"
  by (induction tm) (auto simp: other_lacks_def)

lemma lookup_unqualified_local:
  assumes "other_lacks before name" "other_lacks after name"
  shows "lookup_unqualified (before @ (t, offset, columns) # after) name =
    (case column_position columns name of
       None \<Rightarrow> Inl (ColumnNotFound name) | Some i \<Rightarrow> Inr (offset + i))"
  using lookup_loop_lacks [OF assms(1), of None "(t, offset, columns) # after"]
    lookup_loop_lacks [OF assms(2), of _ "[]"]
  by (auto simp: lookup_unqualified_def split: option.splits)

lemma find_append_skip: "list_all (\<lambda>x. \<not> P x) xs \<Longrightarrow> find P (xs @ ys) = find P ys"
  by (induction xs) auto

lemma lookup_qualified_local:
  assumes "eq_ignore_ascii_case t table" "list_all (\<lambda>(tname, _, _). \<not> eq_ignore_ascii_case tname table) before"
  shows "lookup_qualified (before @ (t, offset, columns) # after) table col =
    (case column_position columns col of
       None \<Rightarrow> Inl (ColumnNotFound (table @ ''.'' @ col)) | Some i \<Rightarrow> Inr (offset + i))"
  using assms find_append_skip [of "\<lambda>(tname, _, _). eq_ignore_ascii_case tname table" before]
  by (auto simp: lookup_qualified_def case_prod_unfold split: option.splits)

lemma column_position_less: "column_position columns name = Some i \<Longrightarrow> i < length columns"
  unfolding column_position_def by (rule position_less)

text \<open>An expression that refers to one table only evaluates on the combined row as on that table's row.\<close>

lemma evaluate_join_table:
  shows "slice_of r offset columns r0 \<Longrightarrow> (\<forall>ref \<in> set (column_refs e). ref_local before t after ref) \<Longrightarrow>
      evaluate_join E d r (before @ (t, offset, columns) # after) e = evaluate E d r0 columns e"
    and "slice_of r offset columns r0 \<Longrightarrow>
      (\<forall>e \<in> set es. \<forall>ref \<in> set (column_refs e). ref_local before t after ref) \<Longrightarrow>
      evaluate_join_args E d r (before @ (t, offset, columns) # after) es = evaluate_args E d r0 columns es"
proof (induction E d r0 columns e and E d r0 columns es rule: evaluate_evaluate_args.induct)
  case (2 E d r0 columns name)
  then show ?case
    by (auto simp: ref_local_def lookup_unqualified_local slice_of_def dest: column_position_less split: option.splits)
next
  case (3 E d r0 columns table col)
  then show ?case
    by (auto simp: ref_local_def lookup_qualified_local slice_of_def dest: column_position_less split: option.splits)
next
  case (4 E d r0 columns left op right)
  then show ?case by (cases "evaluate E (sub_supply 0 d) r0 columns left") auto
next
  case (9 E d r0 columns inner low high)
  then show ?case
    by (cases "evaluate E (sub_supply 0 d) r0 columns inner";
        cases "evaluate E (sub_supply 1 d) r0 columns low") auto
next
  case (13 E d r0 columns a as)
  then show ?case by (cases "evaluate E (sub_supply 0 d) r0 columns a") auto
qed auto

text \<open>C37: the two evaluators agree. An expression all of whose columns belong to one table of a join, a
  qualified name through the first table of that name, an unqualified one because no other table has
  such a column, gives on the combined row what it gives on that table's own row, errors included.\<close>
theorem evaluate_join_agrees:
  assumes "\<forall>ref \<in> set (column_refs e). ref_local before t after ref" "slice_of r offset columns r0"
  shows "evaluate_join E d r (before @ (t, offset, columns) # after) e = evaluate E d r0 columns e"
  using evaluate_join_table(1) [OF assms(2,1)] .

theorem evaluate_join_agrees_witness:
  "\<forall>E d. evaluate_join E d [DInteger 1, DInteger 2] [(''a'', 0, [column_new ''x'' TyInteger]), (''b'', 1, [column_new ''y'' TyInteger])]
     (BinaryOp (Column ''y'') OpEq (QualifiedColumn ''B'' ''y'')) = Inr (DBoolean True)"
proof (intro allI)
  fix E d
  let ?a = "(''a'', 0, [column_new ''x'' TyInteger])" and ?e = "BinaryOp (Column ''y'') OpEq (QualifiedColumn ''B'' ''y'')"
  have l: "list_all (ref_local [?a] ''b'' []) (column_refs ?e)" by code_simp
  have s: "slice_of [DInteger 1, DInteger 2] 1 [column_new ''y'' TyInteger] [DInteger 2]"
    by (simp add: slice_of_def row_value_def nth_opt_def)
  have p: "column_position [column_new ''y'' TyInteger] ''y'' = Some 0" by code_simp
  have v: "row_value [DInteger 2] 0 = DInteger 2" by code_simp
  have "evaluate E d [DInteger 2] [column_new ''y'' TyInteger] ?e = Inr (DBoolean True)"
    by (simp add: p v binary_value_def datum_eq_def compare_datums_def cmp_of_def)
  then show "evaluate_join E d [DInteger 1, DInteger 2] [?a, (''b'', 1, [column_new ''y'' TyInteger])] ?e =
      Inr (DBoolean True)"
    using evaluate_join_agrees [of ?e "[?a]" "''b''" "[]", OF _ s] l by (simp add: list_all_iff)
qed

text \<open>An expression without \<open>uuidv7\<close> does not depend on the supply of identifiers.\<close>

fun volatile :: "expression \<Rightarrow> bool" where
  "volatile (Column name) = False"
| "volatile (QualifiedColumn table col) = False"
| "volatile (Literal v) = False"
| "volatile (BinaryOp a op b) = (volatile a \<or> volatile b)"
| "volatile (UnaryOp op a) = volatile a"
| "volatile (IsNull a) = volatile a"
| "volatile (IsNotNull a) = volatile a"
| "volatile (In a list) = volatile a"
| "volatile (Between a b c) = (volatile a \<or> volatile b \<or> volatile c)"
| "volatile (Like a p) = volatile a"
| "volatile (Function name args) =
     (to_lowercase name \<in> {''uuidv7'', ''uuid_v7''} \<or> list_ex volatile args)"

lemma evaluate_function_stable:
  "to_lowercase name \<notin> {''uuidv7'', ''uuid_v7''} \<Longrightarrow>
     evaluate_function E u name vs = evaluate_function E u' name vs"
  by (simp add: evaluate_function_def Let_def)

lemma evaluate_stable:
  shows "\<not> volatile e \<Longrightarrow> evaluate E d r columns e = evaluate E d' r columns e"
    and "\<not> list_ex volatile es \<Longrightarrow> evaluate_args E d r columns es = evaluate_args E d' r columns es"
proof (induction E d r columns e and E d r columns es arbitrary: d' and d' rule: evaluate_evaluate_args.induct)
  case (4 E d r columns left op right)
  then show ?case by (metis (no_types, lifting) evaluate.simps(4) volatile.simps(4) and_then_def sum.case_eq_if sum.collapse(1) sum.collapse(2))
next
  case (11 E d r columns name args)
  show ?case
    using "11.IH" [of "sub_supply 0 d'"] "11.prems" evaluate_function_stable by (auto simp: and_then_def split: sum.splits)
qed (auto simp: and_then_def split: sum.splits)

end
