(* ===== verification/Pushdown.thy ===== *)
theory Pushdown
  imports Executor Eval_Props
begin

text \<open>
  Predicate pushdown preserves the result of a query over scans and inner joins: moving the
  conjuncts of a condition into the scans of the one table they refer to gives the same rows in
  the same order, or the same error. Behind it stands the locality of expressions: an expression
  whose tables all lie on one side of a join evaluates on the combined row as on that side's row.
\<close>

subsection \<open>Locality\<close>

lemma set_sort_dedup [simp]: "set (sort_dedup xs) = set xs"
  by (simp add: sort_dedup_def)

definition info_of :: "table_map \<Rightarrow> table_info list" where
  "info_of tm = map (\<lambda>(n, _, c). (n, c)) tm"

definition lower_names :: "table_map \<Rightarrow> string list" where
  "lower_names tm = map (to_lowercase \<circ> fst) tm"

definition offsets_ok :: "table_map \<Rightarrow> bool" where
  "offsets_ok tm \<longleftrightarrow> (\<forall>(n, off, c) \<in> set tm. off + length c \<le> info_width tm)"

lemma info_of_simps [simp]: "info_of [] = []" "info_of ((n, off, c) # tm) = (n, c) # info_of tm"
  by (simp_all add: info_of_def)

lemma info_of_shift [simp]: "info_of (shift_by w tm) = info_of tm"
  by (simp add: info_of_def shift_by_def case_prod_unfold)

lemma info_of_append [simp]: "info_of (a @ b) = info_of a @ info_of b"
  by (simp add: info_of_def)

lemma lower_names_shift [simp]: "lower_names (shift_by w tm) = lower_names tm"
  by (simp add: lower_names_def shift_by_def case_prod_unfold)

lemma lower_names_append [simp]: "lower_names (a @ b) = lower_names a @ lower_names b"
  by (simp add: lower_names_def)

lemma info_width_append [simp]: "info_width (a @ b) = info_width a + info_width b"
  by (simp add: info_width_def)

lemma info_width_shift [simp]: "info_width (shift_by w tm) = info_width tm"
  by (simp add: info_width_def shift_by_def case_prod_unfold comp_def)

lemma has_column_position:
  "list_ex (\<lambda>c. eq_ignore_ascii_case (cm_name c) name) columns \<longleftrightarrow> column_position columns name \<noteq> None"
  by (simp add: column_position_def position_None_iff list_ex_iff)

lemma tables_with_column_info:
  "tables_with_column (info_of tm) name =
     map fst (filter (\<lambda>(n, off, c). column_position c name \<noteq> None) tm)"
  by (induction tm) (auto simp: tables_with_column_def info_of_def has_column_position)

lemma lookup_loop_shift:
  "lookup_loop name (map_option ((+) w) found) (shift_by w tm) =
     map_sum id (map_option ((+) w)) (lookup_loop name found tm)"
proof (induction tm arbitrary: found)
  case (Cons x tm)
  obtain n off c where x: "x = (n, off, c)" by (cases x)
  show ?case
    using Cons.IH [of found] Cons.IH [of "Some (off + the (column_position c name))"]
    by (auto simp: x shift_by_def ac_simps split: option.splits)
qed (simp add: shift_by_def)

lemma lookup_loop_append_lacks:
  "tables_with_column (info_of tm2) name = [] \<Longrightarrow>
     lookup_loop name found (tm @ tm2) = lookup_loop name found tm"
proof (induction tm arbitrary: found)
  case Nil
  then show ?case
    by (induction tm2) (auto simp: tables_with_column_info split: if_splits)
next
  case (Cons x tm)
  then show ?case by (cases x) (auto split: option.splits)
qed

lemma lookup_loop_skip:
  "tables_with_column (info_of tm) name = [] \<Longrightarrow> lookup_loop name found (tm @ tm2) = lookup_loop name found tm2"
  by (induction tm) (auto simp: tables_with_column_info split: if_splits)

lemma lookup_loop_bound:
  assumes "lookup_loop name found tm = Inr (Some i)"
  shows "found = Some i \<or> (\<exists>(n, off, c) \<in> set tm. \<exists>k < length c. i = off + k)"
  using assms
proof (induction tm arbitrary: found)
  case (Cons x tm)
  obtain n off c where x: "x = (n, off, c)" by (cases x)
  show ?case
  proof (cases "column_position c name")
    case None
    then show ?thesis using Cons x by fastforce
  next
    case (Some k)
    then have "k < length c" by (rule column_position_less)
    then show ?thesis using Cons.IH [of "Some (off + k)"] Cons.prems Some x by (fastforce split: if_splits)
  qed
qed simp

lemma row_value_append_left: "i < length l \<Longrightarrow> row_value (l @ r) i = row_value l i"
  by (simp add: row_value_def nth_opt_def nth_append)

lemma row_value_append_right: "length l = w \<Longrightarrow> row_value (l @ r) (w + i) = row_value r i"
  by (simp add: row_value_def nth_opt_def nth_append)

text \<open>A table map on one side of a join, next to the other.\<close>

definition sides_ok :: "table_map \<Rightarrow> table_map \<Rightarrow> bool" where
  "sides_ok tml tmr \<longleftrightarrow> distinct (lower_names tml @ lower_names tmr) \<and> offsets_ok tml"

lemma names_apart:
  assumes "sides_ok tml tmr" "n \<in> fst ` set tml" "(m, off, c) \<in> set tmr"
  shows "\<not> eq_ignore_ascii_case m n"
  using assms unfolding sides_ok_def lower_names_def eq_ignore_ascii_case_def
  by (force simp: image_iff)

lemma with_column_append [simp]:
  "tables_with_column (a @ b) name = tables_with_column a name @ tables_with_column b name"
  by (simp add: tables_with_column_def)

lemma with_column_mem:
  "m \<in> set (tables_with_column (info_of tm) name) \<longleftrightarrow>
     (\<exists>off c. (m, off, c) \<in> set tm \<and> column_position c name \<noteq> None)"
  unfolding tables_with_column_info by (force simp: image_iff)

lemma info_names: "set (map fst (info_of tm)) = fst ` set tm"
  by (force simp: info_of_def)

lemma with_column_left:
  assumes ok: "sides_ok tml tmr"
    and sub: "set (tables_with_column (info_of (tml @ tmr)) name) \<subseteq> set (map fst (info_of tml))"
  shows "tables_with_column (info_of tmr) name = []"
proof (rule ccontr)
  assume "\<not> ?thesis"
  then obtain m where m: "m \<in> set (tables_with_column (info_of tmr) name)" using hd_in_set by blast
  then have l: "m \<in> fst ` set tml" using sub by (auto simp: info_names simp del: set_map)
  obtain off c where "(m, off, c) \<in> set tmr" using m unfolding with_column_mem by blast
  from names_apart [OF ok l this] show False by simp
qed

lemma with_column_right:
  assumes ok: "sides_ok tml tmr"
    and sub: "set (tables_with_column (info_of (tml @ tmr)) name) \<subseteq> set (map fst (info_of tmr))"
  shows "tables_with_column (info_of tml) name = []"
proof (rule ccontr)
  assume "\<not> ?thesis"
  then obtain m where m: "m \<in> set (tables_with_column (info_of tml) name)" using hd_in_set by blast
  then have "m \<in> fst ` set tmr" using sub by (auto simp: info_names simp del: set_map)
  then obtain off c where r: "(m, off, c) \<in> set tmr" by (metis imageE prod.collapse)
  have "m \<in> fst ` set tml" using m unfolding with_column_mem by (metis fst_conv imageI)
  from names_apart [OF ok this r] show False by simp
qed

lemma find_append_none: "find P xs = None \<Longrightarrow> find P (xs @ ys) = find P ys"
  by (simp add: find_append)

lemma lookup_qualified_left:
  assumes ok: "sides_ok tml tmr" and n: "table \<in> set (map fst (info_of tml))" and len: "length l = info_width tml"
  shows "map_sum id (row_value (l @ r)) (lookup_qualified (tml @ shift_by (info_width tml) tmr) table col) =
    map_sum id (row_value l) (lookup_qualified tml table col)"
proof -
  have "table \<in> fst ` set tml" using n by (force simp: info_of_def)
  then have "find (\<lambda>(tname, _, _). eq_ignore_ascii_case tname table) tml \<noteq> None"
    by (auto simp: find_None_iff) (metis eq_ignore_refl)
  then obtain m off c where f: "find (\<lambda>(tname, _, _). eq_ignore_ascii_case tname table) tml = Some (m, off, c)"
    by auto
  then have mem: "(m, off, c) \<in> set tml" by (blast dest: find_SomeD)
  have "off + k < length l" if "column_position c col = Some k" for k
    using column_position_less [OF that] mem ok len by (fastforce simp: sides_ok_def offsets_ok_def)
  then show ?thesis
    using f by (auto simp: lookup_qualified_def find_append row_value_append_left split: option.splits)
qed

lemma find_shift:
  "find (\<lambda>(tname, _, _). P tname) (shift_by w tm) =
     map_option (\<lambda>(n, off, c). (n, off + w, c)) (find (\<lambda>(tname, _, _). P tname) tm)"
  by (induction tm) (auto simp: shift_by_def)

lemma lookup_qualified_right:
  assumes ok: "sides_ok tml tmr" and n: "table \<in> set (map fst (info_of tmr))" and len: "length l = info_width tml"
  shows "map_sum id (row_value (l @ r)) (lookup_qualified (tml @ shift_by (info_width tml) tmr) table col) =
    map_sum id (row_value r) (lookup_qualified tmr table col)"
proof -
  obtain off c where m: "(table, off, c) \<in> set tmr" using n by (force simp: info_of_def)
  have "\<not> eq_ignore_ascii_case (fst x) table" if "x \<in> set tml" for x
    using names_apart [OF ok _ m] that by (metis eq_ignore_sym image_eqI)
  then have "find (\<lambda>(tname, _, _). eq_ignore_ascii_case tname table) tml = None"
    by (auto simp: find_None_iff)
  then show ?thesis
    using row_value_append_right [OF len]
    by (auto simp: lookup_qualified_def find_append find_shift add.assoc add.commute [of _ "info_width tml"]
        split: option.splits)
qed

lemma lookup_unqualified_left:
  assumes ok: "sides_ok tml tmr" and len: "length l = info_width tml"
    and sub: "set (tables_with_column (info_of (tml @ tmr)) name) \<subseteq> set (map fst (info_of tml))"
  shows "map_sum id (row_value (l @ r)) (lookup_unqualified (tml @ shift_by (info_width tml) tmr) name) =
    map_sum id (row_value l) (lookup_unqualified tml name)"
proof -
  have "lookup_loop name None (tml @ shift_by (info_width tml) tmr) = lookup_loop name None tml"
    by (rule lookup_loop_append_lacks) (simp add: with_column_left [OF ok sub])
  moreover have "i < length l" if "lookup_loop name None tml = Inr (Some i)" for i
    using lookup_loop_bound [OF that] ok len by (fastforce simp: sides_ok_def offsets_ok_def)
  ultimately show ?thesis
    by (auto simp: lookup_unqualified_def and_then_def row_value_append_left split: sum.splits option.splits)
qed

lemma lookup_unqualified_right:
  assumes ok: "sides_ok tml tmr" and len: "length l = info_width tml"
    and sub: "set (tables_with_column (info_of (tml @ tmr)) name) \<subseteq> set (map fst (info_of tmr))"
  shows "map_sum id (row_value (l @ r)) (lookup_unqualified (tml @ shift_by (info_width tml) tmr) name) =
    map_sum id (row_value r) (lookup_unqualified tmr name)"
proof -
  have "lookup_loop name None (tml @ shift_by (info_width tml) tmr) =
      map_sum id (map_option ((+) (info_width tml))) (lookup_loop name None tmr)"
    using lookup_loop_skip [OF with_column_right [OF ok sub], of None] lookup_loop_shift [of name "info_width tml" None tmr]
    by simp
  then show ?thesis
    using row_value_append_right [OF len]
    by (cases "lookup_loop name None tmr")
      (auto simp: lookup_unqualified_def and_then_def split: sum.splits option.splits)
qed

definition ref_value :: "datum list \<Rightarrow> table_map \<Rightarrow> string option \<times> string \<Rightarrow> datum res" where
  "ref_value r tm ref =
     map_sum id (row_value r)
       (case ref of (Some table, col) \<Rightarrow> lookup_qualified tm table col | (None, name) \<Rightarrow> lookup_unqualified tm name)"

lemma and_then_row_value: "and_then x (\<lambda>i. Inr (row_value r i)) = map_sum id (row_value r) x"
  by (cases x) auto

text \<open>The value of an expression depends on the values of its columns only, and on the supply if it is volatile.\<close>

lemma evaluate_join_refs:
  shows "(\<forall>ref \<in> set (column_refs e). ref_value r tm ref = ref_value r' tm' ref) \<Longrightarrow> d = d' \<or> \<not> volatile e \<Longrightarrow>
      evaluate_join E d r tm e = evaluate_join E d' r' tm' e"
    and "(\<forall>e \<in> set es. \<forall>ref \<in> set (column_refs e). ref_value r tm ref = ref_value r' tm' ref) \<Longrightarrow>
      d = d' \<or> \<not> list_ex volatile es \<Longrightarrow>
      evaluate_join_args E d r tm es = evaluate_join_args E d' r' tm' es"
proof (induction E d r tm e and E d r tm es arbitrary: d' and d' rule: evaluate_join_evaluate_join_args.induct)
  case (4 E d r tm left op right)
  have "evaluate_join E (sub_supply 0 d) r tm left = evaluate_join E (sub_supply 0 d') r' tm' left"
    using 4 by auto
  moreover have "evaluate_join E (sub_supply 1 d) r tm right = evaluate_join E (sub_supply 1 d') r' tm' right"
    if "evaluate_join E (sub_supply 0 d) r tm left = Inr x" for x
    using 4 that by auto
  ultimately show ?case by (cases "evaluate_join E (sub_supply 0 d') r' tm' left") auto
next
  case (9 E d r tm inner low high)
  have i: "evaluate_join E (sub_supply 0 d) r tm inner = evaluate_join E (sub_supply 0 d') r' tm' inner"
    using 9 by auto
  have l: "evaluate_join E (sub_supply 1 d) r tm low = evaluate_join E (sub_supply 1 d') r' tm' low"
    if "evaluate_join E (sub_supply 0 d) r tm inner = Inr x" for x
    using 9 that by auto
  have h: "evaluate_join E (sub_supply 2 d) r tm high = evaluate_join E (sub_supply 2 d') r' tm' high"
    if "evaluate_join E (sub_supply 0 d) r tm inner = Inr x" "evaluate_join E (sub_supply 1 d) r tm low = Inr y" for x y
    using 9 that by auto
  show ?case
    using i l h
    by (cases "evaluate_join E (sub_supply 0 d') r' tm' inner"; cases "evaluate_join E (sub_supply 1 d') r' tm' low") auto
next
  case (11 E d r tm name args)
  have "evaluate_join_args E (sub_supply 0 d) r tm args = evaluate_join_args E (sub_supply 0 d') r' tm' args"
    using 11 by auto
  moreover have "evaluate_function E (d []) name = evaluate_function E (d' []) name"
    by (rule ext) (use "11.prems"(2) evaluate_function_stable in auto)
  ultimately show ?case by simp
next
  case (13 E d r tm a as)
  have "evaluate_join E (sub_supply 0 d) r tm a = evaluate_join E (sub_supply 0 d') r' tm' a"
    using 13 by auto
  moreover have "evaluate_join_args E (sub_supply 1 d) r tm as = evaluate_join_args E (sub_supply 1 d') r' tm' as"
    if "evaluate_join E (sub_supply 0 d) r tm a = Inr x" for x
    using 13 that by auto
  ultimately show ?case by (cases "evaluate_join E (sub_supply 0 d') r' tm' a") auto
next
  case (5 E d r tm op inner)
  then have "evaluate_join E d r tm inner = evaluate_join E d' r' tm' inner" by auto
  then show ?case by simp
next
  case (6 E d r tm inner)
  then have "evaluate_join E d r tm inner = evaluate_join E d' r' tm' inner" by auto
  then show ?case by simp
next
  case (7 E d r tm inner)
  then have "evaluate_join E d r tm inner = evaluate_join E d' r' tm' inner" by auto
  then show ?case by simp
next
  case (8 E d r tm inner list)
  then have "evaluate_join E d r tm inner = evaluate_join E d' r' tm' inner" by auto
  then show ?case by simp
next
  case (10 E d r tm inner pattern)
  then have "evaluate_join E d r tm inner = evaluate_join E d' r' tm' inner" by auto
  then show ?case by simp
qed (auto simp: ref_value_def and_then_row_value)

text \<open>The tables of an expression are those of its columns.\<close>

lemma referenced_refs:
  shows "referenced_tables e infos = Inr ts \<Longrightarrow> (Some t, c) \<in> set (column_refs e) \<Longrightarrow> t \<in> set ts"
    and "referenced_tables_all es infos = Inr ts \<Longrightarrow> e \<in> set es \<Longrightarrow> (Some t, c) \<in> set (column_refs e) \<Longrightarrow> t \<in> set ts"
  by (induction e infos and es infos arbitrary: ts and ts e rule: referenced_tables_referenced_tables_all.induct)
    (auto simp: and_then_eq_Inr Let_def split: if_splits)

lemma referenced_unqualified:
  shows "referenced_tables e infos = Inr ts \<Longrightarrow> (None, c) \<in> set (column_refs e) \<Longrightarrow>
      set (tables_with_column infos c) \<subseteq> set ts"
    and "referenced_tables_all es infos = Inr ts \<Longrightarrow> e \<in> set es \<Longrightarrow> (None, c) \<in> set (column_refs e) \<Longrightarrow>
      set (tables_with_column infos c) \<subseteq> set ts"
  by (induction e infos and es infos arbitrary: ts and ts e rule: referenced_tables_referenced_tables_all.induct)
    (fastforce simp: and_then_eq_Inr Let_def split: if_splits)+

text \<open>Moving a condition of one side of a join to that side.\<close>

lemma evaluate_join_left:
  assumes ok: "sides_ok tml tmr" and len: "length l = info_width tml" and "\<not> volatile e"
    and refs: "referenced_tables e (info_of (tml @ tmr)) = Inr ts" "set ts \<subseteq> set (map fst (info_of tml))"
  shows "evaluate_join E d (l @ r) (tml @ shift_by (info_width tml) tmr) e = evaluate_join E d' l tml e"
proof (rule evaluate_join_refs(1))
  show "\<forall>ref \<in> set (column_refs e).
      ref_value (l @ r) (tml @ shift_by (info_width tml) tmr) ref = ref_value l tml ref"
  proof
    fix ref assume ref: "ref \<in> set (column_refs e)"
    obtain q c where rc: "ref = (q, c)" by (cases ref)
    show "ref_value (l @ r) (tml @ shift_by (info_width tml) tmr) ref = ref_value l tml ref"
    proof (cases q)
      case None
      then have "set (tables_with_column (info_of (tml @ tmr)) c) \<subseteq> set (map fst (info_of tml))"
        using referenced_unqualified(1) [OF refs(1)] ref rc refs(2) by blast
      then show ?thesis using lookup_unqualified_left [OF ok len] None rc by (simp add: ref_value_def)
    next
      case (Some t)
      then have "t \<in> set (map fst (info_of tml))" using referenced_refs(1) [OF refs(1)] ref rc refs(2) by blast
      then show ?thesis using lookup_qualified_left [OF ok _ len] Some rc by (simp add: ref_value_def)
    qed
  qed
qed (use assms(3) in blast)

lemma evaluate_join_right:
  assumes ok: "sides_ok tml tmr" and len: "length l = info_width tml" and "\<not> volatile e"
    and refs: "referenced_tables e (info_of (tml @ tmr)) = Inr ts" "set ts \<subseteq> set (map fst (info_of tmr))"
  shows "evaluate_join E d (l @ r) (tml @ shift_by (info_width tml) tmr) e = evaluate_join E d' r tmr e"
proof (rule evaluate_join_refs(1))
  show "\<forall>ref \<in> set (column_refs e).
      ref_value (l @ r) (tml @ shift_by (info_width tml) tmr) ref = ref_value r tmr ref"
  proof
    fix ref assume ref: "ref \<in> set (column_refs e)"
    obtain q c where rc: "ref = (q, c)" by (cases ref)
    show "ref_value (l @ r) (tml @ shift_by (info_width tml) tmr) ref = ref_value r tmr ref"
    proof (cases q)
      case None
      then have "set (tables_with_column (info_of (tml @ tmr)) c) \<subseteq> set (map fst (info_of tmr))"
        using referenced_unqualified(1) [OF refs(1)] ref rc refs(2) by blast
      then show ?thesis using lookup_unqualified_right [OF ok len] None rc by (simp add: ref_value_def)
    next
      case (Some t)
      then have "t \<in> set (map fst (info_of tmr))" using referenced_refs(1) [OF refs(1)] ref rc refs(2) by blast
      then show ?thesis using lookup_qualified_right [OF ok _ len] Some rc by (simp add: ref_value_def)
    qed
  qed
qed (use assms(3) in blast)


subsection \<open>Conditions\<close>

text \<open>An expression that is a condition by its form: it evaluates to TRUE, FALSE or NULL, or not at all.\<close>

fun condition :: "expression \<Rightarrow> bool" where
  "condition (BinaryOp _ op _) = comparison_op op"
| "condition (UnaryOp op _) = (op = OpNot)"
| "condition (IsNull _) = True"
| "condition (IsNotNull _) = True"
| "condition (In _ _) = True"
| "condition (Between _ _ _) = True"
| "condition (Like _ _) = True"
| "condition (Literal v) = (v = DNull \<or> datum_type v = TyBoolean)"
| "condition (Column _) = False"
| "condition (QualifiedColumn _ _) = False"
| "condition (Function _ _) = False"

lemma of_type_boolean: "of_type TyBoolean v \<longleftrightarrow> v = DNull \<or> (\<exists>b. v = DBoolean b)"
  unfolding of_type_def by (cases v) auto

lemma condition_value:
  assumes "condition e" "evaluate_join E d r tm e = Inr v"
  shows "v = DNull \<or> (\<exists>b. v = DBoolean b)"
proof -
  have "of_type TyBoolean v"
  proof (cases e)
    case (BinaryOp a op b)
    then obtain x y where xy: "binary_value (ee_float E) op x y = Inr v" "comparison_op op"
      using assms by (auto simp: and_then_eq_Inr)
    then show ?thesis using binary_compare_type [OF xy(2), of "ee_float E" x y] by auto
  next
    case (UnaryOp op a)
    then show ?thesis using assms by (auto simp: and_then_eq_Inr unary_value_def)
  next
    case (Between a b c)
    then show ?thesis using assms by (auto simp: and_then_eq_Inr between_value_def split: if_splits)
  next
    case (Like a p)
    then show ?thesis using assms by (auto simp: and_then_eq_Inr like_value_def)
  next
    case (Literal w)
    then show ?thesis using assms by (auto simp: of_type_def)
  qed (use assms in \<open>auto simp: and_then_eq_Inr\<close>)
  then show ?thesis by (simp add: of_type_boolean)
qed

lemma evaluate_join_stable: "\<not> volatile e \<Longrightarrow> evaluate_join E d r tm e = evaluate_join E d' r tm e"
  using evaluate_join_refs(1) [of e r tm r tm d d' E] by blast

definition stable_condition :: "expression \<Rightarrow> bool" where
  "stable_condition e \<longleftrightarrow> condition e \<and> \<not> volatile e"

lemma row_passes_stable:
  "\<not> volatile e \<Longrightarrow> row_passes XE tm e r \<longleftrightarrow> evaluate_join (xe_env XE) d r tm e = Inr (DBoolean True)"
  unfolding row_passes_def using evaluate_join_stable by metis

lemma row_passes_and:
  assumes "stable_condition a" "stable_condition b"
  shows "row_passes XE tm (BinaryOp a OpAnd b) r \<longleftrightarrow> row_passes XE tm a r \<and> row_passes XE tm b r"
proof -
  let ?E = "xe_env XE" and ?d = "xe_supply XE r"
  have a: "row_passes XE tm a r \<longleftrightarrow> evaluate_join ?E (sub_supply 0 ?d) r tm a = Inr (DBoolean True)"
    and b: "row_passes XE tm b r \<longleftrightarrow> evaluate_join ?E (sub_supply 1 ?d) r tm b = Inr (DBoolean True)"
    using assms unfolding stable_condition_def by (auto intro!: row_passes_stable)
  show ?thesis
    unfolding a b unfolding row_passes_def
    using condition_value [of a ?E "sub_supply 0 ?d" r tm] condition_value [of b ?E "sub_supply 1 ?d" r tm] assms
    by (cases "evaluate_join ?E (sub_supply 0 ?d) r tm a"; cases "evaluate_join ?E (sub_supply 1 ?d) r tm b")
      (auto simp: binary_value_def stable_condition_def)
qed

lemma stable_condition_and: "stable_condition a \<Longrightarrow> stable_condition b \<Longrightarrow> stable_condition (BinaryOp a OpAnd b)"
  by (simp add: stable_condition_def)

lemma row_passes_recompose:
  assumes "\<forall>p \<in> set ps. stable_condition p"
  shows "row_passes XE tm (recompose_conjunction ps) r \<longleftrightarrow> (\<forall>p \<in> set ps. row_passes XE tm p r)"
proof (cases ps)
  case Nil
  then show ?thesis by (simp add: recompose_conjunction_def row_passes_def)
next
  case (Cons p qs)
  have "stable_condition p \<Longrightarrow> \<forall>q \<in> set qs. stable_condition q \<Longrightarrow>
      row_passes XE tm (foldl (\<lambda>a b. BinaryOp a OpAnd b) p qs) r \<longleftrightarrow>
      row_passes XE tm p r \<and> (\<forall>q \<in> set qs. row_passes XE tm q r)" for qs
  proof (induction qs arbitrary: p)
    case (Cons q qs)
    then show ?case using Cons.IH [of "BinaryOp p OpAnd q"] stable_condition_and row_passes_and by auto
  qed simp
  then show ?thesis using assms Cons by (simp add: recompose_conjunction_def)
qed

lemma decompose_not_and: "\<not> (\<exists>a b. e = BinaryOp a OpAnd b) \<Longrightarrow> decompose_conjunction e = [e]"
  by (cases e) auto

lemma stable_condition_decompose:
  "\<forall>c \<in> set (decompose_conjunction e). stable_condition c \<Longrightarrow> stable_condition e"
  by (induction e rule: decompose_conjunction.induct) (auto simp: stable_condition_and split: if_splits)

lemma row_passes_decompose:
  "\<forall>c \<in> set (decompose_conjunction e). stable_condition c \<Longrightarrow>
     row_passes XE tm e r \<longleftrightarrow> (\<forall>c \<in> set (decompose_conjunction e). row_passes XE tm c r)"
proof (induction e rule: decompose_conjunction.induct)
  case (1 left op right)
  show ?case
  proof (cases "op = OpAnd")
    case True
    then have "stable_condition left" "stable_condition right" using 1 stable_condition_decompose by auto
    then show ?thesis using 1 True row_passes_and by auto
  qed simp
qed simp_all

subsection \<open>Query trees\<close>

text \<open>Scans without a filter of their own, and inner or cross joins of such trees by nested loops.\<close>

fun scan_tree :: "logical_plan \<Rightarrow> bool" where
  "scan_tree (TableScan _ _ filter_opt _ _) = (filter_opt = None)"
| "scan_tree (Join left right jt algorithm) =
     (jt \<in> {JInner, JCross} \<and> (case algorithm of NestedLoop _ \<Rightarrow> True | _ \<Rightarrow> False) \<and>
      scan_tree left \<and> scan_tree right)"
| "scan_tree _ = False"

definition rows_fit :: "table list \<Rightarrow> string \<times> column_meta list \<Rightarrow> bool" where
  "rows_fit tables info \<longleftrightarrow>
     list_all (\<lambda>t. tb_name t = fst info \<longrightarrow>
       list_all (list_all (\<lambda>v. length (row_values (rv_row v)) = length (snd info))) (tb_version_chains t)) tables"

definition tree_fits :: "table list \<Rightarrow> logical_plan \<Rightarrow> bool" where
  "tree_fits tables q \<longleftrightarrow> list_all (rows_fit tables) (info_of (collect_expr_table_info q))"

definition names_distinct :: "logical_plan \<Rightarrow> bool" where
  "names_distinct q \<longleftrightarrow> distinct (lower_names (collect_expr_table_info q))"

lemma info_of_collect: "info_of (collect_expr_table_info q) = collect_table_info q"
  by (induction q) (auto simp: Let_def)

lemma offsets_ok_join: "offsets_ok a \<Longrightarrow> offsets_ok b \<Longrightarrow> offsets_ok (a @ shift_by (info_width a) b)"
  unfolding offsets_ok_def info_width_append info_width_shift by (fastforce simp: shift_by_def)

lemma offsets_ok_collect: "offsets_ok (collect_expr_table_info q)"
proof (induction q)
  case (TableScan table columns f idx ks)
  then show ?case by (simp add: offsets_ok_def info_width_def)
qed (auto simp: Let_def offsets_ok_join offsets_ok_def [of "[]"])

lemma collect_push: "collect_expr_table_info (push_predicates_into q ps) = collect_expr_table_info q"
  by (induction q ps rule: push_predicates_into.induct)
    (auto simp: with_filter_def Let_def case_prod_unfold)

lemma latest_visible_mem: "latest_visible c s a = Some v \<Longrightarrow> v \<in> set c"
  by (auto simp: latest_visible_def split: option.splits if_splits dest: find_SomeD)

lemma visible_length:
  assumes "rows_fit tables (n, columns)" "t \<in> set tables" "tb_name t = n"
    and "latest_visible (tb_version_chains t ! i) s a = Some v" "i < length (tb_version_chains t)"
  shows "length (row_values (rv_row v)) = length columns"
  using assms latest_visible_mem [OF assms(4)] nth_mem [OF assms(5)]
  by (fastforce simp: rows_fit_def list_all_iff)

lemma map_filter_mem: "y \<in> set (List.map_filter f xs) \<longleftrightarrow> (\<exists>x \<in> set xs. f x = Some y)"
  by (force simp: map_filter_def)

lemma full_scan_length:
  assumes "rows_fit (cx_tables cx) (n, columns)" "t \<in> set (cx_tables cx)" "tb_name t = n" "r \<in> set (full_scan cx t)"
  shows "length r = length columns"
proof -
  obtain i v where "i < length (tb_version_chains t)"
      "latest_visible (tb_version_chains t ! i) (cx_snapshot cx) (cx_active cx) = Some v" "r = row_values (rv_row v)"
    using assms(4) by (auto simp: full_scan_def scan_visible_def map_filter_def in_set_enumerate_eq)
  then show ?thesis using visible_length [OF assms(1-3)] by simp
qed

lemma index_lookup_length:
  assumes "rows_fit (cx_tables cx) (n, columns)" "t \<in> set (cx_tables cx)" "tb_name t = n" "r \<in> set (index_lookup cx t ix ks)"
  shows "length r = length columns"
proof -
  obtain i v where "i < length (tb_version_chains t)"
      "latest_visible (tb_version_chains t ! i) (cx_snapshot cx) (cx_active cx) = Some v" "r = row_values (rv_row v)"
    using assms(4)
    by (auto simp: index_lookup_def visible_values_def map_filter_mem get_visible_version_def bind_eq_Some_conv)
  then show ?thesis using visible_length [OF assms(1-3)] by simp
qed

lemma tree_row_length:
  assumes "scan_tree q" "tree_fits (cx_tables cx) q" "execute_tree XE cx q = Inr (rows, names, types)" "r \<in> set rows"
  shows "length r = info_width (collect_expr_table_info q)"
  using assms
proof (induction q arbitrary: rows names types r)
  case (TableScan table columns f idx ks)
  obtain t where t: "find (\<lambda>t. tb_name t = table) (cx_tables cx) = Some t"
    using TableScan by (auto simp: execute_table_scan_def find_table_named_def and_then_eq_Inr split: option.splits)
  then have m: "t \<in> set (cx_tables cx)" "tb_name t = table" by (auto dest: find_SomeD)
  have fit: "rows_fit (cx_tables cx) (table, columns)" using TableScan by (simp add: tree_fits_def info_of_def)
  have "r \<in> set (full_scan cx t) \<or> (\<exists>ix ks. r \<in> set (index_lookup cx t ix ks))"
    using TableScan.prems(3,4) t
    by (auto simp: execute_table_scan_def find_table_named_def and_then_eq_Inr split: option.splits)
  then show ?case using full_scan_length [OF fit m] index_lookup_length [OF fit m] by (auto simp: info_width_def)
next
  case (Join left right jt algorithm)
  obtain on where alg: "algorithm = NestedLoop on" "jt \<noteq> JLeft" "jt \<noteq> JRight"
    using Join.prems(1) by (cases algorithm) auto
  obtain lr ln lt rr rn rt where e: "execute_tree XE cx left = Inr (lr, ln, lt)" "execute_tree XE cx right = Inr (rr, rn, rt)"
    using Join.prems(3) alg by (auto simp: join_result_def and_then_eq_Inr Let_def)
  have "\<exists>x \<in> set lr. \<exists>y \<in> set rr. r = x @ y"
    using Join.prems(3,4) alg e by (auto simp: join_result_def nested_loop_join_def nested_left_def Let_def) blast
  moreover have "tree_fits (cx_tables cx) left" "tree_fits (cx_tables cx) right"
    using Join.prems(2) by (auto simp: tree_fits_def Let_def)
  ultimately show ?case using Join.IH(1) [OF _ _ e(1)] Join.IH(2) [OF _ _ e(2)] Join.prems(1)
    by (auto simp: Let_def)
qed auto

subsection \<open>Pushdown\<close>

lemma filter_concat_map: "filter P (concat (map f xs)) = concat (map (\<lambda>x. filter P (f x)) xs)"
  by (induction xs) auto

lemma concat_map_filter: "concat (map (\<lambda>x. if Q x then f x else []) xs) = concat (map f (filter Q xs))"
  by (induction xs) auto

lemma inner_join_filter:
  assumes "jt \<in> {JInner, JCross}"
    and "\<And>l r. l \<in> set ls \<Longrightarrow> r \<in> set rs \<Longrightarrow> P (l @ r) \<longleftrightarrow> PL l \<and> PR r \<and> K (l @ r)"
  shows "filter P (nested_loop_join on jt lw rw ls rs) =
    filter K (nested_loop_join on jt lw rw (filter PL ls) (filter PR rs))"
proof -
  have "filter P (filter on (map (\<lambda>r. l @ r) rs)) =
      (if PL l then filter K (filter on (map (\<lambda>r. l @ r) (filter PR rs))) else [])" if "l \<in> set ls" for l
  proof -
    have "P (l @ r) \<longleftrightarrow> PL l \<and> PR r \<and> K (l @ r)" if "r \<in> set rs" for r
      using assms(2) that \<open>l \<in> set ls\<close> by blast
    then show ?thesis by (induction rs) auto
  qed
  then have "concat (map (\<lambda>l. filter P (filter on (map (\<lambda>r. l @ r) rs))) ls) =
      concat (map (\<lambda>l. if PL l then filter K (filter on (map (\<lambda>r. l @ r) (filter PR rs))) else []) ls)"
    by (intro arg_cong [where f = concat] map_cong [OF refl]) simp
  also have "\<dots> = concat (map (\<lambda>l. filter K (filter on (map (\<lambda>r. l @ r) (filter PR rs)))) (filter PL ls))"
    by (rule concat_map_filter)
  finally show ?thesis
    using assms(1) unfolding nested_loop_join_def nested_left_def
    by (auto simp: Let_def filter_concat_map simp del: filter_filter)
qed

lemma with_filter_execute:
  assumes "\<forall>p \<in> set ps. stable_condition p"
  shows "execute_tree XE cx (with_filter ps q) =
    and_then (execute_tree XE cx q) (\<lambda>(rows, names, types).
      Inr (filter (\<lambda>r. \<forall>p \<in> set ps. row_passes XE (collect_expr_table_info q) p r) rows, names, types))"
proof (cases "ps = []")
  case True
  then show ?thesis by (cases "execute_tree XE cx q") (auto simp: with_filter_def)
next
  case False
  have "row_passes XE tm (recompose_conjunction ps) = (\<lambda>r. \<forall>p \<in> set ps. row_passes XE tm p r)" for tm
    using row_passes_recompose [OF assms] by (simp add: fun_eq_iff)
  then show ?thesis using False by (simp add: with_filter_def)
qed

lemma only_table_passes:
  assumes d: "names_distinct (Join left right jt alg)" and len: "length l = info_width (collect_expr_table_info left)"
    and nv: "\<not> volatile p"
  defines "tm \<equiv> collect_expr_table_info (Join left right jt alg)"
  shows "only_table_of (collect_table_info left @ collect_table_info right) (collect_table_info left) p \<Longrightarrow>
      row_passes XE tm p (l @ r) \<longleftrightarrow> row_passes XE (collect_expr_table_info left) p l"
    and "only_table_of (collect_table_info left @ collect_table_info right) (collect_table_info right) p \<Longrightarrow>
      row_passes XE tm p (l @ r) \<longleftrightarrow> row_passes XE (collect_expr_table_info right) p r"
proof -
  let ?l = "collect_expr_table_info left" and ?r = "collect_expr_table_info right"
  have ok: "sides_ok ?l ?r"
    using d offsets_ok_collect by (simp add: sides_ok_def names_distinct_def Let_def)
  have tm: "tm = ?l @ shift_by (info_width ?l) ?r" by (simp add: tm_def Let_def)
  have infos: "collect_table_info left @ collect_table_info right = info_of (?l @ ?r)"
    by (simp add: info_of_collect)
  show "row_passes XE tm p (l @ r) \<longleftrightarrow> row_passes XE ?l p l"
    if o: "only_table_of (collect_table_info left @ collect_table_info right) (collect_table_info left) p"
  proof -
    obtain ts where "referenced_tables p (info_of (?l @ ?r)) = Inr ts" "set ts \<subseteq> set (map fst (info_of ?l))"
      using o unfolding only_table_of_def infos info_of_collect by (auto split: sum.splits)
    from evaluate_join_left [OF ok len nv this, of "xe_env XE" "xe_supply XE (l @ r)" r "xe_supply XE l"]
    show ?thesis by (simp add: row_passes_def tm)
  qed
  show "row_passes XE tm p (l @ r) \<longleftrightarrow> row_passes XE ?r p r"
    if o: "only_table_of (collect_table_info left @ collect_table_info right) (collect_table_info right) p"
  proof -
    obtain ts where "referenced_tables p (info_of (?l @ ?r)) = Inr ts" "set ts \<subseteq> set (map fst (info_of ?r))"
      using o unfolding only_table_of_def infos info_of_collect by (auto split: sum.splits)
    from evaluate_join_right [OF ok len nv this, of "xe_env XE" "xe_supply XE (l @ r)" r "xe_supply XE r"]
    show ?thesis by (simp add: row_passes_def tm)
  qed
qed

definition pushed :: "exec_env \<Rightarrow> exec_ctx \<Rightarrow> logical_plan \<Rightarrow> expression list \<Rightarrow> tree_result res" where
  "pushed XE cx q ps =
     and_then (execute_tree XE cx q) (\<lambda>(rows, names, types).
       Inr (filter (\<lambda>r. \<forall>p \<in> set ps. row_passes XE (collect_expr_table_info q) p r) rows, names, types))"

lemma push_scan:
  assumes "\<forall>p \<in> set ps. stable_condition p"
  shows "execute_tree XE cx (push_predicates_into (TableScan table columns None idx ks) ps) =
    pushed XE cx (TableScan table columns None idx ks) ps"
proof (cases "ps = []")
  case True
  then show ?thesis
    by (cases "execute_tree XE cx (TableScan table columns None idx ks)") (auto simp: pushed_def)
next
  case False
  have "passes_opt XE tm (Some (recompose_conjunction ps)) = (\<lambda>r. \<forall>p \<in> set ps. row_passes XE tm p r)" for tm
    using row_passes_recompose [OF assms] by (simp add: passes_opt_def fun_eq_iff)
  moreover have "passes_opt XE tm None = (\<lambda>_. True)" for tm by (simp add: passes_opt_def fun_eq_iff)
  ultimately show ?thesis
    using False by (auto simp: pushed_def execute_table_scan_def and_then_def split: sum.splits)
qed

text \<open>The conjuncts pushed into the two sides of a join, and those that stay above it, decide as all of them do.\<close>

lemma split_conjuncts:
  assumes "names_distinct (Join left right jt algorithm)" "scan_tree left" "tree_fits (cx_tables cx) left"
    and "\<forall>p \<in> set ps. stable_condition p" "execute_tree XE cx left = Inr (ls, names, types)" "l \<in> set ls"
    and "pl = filter (only_table_of (collect_table_info left @ collect_table_info right) (collect_table_info left)) ps"
    and "rest = filter (\<lambda>p. \<not> only_table_of (collect_table_info left @ collect_table_info right) (collect_table_info left) p) ps"
    and "pr = filter (only_table_of (collect_table_info left @ collect_table_info right) (collect_table_info right)) rest"
    and "keep = filter (\<lambda>p. \<not> only_table_of (collect_table_info left @ collect_table_info right) (collect_table_info right) p) rest"
  shows "(\<forall>p \<in> set ps. row_passes XE (collect_expr_table_info (Join left right jt algorithm)) p (l @ r)) \<longleftrightarrow>
    (\<forall>p \<in> set pl. row_passes XE (collect_expr_table_info left) p l) \<and>
    (\<forall>p \<in> set pr. row_passes XE (collect_expr_table_info right) p r) \<and>
    (\<forall>p \<in> set keep. row_passes XE (collect_expr_table_info (Join left right jt algorithm)) p (l @ r))"
proof -
  let ?tm = "collect_expr_table_info (Join left right jt algorithm)"
  have len: "length l = info_width (collect_expr_table_info left)" by (rule tree_row_length [OF assms(2,3,5,6)])
  have nv: "p \<in> set ps \<Longrightarrow> \<not> volatile p" for p using assms(4) by (simp add: stable_condition_def)
  have left: "row_passes XE ?tm p (l @ r) \<longleftrightarrow> row_passes XE (collect_expr_table_info left) p l" if "p \<in> set pl" for p
    using that by (intro only_table_passes(1) [OF assms(1) len nv]) (auto simp: assms(7))
  have right: "row_passes XE ?tm p (l @ r) \<longleftrightarrow> row_passes XE (collect_expr_table_info right) p r" if "p \<in> set pr" for p
    using that by (intro only_table_passes(2) [OF assms(1) len nv]) (auto simp: assms(8,9))
  have "set ps = set pl \<union> set pr \<union> set keep" by (auto simp: assms(7-10))
  then show ?thesis using left right by blast
qed

lemma push_correct:
  assumes "scan_tree q" "names_distinct q" "tree_fits (cx_tables cx) q" "\<forall>p \<in> set ps. stable_condition p"
  shows "execute_tree XE cx (push_predicates_into q ps) = pushed XE cx q ps"
  using assms
proof (induction q arbitrary: ps)
  case (TableScan table columns f idx ks)
  then show ?case using push_scan by simp
next
  case (Join left right jt algorithm)
  let ?q = "Join left right jt algorithm"
  let ?li = "collect_table_info left" and ?ri = "collect_table_info right" and ?tm = "collect_expr_table_info ?q"
  obtain on where alg: "algorithm = NestedLoop on" using Join.prems(1) by (cases algorithm) auto
  have jt: "jt \<in> {JInner, JCross}" and st: "scan_tree left" "scan_tree right" using Join.prems(1) by auto
  have nd: "names_distinct left" "names_distinct right"
    using Join.prems(2) by (auto simp: names_distinct_def Let_def)
  have fit: "tree_fits (cx_tables cx) left" "tree_fits (cx_tables cx) right"
    using Join.prems(3) by (auto simp: tree_fits_def Let_def)
  define pl where "pl = filter (only_table_of (?li @ ?ri) ?li) ps"
  define rest where "rest = filter (\<lambda>p. \<not> only_table_of (?li @ ?ri) ?li p) ps"
  define pr where "pr = filter (only_table_of (?li @ ?ri) ?ri) rest"
  define keep where "keep = filter (\<lambda>p. \<not> only_table_of (?li @ ?ri) ?ri p) rest"
  have sc: "\<forall>p \<in> set pl. stable_condition p" "\<forall>p \<in> set pr. stable_condition p" "\<forall>p \<in> set keep. stable_condition p"
    using Join.prems(4) by (auto simp: pl_def pr_def keep_def rest_def)
  note IHl = Join.IH(1) [OF st(1) nd(1) fit(1) sc(1)] and IHr = Join.IH(2) [OF st(2) nd(2) fit(2) sc(2)]
  have join: "execute_tree XE cx (Join (push_predicates_into left pl) (push_predicates_into right pr) jt algorithm) =
      and_then (pushed XE cx left pl) (\<lambda>(ls, _, _). and_then (pushed XE cx right pr) (\<lambda>(rs, _, _).
        Inr (nested_loop_join (passes_opt XE ?tm on) jt (info_width (collect_expr_table_info left))
               (info_width (collect_expr_table_info right)) ls rs,
             build_combined_col_names ?tm, build_combined_col_types ?tm)))" for ls rs
    by (cases "pushed XE cx left pl"; cases "pushed XE cx right pr")
      (auto simp: alg IHl IHr collect_push join_result_def Let_def)
  have whole: "pushed XE cx ?q ps =
      and_then (pushed XE cx left pl) (\<lambda>(ls, _, _). and_then (pushed XE cx right pr) (\<lambda>(rs, _, _).
        Inr (filter (\<lambda>r. \<forall>p \<in> set keep. row_passes XE ?tm p r)
              (nested_loop_join (passes_opt XE ?tm on) jt (info_width (collect_expr_table_info left))
               (info_width (collect_expr_table_info right)) ls rs),
             build_combined_col_names ?tm, build_combined_col_types ?tm)))"
  proof (cases "execute_tree XE cx left")
    case (Inr L)
    show ?thesis
    proof (cases "execute_tree XE cx right")
      case R: (Inr R)
      obtain ls ln lt rs rn rt where L: "L = (ls, ln, lt)" and R': "R = (rs, rn, rt)" by (cases L; cases R)
      note split = split_conjuncts [OF Join.prems(2) st(1) fit(1) Join.prems(4) Inr [unfolded L] _ pl_def rest_def pr_def keep_def]
      show ?thesis
        using inner_join_filter [where P = "\<lambda>r. \<forall>p \<in> set ps. row_passes XE ?tm p r" and
            K = "\<lambda>r. \<forall>p \<in> set keep. row_passes XE ?tm p r" and
            PL = "\<lambda>l. \<forall>p \<in> set pl. row_passes XE (collect_expr_table_info left) p l" and
            PR = "\<lambda>r. \<forall>p \<in> set pr. row_passes XE (collect_expr_table_info right) p r" and
            ls = ls and rs = rs and on = "passes_opt XE ?tm on", OF jt split] Inr R
        by (simp add: pushed_def L R' alg join_result_def Let_def)
    qed (use Inr in \<open>auto simp: pushed_def alg join_result_def Let_def split: prod.splits\<close>)
  qed (simp add: pushed_def)
  have info: "collect_expr_table_info (Join (push_predicates_into left pl) (push_predicates_into right pr) jt algorithm) = ?tm"
    by (simp add: collect_push Let_def)
  show ?case
  proof (cases "ps = []")
    case True
    then show ?thesis by (cases "execute_tree XE cx ?q") (auto simp: pushed_def)
  next
    case False
    then have "push_predicates_into ?q ps =
        with_filter keep (Join (push_predicates_into left pl) (push_predicates_into right pr) jt algorithm)"
      by (simp add: Let_def pl_def pr_def keep_def rest_def)
    then have "execute_tree XE cx (push_predicates_into ?q ps) =
        and_then (execute_tree XE cx (Join (push_predicates_into left pl) (push_predicates_into right pr) jt algorithm))
          (\<lambda>(rows, names, types). Inr (filter (\<lambda>r. \<forall>p \<in> set keep. row_passes XE ?tm p r) rows, names, types))"
      using with_filter_execute [OF sc(3)] by (simp only: info)
    then show ?thesis
      unfolding join whole
      by (cases "pushed XE cx left pl"; cases "pushed XE cx right pr") (auto split: prod.splits)
  qed
qed auto

text \<open>C18: predicate pushdown preserves a query. Over scans and inner or cross joins of distinct tables, with
  rows as wide as the columns, moving the conjuncts of a WHERE condition into the scans gives the
  same rows in the same order, or the same error, when every conjunct is a condition (a comparison,
  a test or LIKE) and draws no identifier.\<close>
theorem pushdown_preserves:
  assumes "scan_tree q" "names_distinct q" "tree_fits (cx_tables cx) q"
    and "\<forall>c \<in> set (decompose_conjunction predicate). stable_condition c"
  shows "execute_tree XE cx (push_down_predicates (Filter q predicate)) = execute_tree XE cx (Filter q predicate)"
proof -
  let ?tm = "collect_expr_table_info q" and ?cs = "decompose_conjunction predicate"
  define ps where "ps = filter (at_most_one_table (collect_table_info q)) ?cs"
  define keep where "keep = filter (\<lambda>c. \<not> at_most_one_table (collect_table_info q) c) ?cs"
  have sc: "\<forall>p \<in> set ps. stable_condition p" "\<forall>p \<in> set keep. stable_condition p"
    using assms(4) by (auto simp: ps_def keep_def)
  have all: "row_passes XE ?tm predicate =
      (\<lambda>r. (\<forall>p \<in> set ps. row_passes XE ?tm p r) \<and> (\<forall>p \<in> set keep. row_passes XE ?tm p r))"
    using row_passes_decompose [OF assms(4)] by (auto simp: fun_eq_iff ps_def keep_def)
  have "push_down_predicates (Filter q predicate) = with_filter keep (push_predicates_into q ps)"
    by (simp add: ps_def keep_def comp_def)
  then show ?thesis
    using with_filter_execute [OF sc(2), of XE cx "push_predicates_into q ps"]
    by (cases "execute_tree XE cx q")
      (auto simp: push_correct [OF assms(1-3) sc(1)] pushed_def collect_push all conj_commute)
qed

definition int_table :: "string \<Rightarrow> string \<Rightarrow> i32 list \<Rightarrow> table" where
  "int_table name col vs =
     (table_new name [column_new col TyInteger])\<lparr>tb_version_chains :=
        map (\<lambda>v. [new_insert 1 \<lparr>row_values = [DInteger v]\<rparr>]) vs\<rparr>"

definition sample_env :: exec_env where
  "sample_env = \<lparr>xe_env = \<lparr>ee_ext = sample_ext, ee_float = \<lparr>fe_nan = 0x7FF8000000000000, fe_powi10 = (\<lambda>_. 0), fe_sum_zero = 0\<rparr>\<rparr>,
     xe_supply = (\<lambda>_ _. []), xe_hash_order = (\<lambda>h. h), xe_perm_order = (\<lambda>m. m)\<rparr>"

definition sample_ctx :: exec_ctx where
  "sample_ctx = \<lparr>cx_tables = [int_table ''a'' ''x'' [1, 2], int_table ''b'' ''y'' [2, 3]], cx_snapshot = 5, cx_active = {}\<rparr>"

definition sample_join :: "join_type \<Rightarrow> logical_plan" where
  "sample_join jt = Join (TableScan ''a'' [column_new ''x'' TyInteger] None None None)
     (TableScan ''b'' [column_new ''y'' TyInteger] None None None) jt
     (NestedLoop (Some (BinaryOp (Column ''x'') OpEq (Column ''y''))))"

theorem pushdown_preserves_witness:
  "\<forall>XE. execute_tree XE sample_ctx (push_down_predicates (Filter (sample_join JInner)
       (BinaryOp (BinaryOp (Column ''x'') OpGt (Literal (DInteger 1))) OpAnd (IsNotNull (Column ''y''))))) =
     execute_tree XE sample_ctx (Filter (sample_join JInner)
       (BinaryOp (BinaryOp (Column ''x'') OpGt (Literal (DInteger 1))) OpAnd (IsNotNull (Column ''y''))))"
proof -
  have "scan_tree (sample_join JInner)" by code_simp
  moreover have "names_distinct (sample_join JInner)" by code_simp
  moreover have "tree_fits (cx_tables sample_ctx) (sample_join JInner)" by code_simp
  ultimately show ?thesis
    by (intro allI pushdown_preserves) (simp_all add: stable_condition_def)
qed

text \<open>pushdown through an outer join changes the result. For a LEFT JOIN with the condition that the right
  column is NULL, the condition moves into the scan of the right table, removes every row there, and
  every left row comes back as unmatched: of the rows 1 and 2 joined with 2 and 3 the query must
  return row 1 alone, and the optimized plan returns both.\<close>
theorem pushdown_breaks_left_join:
  "execute_tree sample_env sample_ctx (Filter (sample_join JLeft) (IsNull (Column ''y''))) =
     Inr ([[DInteger 1, DNull]], [''x'', ''y''], [''INTEGER'', ''INTEGER'']) \<and>
   execute_tree sample_env sample_ctx (push_down_predicates (Filter (sample_join JLeft) (IsNull (Column ''y'')))) =
     Inr ([[DInteger 1, DNull], [DInteger 2, DNull]], [''x'', ''y''], [''INTEGER'', ''INTEGER''])"
  by (rule conjI; code_simp)

end
