(* ===== verification/Sql_Props.thy ===== *)
theory Sql_Props
  imports Sql_Text Pushdown
begin

text \<open>
  What the SQL front end guarantees and what it loses: the statements of its own parsers survive
  printing and parsing, literals reach the columns only in the types the coercion admits, negative
  integers wrap, and the negation of IN, LIKE and BETWEEN disappears.
\<close>

subsection \<open>Searching strings\<close>

lemma starts_with_Nil [simp]: "starts_with [] s"
  by (simp add: starts_with_def)

lemma starts_with_Cons [simp]: "starts_with (p # ps) (c # s) \<longleftrightarrow> c = p \<and> starts_with ps s"
  by (auto simp: starts_with_def)

lemma starts_with_Cons_Nil [simp]: "\<not> starts_with (p # ps) []"
  by (simp add: starts_with_def)

lemma starts_with_self [simp]: "starts_with p (p @ s)"
  by (simp add: starts_with_def)

lemma find_str_here: "starts_with p s \<Longrightarrow> find_str p s = Some 0"
  by (cases s) (auto simp: starts_with_def)

lemma find_str_skip:
  "x \<notin> set u \<Longrightarrow> find_str (x # p) (u @ s) = map_option (\<lambda>n. length u + n) (find_str (x # p) s)"
proof (induction u)
  case Nil
  then show ?case by (cases "find_str (x # p) s") auto
next
  case (Cons y u)
  then show ?case by (cases "find_str (x # p) s") auto
qed

lemma find_str_skip_here:
  "x \<notin> set u \<Longrightarrow> starts_with (x # p) s \<Longrightarrow> find_str (x # p) (u @ s) = Some (length u)"
  by (simp add: find_str_skip find_str_here)

lemma to_uppercase_append [simp]: "to_uppercase (a @ b) = to_uppercase a @ to_uppercase b"
  by (simp add: to_uppercase_def)

lemma to_uppercase_Nil [simp]: "to_uppercase [] = []"
  by (simp add: to_uppercase_def)

lemma length_to_uppercase [simp]: "length (to_uppercase s) = length s"
  by (simp add: to_uppercase_def)

lemma ascii_upper_space: "is_whitespace (ascii_upper c) = is_whitespace c"
proof (cases "97 \<le> (of_char c :: nat) \<and> (of_char c :: nat) \<le> 122")
  case True
  then have "(of_char c - 32 :: nat) < 256" by linarith
  then have "(of_char (ascii_upper c) :: nat) = of_char c - 32" using True
    unfolding ascii_upper_def Let_def by simp
  then show ?thesis using True by (auto simp: is_whitespace_def Let_def)
qed (auto simp: ascii_upper_def Let_def)

definition plain :: "string \<Rightarrow> bool" where
  "plain s \<longleftrightarrow> s \<noteq> [] \<and> (\<forall>c \<in> set s. \<not> is_whitespace c \<and> c \<notin> set '';,()'')"

lemma whitespace_space [simp]: "is_whitespace (CHR '' '')"
  by code_simp

lemma space_not_plain: "plain s \<Longrightarrow> CHR '' '' \<notin> set s"
  using whitespace_space unfolding plain_def by blast

lemma space_not_plain_upper: "plain s \<Longrightarrow> CHR '' '' \<notin> set (to_uppercase s)"
proof
  assume p: "plain s" and "CHR '' '' \<in> set (to_uppercase s)"
  then obtain c where "c \<in> set s" "ascii_upper c = CHR '' ''" by (auto simp: to_uppercase_def)
  then show False using p ascii_upper_space [of c] whitespace_space unfolding plain_def by metis
qed

lemma dropWhile_keep: "xs \<noteq> [] \<Longrightarrow> \<not> P (hd xs) \<Longrightarrow> dropWhile P xs = xs"
  by (cases xs) auto

lemma trim_ends: "s \<noteq> [] \<Longrightarrow> \<not> is_whitespace (hd s) \<Longrightarrow> \<not> is_whitespace (last s) \<Longrightarrow> trim s = s"
  by (simp add: trim_def dropWhile_keep hd_rev)

lemma trim_plain [simp]: "plain s \<Longrightarrow> trim s = s"
  by (rule trim_ends) (auto simp: plain_def)

lemma trim_space [simp]: "trim (CHR '' '' # s) = trim s"
  by (simp add: trim_def is_whitespace_def)

lemma trim_end_matches_id: "s \<noteq> [] \<Longrightarrow> last s \<noteq> c \<Longrightarrow> trim_end_matches c s = s"
  by (cases s rule: rev_cases) (auto simp: trim_end_matches_def)

lemma trim_end_plain [simp]: "plain s \<Longrightarrow> trim_end_matches (CHR '';'') s = s"
  by (rule trim_end_matches_id) (auto simp: plain_def)

lemma trim_statement_plain [simp]: "plain s \<Longrightarrow> trim_statement s = s"
  by (simp add: trim_statement_def)

lemma last_plain: "plain s \<Longrightarrow> \<not> is_whitespace (last s) \<and> last s \<noteq> CHR '';''"
  by (auto simp: plain_def)

lemma hd_plain: "plain s \<Longrightarrow> \<not> is_whitespace (hd s) \<and> hd s \<noteq> CHR ''('' \<and> s \<noteq> []"
  by (cases s) (auto simp: plain_def)

lemma trim_plain_end: "s \<noteq> [] \<Longrightarrow> \<not> is_whitespace (hd s) \<Longrightarrow> plain u \<Longrightarrow> trim (s @ u) = s @ u"
  by (rule trim_ends) (auto simp: plain_def)

lemma trim_end_plain_end: "plain u \<Longrightarrow> trim_end_matches (CHR '';'') (s @ u) = s @ u"
  by (rule trim_end_matches_id) (auto simp: plain_def)

lemma split_char_join:
  "c \<notin> set x \<Longrightarrow> split_char c (x @ c # s) = x # split_char c s"
  by (induction x) auto

lemma split_char_nonempty [simp]: "split_char c s \<noteq> []"
  by (induction s) (auto split: list.splits)

lemma split_char_none: "c \<notin> set x \<Longrightarrow> split_char c x = [x]"
  by (induction x) auto

lemma column_names_join: "list_all plain cols \<Longrightarrow> cols \<noteq> [] \<Longrightarrow> column_names (join_with '', '' cols) = cols"
proof -
  have "map trim (split_char (CHR '','') (join_with '', '' cols)) = cols" if "list_all plain cols" "cols \<noteq> []"
    using that
  proof (induction cols rule: induct_list012)
    case (2 x)
    then have "CHR '','' \<notin> set x" by (auto simp: plain_def)
    then show ?case using 2 by (simp add: split_char_none)
  next
    case (3 x y zs)
    let ?j = "join_with '', '' (y # zs)"
    have "CHR '','' \<notin> set x" using "3.prems" by (auto simp: plain_def)
    then have "split_char (CHR '','') (x @ '','' @ (CHR '' '' # ?j)) = x # split_char (CHR '','') (CHR '' '' # ?j)"
      by (simp add: split_char_join)
    moreover have "map trim (split_char (CHR '','') (CHR '' '' # ?j)) = map trim (split_char (CHR '','') ?j)"
      by (auto split: list.splits)
    ultimately show ?case using "3.IH"(2) "3.prems" by simp
  qed simp
  then show "list_all plain cols \<Longrightarrow> cols \<noteq> [] \<Longrightarrow> column_names (join_with '', '' cols) = cols"
    by (simp add: column_names_def filter_id_conv list_all_iff plain_def)
qed

subsection \<open>Statements survive printing\<close>

definition permission_word :: "grant_permission_type \<Rightarrow> string" where
  "permission_word p = (case p of
      GSelect \<Rightarrow> ''SELECT'' | GInsert \<Rightarrow> ''INSERT'' | GUpdate \<Rightarrow> ''UPDATE'' | GDelete \<Rightarrow> ''DELETE'' | GAll \<Rightarrow> ''ALL'')"

definition column_list :: "string list \<Rightarrow> string" where
  "column_list cols = (if cols = [] then [] else '' ('' @ join_with '', '' cols @ '')'')"

definition grant_text :: "bool \<Rightarrow> grant_permission_type \<Rightarrow> string list \<Rightarrow> string \<Rightarrow> string \<Rightarrow> string" where
  "grant_text is_grant p cols tbl username =
     (if is_grant then ''GRANT '' else ''REVOKE '') @ permission_word p @ column_list cols @ '' ON '' @ tbl @
     (if is_grant then '' TO '' else '' FROM '') @ username"

lemma upper_words [simp]:
  "to_uppercase (CHR ''G'' # s) = CHR ''G'' # to_uppercase s" "to_uppercase (CHR ''R'' # s) = CHR ''R'' # to_uppercase s"
  "to_uppercase (CHR ''A'' # s) = CHR ''A'' # to_uppercase s" "to_uppercase (CHR ''N'' # s) = CHR ''N'' # to_uppercase s"
  "to_uppercase (CHR ''T'' # s) = CHR ''T'' # to_uppercase s" "to_uppercase (CHR ''E'' # s) = CHR ''E'' # to_uppercase s"
  "to_uppercase (CHR ''V'' # s) = CHR ''V'' # to_uppercase s" "to_uppercase (CHR ''O'' # s) = CHR ''O'' # to_uppercase s"
  "to_uppercase (CHR ''K'' # s) = CHR ''K'' # to_uppercase s" "to_uppercase (CHR '' '' # s) = CHR '' '' # to_uppercase s"
  "to_uppercase (CHR ''S'' # s) = CHR ''S'' # to_uppercase s" "to_uppercase (CHR ''L'' # s) = CHR ''L'' # to_uppercase s"
  "to_uppercase (CHR ''C'' # s) = CHR ''C'' # to_uppercase s" "to_uppercase (CHR ''I'' # s) = CHR ''I'' # to_uppercase s"
  "to_uppercase (CHR ''U'' # s) = CHR ''U'' # to_uppercase s" "to_uppercase (CHR ''P'' # s) = CHR ''P'' # to_uppercase s"
  "to_uppercase (CHR ''D'' # s) = CHR ''D'' # to_uppercase s" "to_uppercase (CHR ''F'' # s) = CHR ''F'' # to_uppercase s"
  "to_uppercase (CHR ''M'' # s) = CHR ''M'' # to_uppercase s" "to_uppercase (CHR ''W'' # s) = CHR ''W'' # to_uppercase s"
  "to_uppercase (CHR ''('' # s) = CHR ''('' # to_uppercase s" "to_uppercase (CHR 0x27 # s) = CHR 0x27 # to_uppercase s"
  by (simp_all add: to_uppercase_def ascii_upper_def)

lemma close_not_in_join:
  "list_all plain cols \<Longrightarrow> CHR '')'' \<notin> set (join_with '', '' cols)"
  by (induction "'', ''::string" cols rule: join_with.induct) (auto simp: plain_def)

lemma grant_columns_list:
  assumes "list_all plain cols" "plain tail0"
  shows "grant_columns (trim (column_list cols @ CHR '' '' # CHR ''O'' # r @ tail0)) = (cols, CHR ''O'' # r @ tail0)"
proof -
  have t: "trim (CHR ''O'' # r @ tail0) = CHR ''O'' # r @ tail0"
    using trim_plain_end [of "CHR ''O'' # r" tail0] assms(2) by (simp add: is_whitespace_def)
  show ?thesis
  proof (cases "cols = []")
    case True
    then show ?thesis using t by (simp add: column_list_def grant_columns_def)
  next
    case False
    let ?j = "join_with '', '' cols" and ?o = "CHR '' '' # CHR ''O'' # r @ tail0"
    have eq: "column_list cols @ ?o = CHR '' '' # CHR ''('' # ?j @ CHR '')'' # ?o"
      using False by (simp add: column_list_def)
    have "trim (CHR ''('' # ?j @ CHR '')'' # ?o) = CHR ''('' # ?j @ CHR '')'' # ?o"
      using trim_plain_end [of "CHR ''('' # ?j @ CHR '')'' # CHR '' '' # CHR ''O'' # r" tail0] assms(2)
      by (simp add: is_whitespace_def)
    moreover have "find_str '')'' ((CHR ''('' # ?j) @ CHR '')'' # ?o) = Some (length (CHR ''('' # ?j))"
      using close_not_in_join [OF assms(1)] by (intro find_str_skip_here) auto
    ultimately show ?thesis
      using t column_names_join [OF assms(1) False] by (simp only: eq trim_space) (simp add: grant_columns_def)
  qed
qed

lemma split_target_plain:
  assumes "plain tbl" "plain username"
  shows "split_target is_grant (tbl @ (if is_grant then '' TO '' else '' FROM '') @ username) =
    (tbl, if is_grant then username else CHR '' '' # username)"
proof -
  have t: "CHR '' '' \<notin> set (to_uppercase tbl)" using assms(1) by (rule space_not_plain_upper)
  show ?thesis
    unfolding split_target_def Let_def using find_str_skip_here [OF t] by (cases is_grant) simp_all
qed

lemma permission_keyword_word:
  "permission_keyword (to_uppercase (permission_word p @ s)) = Some (p, length (permission_word p))"
  by (cases p) (simp_all add: permission_word_def permission_keyword_def)

lemma trim_column_list_tail:
  assumes "plain tail0"
  shows "trim (permission_word p @ s @ tail0) = permission_word p @ s @ tail0"
  using trim_plain_end [of "permission_word p @ s" tail0] assms
  by (cases p) (simp_all add: permission_word_def is_whitespace_def)

lemma parse_grant_text:
  assumes "list_all plain cols" "plain tbl" "plain username"
  shows "parse_grant_revoke (grant_text is_grant p cols tbl username) is_grant =
    Inr [if is_grant then StGrant username tbl cols p else StRevoke username tbl cols p]"
proof -
  let ?action = "if is_grant then ''GRANT'' else ''REVOKE''"
  let ?to = "if is_grant then '' TO '' else '' FROM ''"
  let ?rest = "permission_word p @ column_list cols @ '' ON '' @ tbl @ ?to @ username"
  have shape: "grant_text is_grant p cols tbl username = ?action @ '' '' @ ?rest"
    by (simp add: grant_text_def)
  have pos: "find_str ?action (to_uppercase (grant_text is_grant p cols tbl username)) = Some 0"
    unfolding shape by (cases is_grant) (simp_all add: find_str_here)
  have rest: "trim (drop (0 + length ?action) (grant_text is_grant p cols tbl username)) = ?rest"
    unfolding shape using trim_column_list_tail [of username p "column_list cols @ '' ON '' @ tbl @ ?to"] assms(3)
    by simp
  have cols: "grant_columns (trim (column_list cols @ '' ON '' @ tbl @ ?to @ username)) =
      (cols, ''ON '' @ tbl @ ?to @ username)"
    using grant_columns_list [OF assms(1,3), of "''N '' @ tbl @ ?to"] by simp
  have tail: "trim (tbl @ ?to @ username) = tbl @ ?to @ username"
    using trim_plain_end [of "tbl @ ?to" username] assms(2,3) hd_plain [OF assms(2)] by simp
  have long: "length (''ON '' @ tbl @ ?to @ username) > 3" by simp
  show ?thesis
    unfolding parse_grant_revoke_def Let_def pos option.case rest permission_keyword_word prod.case
      drop_append append_Nil
    using cols tail assms(2,3) split_target_plain [OF assms(2,3), of is_grant] hd_plain [OF assms(3)]
    by (auto simp: trim_statement_def)
qed

text \<open>A text that the crate does not parse, or whose tree the conversion refuses.\<close>

definition refused :: "sql_front \<Rightarrow> string \<Rightarrow> bool" where
  "refused F sql = (case sf_parse F sql of
      Inl _ \<Rightarrow> True | Inr stmts \<Rightarrow> (case convert_all F stmts of Inl _ \<Rightarrow> True | Inr _ \<Rightarrow> False))"

lemma parse_refused:
  assumes "refused F sql" "trim sql = sql" "\<not> starts_with ''CREATE TABLE '' (to_uppercase sql)"
    and "\<not> starts_with ''ALTER TABLE '' (to_uppercase sql)"
  shows "parse F sql = parse_custom F sql"
  using assms
  by (auto simp: parse_def refused_def looks_like_create_table_with_engine_def
      looks_like_alter_table_engine_def Let_def split: sum.splits)

lemma trim_upper: "trim s = s \<Longrightarrow> trim (to_uppercase s) = to_uppercase s"
proof -
  have d: "dropWhile is_whitespace (map ascii_upper xs) = map ascii_upper (dropWhile is_whitespace xs)" for xs
    by (induction xs) (simp_all add: ascii_upper_space)
  have "trim (to_uppercase s) = to_uppercase (trim s)"
    by (simp add: trim_def to_uppercase_def d rev_map)
  then show "trim s = s \<Longrightarrow> trim (to_uppercase s) = to_uppercase s" by simp
qed

lemma trim_grant_text:
  assumes "plain username"
  shows "trim (grant_text is_grant p cols tbl username) = grant_text is_grant p cols tbl username"
    and "trim_end_matches (CHR '';'') (grant_text is_grant p cols tbl username) = grant_text is_grant p cols tbl username"
proof -
  obtain s where s: "grant_text is_grant p cols tbl username = s @ username" "s \<noteq> []" "\<not> is_whitespace (hd s)"
  proof
    show "grant_text is_grant p cols tbl username =
      ((if is_grant then ''GRANT '' else ''REVOKE '') @ permission_word p @ column_list cols @ '' ON '' @ tbl @
       (if is_grant then '' TO '' else '' FROM '')) @ username" by (simp add: grant_text_def)
  qed (simp_all add: is_whitespace_def)
  show "trim (grant_text is_grant p cols tbl username) = grant_text is_grant p cols tbl username"
    unfolding s(1) by (rule trim_plain_end [OF s(2,3) assms])
  show "trim_end_matches (CHR '';'') (grant_text is_grant p cols tbl username) = grant_text is_grant p cols tbl username"
    unfolding s(1) by (rule trim_end_plain_end [OF assms])
qed

lemma grant_text_parse:
  assumes "list_all plain cols" "plain tbl" "plain username"
    and "refused F (grant_text is_grant p cols tbl username)"
  shows "parse F (grant_text is_grant p cols tbl username) =
    Some (Inr [if is_grant then StGrant username tbl cols p else StRevoke username tbl cols p])"
proof -
  let ?t = "grant_text is_grant p cols tbl username"
  have up: "to_uppercase ?t = (if is_grant then ''GRANT '' else ''REVOKE '') @ to_uppercase
      (permission_word p @ column_list cols @ '' ON '' @ tbl @ (if is_grant then '' TO '' else '' FROM '') @ username)"
    by (simp add: grant_text_def)
  have "parse F ?t = parse_custom F ?t"
    by (rule parse_refused [OF assms(4) trim_grant_text(1) [OF assms(3)]]) (simp_all add: up)
  also have "\<dots> = Some (parse_grant_revoke ?t is_grant)"
    unfolding parse_custom_def Let_def trim_grant_text [OF assms(3)] trim_upper [OF trim_grant_text(1) [OF assms(3)]]
    unfolding up by (cases is_grant) simp_all
  also have "\<dots> = Some (Inr [if is_grant then StGrant username tbl cols p else StRevoke username tbl cols p])"
    using parse_grant_text [OF assms(1-3)] by simp
  finally show ?thesis .
qed

text \<open>C26: a grant or revocation that is printed and parsed comes back. For any right, table, user and column
  list, all names without spaces, commas, semicolons and parentheses, the front end returns the
  statement itself, when the third-party parser leaves such texts to it.\<close>
theorem grant_roundtrip:
  assumes "list_all plain cols" "plain tbl" "plain username"
    and "refused F (grant_text is_grant p cols tbl username)"
  shows "parse F (grant_text is_grant p cols tbl username) =
    Some (Inr [if is_grant then StGrant username tbl cols p else StRevoke username tbl cols p])"
  by (rule grant_text_parse [OF assms])

definition refusing_front :: sql_front where
  "refusing_front = \<lparr>sf_parse = (\<lambda>_. Inl []), sf_show = (\<lambda>_. []), sf_debug = (\<lambda>_. []),
     sf_debug_statement = (\<lambda>_. []), sf_uuid = (\<lambda>_. [])\<rparr>"

theorem grant_roundtrip_witness:
  "parse refusing_front (grant_text False GUpdate [''price'', ''stock''] ''items'' ''bob'') =
     Some (Inr [StRevoke ''bob'' ''items'' [''price'', ''stock''] GUpdate])"
  using grant_roundtrip [of "[''price'', ''stock'']" "''items''" "''bob''" refusing_front False GUpdate]
  by (simp add: plain_def is_whitespace_def refused_def refusing_front_def)

definition user_text :: "bool \<Rightarrow> string \<Rightarrow> string \<Rightarrow> string" where
  "user_text is_create username password =
     (if is_create then ''CREATE USER '' else ''ALTER USER '') @ username @ '' PASSWORD '' @ quoted password"

lemma ends_quoted:
  assumes "s \<noteq> []" "\<not> is_whitespace (hd s)"
  shows "trim (s @ quoted p) = s @ quoted p" "trim_end_matches (CHR '';'') (s @ quoted p) = s @ quoted p"
proof -
  have "\<not> is_whitespace (CHR 0x27)" by code_simp
  then show "trim (s @ quoted p) = s @ quoted p" using assms by (intro trim_ends) (auto simp: quoted_def)
  show "trim_end_matches (CHR '';'') (s @ quoted p) = s @ quoted p"
    by (rule trim_end_matches_id) (auto simp: quoted_def)
qed

lemma trim_statement_quoted: "trim_statement (quoted p) = quoted p"
proof -
  have ws: "\<not> is_whitespace (CHR 0x27)" by code_simp
  have "trim (quoted p) = quoted p" using ws by (intro trim_ends) (auto simp: quoted_def)
  moreover have "trim_end_matches (CHR '';'') (quoted p) = quoted p"
    by (rule trim_end_matches_id) (auto simp: quoted_def)
  ultimately show ?thesis by (simp add: trim_statement_def)
qed

lemma password_text_quoted: "CHR 0x27 \<notin> set p \<Longrightarrow> password_text (quoted p) = p"
proof -
  assume "CHR 0x27 \<notin> set p"
  then have "takeWhile (\<lambda>c. c \<noteq> CHR 0x27) p = p" by (induction p) auto
  then show ?thesis by (simp add: password_text_def quoted_def takeWhile_tail)
qed

lemma parse_user_clause:
  assumes "plain username" "CHR 0x27 \<notin> set password"
    and "\<not> contains_str '' WITH PASSWORD '' (to_uppercase (username @ '' PASSWORD '' @ quoted password))"
  shows "parse_user_with_password (username @ '' PASSWORD '' @ quoted password) = Inr (username, password)"
proof -
  let ?s = "username @ '' PASSWORD '' @ quoted password"
  have "username @ '' PASSWORD '' \<noteq> []" "\<not> is_whitespace (hd (username @ '' PASSWORD ''))"
    using hd_plain [OF assms(1)] by auto
  then have t: "trim_statement ?s = ?s"
    using ends_quoted [of "username @ '' PASSWORD ''" password] by (simp add: trim_statement_def)
  have "find_str '' PASSWORD '' (to_uppercase username @ '' PASSWORD '' @ to_uppercase (quoted password)) =
      Some (length (to_uppercase username))"
    by (rule find_str_skip_here [OF space_not_plain_upper [OF assms(1)]]) simp
  then have "find_keyword ['' WITH PASSWORD '', '' PASSWORD ''] (to_uppercase ?s) =
      Some (length username, '' PASSWORD '')"
    using assms(3) by (simp add: contains_str_def)
  then show ?thesis
    unfolding parse_user_with_password_def Let_def t
    using assms(1) password_text_quoted [OF assms(2)] by (simp add: trim_statement_quoted)
qed

text \<open>CREATE USER and ALTER USER texts come back as the name and the password they were printed from,
  when the password holds no quote and the text neither IF NOT EXISTS nor WITH PASSWORD, which the
  parsers search for in the whole text, the quoted password included.\<close>
theorem user_roundtrip:
  assumes "plain username" "CHR 0x27 \<notin> set password"
    and "\<not> contains_str '' WITH PASSWORD '' (to_uppercase (username @ '' PASSWORD '' @ quoted password))"
    and "\<not> contains_str ''IF NOT EXISTS'' (to_uppercase (user_text is_create username password))"
    and "refused F (user_text is_create username password)"
  shows "parse F (user_text is_create username password) =
    Some (Inr [if is_create then StCreateUser username password else StAlterUser username password])"
proof -
  let ?t = "user_text is_create username password"
  let ?s = "username @ '' PASSWORD '' @ quoted password"
  have shape: "?t = (if is_create then ''CREATE USER '' else ''ALTER USER '') @ ?s"
    by (simp add: user_text_def)
  have ends: "trim ?t = ?t" "trim_end_matches (CHR '';'') ?t = ?t"
    using ends_quoted [of "(if is_create then ''CREATE USER '' else ''ALTER USER '') @ username @ '' PASSWORD ''" password]
    by (simp_all add: user_text_def is_whitespace_def)
  have "trim ?s = ?s"
    using ends_quoted(1) [of "username @ '' PASSWORD ''" password] hd_plain [OF assms(1)] by simp
  then have strip: "strip_keyword (if is_create then ''CREATE USER'' else ''ALTER USER'') low ?t = ?s" for low
    unfolding shape strip_keyword_def strip_prefix_def first_some_def by (cases is_create) simp_all
  have "parse F ?t = parse_custom F ?t"
    by (rule parse_refused [OF assms(5) ends(1)]) (simp_all add: user_text_def)
  also have "\<dots> = Some (if is_create then parse_create_user (to_uppercase ?t) ?t else parse_alter_user ?t)"
    unfolding parse_custom_def Let_def ends trim_upper [OF ends(1)]
    by (cases is_create) (simp_all add: user_text_def)
  also have "\<dots> = Some (Inr [if is_create then StCreateUser username password else StAlterUser username password])"
    using strip parse_user_clause [OF assms(1-3)] assms(4)
    by (cases is_create) (simp_all add: parse_create_user_def parse_alter_user_def find_user_in_stmt_def)
  finally show ?thesis .
qed

theorem user_roundtrip_witness:
  "parse refusing_front (user_text True ''bob'' ''two words'') = Some (Inr [StCreateUser ''bob'' ''two words''])"
proof -
  have "\<not> contains_str '' WITH PASSWORD '' (to_uppercase (''bob'' @ '' PASSWORD '' @ quoted ''two words''))"
    "\<not> contains_str ''IF NOT EXISTS'' (to_uppercase (user_text True ''bob'' ''two words''))"
    by code_simp+
  then show ?thesis
    using user_roundtrip [of "''bob''" "''two words''" True refusing_front]
    by (simp add: plain_def is_whitespace_def refused_def refusing_front_def)
qed

subsection \<open>What the parsers get wrong\<close>

text \<open>the front end's own parsers panic on texts a client can send, whatever the third-party parser makes
  of them: ALTER TABLE with nothing between TABLE and ENGINE, and a column list of CREATE INDEX whose
  closing parenthesis comes first. A table with a column whose name begins with ENGINE cannot be
  created, a password that contains WITH PASSWORD is cut, and an index whose name contains UNIQUE
  becomes unique under another name.\<close>
theorem parser_mistakes:
  "parse F ''ALTER TABLE ENGINE=memory'' = None \<and>
   parse_custom F ''CREATE INDEX i ON t) (c'' = None \<and>
   parse F ''CREATE TABLE t (id INT, engine TEXT)'' = Some (case sf_parse F ''CREATE TABLE t (id INT,'' of
      Inl e \<Rightarrow> Inl (Parse e)
    | Inr stmts \<Rightarrow> and_then (convert_all F stmts) (\<lambda>converted. Inr (map (with_engine ''TEXT)'') converted))) \<and>
   parse_custom F (user_text True ''bob'' ''a with password b'') =
     Some (Inr [StCreateUser (''bob PASSWORD '' @ [CHR 0x27, CHR ''a'']) (''b'' @ [CHR 0x27])]) \<and>
   parse_custom F ''CREATE INDEX unique_idx ON t (c)'' = Some (Inr [StCreateIndex ''_idx'' ''t'' [''c''] True False])"
  by (intro conjI) code_simp+

subsection \<open>Literals\<close>

text \<open>The types of the values that literals of INSERT and UPDATE can have.\<close>

definition literal_types :: "data_type set" where
  "literal_types = {TyNull, TyBoolean, TyInteger, TyBigInt, TyDouble, TyText, TyUuidV7}"

lemma sql_value_literal: "datum_type (sql_value_to_datum v) \<in> literal_types"
  by (auto simp: sql_value_to_datum_def literal_types_def split: sql_value.splits option.splits)

lemma negative_literal: "negative_number n = Inr d \<Longrightarrow> datum_type d \<in> literal_types"
  by (auto simp: negative_number_def literal_types_def split: if_splits option.splits)

lemma sql_expr_literal: "sql_expr_to_datum F uuid e = Inr d \<Longrightarrow> datum_type d \<in> literal_types"
  using sql_value_literal negative_literal
  by (auto simp: sql_expr_to_datum_def literal_types_def
      split: sql_expr.splits sql_unary.splits sql_value.splits if_splits)

text \<open>The column types that none of these values can be coerced to.\<close>

definition unreachable_types :: "data_type set" where
  "unreachable_types = {TySmallInt, TyUnsignedSmallInt, TyReal, TyBinary, TyDate, TyTime, TyTimestamp, TyTimestampTz, TyUuid}"

lemma unreachable_coercion:
  "datum_type d \<in> literal_types \<Longrightarrow> ty \<in> unreachable_types \<Longrightarrow> coerce_datum X d ty = Inr w \<Longrightarrow> w = DNull"
  by (cases d; cases ty) (auto simp: coerce_datum_def literal_types_def unreachable_types_def Let_def)

lemma try_map_memD: "try_map f xs = Inr ys \<Longrightarrow> y \<in> set ys \<Longrightarrow> \<exists>x \<in> set xs. f x = Inr y"
  unfolding try_map_Inr_iff by (induction xs ys rule: list_all2_induct) auto

lemma in_enumerateD: "(i, v) \<in> set (enumerate n vs) \<Longrightarrow> v \<in> set vs"
  by (auto simp: enumerate_eq_zip dest: set_zip_rightD)

lemma insert_literals:
  assumes "convert_insert F k ins = Inr (StInsert table_name columns vals)" "vs \<in> set vals" "v \<in> set vs"
  shows "datum_type v \<in> literal_types"
proof -
  have row: "\<forall>v \<in> set vs. datum_type v \<in> literal_types" if "row_datums F k i es = Inr vs" for i es vs
    using try_map_memD [OF that [unfolded row_datums_def]] sql_expr_literal by fastforce
  have rows: "\<forall>vs \<in> set rows. \<forall>v \<in> set vs. datum_type v \<in> literal_types"
    if "insert_values F k source = Inr rows" for source rows
  proof (cases source)
    case (Some q)
    then show ?thesis
    proof (cases "qy_body q")
      case (SetValues exprs)
      then have "try_map (\<lambda>(i, r). row_datums F k i r) (enumerate 0 exprs) = Inr rows"
        using that Some by (simp add: insert_values_def)
      from try_map_memD [OF this] show ?thesis using row by fastforce
    qed (use that Some in \<open>auto simp: insert_values_def\<close>)
  qed (use that in \<open>auto simp: insert_values_def\<close>)
  show ?thesis
    using assms rows row
    by (auto simp: convert_insert_def and_then_eq_Inr split: option.splits if_splits)
qed

lemma insert_row_values:
  assumes "insert_row X t col_indices vs = Inr r" "\<forall>v \<in> set vs. datum_type v \<in> literal_types"
    and "j < length (tb_columns t)" "j \<notin> set col_indices \<or> cm_data_type (tb_columns t ! j) \<in> unreachable_types"
  shows "row_values r ! j = DNull \<and> length (row_values r) = length (tb_columns t)"
proof -
  let ?step = "\<lambda>full (i, v).
      if i < length col_indices
      then and_then (coerce_datum X v (cm_data_type (tb_columns t ! (col_indices ! i)))) (\<lambda>w. Inr (full[col_indices ! i := w]))
      else Inr full"
  obtain full where full: "try_fold ?step (replicate (length (tb_columns t)) DNull) (enumerate 0 vs) = Inr full"
    and r: "r = \<lparr>row_values = full\<rparr>"
    using assms(1) by (auto simp: insert_row_def and_then_eq_Inr Let_def)
  have "full ! j = DNull \<and> length full = length (tb_columns t)"
    if "try_fold ?step acc ivs = Inr full" "acc ! j = DNull" "length acc = length (tb_columns t)"
      "\<forall>(i, v) \<in> set ivs. datum_type v \<in> literal_types" for acc ivs full
    using that
  proof (induction ivs arbitrary: acc)
    case (Cons a ivs)
    obtain i v where a: "a = (i, v)" by (cases a)
    obtain acc' where step: "?step acc a = Inr acc'" and rest: "try_fold ?step acc' ivs = Inr full"
      using Cons.prems(1) by (auto simp: and_then_eq_Inr)
    have "acc' ! j = DNull \<and> length acc' = length (tb_columns t)"
    proof (cases "i < length col_indices")
      case True
      then obtain w where w: "coerce_datum X v (cm_data_type (tb_columns t ! (col_indices ! i))) = Inr w"
        "acc' = acc[col_indices ! i := w]"
        using step a by (auto simp: and_then_eq_Inr)
      show ?thesis
      proof (cases "col_indices ! i = j")
        case True
        then have "cm_data_type (tb_columns t ! j) \<in> unreachable_types"
          using assms(4) \<open>i < length col_indices\<close> nth_mem by blast
        then have "w = DNull" using unreachable_coercion w(1) True Cons.prems(4) a by auto
        then show ?thesis using w(2) True Cons.prems(2,3) assms(3) by simp
      qed (use w(2) Cons.prems(2,3) in simp)
    qed (use step a Cons.prems(2,3) in simp)
    then show ?case using Cons.IH [OF rest] Cons.prems(4) by simp
  qed simp
  from this [OF full] show ?thesis
    using assms(2,3) r in_enumerateD by fastforce
qed

text \<open>C29: what an SQL INSERT can store. For any INSERT the front end accepts, every planned row is NULL in the
  columns that the statement does not name, declared defaults notwithstanding, and in every column of
  type SMALLINT, U_SMALLINT, REAL, DATE, TIME, TIMESTAMP, UUID and the binary and zoned types: no
  literal of the language is ever converted to one of these.\<close>
theorem insert_reaches_types:
  assumes "convert_statement F k (AstInsert ins) = Inr stmt"
    and "plan_statement X stmt tables = Inr (Flat (PlanInsert table_name rows))"
    and "Planner.find_table tables table_name = Inr t" "r \<in> set rows" "j < length (tb_columns t)"
    and "si_columns ins \<noteq> [] \<and> column_index t ` set (si_columns ins) \<inter> {Some j} = {} \<or>
      cm_data_type (tb_columns t ! j) \<in> unreachable_types"
  shows "row_values r ! j = DNull"
proof -
  obtain vals where stmt: "stmt = StInsert (the (si_table ins)) (si_columns ins) vals"
    and conv: "convert_insert F k ins = Inr (StInsert (the (si_table ins)) (si_columns ins) vals)"
    using assms(1)
    by (auto simp: convert_statement_def convert_insert_def and_then_eq_Inr split: option.splits)
  then obtain t' col_indices where p: "Planner.find_table tables (the (si_table ins)) = Inr t'"
    "(if si_columns ins = [] then Inr [0..<length (tb_columns t')]
      else try_map (column_or_error t' (the (si_table ins))) (si_columns ins)) = Inr col_indices"
    "try_map (insert_row X t' col_indices) vals = Inr rows" "the (si_table ins) = table_name"
    using assms(2) by (auto simp: and_then_eq_Inr)
  have t': "t' = t" using p(1,4) assms(3) by simp
  obtain vs where vs: "vs \<in> set vals" "insert_row X t col_indices vs = Inr r"
    using try_map_memD [OF p(3) assms(4)] t' by blast
  have "j \<notin> set col_indices \<or> cm_data_type (tb_columns t ! j) \<in> unreachable_types"
  proof (cases "cm_data_type (tb_columns t ! j) \<in> unreachable_types")
    case False
    then have named: "si_columns ins \<noteq> []" "column_index t ` set (si_columns ins) \<inter> {Some j} = {}" using assms(6) by auto
    then have "list_all2 (\<lambda>c i. column_or_error t (the (si_table ins)) c = Inr i) (si_columns ins) col_indices"
      using p(2) t' by (simp add: try_map_Inr_iff)
    then have "\<forall>i \<in> set col_indices. \<exists>c \<in> set (si_columns ins). column_index t c = Some i"
      by (fastforce simp: list_all2_conv_all_nth in_set_conv_nth column_or_error_def split: option.splits)
    then show ?thesis using named(2) by (metis Int_insert_right_if1 imageI insert_not_empty)
  qed simp
  then show ?thesis
    using insert_row_values [OF vs(2) _ assms(5)] insert_literals [OF conv vs(1)] by blast
qed

definition values_insert :: "string \<Rightarrow> string list \<Rightarrow> sql_expr list list \<Rightarrow> sql_insert" where
  "values_insert table_name columns rows =
     \<lparr>si_table = Some table_name, si_columns = columns,
      si_source = Some \<lparr>qy_body = SetValues rows, qy_order_by = None, qy_limit = None, qy_offset = None\<rparr>,
      si_assignments = []\<rparr>"

definition small_table :: table where
  "small_table = table_new ''s''
     [column_new ''n'' TySmallInt, (column_new ''d'' TyInteger)\<lparr>cm_default := Some (DInteger 7)\<rparr>, column_new ''i'' TyBigInt]"

theorem insert_reaches_types_witness:
  "convert_statement refusing_front 0 (AstInsert (values_insert ''s'' [''n'', ''i''] [[SxValue ValNull, SxValue (ValNumber ''5'')]])) =
     Inr (StInsert ''s'' [''n'', ''i''] [[DNull, DBigInt 5]]) \<and>
   plan_statement sample_ext (StInsert ''s'' [''n'', ''i''] [[DNull, DBigInt 5]]) [small_table] =
     Inr (Flat (PlanInsert ''s'' [\<lparr>row_values = [DNull, DNull, DBigInt 5]\<rparr>])) \<and>
   [DNull, DNull, DBigInt 5] ! 1 = DNull \<and>
   plan_statement sample_ext (StInsert ''s'' [''n''] [[DBigInt 5]]) [small_table] =
     Inl (TypeMismatch ''SMALLINT'' ''BIGINT'')"
proof -
  let ?ins = "values_insert ''s'' [''n'', ''i''] [[SxValue ValNull, SxValue (ValNumber ''5'')]]"
  have c: "convert_statement refusing_front 0 (AstInsert ?ins) = Inr (StInsert ''s'' [''n'', ''i''] [[DNull, DBigInt 5]])"
    by code_simp
  have p: "plan_statement sample_ext (StInsert ''s'' [''n'', ''i''] [[DNull, DBigInt 5]]) [small_table] =
      Inr (Flat (PlanInsert ''s'' [\<lparr>row_values = [DNull, DNull, DBigInt 5]\<rparr>]))"
    by code_simp
  have f: "Planner.find_table [small_table] ''s'' = Inr small_table" by code_simp
  have "column_index small_table ''n'' = Some 0" "column_index small_table ''i'' = Some 2" by code_simp+
  then have named: "si_columns ?ins \<noteq> [] \<and> column_index small_table ` set (si_columns ?ins) \<inter> {Some 1} = {} \<or>
      cm_data_type (tb_columns small_table ! 1) \<in> unreachable_types"
    by (simp add: values_insert_def)
  have "row_values \<lparr>row_values = [DNull, DNull, DBigInt 5]\<rparr> ! 1 = DNull"
    by (rule insert_reaches_types [OF c p f _ _ named]) (simp, code_simp)
  moreover have "plan_statement sample_ext (StInsert ''s'' [''n''] [[DBigInt 5]]) [small_table] =
      Inl (TypeMismatch ''SMALLINT'' ''BIGINT'')"
    by code_simp
  ultimately show ?thesis using c p by simp
qed

lemma sint_ucast_minus:
  fixes i :: i64
  shows "sint (ucast (- i) :: i32) = signed_take_bit 31 (- sint i)"
proof -
  have "- i = word_of_int (- sint i)" by simp
  moreover have "(ucast (word_of_int (- sint i) :: i64) :: i32) = word_of_int (- sint i)"
    by (rule ucast_down_wi) (simp add: is_down)
  ultimately have "(ucast (- i) :: i32) = word_of_int (- sint i)" by argo
  then have "sint (ucast (- i) :: i32) = sint (word_of_int (- sint i) :: i32)" by argo
  also have "\<dots> = signed_take_bit (LENGTH(32) - 1) (- sint i)" by (rule sint_sbintrunc')
  finally show ?thesis by simp
qed

text \<open>a negative integer literal keeps its low 32 bits. The value of \<open>-n\<close> in INSERT and UPDATE is exact
  when it fits INTEGER; a longer one wraps silently, also where the column is a BIGINT, so that
  -5000000000 is stored as -705032704. Positive literals are BIGINT values and exact.\<close>
theorem negative_literals:
  assumes "parse_i64 n = Some i" "CHR ''.'' \<notin> set n"
  shows "sql_expr_to_datum F uuid (SxValue (ValNumber n)) = Inr (DBigInt i) \<and>
    (\<exists>w. sql_expr_to_datum F uuid (SxUnary SqlUnaryMinus (SxValue (ValNumber n))) = Inr (DInteger w) \<and>
      sint w = signed_take_bit 31 (- sint i) \<and> (- (2 ^ 31) \<le> - sint i \<and> - sint i < 2 ^ 31 \<longrightarrow> sint w = - sint i))"
  using assms
  by (auto simp: sql_expr_to_datum_def sql_value_to_datum_def negative_number_def sint_ucast_minus
      signed_take_bit_int_eq_self)

theorem negative_literals_witness:
  "\<forall>F uuid. sql_expr_to_datum F uuid (SxValue (ValNumber ''5000000000'')) = Inr (DBigInt 5000000000) \<and>
    (\<exists>w. sql_expr_to_datum F uuid (SxUnary SqlUnaryMinus (SxValue (ValNumber ''5000000000''))) = Inr (DInteger w) \<and>
      sint w = - 705032704)"
proof (intro allI)
  fix F uuid
  have p: "parse_i64 ''5000000000'' = Some 5000000000"
    by (simp add: parse_i64_def parse_int_def split_sign_def parse_digits_def is_digit_def digit_value_def)
  have s1: "sint (5000000000 :: i64) = 5000000000" by code_simp
  have s2: "signed_take_bit 31 (- 5000000000 :: int) = - 705032704" by code_simp
  show "sql_expr_to_datum F uuid (SxValue (ValNumber ''5000000000'')) = Inr (DBigInt 5000000000) \<and>
    (\<exists>w. sql_expr_to_datum F uuid (SxUnary SqlUnaryMinus (SxValue (ValNumber ''5000000000''))) = Inr (DInteger w) \<and>
      sint w = - 705032704)"
    using negative_literals [OF p, of F uuid, unfolded s1 s2] by auto
qed

subsection \<open>Negation\<close>

definition two_rows :: table where
  "two_rows = int_table ''t'' ''id'' [1, 2]"

definition not_in_one :: sql_expr where
  "not_in_one = SxInList (SxIdentifier ''id'') [SxValue (ValNumber ''1'')] True"

text \<open>the front end forgets the NOT of IN, LIKE and BETWEEN, and the elements of an IN list that are no
  plain literals, as negative numbers. A DELETE whose condition is \<open>id NOT IN (1)\<close> selects the row
  with the identifier 1 and no other.\<close>
theorem negation_forgotten:
  "(\<forall>F e xs low high pattern.
      sql_expr_to_expression F (SxInList e xs True) = sql_expr_to_expression F (SxInList e xs False) \<and>
      sql_expr_to_expression F (SxLike e True pattern) = sql_expr_to_expression F (SxLike e False pattern) \<and>
      sql_expr_to_expression F (SxBetween e True low high) = sql_expr_to_expression F (SxBetween e False low high) \<and>
      sql_expr_to_expression F (SxInList e [SxUnary SqlUnaryMinus (SxValue (ValNumber ''5''))] False) =
        In (sql_expr_to_expression F e) []) \<and>
   (case and_then (convert_statement refusing_front 0 (AstDelete [''t''] (Some not_in_one)))
           (\<lambda>s. plan_statement sample_ext s [two_rows]) of
      Inr (Flat (PlanDelete _ (Some e) columns)) \<Rightarrow>
        map (\<lambda>(_, r). evaluate (xe_env sample_env) (\<lambda>_. []) (row_values r) columns e) (scan_visible two_rows 5 {}) =
          [Inr (DBoolean True), Inr (DBoolean False)]
    | _ \<Rightarrow> False)"
  by (rule conjI, simp add: List.map_filter_def sql_expr_to_datum_opt_def, code_simp)

end
