(* ===== verification/Joins.thy ===== *)
theory Joins
  imports Pushdown "HOL-Library.Multiset"
begin

text \<open>
  The join algorithms against the nested loop: a hash join that builds on the left gives the same
  rows up to their order; the one that builds on the right looks its keys up at the other side's
  positions. An index nested loop reads the inner table without its filter.
\<close>

subsection \<open>The hash table\<close>

lemma hash_get_push:
  "hash_get (hash_push k r h) key = hash_get h key @ (if key_match k key then [r] else [])"
  by (induction h) (auto simp: hash_get_def key_match_def)

lemma hash_get_build:
  "hash_get (hash_build keys rows) key =
     filter (\<lambda>r. \<not> list_ex is_null (key_of keys r) \<and> key_match (key_of keys r) key) rows"
proof -
  have "hash_get (foldl (\<lambda>h r. if list_ex is_null (key_of keys r) then h else hash_push (key_of keys r) r h) h rows) key =
      hash_get h key @ filter (\<lambda>r. \<not> list_ex is_null (key_of keys r) \<and> key_match (key_of keys r) key) rows" for h
    by (induction rows arbitrary: h) (auto simp: hash_get_push)
  then show ?thesis by (simp add: hash_build_def hash_get_def)
qed

lemma mset_concat_map: "mset (concat (map f xs)) = (\<Sum>x\<leftarrow>xs. mset (f x))"
  by (induction xs) auto

lemma sum_list_swap:
  fixes h :: "'a \<Rightarrow> 'b \<Rightarrow> 'c::comm_monoid_add"
  shows "(\<Sum>r\<leftarrow>rs. \<Sum>l\<leftarrow>ls. h l r) = (\<Sum>l\<leftarrow>ls. \<Sum>r\<leftarrow>rs. h l r)"
  by (induction rs) (simp_all add: sum_list_addf)

lemma mset_filter_map: "mset (filter on (map f xs)) = (\<Sum>x\<leftarrow>xs. if on (f x) then {#f x#} else {#})"
  by (induction xs) auto

lemma nested_left_inner: "nested_left on_match False rw rs = (\<lambda>l. filter on_match (map (\<lambda>r. l @ r) rs))"
  by (simp add: fun_eq_iff nested_left_def Let_def)

text \<open>Whatever the rows, a match by ON must imply equal keys; then the hash join finds every match once.\<close>

lemma hash_join_mset:
  assumes "\<And>l r. l \<in> set ls \<Longrightarrow> r \<in> set rs \<Longrightarrow> on_match (l @ r) \<Longrightarrow>
      key_match (key_of bk l) (key_of pk r) \<and> \<not> list_ex is_null (key_of pk r)"
    and "jt \<in> {JInner, JCross}"
  shows "mset (hash_join order on_match jt True bk pk lw rw ls rs) =
    mset (nested_loop_join on_match jt lw rw ls rs)"
proof -
  have probe: "mset (hash_probe on_match True (hash_build bk ls) pk r) =
      (\<Sum>l\<leftarrow>ls. if on_match (l @ r) then {#l @ r#} else {#})" if "r \<in> set rs" for r
  proof (cases "list_ex is_null (key_of pk r)")
    case True
    then have "\<And>l. l \<in> set ls \<Longrightarrow> \<not> on_match (l @ r)" using assms(1) that by blast
    then have "(\<Sum>l\<leftarrow>ls. if on_match (l @ r) then {#l @ r#} else {#}) = {#}"
      by (induction ls) auto
    then show ?thesis using True by (simp add: hash_probe_def Let_def)
  next
    case False
    have key: "\<And>l. key_match (key_of bk l) (key_of pk r) \<Longrightarrow> \<not> list_ex is_null (key_of bk l)"
      using False by (auto simp: key_match_def)
    have "filter on_match (map (\<lambda>l. l @ r) (hash_get (hash_build bk ls) (key_of pk r))) =
        filter on_match (map (\<lambda>l. l @ r) ls)"
      unfolding hash_get_build using assms(1) [OF _ that] key
      by (induction ls) auto
    then show ?thesis using False by (simp add: hash_probe_def Let_def mset_filter_map del: mset_filter mset_map)
  qed
  have "mset (concat (map (hash_probe on_match True (hash_build bk ls) pk) rs)) =
      (\<Sum>r\<leftarrow>rs. \<Sum>l\<leftarrow>ls. if on_match (l @ r) then {#l @ r#} else {#})"
    unfolding mset_concat_map using probe by (intro arg_cong [where f = sum_list] map_cong) auto
  also have "\<dots> = (\<Sum>l\<leftarrow>ls. \<Sum>r\<leftarrow>rs. if on_match (l @ r) then {#l @ r#} else {#})"
    by (rule sum_list_swap)
  also have "\<dots> = mset (concat (map (\<lambda>l. filter on_match (map (\<lambda>r. l @ r) rs)) ls))"
    unfolding mset_concat_map by (simp only: mset_filter_map)
  finally show ?thesis
    using assms(2) by (auto simp: hash_join_def nested_loop_join_def nested_left_inner Let_def)
qed

subsection \<open>Keys of a planned hash join\<close>

definition exact_type :: "data_type \<Rightarrow> bool" where
  "exact_type T \<longleftrightarrow> erase_length T \<notin> {TyReal, TyDouble}"

lemma erase_length_idem [simp]: "erase_length (erase_length T) = erase_length T"
  by (cases T) auto

lemma datum_eq_same_type:
  assumes "datum_eq F a b" "datum_type a = datum_type b" "exact_type (datum_type a)"
  shows "a = b"
  using assms
  by (cases a; cases b) (auto simp: datum_eq_def compare_datums_def cmp_of_def exact_type_def split: if_splits dest: signed_word_eqI)

lemma datum_eq_not_null: "datum_eq F a b \<Longrightarrow> a \<noteq> DNull \<and> b \<noteq> DNull"
  by (cases a; cases b) (auto simp: datum_eq_def compare_datums_def)

lemma and_true_parts:
  assumes "evaluate_join E d r tm on = Inr v" "datum_to_bool v" "p \<in> set (extract_equi_join_pairs on)"
  shows "\<exists>d x y. evaluate_join E (sub_supply 0 d) r tm (fst p) = Inr x \<and>
    evaluate_join E (sub_supply 1 d) r tm (snd p) = Inr y \<and> datum_eq (ee_float E) x y"
  using assms
proof (induction on arbitrary: d v rule: extract_equi_join_pairs.induct)
  case (1 left op right)
  note prems = 1(3-5)
  obtain x y where xy: "evaluate_join E (sub_supply 0 d) r tm left = Inr x"
      "evaluate_join E (sub_supply 1 d) r tm right = Inr y" "binary_value (ee_float E) op x y = Inr v"
    using prems(1) by (auto simp: and_then_eq_Inr)
  consider "op = OpEq" | "op = OpAnd" using prems(3) by (auto split: if_splits)
  then show ?case
  proof cases
    case 1
    then have "datum_eq (ee_float E) x y"
      using xy(3) prems(2) by (auto simp: binary_value_def split: if_splits)
    then show ?thesis using 1 xy prems(3) by auto
  next
    case 2
    then have b: "datum_to_bool x" "datum_to_bool y"
      using xy(3) prems(2) by (auto simp: binary_value_def split: if_splits)
    have "p \<in> set (extract_equi_join_pairs left) \<or> p \<in> set (extract_equi_join_pairs right)"
      using prems(3) 2 by simp
    then show ?thesis using "1.IH" 2 xy b by auto
  qed
qed simp_all

lemma lookup_two:
  assumes "lookup_unqualified [(a, 0, ca), (b, w, cb)] c = Inr k"
  shows "(column_position ca c = Some k \<and> column_position cb c = None) \<or>
    (column_position ca c = None \<and> (\<exists>j. column_position cb c = Some j \<and> k = w + j))"
  using assms by (auto simp: lookup_unqualified_def and_then_eq_Inr split: option.splits)

lemma hash_keys_mem:
  assumes "(i, j) \<in> set (hash_keys (TableScan a ca fa ia ka) (TableScan b cb fb ib kb) pairs)"
  shows "\<exists>c c'. (Column c, Column c') \<in> set pairs \<and> column_position ca c = Some i \<and> column_position cb c' = Some j"
proof -
  obtain l r where lr: "(l, r) \<in> set pairs"
    "(case (extract_column_indices l (TableScan a ca fa ia ka), extract_column_indices r (TableScan b cb fb ib kb)) of
       (Some [i], Some [j]) \<Rightarrow> Some (i, j) | _ \<Rightarrow> None) = Some (i, j)"
    using assms by (auto simp: hash_keys_def map_filter_mem)
  then obtain c c' where "l = Column c" "r = Column c'"
    by (cases l; cases r) (auto simp: extract_column_indices_def split: option.splits)
  then show ?thesis using lr by (auto simp: extract_column_indices_def split: option.splits)
qed

lemma key_of_nth: "\<forall>i \<in> set is. i < length r \<Longrightarrow> key_of is r = map ((!) r) is"
  by (induction "is") (simp_all add: key_of_def map_filter_simps nth_opt_def)

lemma planned_key_eq:
  assumes "row_passes XE [(a, 0, ca), (b, length ca, cb)] on (l @ r)"
    and "(i, j) \<in> set (hash_keys (TableScan a ca fa ia ka) (TableScan b cb fb ib kb) (extract_equi_join_pairs on))"
    and "conforms ca l" "conforms cb r"
    and "exact_type (cm_data_type (ca ! i))"
    and "erase_length (cm_data_type (ca ! i)) = erase_length (cm_data_type (cb ! j))"
  shows "i < length l \<and> j < length r \<and> l ! i = r ! j \<and> l ! i \<noteq> DNull \<and> \<not> has_nan (l ! i)"
proof -
  obtain c c' where p: "(Column c, Column c') \<in> set (extract_equi_join_pairs on)"
    "column_position ca c = Some i" "column_position cb c' = Some j"
    using hash_keys_mem [OF assms(2)] by blast
  let ?tm = "[(a, 0, ca), (b, length ca, cb)]" and ?E = "xe_env XE"
  obtain d x y where xy: "evaluate_join ?E (sub_supply 0 d) (l @ r) ?tm (Column c) = Inr x"
    "evaluate_join ?E (sub_supply 1 d) (l @ r) ?tm (Column c') = Inr y" "datum_eq (ee_float ?E) x y"
    using and_true_parts [OF assms(1) [unfolded row_passes_def] _ p(1)] by auto
  have len: "length l = length ca" "length r = length cb"
    using assms(3,4) by (auto simp: conforms_def list_all2_lengthD)
  have ij: "i < length ca" "j < length cb" using p column_position_less by auto
  have x: "x = l ! i"
    using xy(1) p(2) lookup_two [of a ca b "length ca" cb c] ij len
    by (auto simp: and_then_eq_Inr row_value_append_left) (simp add: row_value_def nth_opt_def)
  have y: "y = r ! j"
    using xy(2) p(3) lookup_two [of a ca b "length ca" cb c'] ij len row_value_append_right [OF len(1), of r j]
    by (auto simp: and_then_eq_Inr row_value_def nth_opt_def)
  have nn: "x \<noteq> DNull" "y \<noteq> DNull" using datum_eq_not_null [OF xy(3)] by auto
  have "datum_type x = erase_length (cm_data_type (ca ! i))" "datum_type y = erase_length (cm_data_type (cb ! j))"
    using assms(3,4) ij nn x y by (auto simp: conforms_def list_all2_conv_all_nth)
  then have t: "datum_type x = datum_type y" "exact_type (datum_type x)"
    using assms(5,6) by (auto simp: exact_type_def)
  have "x = y" by (rule datum_eq_same_type [OF xy(3) t])
  moreover have "\<not> has_nan x" using t(2) by (cases x) (auto simp: exact_type_def)
  ultimately show ?thesis using ij len nn x y by simp
qed

text \<open>A join that is not a LEFT JOIN, against the inner join of the same rows.\<close>

lemma hash_join_inner: "jt \<noteq> JLeft \<Longrightarrow> hash_join order P jt True bk pk lw rw ls rs = hash_join order P JInner True bk pk lw rw ls rs"
  by (simp add: hash_join_def Let_def)

lemma nested_loop_inner:
  "jt \<noteq> JLeft \<Longrightarrow> nested_loop_join P jt lw rw ls rs = nested_loop_join P JInner lw rw ls rs @
     (if jt = JRight then map (\<lambda>r. nulls lw @ r) (filter (\<lambda>r. \<not> list_ex (\<lambda>l. P (l @ r)) ls) rs) else [])"
  by (simp add: nested_loop_join_def)

text \<open>C19: a planned hash join that builds on the left input. When the rows conform to the columns and the columns
  of every key pair have the same type and are not floats, an INNER or CROSS JOIN of two scans gives the rows of the nested
  loop, each as often, with the same column names; a RIGHT JOIN gives the matches alone: exactly the right rows without
  a partner, which the nested loop pads with NULLs, are missing. A LEFT JOIN is left out: it loses other rows, and
  so does a join that builds on the right.\<close>
theorem hash_join_preserves:
  assumes "left = TableScan a ca fa ia ka" "right = TableScan b cb fb ib kb"
    and "hash_algorithm left right on = HashJoin True bk pk (Some on)"
    and "execute_tree XE cx left = Inr (ls, lnames, ltypes)" "execute_tree XE cx right = Inr (rs, rnames, rtypes)"
    and "list_all (conforms ca) ls" "list_all (conforms cb) rs" "jt \<noteq> JLeft"
    and "list_all (\<lambda>(i, j). exact_type (cm_data_type (ca ! i)) \<and>
        erase_length (cm_data_type (ca ! i)) = erase_length (cm_data_type (cb ! j)))
      (hash_keys left right (extract_equi_join_pairs on))"
  shows "\<exists>hashed nested names types.
    execute_tree XE cx (Join left right jt (HashJoin True bk pk (Some on))) = Inr (hashed, names, types) \<and>
    execute_tree XE cx (Join left right jt (NestedLoop (Some on))) = Inr (nested, names, types) \<and>
    mset nested = mset hashed + mset (if jt = JRight
      then map (\<lambda>r. nulls (length ca) @ r)
        (filter (\<lambda>r. \<not> list_ex (\<lambda>l. row_passes XE [(a, 0, ca), (b, length ca, cb)] on (l @ r)) ls) rs)
      else [])"
proof -
  let ?keys = "hash_keys left right (extract_equi_join_pairs on)" and ?tm = "[(a, 0, ca), (b, length ca, cb)]"
  have bk: "bk = map fst ?keys" "pk = map snd ?keys"
    using assms(3) by (auto simp: hash_algorithm_def Let_def split: if_splits)
  have "key_match (key_of bk l) (key_of pk r) \<and> \<not> list_ex is_null (key_of pk r)"
    if "l \<in> set ls" "r \<in> set rs" "row_passes XE ?tm on (l @ r)" for l r
  proof -
    have "\<forall>(i, j) \<in> set ?keys. i < length l \<and> j < length r \<and> l ! i = r ! j \<and> l ! i \<noteq> DNull \<and> \<not> has_nan (l ! i)"
      using planned_key_eq [OF that(3)] that assms(1,2,6,7,9) by (fastforce simp: list_all_iff)
    then have all: "(i, j) \<in> set ?keys \<Longrightarrow>
        i < length l \<and> j < length r \<and> l ! i = r ! j \<and> l ! i \<noteq> DNull \<and> \<not> has_nan (l ! i)" for i j
      by blast
    have "\<forall>i \<in> set bk. i < length l" "\<forall>j \<in> set pk. j < length r" using all by (auto simp: bk)
    then have "key_of bk l = map ((!) l) bk" "key_of pk r = map ((!) r) pk" by (auto intro: key_of_nth)
    moreover have "map ((!) l) bk = map ((!) r) pk" using all by (auto simp: bk)
    moreover have "\<not> has_nan (l ! i) \<and> l ! i \<noteq> DNull" if i: "i \<in> set bk" for i
    proof -
      obtain j where "(i, j) \<in> set ?keys" using i bk(1) by force
      then show ?thesis using all by blast
    qed
    then have "\<not> list_ex has_nan (map ((!) l) bk)" "\<not> list_ex is_null (map ((!) l) bk)"
      unfolding list_ex_iff is_null_def set_map by (metis imageE)+
    ultimately show ?thesis by (simp add: key_match_def)
  qed
  then have "mset (hash_join (xe_hash_order XE) (passes_opt XE ?tm (Some on)) JInner True bk pk (length ca) (length cb) ls rs) =
      mset (nested_loop_join (passes_opt XE ?tm (Some on)) JInner (length ca) (length cb) ls rs)"
    by (intro hash_join_mset) (simp_all add: passes_opt_def)
  then show ?thesis
    using assms(4,5) hash_join_inner [OF assms(8)] nested_loop_inner [OF assms(8)] unfolding assms(1,2)
    by (simp add: join_result_def Let_def info_width_def shift_by_def passes_opt_def)
qed

definition sample_scan :: "string \<Rightarrow> string \<Rightarrow> logical_plan" where
  "sample_scan t c = TableScan t [column_new c TyInteger] None None None"

theorem hash_join_preserves_witness:
  "\<exists>hashed nested names types.
    execute_tree sample_env sample_ctx (Join (sample_scan ''a'' ''x'') (sample_scan ''b'' ''y'') JInner
      (HashJoin True [0] [0] (Some (BinaryOp (Column ''x'') OpEq (Column ''y''))))) = Inr (hashed, names, types) \<and>
    execute_tree sample_env sample_ctx (Join (sample_scan ''a'' ''x'') (sample_scan ''b'' ''y'') JInner
      (NestedLoop (Some (BinaryOp (Column ''x'') OpEq (Column ''y''))))) = Inr (nested, names, types) \<and>
    mset nested = mset hashed"
proof -
  have a: "execute_tree sample_env sample_ctx (sample_scan ''a'' ''x'') = Inr ([[DInteger 1], [DInteger 2]], [''x''], [''INTEGER''])"
    and b: "execute_tree sample_env sample_ctx (sample_scan ''b'' ''y'') = Inr ([[DInteger 2], [DInteger 3]], [''y''], [''INTEGER''])"
    and h: "hash_algorithm (sample_scan ''a'' ''x'') (sample_scan ''b'' ''y'') (BinaryOp (Column ''x'') OpEq (Column ''y'')) =
      HashJoin True [0] [0] (Some (BinaryOp (Column ''x'') OpEq (Column ''y'')))"
    and k: "list_all (\<lambda>(i, j). exact_type (cm_data_type ([column_new ''x'' TyInteger] ! i)) \<and>
          erase_length (cm_data_type ([column_new ''x'' TyInteger] ! i)) = erase_length (cm_data_type ([column_new ''y'' TyInteger] ! j)))
        (hash_keys (sample_scan ''a'' ''x'') (sample_scan ''b'' ''y'')
          (extract_equi_join_pairs (BinaryOp (Column ''x'') OpEq (Column ''y''))))"
    and ca: "list_all (conforms [column_new ''x'' TyInteger]) [[DInteger 1], [DInteger 2]]"
    and cb: "list_all (conforms [column_new ''y'' TyInteger]) [[DInteger 2], [DInteger 3]]"
    by code_simp+
  show ?thesis
    using hash_join_preserves [OF sample_scan_def sample_scan_def h a b ca cb _ k, of JInner] by simp
qed

definition wide_scan :: logical_plan where
  "wide_scan = TableScan ''w'' [column_new ''k'' TyInteger, column_new ''x'' TyInteger] None None None"

definition wide_ctx :: exec_ctx where
  "wide_ctx = \<lparr>cx_tables =
     [(table_new ''w'' [column_new ''k'' TyInteger, column_new ''x'' TyInteger])\<lparr>tb_version_chains :=
        [[new_insert 1 \<lparr>row_values = [DInteger 7, DInteger 2]\<rparr>]]\<rparr>, int_table ''b'' ''y'' [2]],
     cx_snapshot = 5, cx_active = {}\<rparr>"

text \<open>a hash join that builds on the right input applies each side's key positions to the other side. When
  the left table is the wider one, as \<open>(k, x)\<close> against \<open>(y)\<close> joined on \<open>x = y\<close>, the planner
  chooses such a join, and it returns no row where the nested loop returns the match.\<close>
theorem hash_join_swaps_keys:
  "hash_algorithm wide_scan (sample_scan ''b'' ''y'') (BinaryOp (Column ''x'') OpEq (Column ''y'')) =
     HashJoin False [0] [1] (Some (BinaryOp (Column ''x'') OpEq (Column ''y''))) \<and>
   execute_tree sample_env wide_ctx (Join wide_scan (sample_scan ''b'' ''y'') JInner
      (HashJoin False [0] [1] (Some (BinaryOp (Column ''x'') OpEq (Column ''y''))))) =
     Inr ([], [''k'', ''x'', ''y''], [''INTEGER'', ''INTEGER'', ''INTEGER'']) \<and>
   execute_tree sample_env wide_ctx (Join wide_scan (sample_scan ''b'' ''y'') JInner
      (NestedLoop (Some (BinaryOp (Column ''x'') OpEq (Column ''y''))))) =
     Inr ([[DInteger 7, DInteger 2, DInteger 2]], [''k'', ''x'', ''y''], [''INTEGER'', ''INTEGER'', ''INTEGER''])"
  by (intro conjI; code_simp)

text \<open>A LEFT JOIN by hashing on the left input loses the left rows whose key is NULL: they have no entry in the hash table,
  and only entries are padded. A RIGHT JOIN loses every right row without a partner.\<close>

definition null_ctx :: exec_ctx where
  "null_ctx = \<lparr>cx_tables =
     [(table_new ''a'' [column_new ''x'' TyInteger])\<lparr>tb_version_chains :=
        [[new_insert 1 \<lparr>row_values = [DNull]\<rparr>]]\<rparr>, int_table ''b'' ''y'' [2]],
     cx_snapshot = 5, cx_active = {}\<rparr>"

lemma hash_join_loses_outer_rows:
  "execute_tree sample_env null_ctx (Join (sample_scan ''a'' ''x'') (sample_scan ''b'' ''y'') JLeft
      (HashJoin True [0] [0] (Some (BinaryOp (Column ''x'') OpEq (Column ''y''))))) =
     Inr ([], [''x'', ''y''], [''INTEGER'', ''INTEGER'']) \<and>
   execute_tree sample_env null_ctx (Join (sample_scan ''a'' ''x'') (sample_scan ''b'' ''y'') JLeft
      (NestedLoop (Some (BinaryOp (Column ''x'') OpEq (Column ''y''))))) =
     Inr ([[DNull, DNull]], [''x'', ''y''], [''INTEGER'', ''INTEGER'']) \<and>
   execute_tree sample_env null_ctx (Join (sample_scan ''a'' ''x'') (sample_scan ''b'' ''y'') JRight
      (HashJoin True [0] [0] (Some (BinaryOp (Column ''x'') OpEq (Column ''y''))))) =
     Inr ([], [''x'', ''y''], [''INTEGER'', ''INTEGER'']) \<and>
   execute_tree sample_env null_ctx (Join (sample_scan ''a'' ''x'') (sample_scan ''b'' ''y'') JRight
      (NestedLoop (Some (BinaryOp (Column ''x'') OpEq (Column ''y''))))) =
     Inr ([[DNull, DInteger 2]], [''x'', ''y''], [''INTEGER'', ''INTEGER''])"
  by (intro conjI; code_simp)

end
