(* ===== verification/Index_Scans.thy ===== *)
theory Index_Scans
  imports Joins Statements
begin

text \<open>
  Reading through an index. For a snapshot that sees the current rows an index lookup returns the
  rows of the full scan whose key is the one looked up, in the same order, so that replacing a
  scan with an equality condition by a lookup preserves the result for integer and text literals.
  What the lookup gets wrong: an equality with NULL, and the filter of the inner table of an index
  nested loop. Sorting is a stable sort.
\<close>

subsection \<open>Lookup against scan\<close>

definition sees_current :: "exec_ctx \<Rightarrow> table \<Rightarrow> bool" where
  "sees_current cx t \<longleftrightarrow>
     list_all (\<lambda>c. latest_visible c (cx_snapshot cx) (cx_active cx) = latest_visible c u64_MAX {}) (tb_version_chains t)"

lemma sees_current_version:
  "sees_current cx t \<Longrightarrow> get_visible_version t i (cx_snapshot cx) (cx_active cx) = get_visible_version t i u64_MAX {}"
  by (cases "i < length (tb_version_chains t)")
    (auto simp: sees_current_def get_visible_version_def list_all_length nth_opt_def)

lemma map_filter_cong: "(\<And>x. x \<in> set xs \<Longrightarrow> f x = g x) \<Longrightarrow> List.map_filter f xs = List.map_filter g xs"
  by (induction xs) (auto simp: map_filter_simps split: option.splits)

lemma sees_current_scan:
  assumes "sees_current cx t"
  shows "scan_visible t (cx_snapshot cx) (cx_active cx) = current_rows t"
proof -
  have "(i, c) \<in> set (enumerate 0 (tb_version_chains t)) \<Longrightarrow>
      latest_visible c (cx_snapshot cx) (cx_active cx) = latest_visible c u64_MAX {}" for i c
    using assms by (auto simp: sees_current_def list_all_length in_set_enumerate_eq)
  then show ?thesis
    unfolding current_rows_def scan_visible_def by (intro map_filter_cong) auto
qed

lemma sorted_list_of_ascending: "sorted_wrt (<) (xs :: nat list) \<Longrightarrow> sorted_list_of_set (set xs) = xs"
  by (rule sorted_list_of_set.idem_if_sorted_distinct) (auto simp: strict_sorted_iff)

lemma sorted_wrt_filter_fst:
  "sorted_wrt (<) (map fst xs) \<Longrightarrow> sorted_wrt (<) (map fst (filter P xs))"
  by (induction xs) auto

lemma index_row_list_synced:
  assumes "index_synced t ix"
  shows "index_row_list ix k = map fst (filter (\<lambda>(i, r). extract_key ix r = k) (current_rows t))"
proof -
  let ?rows = "filter (\<lambda>(i, r). extract_key ix r = k) (current_rows t)"
  have "index_row_list ix k = sorted_list_of_set (index_rows ix k)"
    by (simp add: index_row_list_def index_rows_def split: option.splits)
  also have "index_rows ix k = set (map fst ?rows)"
    using assms by (force simp: index_synced_def)
  also have "sorted_list_of_set (set (map fst ?rows)) = map fst ?rows"
    by (rule sorted_list_of_ascending)
      (use scan_visible_sorted [of t] in \<open>simp add: current_rows_def sorted_wrt_filter_fst\<close>)
  finally show ?thesis .
qed

lemma index_lookup_synced:
  assumes "index_synced t ix" "sees_current cx t"
  shows "index_lookup cx t ix k =
    map (row_values \<circ> snd) (filter (\<lambda>(i, r). extract_key ix r = k) (current_rows t))"
proof -
  have val: "map_option (\<lambda>rv. row_values (rv_row rv)) (get_visible_version t i (cx_snapshot cx) (cx_active cx)) = Some (row_values r)"
    if "(i, r) \<in> set (current_rows t)" for i r
    using that sees_current_version [OF assms(2)] by (auto simp: current_rows_def scan_visible_iff)
  have "visible_values cx t (map fst xs) = map (row_values \<circ> snd) xs" if "set xs \<subseteq> set (current_rows t)" for xs
    using that
  proof (induction xs)
    case (Cons x xs)
    obtain i r where x: "x = (i, r)" by (cases x)
    then have "map_option (\<lambda>rv. row_values (rv_row rv)) (get_visible_version t i (cx_snapshot cx) (cx_active cx)) = Some (row_values r)"
      using Cons.prems val by simp
    then show ?case
      using Cons x by (simp only: visible_values_def list.map map_filter_simps fst_conv snd_conv comp_def) simp
  qed (simp add: visible_values_def map_filter_simps)
  then show ?thesis
    unfolding index_lookup_def index_row_list_synced [OF assms(1)] by (auto intro!: subsetI)
qed

subsection \<open>An equality condition as a lookup\<close>

definition typed_literal :: "datum \<Rightarrow> data_type \<Rightarrow> bool" where
  "typed_literal v T \<longleftrightarrow>
     (datum_int v \<noteq> None \<and> T \<in> integer_types) \<or> ((\<exists>s. v = DText s) \<and> erase_length T \<in> {TyText, TyVarChar None})"

lemma datum_int_inj: "datum_int a = Some n \<Longrightarrow> datum_int b = Some n \<Longrightarrow> datum_type a = datum_type b \<Longrightarrow> a = b"
  by (cases a; cases b) (auto dest: signed_word_eqI simp: word_uint_eq_iff)

lemma integer_type_int: "datum_type a \<in> integer_types \<Longrightarrow> \<exists>n. datum_int a = Some n"
  by (cases a) (auto simp: integer_types_def)

lemma datum_eq_int:
  "datum_int a = Some m \<Longrightarrow> datum_int b = Some n \<Longrightarrow> datum_eq F a b \<longleftrightarrow> m = n"
proof -
  assume i: "datum_int a = Some m" "datum_int b = Some n"
  then have "compare_numeric F a b = Some (cmp_of m n)" by (rule compare_numeric_int)
  then have "compare_datums F a b = Some (cmp_of m n)"
    using i by (cases a; cases b) (auto simp: compare_datums_def cmp_uint)
  then show ?thesis by (auto simp: datum_eq_def cmp_of_def)
qed

lemma literal_match:
  assumes "typed_literal v T" "coerce_datum X v T = Inr w"
    and "x = DNull \<or> erase_length (datum_type x) = erase_length T"
  shows "datum_eq F x v \<longleftrightarrow> x = w" "datum_eq F v x \<longleftrightarrow> x = w" "w \<noteq> DNull"
proof -
  have "v \<noteq> DNull" using assms(1) by (auto simp: typed_literal_def)
  then have w: "erase_length (datum_type w) = erase_length T" "datum_int w = datum_int v" "datum_text w = datum_text v"
    using coerce_datum_cases [OF assms(2)] by auto
  have *: "(datum_eq F x v \<longleftrightarrow> x = w) \<and> (datum_eq F v x \<longleftrightarrow> x = w) \<and> w \<noteq> DNull"
  proof (cases "datum_int v \<noteq> None \<and> T \<in> integer_types")
    case True
    then obtain n where n: "datum_int v = Some n" "datum_int w = Some n" using w(2) by auto
    have T: "erase_length T = T" "T \<noteq> TyNull" using True by (auto simp: integer_types_def)
    then have tw: "datum_type w = T" using w(1) by simp
    show ?thesis
    proof (cases "x = DNull")
      case True
      then show ?thesis using n datum_eq_not_null by auto
    next
      case False
      then have tx: "datum_type x = T" using assms(3) T(1) by simp
      then obtain m where m: "datum_int x = Some m" using integer_type_int [of x] \<open>datum_int v \<noteq> None \<and> T \<in> integer_types\<close> by auto
      have "x = w \<longleftrightarrow> m = n" using datum_int_inj [of x n w] m n tx tw by auto
      then show ?thesis using datum_eq_int [OF m n(1)] datum_eq_int [OF n(1) m] n by auto
    qed
  next
    case False
    then obtain s where v: "v = DText s" "erase_length T \<in> {TyText, TyVarChar None}"
      using assms(1) by (auto simp: typed_literal_def)
    have ws: "w = DText s \<or> w = DVarChar s" "datum_type w = erase_length T"
      using w v by (cases w; auto)+
    show ?thesis
      using ws v assms(3) by (cases x) (auto simp: datum_eq_def compare_datums_def cmp_of_def)
  qed
  then show "datum_eq F x v \<longleftrightarrow> x = w" "datum_eq F v x \<longleftrightarrow> x = w" "w \<noteq> DNull" by auto
qed

lemma lookup_single: "lookup_unqualified [(n, 0, cols)] c = (case column_position cols c of Some i \<Rightarrow> Inr i | None \<Rightarrow> Inl (ColumnNotFound c))"
  by (simp add: lookup_unqualified_def split: option.splits)

lemma column_literal_cases:
  "column_literal e = Some (c, v) \<Longrightarrow> e = BinaryOp (Column c) OpEq (Literal v) \<or> e = BinaryOp (Literal v) OpEq (Column c)"
  by (auto simp: column_literal_def split: expression.splits if_splits)

lemma binary_eq:
  "binary_value F OpEq l r = Inr (if l = DNull \<or> r = DNull then DNull else DBoolean (datum_eq F l r))"
  by (simp add: binary_value_def)

lemma passes_opt_simps [simp]: "passes_opt XE tm None = (\<lambda>_. True)" "passes_opt XE tm (Some e) = row_passes XE tm e"
  by (simp_all add: passes_opt_def fun_eq_iff)

lemma passes_column_literal:
  assumes "column_literal e = Some (c, v)" "column_position cols c = Some i" "conforms cols r"
    and "typed_literal v (cm_data_type (cols ! i))" "coerce_datum X v (cm_data_type (cols ! i)) = Inr w"
  shows "row_passes XE [(n, 0, cols)] e r \<longleftrightarrow> r ! i = w"
proof -
  have i: "i < length cols" "length r = length cols"
    using column_position_less [OF assms(2)] assms(3) by (auto simp: conforms_def list_all2_lengthD)
  have x: "r ! i = DNull \<or> erase_length (datum_type (r ! i)) = erase_length (cm_data_type (cols ! i))"
    using assms(3) i by (auto simp: conforms_def list_all2_conv_all_nth)
  have v: "v \<noteq> DNull" using assms(4) by (auto simp: typed_literal_def)
  have val: "row_value r i = r ! i" using i by (simp add: row_value_def nth_opt_def)
  note m = literal_match(1,2) [where F = "ee_float (xe_env XE)", OF assms(4,5) x] literal_match(3) [OF assms(4,5) x]
  show ?thesis
    using column_literal_cases [OF assms(1)] m v val
    by (cases "r ! i = DNull") (auto simp: row_passes_def lookup_single assms(2) binary_eq)
qed

lemma find_distinct: "distinct (map f xs) \<Longrightarrow> x \<in> set xs \<Longrightarrow> find (\<lambda>y. f y = f x) xs = Some x"
  by (induction xs) (auto simp: image_iff)

lemma find_map_filter: "filter P (map f xs) = map f (filter (P \<circ> f) xs)"
  by (induction xs) auto

text \<open>C20: choosing an index preserves the scan. Replacing a scan that filters on the equality of a column with
  an integer or text literal by a lookup in a single-column index gives the same rows in the same
  order, for a table in order whose rows conform to its columns and a snapshot that sees the
  current rows.\<close>
theorem index_scan_preserves:
  assumes "find (\<lambda>t. tb_name t = name) tables = Some t" "table_synced t" "distinct (index_names t)"
    and "cx_tables cx = tables" "sees_current cx t"
    and "list_all (\<lambda>(i, r). conforms (tb_columns t) (row_values r)) (current_rows t)"
    and "column_literal e = Some (c, v)" "column_position (tb_columns t) c = Some i"
    and "typed_literal v (cm_data_type (tb_columns t ! i))"
  shows "execute_tree XE cx (select_indexes X tables (TableScan name (tb_columns t) (Some e) None None)) =
    execute_tree XE cx (TableScan name (tb_columns t) (Some e) None None)"
proof (cases "choose_index_for_filter X t e")
  case None
  then show ?thesis using assms(1) by (simp add: select_scan_index_def Planner.find_table_def)
next
  case (Some chosen)
  then obtain w ix where w: "coerce_datum X v (cm_data_type (tb_columns t ! i)) = Inr w"
    and ix: "single_column_index t i = Some ix" and ch: "chosen = (im_name (ix_meta ix), [w])"
    using assms(7,8) by (auto simp: choose_index_for_filter_def split: sum.splits)
  have mem: "ix \<in> set (tb_indexes t)" and cols: "im_columns (ix_meta ix) = [i]"
    using ix by (auto simp: single_column_index_def dest: find_SomeD)
  have synced: "index_synced t ix" using assms(2) mem by (simp add: table_synced_def)
  have "find (\<lambda>j. im_name (ix_meta j) = im_name (ix_meta ix)) (tb_indexes t) = Some ix"
    using find_distinct [OF assms(3) [unfolded index_names_def] mem] .
  then have found: "find_index_named t (im_name (ix_meta ix)) = Inr ix" by (simp add: find_index_named_def)
  have "decompose_conjunction e = [e]" using column_literal_cases [OF assms(7)] by auto
  then have removed: "remove_indexed_predicate (Some e) (tb_columns t) = None"
    using assms(7,8) by (simp add: remove_indexed_predicate_def matches_indexed_predicate_def has_column_position)
  have key: "extract_key ix r = [w] \<longleftrightarrow> row_passes XE [(name, 0, tb_columns t)] e (row_values r)"
    if "(k, r) \<in> set (current_rows t)" for k r
  proof -
    have conf: "conforms (tb_columns t) (row_values r)" using assms(6) that by (auto simp: list_all_iff)
    then have "i < length (row_values r)"
      using column_position_less [OF assms(8)] by (auto simp: conforms_def list_all2_lengthD)
    then have "extract_key ix r = [row_values r ! i]"
      by (simp add: extract_key_def cols map_filter_simps row_get_def nth_opt_def)
    then show ?thesis using passes_column_literal [OF assms(7,8) conf assms(9) w] by simp
  qed
  have "index_lookup cx t ix [w] =
      filter (row_passes XE [(name, 0, tb_columns t)] e) (full_scan cx t)"
    unfolding index_lookup_synced [OF synced assms(5)] full_scan_def sees_current_scan [OF assms(5)] find_map_filter
    by (intro arg_cong2 [where f = map] filter_cong refl) (use key in auto)
  then show ?thesis
    using Some assms(1,4) found removed ch
    by (simp add: select_scan_index_def Planner.find_table_def execute_table_scan_def find_table_named_def)
qed

definition keyed_table :: "string \<Rightarrow> column_meta list \<Rightarrow> datum list list \<Rightarrow> table" where
  "keyed_table name cols rows =
     rebuild_indexes ((table_new name cols)\<lparr>tb_version_chains := map (\<lambda>r. [new_insert 1 \<lparr>row_values = r\<rparr>]) rows\<rparr>)"

definition sample_keyed :: table where
  "sample_keyed = keyed_table ''b'' [column_primary_key (column_new ''id'' TyInteger), column_new ''y'' TyInteger]
     [[DInteger 1, DInteger 5], [DInteger 2, DInteger 6]]"

definition keyed_ctx :: exec_ctx where
  "keyed_ctx = \<lparr>cx_tables = [sample_keyed, int_table ''a'' ''x'' [1, 2]], cx_snapshot = 5, cx_active = {}\<rparr>"

lemma sample_keyed_synced: "table_synced sample_keyed"
  unfolding sample_keyed_def keyed_table_def by (rule rebuild_indexes_synced)

theorem index_scan_preserves_witness:
  "execute_tree sample_env keyed_ctx (select_indexes sample_ext (cx_tables keyed_ctx)
      (TableScan ''b'' (tb_columns sample_keyed) (Some (BinaryOp (Column ''id'') OpEq (Literal (DBigInt 2)))) None None)) =
    execute_tree sample_env keyed_ctx
      (TableScan ''b'' (tb_columns sample_keyed) (Some (BinaryOp (Column ''id'') OpEq (Literal (DBigInt 2)))) None None)"
proof -
  have f: "find (\<lambda>t. tb_name t = ''b'') (cx_tables keyed_ctx) = Some sample_keyed"
    and d: "distinct (index_names sample_keyed)" and s: "sees_current keyed_ctx sample_keyed"
    and c: "list_all (\<lambda>(i, r). conforms (tb_columns sample_keyed) (row_values r)) (current_rows sample_keyed)"
    and l: "column_literal (BinaryOp (Column ''id'') OpEq (Literal (DBigInt 2))) = Some (''id'', DBigInt 2)"
    and p: "column_position (tb_columns sample_keyed) ''id'' = Some 0"
    and ty: "cm_data_type (tb_columns sample_keyed ! 0) = TyInteger"
    by code_simp+
  show ?thesis
    by (rule index_scan_preserves [OF f sample_keyed_synced d refl s c l p])
      (simp add: ty typed_literal_def integer_types_def)
qed

subsection \<open>What a lookup gets wrong\<close>

text \<open>an index changes the answer of an equality with NULL. On a table with an index on the column, the
  condition that the column equals NULL becomes a lookup of the key NULL and returns the rows whose
  value is NULL; without the index it returns no row.\<close>
theorem index_equals_null:
  "let t = keyed_table ''n'' [(column_new ''c'' TyInteger)\<lparr>cm_is_unique := True\<rparr>] [[DNull], [DInteger 1]];
       cx = \<lparr>cx_tables = [t], cx_snapshot = 5, cx_active = {}\<rparr>;
       q = TableScan ''n'' (tb_columns t) (Some (BinaryOp (Column ''c'') OpEq (Literal DNull))) None None
   in execute_tree sample_env cx q = Inr ([], [''c''], [''INTEGER'']) \<and>
      execute_tree sample_env cx (select_indexes sample_ext [t] q) = Inr ([[DNull]], [''c''], [''INTEGER''])"
  by (simp only: Let_def, rule conjI; code_simp)

definition join_statement :: select_statement where
  "join_statement =
     \<lparr>ss_table_name = ''a'', ss_columns = [Wildcard],
      ss_where_clause = Some (BinaryOp (Column ''y'') OpEq (Literal (DInteger 5))), ss_order_by = [],
      ss_limit = None, ss_offset = None,
      ss_joins = [\<lparr>jc_right_table = ''b'', jc_join_type = JInner,
                   jc_on_clause = Some (BinaryOp (Column ''x'') OpEq (Column ''id''))\<rparr>]\<rparr>"

text \<open>an index nested loop forgets the condition on its inner table. The condition \<open>y = 5\<close> of a query that
  joins a table with the one holding \<open>y\<close> through the latter's primary key is moved into the scan of
  the inner table, which the chosen join never runs: the plan as written returns the one row with
  \<open>y = 5\<close>, the optimized plan returns the row with \<open>y = 6\<close> too.\<close>
theorem index_join_drops_filter:
  "and_then (plan_select join_statement (cx_tables keyed_ctx)) (execute_tree sample_env keyed_ctx) =
     Inr ([[DInteger 1, DInteger 1, DInteger 5]], [''x'', ''id'', ''y''], [''INTEGER'', ''INTEGER'', ''INTEGER'']) \<and>
   and_then (plan_statement sample_ext (StSelect join_statement) (cx_tables keyed_ctx)) (execute_tree sample_env keyed_ctx) =
     Inr ([[DInteger 1, DInteger 1, DInteger 5], [DInteger 2, DInteger 2, DInteger 6]],
          [''x'', ''id'', ''y''], [''INTEGER'', ''INTEGER'', ''INTEGER''])"
  by (rule conjI; code_simp)

subsection \<open>Sorting\<close>

definition preorder_on :: "'a set \<Rightarrow> ('a \<Rightarrow> 'a \<Rightarrow> ordering) \<Rightarrow> bool" where
  "preorder_on A c \<longleftrightarrow>
     (\<forall>x \<in> A. \<forall>y \<in> A. c x y = Greater \<longrightarrow> c y x \<noteq> Greater) \<and>
     (\<forall>x \<in> A. \<forall>y \<in> A. \<forall>z \<in> A. c x y \<noteq> Greater \<longrightarrow> c y z \<noteq> Greater \<longrightarrow> c x z \<noteq> Greater)"

lemma preorder_on_subset: "preorder_on A c \<Longrightarrow> B \<subseteq> A \<Longrightarrow> preorder_on B c"
  unfolding preorder_on_def by (meson subset_iff)

lemma mset_insort_by [simp]: "mset (insort_by c x xs) = add_mset x (mset xs)"
  by (induction xs) auto

lemma set_insort_by [simp]: "set (insort_by c x xs) = insert x (set xs)"
  by (induction xs) auto

lemma sorted_insort_by:
  assumes "preorder_on (insert x (set xs)) c" "sorted_wrt (\<lambda>a b. c a b \<noteq> Greater) xs"
  shows "sorted_wrt (\<lambda>a b. c a b \<noteq> Greater) (insort_by c x xs)"
  using assms
proof (induction xs)
  case (Cons y ys)
  have pre: "preorder_on (insert x (set ys)) c" using Cons.prems(1) by (rule preorder_on_subset) auto
  show ?case
  proof (cases "c x y = Greater")
    case True
    then have "c y x \<noteq> Greater" using Cons.prems(1) by (auto simp: preorder_on_def)
    then show ?thesis using Cons.IH [OF pre] Cons.prems(2) True by simp
  next
    case False
    have "c x z \<noteq> Greater" if "z \<in> set ys" for z
    proof -
      have "c y z \<noteq> Greater" using Cons.prems(2) that by simp
      then show ?thesis using Cons.prems(1) False that unfolding preorder_on_def by (metis insertCI list.set_intros)
    qed
    then show ?thesis using Cons.prems(2) False by simp
  qed
qed simp

definition same_rank :: "('a \<Rightarrow> 'a \<Rightarrow> ordering) \<Rightarrow> 'a \<Rightarrow> 'a \<Rightarrow> bool" where
  "same_rank c a b \<longleftrightarrow> c a b \<noteq> Greater \<and> c b a \<noteq> Greater"

lemma stable_insort_by:
  assumes "preorder_on (insert a (insert x (set xs))) c"
  shows "filter (same_rank c a) (insort_by c x xs) = filter (same_rank c a) (x # xs)"
  using assms
proof (induction xs)
  case (Cons y ys)
  have pre: "preorder_on (insert a (insert x (set ys))) c" using Cons.prems by (rule preorder_on_subset) auto
  have "\<not> (c x y = Greater \<and> same_rank c a x \<and> same_rank c a y)"
    using Cons.prems unfolding preorder_on_def same_rank_def by (metis insertCI list.set_intros(1))
  then show ?case using Cons.IH [OF pre] by auto
qed simp

lemma sort_by_sorts:
  assumes "preorder_on (set xs) c"
  shows "mset (sort_by c xs) = mset xs" "sorted_wrt (\<lambda>a b. c a b \<noteq> Greater) (sort_by c xs)"
    "a \<in> set xs \<Longrightarrow> filter (same_rank c a) (sort_by c xs) = filter (same_rank c a) xs"
proof -
  have perm: "mset (sort_by c ys) = mset ys" for ys
    by (induction ys) (simp_all add: sort_by_def)
  then show "mset (sort_by c xs) = mset xs" .
  have sets: "set (sort_by c ys) = set ys" for ys using perm by (metis set_mset_mset)
  show "sorted_wrt (\<lambda>a b. c a b \<noteq> Greater) (sort_by c xs)"
    using assms
  proof (induction xs)
    case (Cons x xs)
    have "preorder_on (set xs) c" using Cons.prems by (rule preorder_on_subset) auto
    then show ?case
      using sorted_insort_by [of x "sort_by c xs" c] Cons sets [of xs] by (simp add: sort_by_def)
  qed (simp add: sort_by_def)
  have "filter (same_rank c a) (sort_by c ys) = filter (same_rank c a) ys"
    if "preorder_on (insert a (set ys)) c" for ys
    using that
  proof (induction ys)
    case (Cons x xs)
    have "preorder_on (insert a (set xs)) c" using Cons.prems by (rule preorder_on_subset) auto
    then show ?case
      using stable_insort_by [of a x "sort_by c xs" c] Cons sets [of xs] by (simp add: sort_by_def insert_commute)
  qed (simp add: sort_by_def)
  then show "a \<in> set xs \<Longrightarrow> filter (same_rank c a) (sort_by c xs) = filter (same_rank c a) xs"
    using assms by (simp add: insert_absorb)
qed

text \<open>What the values of a sort key mean: integers of any width, texts and booleans. NULL has no place among them.\<close>

datatype sort_value = NoValue | IntValue int | TextValue string | BoolValue bool

fun sort_kind :: "sort_value \<Rightarrow> nat" where
  "sort_kind NoValue = 0"
| "sort_kind (IntValue _) = 1"
| "sort_kind (TextValue _) = 2"
| "sort_kind (BoolValue _) = 3"

instantiation sort_value :: linorder
begin

fun less_eq_sort_value :: "sort_value \<Rightarrow> sort_value \<Rightarrow> bool" where
  "less_eq_sort_value (IntValue m) (IntValue n) = (m \<le> n)"
| "less_eq_sort_value (TextValue s) (TextValue t) = (s \<le> t)"
| "less_eq_sort_value (BoolValue a) (BoolValue b) = (a \<le> b)"
| "less_eq_sort_value x y = (sort_kind x \<le> sort_kind y)"

definition less_sort_value :: "sort_value \<Rightarrow> sort_value \<Rightarrow> bool" where
  "less_sort_value x y \<longleftrightarrow> x \<le> y \<and> \<not> y \<le> x"

instance
proof
  fix x y z :: sort_value
  show "x < y \<longleftrightarrow> x \<le> y \<and> \<not> y \<le> x" by (simp add: less_sort_value_def)
  show "x \<le> x" by (cases x) simp_all
  show "x \<le> y \<Longrightarrow> y \<le> x \<Longrightarrow> x = y" by (cases x; cases y) auto
  show "x \<le> y \<or> y \<le> x" by (cases x; cases y) auto
  show "x \<le> y \<Longrightarrow> y \<le> z \<Longrightarrow> x \<le> z" by (cases x; cases y; cases z) auto
qed

end

definition sort_value :: "datum \<Rightarrow> sort_value" where
  "sort_value d =
     (case datum_int d of Some n \<Rightarrow> IntValue n
      | None \<Rightarrow> (case d of DText s \<Rightarrow> TextValue s | DBoolean b \<Rightarrow> BoolValue b | _ \<Rightarrow> NoValue))"

lemma cmp_of_sort_values [simp]:
  "cmp_of (IntValue m) (IntValue n) = cmp_of m n"
  "cmp_of (TextValue s) (TextValue t) = cmp_of s t"
  "cmp_of (BoolValue a) (BoolValue b) = cmp_of a b"
  by (auto simp: cmp_of_def less_sort_value_def)

lemma compare_sort_values:
  assumes "sort_kind (sort_value x) = sort_kind (sort_value y)" "sort_value x \<noteq> NoValue"
  shows "compare_datums F x y = Some (cmp_of (sort_value x) (sort_value y))"
proof (cases "datum_int x")
  case None
  then show ?thesis using assms by (cases x; cases y) (auto simp: sort_value_def compare_datums_def)
next
  case (Some m)
  then obtain n where n: "datum_int y = Some n" using assms(1) by (cases y) (auto simp: sort_value_def)
  then have "compare_datums F x y = Some (cmp_of m n)"
    using Some compare_numeric_int [OF Some n, of F] by (cases x; cases y) (auto simp: compare_datums_def cmp_uint)
  then show ?thesis using Some n by (simp add: sort_value_def)
qed

text \<open>The order of SQL: by the first key that differs, backwards when the key is descending.\<close>

fun precedes :: "(nat \<times> bool) list \<Rightarrow> datum list \<Rightarrow> datum list \<Rightarrow> bool" where
  "precedes [] a b = False"
| "precedes ((i, desc) # keys) a b =
     ((if desc then sort_value (b ! i) < sort_value (a ! i) else sort_value (a ! i) < sort_value (b ! i)) \<or>
      sort_value (a ! i) = sort_value (b ! i) \<and> precedes keys a b)"

definition same_keys :: "(nat \<times> bool) list \<Rightarrow> datum list \<Rightarrow> datum list \<Rightarrow> bool" where
  "same_keys keys a b \<longleftrightarrow> (\<forall>(i, desc) \<in> set keys. sort_value (a ! i) = sort_value (b ! i))"

lemma precedes_asym: "precedes keys a b \<Longrightarrow> \<not> precedes keys b a"
  by (induction keys a b rule: precedes.induct) (auto split: if_splits)

lemma precedes_neg_trans: "\<not> precedes keys b a \<Longrightarrow> \<not> precedes keys c b \<Longrightarrow> \<not> precedes keys c a"
  by (induction keys a b rule: precedes.induct) (auto split: if_splits)

lemma precedes_total: "same_keys keys a b \<longleftrightarrow> \<not> precedes keys a b \<and> \<not> precedes keys b a"
  by (induction keys a b rule: precedes.induct) (auto simp: same_keys_def)

text \<open>The columns of the rows under a plan, and the one an item of ORDER BY names.\<close>

fun input_columns :: "logical_plan \<Rightarrow> string list" where
  "input_columns (TableScan table columns _ _ _) = map cm_name columns"
| "input_columns (Join left right _ _) = input_columns left @ input_columns right"
| "input_columns (Filter input _) = input_columns input"
| "input_columns (Projection input _ _) = input_columns input"
| "input_columns (Sort input _) = input_columns input"
| "input_columns (Limit input _ _) = input_columns input"
| "input_columns (Flat _) = []"

definition sorts_on :: "string list \<Rightarrow> order_by_expr \<Rightarrow> nat \<times> bool \<Rightarrow> bool" where
  "sorts_on columns ob key \<longleftrightarrow>
     (\<exists>n. ob_expr ob = Column n \<and> fst key < length columns \<and>
       (\<forall>j < length columns. eq_ignore_ascii_case (columns ! j) n \<longleftrightarrow> j = fst key)) \<and>
     (ob_direction ob = Desc \<longleftrightarrow> snd key)"

definition sortable :: "(nat \<times> bool) list \<Rightarrow> datum list list \<Rightarrow> bool" where
  "sortable keys rows \<longleftrightarrow> (\<forall>(i, desc) \<in> set keys. \<forall>a \<in> set rows. i < length a \<and> sort_value (a ! i) \<noteq> NoValue \<and>
     (\<forall>b \<in> set rows. sort_kind (sort_value (a ! i)) = sort_kind (sort_value (b ! i))))"

fun laid_out :: "nat \<Rightarrow> table_map \<Rightarrow> bool" where
  "laid_out w [] = True"
| "laid_out w ((n, off, cols) # tm) = (off = w \<and> laid_out (w + length cols) tm)"

definition column_names :: "table_map \<Rightarrow> string list" where
  "column_names tm = concat (map (\<lambda>(_, _, cols). map cm_name cols) tm)"

lemma laid_out_append: "laid_out w (a @ b) \<longleftrightarrow> laid_out w a \<and> laid_out (w + info_width a) b"
  by (induction a arbitrary: w) (auto simp: info_width_def ac_simps)

lemma laid_out_shift: "laid_out w tm \<Longrightarrow> laid_out (w + v) (shift_by v tm)"
proof (induction tm arbitrary: w)
  case (Cons x tm)
  obtain n off cols where x: "x = (n, off, cols)" by (cases x)
  show ?case using Cons.IH [of "w + length cols"] Cons.prems by (simp add: x shift_by_def add.assoc add.commute [of v])
qed (simp add: shift_by_def)

lemma column_names_shift [simp]: "column_names (shift_by w tm) = column_names tm"
  by (simp add: column_names_def shift_by_def case_prod_unfold comp_def)

lemma plan_laid_out:
  "laid_out 0 (collect_expr_table_info q) \<and> column_names (collect_expr_table_info q) = input_columns q"
proof (induction q)
  case (Join left right jt algorithm)
  then show ?case
    using laid_out_shift [of 0 "collect_expr_table_info right" "info_width (collect_expr_table_info left)"]
    by (auto simp: Let_def laid_out_append column_names_def [of "_ @ _"] column_names_def [symmetric])
qed (auto simp: column_names_def)

lemma lookup_loop_none:
  "\<forall>c \<in> set (column_names tm). \<not> eq_ignore_ascii_case c n \<Longrightarrow> lookup_loop n found tm = Inr found"
proof (induction tm)
  case (Cons x tm)
  obtain t off cols where x: "x = (t, off, cols)" by (cases x)
  have "column_position cols n = None" using Cons.prems by (auto simp: x column_names_def column_position_def position_None_iff)
  then show ?case using Cons by (simp add: x column_names_def)
qed simp

lemma lookup_loop_unique:
  assumes "laid_out w tm" "i < length (column_names tm)"
    and "\<And>j. j < length (column_names tm) \<Longrightarrow> eq_ignore_ascii_case (column_names tm ! j) n \<longleftrightarrow> j = i"
  shows "lookup_loop n None tm = Inr (Some (w + i))"
  using assms
proof (induction tm arbitrary: w i)
  case (Cons x tm)
  obtain t off cols where x: "x = (t, off, cols)" by (cases x)
  have names: "column_names ((t, off, cols) # tm) = map cm_name cols @ column_names tm" by (simp add: column_names_def)
  note prems = Cons.prems [unfolded x names]
  show ?case
  proof (cases "i < length cols")
    case True
    have "\<not> eq_ignore_ascii_case (column_names tm ! j) n" if "j < length (column_names tm)" for j
      using prems(3) [of "length cols + j"] that True by (simp add: nth_append)
    then have rest: "lookup_loop n found tm = Inr found" for found
      by (intro lookup_loop_none) (metis in_set_conv_nth)
    have "eq_ignore_ascii_case (cm_name (cols ! j)) n \<longleftrightarrow> j = i" if "j < length cols" for j
      using prems(3) [of j] that by (simp add: nth_append)
    then have "column_position cols n = Some i" using True by (auto simp: column_position_def position_Some_iff)
    then show ?thesis using prems(1) rest by (simp add: x)
  next
    case False
    have "\<not> eq_ignore_ascii_case (cm_name (cols ! j)) n" if "j < length cols" for j
      using prems(3) [of j] that False by (simp add: nth_append)
    then have none: "column_position cols n = None"
      by (auto simp: column_position_def position_None_iff in_set_conv_nth)
    have "lookup_loop n None tm = Inr (Some (w + length cols + (i - length cols)))"
    proof (rule Cons.IH)
      show "laid_out (w + length cols) tm" "i - length cols < length (column_names tm)"
        using prems(1,2) False by auto
      show "eq_ignore_ascii_case (column_names tm ! j) n \<longleftrightarrow> j = i - length cols" if "j < length (column_names tm)" for j
        using prems(3) [of "length cols + j"] that False by (auto simp: nth_append)
    qed
    then show ?thesis using none False by (simp add: x)
  qed
qed (simp add: column_names_def)

lemma order_cmp_values:
  assumes "sorts_on (input_columns q) ob (i, desc)" "i < length a" "i < length b"
    and "sort_kind (sort_value (a ! i)) = sort_kind (sort_value (b ! i))" "sort_value (a ! i) \<noteq> NoValue"
  shows "order_cmp XE (collect_expr_table_info q) ob a b =
    (if desc then cmp_of (sort_value (b ! i)) (sort_value (a ! i)) else cmp_of (sort_value (a ! i)) (sort_value (b ! i)))"
proof -
  obtain n where n: "ob_expr ob = Column n" "i < length (input_columns q)"
      "\<And>j. j < length (input_columns q) \<Longrightarrow> eq_ignore_ascii_case (input_columns q ! j) n \<longleftrightarrow> j = i"
    using assms(1) by (auto simp: sorts_on_def)
  have "lookup_unqualified (collect_expr_table_info q) n = Inr i"
    using lookup_loop_unique [of 0 "collect_expr_table_info q" i n] plan_laid_out [of q] n
    by (simp add: lookup_unqualified_def)
  then have "evaluate_join E d r (collect_expr_table_info q) (ob_expr ob) = Inr (r ! i)" if "i < length r" for E d r
    using n(1) that by (simp add: row_value_def nth_opt_def)
  moreover have "ob_direction ob = (if desc then Desc else Asc)"
    using assms(1) by (cases "ob_direction ob") (auto simp: sorts_on_def)
  ultimately show ?thesis
    using assms(2,3) compare_sort_values [OF assms(4,5)]
    by (auto simp: order_cmp_def cmp_or_equal_def Let_def cmp_of_def)
qed

lemma sortable_Cons:
  "sortable (key # keys) rows \<longleftrightarrow> sortable [key] rows \<and> sortable keys rows"
  by (auto simp: sortable_def)

lemma sortable_values:
  assumes "sortable [(i, desc)] rows" "a \<in> set rows" "b \<in> set rows"
  shows "i < length a" "i < length b" "sort_kind (sort_value (a ! i)) = sort_kind (sort_value (b ! i))"
    "sort_value (a ! i) \<noteq> NoValue"
proof -
  have "\<forall>a \<in> set rows. i < length a \<and> sort_value (a ! i) \<noteq> NoValue \<and>
      (\<forall>b \<in> set rows. sort_kind (sort_value (a ! i)) = sort_kind (sort_value (b ! i)))"
    using assms(1) unfolding sortable_def by (simp only: list.set ball_simps prod.case simp_thms)
  then show "i < length a" "i < length b" "sort_kind (sort_value (a ! i)) = sort_kind (sort_value (b ! i))"
      "sort_value (a ! i) \<noteq> NoValue"
    using assms(2,3) by blast+
qed

lemma rows_cmp_precedes:
  assumes "list_all2 (sorts_on (input_columns q)) order_by keys" "sortable keys rows" "a \<in> set rows" "b \<in> set rows"
  shows "rows_cmp XE (collect_expr_table_info q) order_by a b =
    (if precedes keys a b then Less else if precedes keys b a then Greater else Equal)"
  using assms(1,2)
proof (induction order_by keys rule: list_all2_induct)
  case (Cons ob obs key keys)
  obtain i desc where k: "key = (i, desc)" by (cases key)
  have sort: "sortable [(i, desc)] rows" "sortable keys rows"
    using Cons.prems sortable_Cons [of key keys rows] by (simp_all add: k)
  note vals = sortable_values [OF sort(1) assms(3,4)]
  have c: "order_cmp XE (collect_expr_table_info q) ob a b =
      (if desc then cmp_of (sort_value (b ! i)) (sort_value (a ! i)) else cmp_of (sort_value (a ! i)) (sort_value (b ! i)))"
    using Cons.hyps(1) by (intro order_cmp_values vals) (simp add: k)
  show ?case using Cons.IH [OF sort(2)] by (auto simp: k c cmp_of_def)
qed simp

text \<open>C38: ORDER BY sorts. Let every item of ORDER BY name, without regard to case, exactly one of the columns
  of the tables under the sort (which stands below the projection in the plan of a SELECT), and let the values in that
  column be integers, texts or booleans, of one kind and none of them NULL. Then the result is a permutation of
  the rows, no row is preceded by a later one in the order of the first key that differs, ascending or descending
  as its item says, and rows with the same keys keep their order. Keys with a NULL, where the comparison of the code
  is no order, and keys of other types are not covered.\<close>
theorem order_by_sorts:
  assumes "execute_tree XE cx q = Inr (rows, names, types)"
    and "list_all2 (sorts_on (input_columns q)) order_by keys" "sortable keys rows"
  shows "\<exists>out. execute_tree XE cx (Sort q order_by) = Inr (out, names, types) \<and> mset out = mset rows \<and>
    sorted_wrt (\<lambda>a b. \<not> precedes keys b a) out \<and>
    (\<forall>a \<in> set rows. filter (same_keys keys a) out = filter (same_keys keys a) rows)"
proof -
  let ?c = "rows_cmp XE (collect_expr_table_info q) order_by"
  let ?out = "sort_by ?c rows"
  note cmp = rows_cmp_precedes [OF assms(2,3), of _ _ XE]
  have greater: "?c a b = Greater \<longleftrightarrow> precedes keys b a" if "a \<in> set rows" "b \<in> set rows" for a b
    using cmp [OF that] precedes_asym by auto
  have pre: "preorder_on (set rows) ?c"
    unfolding preorder_on_def
  proof (intro conjI ballI impI)
    show "?c y x \<noteq> Greater" if "x \<in> set rows" "y \<in> set rows" "?c x y = Greater" for x y
      using that precedes_asym by (simp add: greater)
    show "?c x z \<noteq> Greater" if "x \<in> set rows" "y \<in> set rows" "z \<in> set rows" "?c x y \<noteq> Greater" "?c y z \<noteq> Greater" for x y z
      using that precedes_neg_trans [of keys y x z] by (simp add: greater)
  qed
  note sorts = sort_by_sorts [OF pre]
  have set: "set ?out = set rows" using sorts(1) by (metis set_mset_mset)
  have "sorted_wrt (\<lambda>a b. \<not> precedes keys b a) ?out"
    by (rule sorted_wrt_mono_rel [OF _ sorts(2)]) (simp add: set greater)
  moreover have "filter (same_keys keys a) ?out = filter (same_keys keys a) rows" if a: "a \<in> set rows" for a
  proof -
    have "same_rank ?c a b \<longleftrightarrow> same_keys keys a b" if "b \<in> set rows" for b
      using greater [OF a that] greater [OF that a] precedes_total by (auto simp: same_rank_def)
    then have "filter (same_rank ?c a) ys = filter (same_keys keys a) ys" if "set ys = set rows" for ys
      using that by (intro filter_cong) auto
    then show ?thesis using sorts(3) [OF a] set by simp
  qed
  ultimately show ?thesis using assms(1) sorts(1) by simp
qed

theorem order_by_sorts_witness:
  "execute_tree sample_env sample_ctx
      (Sort (sample_scan ''a'' ''x'') [\<lparr>ob_expr = Column ''X'', ob_direction = Desc\<rparr>]) =
    Inr ([[DInteger 2], [DInteger 1]], [''x''], [''INTEGER'']) \<and>
   (\<exists>out. execute_tree sample_env sample_ctx
      (Sort (sample_scan ''a'' ''x'') [\<lparr>ob_expr = Column ''X'', ob_direction = Desc\<rparr>]) = Inr (out, [''x''], [''INTEGER'']) \<and>
    mset out = {#[DInteger 1], [DInteger 2]#} \<and> sorted_wrt (\<lambda>a b. \<not> precedes [(0, True)] b a) out)"
proof
  show "execute_tree sample_env sample_ctx
      (Sort (sample_scan ''a'' ''x'') [\<lparr>ob_expr = Column ''X'', ob_direction = Desc\<rparr>]) =
    Inr ([[DInteger 2], [DInteger 1]], [''x''], [''INTEGER''])" by code_simp
  have a: "execute_tree sample_env sample_ctx (sample_scan ''a'' ''x'') = Inr ([[DInteger 1], [DInteger 2]], [''x''], [''INTEGER''])"
    by code_simp
  have "eq_ignore_ascii_case ''x'' ''X''" by code_simp
  then have o: "list_all2 (sorts_on (input_columns (sample_scan ''a'' ''x'')))
      [\<lparr>ob_expr = Column ''X'', ob_direction = Desc\<rparr>] [(0, True)]"
    by (simp add: sorts_on_def sample_scan_def column_new_def)
  have s: "sortable [(0, True)] [[DInteger 1], [DInteger 2]]" by (simp add: sortable_def sort_value_def)
  show "\<exists>out. execute_tree sample_env sample_ctx
      (Sort (sample_scan ''a'' ''x'') [\<lparr>ob_expr = Column ''X'', ob_direction = Desc\<rparr>]) = Inr (out, [''x''], [''INTEGER'']) \<and>
    mset out = {#[DInteger 1], [DInteger 2]#} \<and> sorted_wrt (\<lambda>a b. \<not> precedes [(0, True)] b a) out"
    using order_by_sorts [OF a o s] by (auto simp: add_mset_commute)
qed

end
