(* ===== verification/Session_Props.thy ===== *)
theory Session_Props
  imports Session Sql_Props Index_Scans
begin

text \<open>
  Connections: what a client can do before and after the login, and the statements it prepares.
\<close>

subsection \<open>Prepared statements\<close>

lemma replace_str_Nil [simp]: "replace_str p r [] = []"
  by (subst replace_str.simps) simp

lemma replace_str_Cons:
  "replace_str p r (c # t) =
     (if p \<noteq> [] \<and> starts_with p (c # t) then r @ replace_str p r (drop (length p) (c # t)) else c # replace_str p r t)"
  by (subst replace_str.simps) simp

lemma replace_str_skip: "x \<notin> set u \<Longrightarrow> replace_str (x # p) r (u @ s) = u @ replace_str (x # p) r s"
  by (induction u) (auto simp: replace_str_Cons)

text \<open>the identifier of a prepared statement is a 64-bit hash of its text, and two texts with the same hash
  share it: preparing the second replaces the first, and executing the first runs the second.\<close>
theorem prepared_collision:
  assumes "simple_hash a = simple_hash b" "om_ok (cn_prepared cn)"
    and "process_message SE (MsgPrepare a t1) name user1 db cn = Some (cn1, SrvPrepared ida)"
    and "process_message SE (MsgPrepare b t2) name user2 db cn1 = Some (cn2, SrvPrepared idb)"
  shows "process_message SE (MsgExecute ida params t3) name user1 db cn2 =
    process_message SE (MsgQuery (substitute_params b params) t3) name user1 db cn2"
proof -
  have "om_ok (om_put (cn_prepared cn) (simple_hash a) a)" by (rule om.ok_put [OF assms(2)])
  then have "om_get (cn_prepared cn2) ida = Some b"
    using assms by (auto simp: process_message_def om.get_put)
  then show ?thesis by (simp add: process_message_def)
qed

theorem prepared_collision_witness:
  "\<forall>SE name user1 user2 db params cn. cn_prepared cn = om_empty \<longrightarrow>
    (\<exists>cn1 cn2 i. process_message SE (MsgPrepare ''SELECT * FROM ab'' 1) name user1 db cn = Some (cn1, SrvPrepared i) \<and>
      process_message SE (MsgPrepare ''SELECT * FROM bA'' 2) name user2 db cn1 = Some (cn2, SrvPrepared i) \<and>
      process_message SE (MsgExecute i params 1) name user1 db cn2 =
        process_message SE (MsgQuery (substitute_params ''SELECT * FROM bA'' params) 1) name user1 db cn2)"
proof (intro allI impI)
  fix SE name user1 user2 db params and cn :: connection
  assume e: "cn_prepared cn = om_empty"
  have h: "simple_hash ''SELECT * FROM ab'' = simple_hash ''SELECT * FROM bA''" by code_simp
  define i where "i = simple_hash ''SELECT * FROM ab''"
  define cn1 where "cn1 = cn\<lparr>cn_prepared := om_put (cn_prepared cn) i ''SELECT * FROM ab''\<rparr>"
  define cn2 where "cn2 = cn1\<lparr>cn_prepared := om_put (cn_prepared cn1) i ''SELECT * FROM bA''\<rparr>"
  have p1: "process_message SE (MsgPrepare ''SELECT * FROM ab'' 1) name user1 db cn = Some (cn1, SrvPrepared i)"
    by (simp add: process_message_def i_def cn1_def)
  have p2: "process_message SE (MsgPrepare ''SELECT * FROM bA'' 2) name user2 db cn1 = Some (cn2, SrvPrepared i)"
    unfolding process_message_def cn2_def i_def h by simp
  have ok: "om_ok (cn_prepared cn)" using e om.ok_empty by simp
  show "\<exists>cn1 cn2 i. process_message SE (MsgPrepare ''SELECT * FROM ab'' 1) name user1 db cn = Some (cn1, SrvPrepared i) \<and>
      process_message SE (MsgPrepare ''SELECT * FROM bA'' 2) name user2 db cn1 = Some (cn2, SrvPrepared i) \<and>
      process_message SE (MsgExecute i params 1) name user1 db cn2 =
        process_message SE (MsgQuery (substitute_params ''SELECT * FROM bA'' params) 1) name user1 db cn2"
    using p1 p2 prepared_collision [OF h ok p1 p2] by blast
qed

subsection \<open>Parameters of prepared statements\<close>

text \<open>What substitution means: one pass over the text, in which \<open>$d\<close> stands for the \<open>d\<close>-th value.\<close>

definition value_at :: "string list \<Rightarrow> char \<Rightarrow> string option" where
  "value_at vals d =
     (if is_digit d \<and> 1 \<le> digit_value d \<and> digit_value d \<le> length vals then Some (vals ! (digit_value d - 1)) else None)"

fun substitute_spec :: "string list \<Rightarrow> string \<Rightarrow> string" where
  "substitute_spec vals [] = []"
| "substitute_spec vals [c] = [c]"
| "substitute_spec vals (c # d # s) =
     (if c = CHR ''$'' then
        (case value_at vals d of
           Some v \<Rightarrow> v @ substitute_spec vals s
         | None \<Rightarrow> c # substitute_spec vals (d # s))
      else c # substitute_spec vals (d # s))"

definition digit_char :: "nat \<Rightarrow> char" where
  "digit_char k = char_of (49 + k)"

lemma show_digit: "k < 9 \<Longrightarrow> show_nat (k + 1) = [digit_char k]"
  by (subst show_nat.simps) (simp add: digit_char_def)

lemma of_char_digit: "k < 9 \<Longrightarrow> (of_char (digit_char k) :: nat) = 49 + k"
  by (simp add: digit_char_def)

lemma value_at_digit: "k < 9 \<Longrightarrow> length vals = Suc k \<Longrightarrow> value_at vals (digit_char k) = Some (vals ! k)"
  by (simp add: value_at_def is_digit_def digit_value_def of_char_digit)

lemma value_at_append:
  assumes "d \<noteq> digit_char (length vals)"
  shows "value_at (vals @ [v]) d = value_at vals d"
proof -
  have "(of_char d :: nat) \<noteq> 49 + length vals"
  proof
    assume "(of_char d :: nat) = 49 + length vals"
    then have "d = digit_char (length vals)" unfolding digit_char_def by (metis char_of_char)
    then show False using assms by simp
  qed
  then show ?thesis by (auto simp: value_at_def is_digit_def digit_value_def nth_append Let_def)
qed

lemma value_at_own: "k < 9 \<Longrightarrow> length vals = k \<Longrightarrow> value_at vals (digit_char k) = None"
  by (simp add: value_at_def is_digit_def digit_value_def of_char_digit)

lemma digit_not_dollar: "k < 9 \<Longrightarrow> digit_char k \<noteq> CHR ''$''"
proof
  assume "k < 9" "digit_char k = CHR ''$''"
  then have "(of_char (CHR ''$'') :: nat) = 49 + k" using of_char_digit by metis
  then show False by simp
qed

lemma substitute_spec_plain: "c \<noteq> CHR ''$'' \<Longrightarrow> substitute_spec vals (c # s) = c # substitute_spec vals s"
  by (cases s) auto

lemma replace_spec:
  assumes "\<not> contains_str ''$$'' s" "\<forall>v \<in> set vals. CHR ''$'' \<notin> set v" "length vals < 9"
  shows "replace_str (CHR ''$'' # [digit_char (length vals)]) v (substitute_spec vals s) = substitute_spec (vals @ [v]) s"
  using assms
proof (induction vals s rule: substitute_spec.induct)
  case (3 vals c d s)
  let ?k = "digit_char (length vals)"
  have nd: "\<not> contains_str ''$$'' (d # s)" and ns: "\<not> contains_str ''$$'' s"
    using "3.prems"(1) by (auto simp: contains_str_def split: if_splits)
  show ?case
  proof (cases "c = CHR ''$''")
    case dollar: True
    then have d: "d \<noteq> CHR ''$''" using "3.prems"(1) by (auto simp: contains_str_def split: if_splits)
    show ?thesis
    proof (cases "value_at vals d")
      case (Some w)
      then have "w \<in> set vals" by (auto simp: value_at_def split: if_splits)
      then have "CHR ''$'' \<notin> set w" using "3.prems"(2) by blast
      moreover have "d \<noteq> digit_char (length vals)" using Some value_at_own [OF "3.prems"(3) refl] by auto
      ultimately show ?thesis
        using dollar Some "3.IH"(2) [OF dollar Some ns "3.prems"(2,3)] by (simp add: replace_str_skip value_at_append)
    next
      case None
      note ih = "3.IH"(1) [OF dollar None nd "3.prems"(2,3)]
      show ?thesis
      proof (cases "d = digit_char (length vals)")
        case True
        have "value_at (vals @ [v]) d = Some v"
          using value_at_digit [OF "3.prems"(3), of "vals @ [v]"] True by (simp add: nth_append)
        then show ?thesis
          using dollar None True ih d substitute_spec_plain [OF d, of vals s] substitute_spec_plain [OF d, of "vals @ [v]" s]
          by (simp add: replace_str_Cons)
      next
        case False
        then show ?thesis
          using dollar None ih d substitute_spec_plain [OF d, of vals s]
          by (simp add: replace_str_Cons value_at_append)
      qed
    qed
  next
    case False
    then show ?thesis using "3.IH"(3) [OF False nd "3.prems"(2,3)] by (simp add: replace_str_Cons)
  qed
qed (auto simp: replace_str_Cons)

lemma replace_quote_no_dollar: "CHR ''$'' \<notin> set s \<Longrightarrow> CHR ''$'' \<notin> set (replace_str [CHR 0x27] [CHR 0x27, CHR 0x27] s)"
  by (induction s) (auto simp: replace_str_Cons)

lemma param_value_no_dollar: "CHR ''$'' \<notin> set param \<Longrightarrow> CHR ''$'' \<notin> set (param_value param)"
  by (simp add: param_value_def quoted_def replace_quote_no_dollar)

text \<open>C27: substituting parameters. With at most nine parameters, none containing a dollar sign, in a text
  without two adjacent dollar signs, replacing the placeholders one after the other is the same as
  one pass over the text that puts each value where its placeholder stands. With ten parameters
  \<open>$10\<close> becomes the first value followed by 0; a value that holds \<open>$2\<close> receives the second; and a
  value without spaces, quotes, commas and semicolons is inserted as SQL.\<close>
theorem substitute_params_parallel:
  "(\<not> contains_str ''$$'' sql \<and> length params \<le> 9 \<and> (\<forall>p \<in> set params. CHR ''$'' \<notin> set p) \<longrightarrow>
      substitute_params sql params = substitute_spec (map param_value params) sql) \<and>
   substitute_params ''id = $10'' [''1'', ''2'', ''3'', ''4'', ''5'', ''6'', ''7'', ''8'', ''9'', ''99''] = ''id = 10'' \<and>
   substitute_params ''a = $1 AND b = $2'' [''$2'', ''7''] = ''a = 7 AND b = 7'' \<and>
   substitute_params ''SELECT * FROM t WHERE id = $1'' [''1/**/OR/**/1=1''] = ''SELECT * FROM t WHERE id = 1/**/OR/**/1=1''"
proof (intro conjI impI)
  have "substitute_params sql params = substitute_spec (map param_value params) sql"
    if "\<not> contains_str ''$$'' sql" "length params \<le> 9" "\<forall>p \<in> set params. CHR ''$'' \<notin> set p"
    using that(2,3)
  proof (induction params rule: rev_induct)
    case Nil
    have "substitute_spec [] s = s" for s
      by (induction "[] :: string list" s rule: substitute_spec.induct) (auto simp: value_at_def)
    then show ?case by (simp add: substitute_params_def)
  next
    case (snoc p ps)
    have "substitute_params sql (ps @ [p]) =
        replace_str (CHR ''$'' # show_nat (length ps + 1)) (param_value p) (substitute_params sql ps)"
      by (simp add: substitute_params_def enumerate_append_eq)
    also have "\<dots> = substitute_spec (map param_value ps @ [param_value p]) sql"
      using replace_spec [OF that(1), of "map param_value ps" "param_value p"] snoc show_digit [of "length ps"]
        param_value_no_dollar by simp
    finally show ?case by simp
  qed
  then show "\<not> contains_str ''$$'' sql \<and> length params \<le> 9 \<and> (\<forall>p \<in> set params. CHR ''$'' \<notin> set p) \<Longrightarrow>
      substitute_params sql params = substitute_spec (map param_value params) sql" by blast
qed (code_simp+)

theorem substitute_params_parallel_witness:
  "substitute_params ''a = $1 AND b = $2'' [''it is'', ''7''] = ''a = '' @ quoted ''it is'' @ '' AND b = 7''"
proof -
  have h: "\<not> contains_str ''$$'' ''a = $1 AND b = $2'' \<and> length [''it is'', ''7''] \<le> 9 \<and>
      (\<forall>p \<in> set [''it is'', ''7'']. CHR ''$'' \<notin> set p)"
    by (rule conjI, code_simp) simp
  have "substitute_spec (map param_value [''it is'', ''7'']) ''a = $1 AND b = $2'' =
      ''a = '' @ quoted ''it is'' @ '' AND b = 7''" by code_simp
  then show ?thesis using mp [OF conjunct1 [OF substitute_params_parallel] h] by simp
qed

subsection \<open>Login\<close>

text \<open>C25: nothing happens before the login. A stream that changes the databases, the sessions, the prepared
  statements or the audit log began with an Auth message for a known database whose user exists under
  that password, or whose certificate names a user of the database.\<close>
theorem login_required:
  assumes "handle_stream SE default_database cert st cn = Some (st', cn', r)" "cn' \<noteq> cn"
  shows "\<exists>username password name0 rest db.
    read_client_message SE (st_in st) = Inr (MsgAuth username password name0, rest) \<and>
    database_of cn (if name0 = [] then default_database else name0) = Some db \<and>
    (verify_user (se_argon SE) db username password \<or>
     (\<exists>der user. cert = Some der \<and> extract_cn_from_der SE der = Some user \<and> user_exists (db_users db) user))"
  using assms
  by (auto simp: handle_stream_def authenticate_def Let_def
      split: sum.splits prod.splits client_message.splits option.splits if_splits bool.splits)

definition sample_world :: "wal_record list \<Rightarrow> exec_plan" where
  "sample_world rs =
     \<lparr>xp_exec = sample_env, xp_codec = list_codec rs, xp_commit = sample_plan,
      xp_ddl = \<lparr>dp_now = 0, dp_engine = None, dp_save = None, dp_wal = None, dp_undo_engine = None,
                dp_undo_save = None, dp_undo_restore = None\<rparr>,
      xp_migration = \<lparr>mf_create = None, mf_restore = None, mf_undo = None, mf_save = None, mf_old = None\<rparr>,
      xp_wal = None, xp_argon = sample_argon, xp_salt = [], xp_front = refusing_front, xp_render = (\<lambda>_ _. [])\<rparr>"

definition sample_session_env :: "wal_record list \<Rightarrow> (byte list \<Rightarrow> string + client_message) \<Rightarrow> session_env" where
  "sample_session_env rs decode =
     \<lparr>se_front = refusing_front, se_worlds = (\<lambda>_. sample_world rs), se_fuel = 0, se_argon = sample_argon,
      se_json = \<lparr>jt_print = (\<lambda>_. []), jt_parse = (\<lambda>_. Inl [])\<rparr>, se_query = (\<lambda>_. Inl []),
      se_attributes = (\<lambda>_. None), se_decode = decode, se_encode = (\<lambda>_. Inr []), se_io_error = []\<rparr>"

definition with_user :: "string \<Rightarrow> database" where
  "with_user name = sample_database\<lparr>db_users := [\<lparr>us_username = name, us_password_hash = ''$pw''\<rparr>]\<rparr>"

definition sample_connection :: connection where
  "sample_connection =
     \<lparr>cn_databases = [(''default'', with_user ''ann''), (''b'', with_user ''eve'')], cn_sessions = session_manager_new,
      cn_prepared = om_empty, cn_audit = [], cn_clock = 0\<rparr>"

definition sample_stream :: stream where
  "sample_stream = \<lparr>st_in = [0, 0, 0, 0], st_out = [], st_writes = []\<rparr>"

lemma be_zero: "be_bytes 4 0 = [0, 0, 0, 0]"
  by code_simp

lemma sample_send:
  assumes "st_writes st = []"
  shows "send_auth_response (sample_session_env rs decode) b t e st = (st\<lparr>st_out := st_out st @ [0, 0, 0, 0]\<rparr>, Inr ())"
  using assms
  by (simp add: send_auth_response_def send_server_message_def write_frame_def write_all_def sample_session_env_def be_zero
      del: be_bytes.simps)

lemma sample_serve_end: "st_in st = [] \<Longrightarrow> serve SE token user name st cn = Some (st, cn, Inr ())"
  by (subst serve.simps) (simp add: read_client_message_def read_frame_def read_exact_def)

theorem login_required_witness:
  "\<exists>st' cn' r. handle_stream (sample_session_env [] (\<lambda>_. Inr (MsgAuth ''ann'' ''pw'' []))) ''default'' None
      sample_stream sample_connection = Some (st', cn', r) \<and> cn' \<noteq> sample_connection \<and>
    (\<exists>db. database_of sample_connection ''default'' = Some db \<and> verify_user sample_argon db ''ann'' ''pw'')"
proof -
  let ?SE = "sample_session_env [] (\<lambda>_. Inr (MsgAuth ''ann'' ''pw'' []))"
  define cn' where "cn' = sample_connection\<lparr>cn_sessions := snd (create_session ''ann'' (cn_sessions sample_connection))\<rparr>"
  have db: "database_of sample_connection ''default'' = Some (with_user ''ann'')"
    by (simp add: database_of_def sample_connection_def)
  have v: "verify_user sample_argon (with_user ''ann'') ''ann'' ''pw''"
    unfolding verify_user_def verify_login_def with_user_def by (simp add: get_user_def, code_simp)
  have argon: "se_argon ?SE = sample_argon" by (simp add: sample_session_env_def)
  have auth: "authenticate ?SE None (with_user ''ann'') ''ann'' ''pw'' = (''ann'', True)"
    using v argon by (simp add: authenticate_def)
  have rd: "read_client_message ?SE (st_in sample_stream) = Inr (MsgAuth ''ann'' ''pw'' [], [])"
    by (simp add: read_client_message_def read_frame_def read_exact_def sample_session_env_def sample_stream_def)
  have w: "st_writes (sample_stream\<lparr>st_in := []\<rparr>) = []" by (simp add: sample_stream_def)
  have "\<exists>st'. handle_stream ?SE ''default'' None sample_stream sample_connection = Some (st', cn', Inr ())"
    unfolding handle_stream_def rd using db auth sample_send [OF w] sample_serve_end
    by (auto simp: cn'_def Let_def split: prod.splits)
  then obtain st' where h: "handle_stream ?SE ''default'' None sample_stream sample_connection = Some (st', cn', Inr ())"
    by blast
  have c: "cn' \<noteq> sample_connection"
    by (simp add: cn'_def create_session_def session_manager_new_def sample_connection_def)
  show ?thesis
    using h c login_required [OF h c] rd db v argon by (auto simp: extract_cn_from_der_def)
qed

text \<open>a client certificate never logs a user in. The code looks for CN in the printed type of the
  attributes, which are object identifiers printed as digits and dots, so that a client with a
  certificate is authenticated by its password alone.\<close>
theorem certificate_ignored:
  assumes "\<forall>der attrs. se_attributes SE der = Some attrs \<longrightarrow>
      (\<forall>(ty, v) \<in> set attrs. \<forall>c \<in> set ty. is_digit c \<or> c = CHR ''.'')"
  shows "authenticate SE cert db username password = (username, verify_user (se_argon SE) db username password)"
proof -
  have no_c: "\<not> contains_str ''CN'' ty" if "\<forall>c \<in> set ty. is_digit c \<or> c = CHR ''.''" for ty
    using that
  proof (induction ty)
    case (Cons c ty)
    have "\<not> is_digit (CHR ''C'')" by code_simp
    then show ?case using Cons by (auto simp: contains_str_def)
  qed (simp add: contains_str_def)
  have "first_common_name attrs = None"
    if "\<forall>(ty, v) \<in> set attrs. \<forall>c \<in> set ty. is_digit c \<or> c = CHR ''.''" for attrs
    using that by (induction attrs rule: first_common_name.induct) (auto simp: no_c split: option.splits)
  then have "extract_cn_from_der SE der = None" for der
    using assms by (cases "se_attributes SE der") (auto simp: extract_cn_from_der_def)
  then show ?thesis by (cases cert) (simp_all add: authenticate_def)
qed

theorem certificate_ignored_witness:
  "authenticate (sample_session_env [] (\<lambda>_. Inl [])\<lparr>se_attributes := \<lambda>_. Some [(''2.5.4.3'', Some ''ann'')]\<rparr>)
     (Some [1]) (with_user ''ann'') ''ann'' ''guess'' = (''ann'', False)"
proof -
  let ?SE = "sample_session_env [] (\<lambda>_. Inl [])\<lparr>se_attributes := \<lambda>_. Some [(''2.5.4.3'', Some ''ann'')]\<rparr>"
  have digits: "\<forall>c \<in> set ''2.5.4.3''. is_digit c \<or> c = CHR ''.''" by code_simp
  have "\<not> verify_user sample_argon (with_user ''ann'') ''ann'' ''guess''"
    unfolding verify_user_def verify_login_def with_user_def by (simp add: get_user_def, code_simp)
  then show ?thesis
    using certificate_ignored [of ?SE "Some [1]" "with_user ''ann''" "''ann''" "''guess''"] digits
    by (simp add: sample_session_env_def)
qed

subsection \<open>Rights\<close>

lemma database_of_put:
  "database_of cn name = Some d \<Longrightarrow> database_of (put_database name db cn) name = Some db"
proof -
  have "map_of ms name = Some d \<Longrightarrow> map_of (map (\<lambda>(n, d). if n = name then (n, db) else (n, d)) ms) name = Some db" for ms
    by (induction ms) (auto split: if_splits)
  then show "database_of cn name = Some d \<Longrightarrow> database_of (put_database name db cn) name = Some db"
    by (simp add: database_of_def put_database_def)
qed

lemma wal_append_works: "cd_serialize C r = Inr bytes \<Longrightarrow> \<exists>w'. wal_append C None r w = (w', Inr ())"
  by (simp add: wal_append_def Let_def)

lemma sample_table_name: "tb_name sample_table = ''t''"
  by (simp add: sample_table_def table_new_indexes)

lemma grant_text_message:
  assumes "plain u"
  shows "trim_statement (grant_text True p cols t u) = grant_text True p cols t u"
    and "to_uppercase (grant_text True p cols t u) \<noteq> ''SHOW DATABASES''"
    and "\<not> starts_with ''USE '' (to_uppercase (grant_text True p cols t u))"
  using trim_grant_text [OF assms, of True p cols t] by (simp_all add: trim_statement_def grant_text_def)

lemma grant_all_rights:
  "can_select (grant u t PAll S) u t cs \<and> can_insert (grant u t PAll S) u t cs \<and>
   can_update (grant u t PAll S) u t cs \<and> can_delete (grant u t PAll S) u t"
  by (simp add: sel.can_after_grant_all ins.can_after_grant_all upd.can_after_grant_all can_delete_held held_grant)

text \<open>any user can take any right. No part of the server checks who executes GRANT: a user with a session
  and an existing table name can grant themselves all rights on the table with one query, and holds
  them from then on.\<close>
theorem grant_unchecked:
  assumes "verify_token (cn_sessions cn) token = Some u" "database_of cn name = Some db"
    and "plain u" "plain t" "refused (se_front SE) (grant_text True GAll [] t u)"
    and "user_exists (db_users db) u" "list_ex (same_name t) (db_tables db)"
    and "cd_serialize (xp_codec (se_worlds SE (cn_clock cn))) (WGrant u t PAll) = Inr bytes"
    and "xp_wal (se_worlds SE (cn_clock cn)) = None"
  shows "\<exists>cn' db'. handle_message SE token u name (MsgQuery (grant_text True GAll [] t u) k) cn =
      Some (cn', SrvQueryResult [] [] 1 None, name) \<and> database_of cn' name = Some db' \<and>
    (\<forall>cs. can_select (db_permissions db') u t cs \<and> can_insert (db_permissions db') u t cs \<and>
      can_update (db_permissions db') u t cs \<and> can_delete (db_permissions db') u t)"
proof -
  let ?sql = "grant_text True GAll [] t u" and ?W = "se_worlds SE (cn_clock cn)"
  let ?stmt = "StGrant u t [] GAll"
  let ?db1 = "db\<lparr>db_permissions := grant u t PAll (db_permissions db)\<rparr>"
  obtain w where "wal_append (xp_codec ?W) None (WGrant u t PAll) (db_wal ?db1) = (w, Inr ())"
    using wal_append_works [OF assms(8)] by blast
  then obtain db' where g: "grant_permission (xp_codec ?W) (xp_wal ?W) u t PAll db = (db', Inr ())"
    "db_permissions db' = grant u t PAll (db_permissions db)"
    using assms(6,7,9) by (simp add: grant_permission_def log_append_def)
  have st: "execute_statement (se_fuel SE) ?W (Some u) ?stmt db = Some (db', Inr (affected 1))"
    using g(1) by (simp add: execute_statement_def plan_permission_def of_unit_def)
  have sql: "parse (se_front SE) ?sql = Some (Inr [?stmt])"
    using grant_text_parse [OF _ assms(4,3), of "[]" "se_front SE" True GAll] assms(5) by simp
  have "\<exists>cn'. execute_sql_as SE ?sql name (Some u) db cn = Some (cn', Inr (affected 1)) \<and> database_of cn' name = Some db'"
    using database_of_put [of "audit (Some u) ?stmt (cn\<lparr>cn_clock := cn_clock cn + 1\<rparr>)" name db db'] assms(2)
    by (simp add: execute_sql_as_def sql st audit_def audit_action_def database_of_def)
  then obtain cn' where e: "execute_sql_as SE ?sql name (Some u) db cn = Some (cn', Inr (affected 1))"
    and d: "database_of cn' name = Some db'" by blast
  have "handle_message SE token u name (MsgQuery ?sql k) cn = Some (cn', SrvQueryResult [] [] 1 None, name)"
    using assms(1,2) e grant_text_message [OF assms(3), of GAll "[]" t]
    by (simp add: handle_message_def process_authenticated_message_def process_message_def query_message_def affected_def)
  then show ?thesis using d g(2) grant_all_rights by auto
qed

theorem grant_unchecked_witness:
  "\<exists>cn' db'. handle_message (sample_session_env [WGrant ''ann'' ''t'' PAll] (\<lambda>_. Inl [])) 1 ''ann'' ''default''
      (MsgQuery (grant_text True GAll [] ''t'' ''ann'') 0)
      (sample_connection\<lparr>cn_sessions := snd (create_session ''ann'' session_manager_new)\<rparr>) =
      Some (cn', SrvQueryResult [] [] 1 None, ''default'') \<and> database_of cn' ''default'' = Some db' \<and>
    can_delete (db_permissions db') ''ann'' ''t''"
proof -
  let ?SE = "sample_session_env [WGrant ''ann'' ''t'' PAll] (\<lambda>_. Inl [])"
  let ?cn = "sample_connection\<lparr>cn_sessions := snd (create_session ''ann'' session_manager_new)\<rparr>"
  have t: "verify_token (cn_sessions ?cn) 1 = Some ''ann''"
    by (simp add: verify_token_def create_session_def session_manager_new_def om_empty_def)
  have d: "database_of ?cn ''default'' = Some (with_user ''ann'')"
    by (simp add: database_of_def sample_connection_def)
  have p: "plain ''ann''" "plain ''t''" by (simp_all add: plain_def is_whitespace_def)
  have r: "refused (se_front ?SE) (grant_text True GAll [] ''t'' ''ann'')"
    by (simp add: refused_def sample_session_env_def refusing_front_def)
  have u: "user_exists (db_users (with_user ''ann'')) ''ann''"
    by (simp add: with_user_def user_exists_def)
  have tb: "list_ex (same_name ''t'') (db_tables (with_user ''ann''))"
    by (simp add: with_user_def sample_table_name)
  have c: "cd_serialize (xp_codec (se_worlds ?SE (cn_clock ?cn))) (WGrant ''ann'' ''t'' PAll) = Inr []"
    by (simp add: sample_session_env_def sample_world_def list_codec_def)
  have w: "xp_wal (se_worlds ?SE (cn_clock ?cn)) = None"
    by (simp add: sample_session_env_def sample_world_def)
  show ?thesis using grant_unchecked [OF t d p r u tb c w, of 0] by blast
qed

text \<open>USE changes the database without a login to it. A stream that authenticated in one database and
  sends USE for another known one works there under the same name from then on, whether or not the
  other database has that user or the user the same password there.\<close>
theorem use_skips_login:
  assumes "verify_token (cn_sessions cn) token = Some u" "database_of cn name = Some db"
    and "plain other" "database_of cn other = Some db2" "name \<noteq> other"
    and "refused (se_front SE) (''USE '' @ other)"
  shows "\<exists>cn' reply. handle_message SE token u name (MsgQuery (''USE '' @ other) k) cn = Some (cn', reply, other) \<and>
    database_of cn' other = Some db2 \<and> cn_sessions cn' = cn_sessions cn \<and>
    handle_message SE token u other (MsgStructuredQuery query k2) cn' =
      map_option (\<lambda>(cn2, r). (cn2, structured_message r, other))
        (execute_structured_sql SE query other (Some u) db2 cn')"
proof -
  let ?sql = "''USE '' @ other" and ?W = "se_worlds SE (cn_clock cn)"
  have ends: "trim ?sql = ?sql" "trim_end_matches (CHR '';'') ?sql = ?sql"
    using trim_plain_end [of "''USE ''" other] trim_end_plain_end [of other "''USE ''"] assms(3)
    by (simp_all add: is_whitespace_def)
  have name: "trim_statement (drop 3 ?sql) = other" "trim (drop 3 ?sql) = other" "trim_statement ?sql = ?sql"
    using assms(3) ends by (simp_all add: trim_statement_def)
  have "parse (se_front SE) ?sql = parse_custom (se_front SE) ?sql"
    by (rule parse_refused [OF assms(6) ends(1)]) simp_all
  also have "\<dots> = Some (Inr [StUseDatabase other])"
    unfolding parse_custom_def Let_def ends trim_upper [OF ends(1)] parse_use_def name(1)
    using assms(3) by (simp add: plain_def)
  finally have sql: "parse (se_front SE) ?sql = Some (Inr [StUseDatabase other])" .
  have st: "execute_statement (se_fuel SE) ?W (Some u) (StUseDatabase other) db = Some (db, Inr (affected 0))"
    using assms(3) by (simp add: execute_statement_def plain_def)
  let ?cn' = "put_database name db (cn\<lparr>cn_clock := cn_clock cn + 1\<rparr>)"
  have e: "execute_sql_as SE ?sql name (Some u) db cn = Some (?cn', Inr (affected 0))"
    unfolding execute_sql_as_def sql by (simp add: st audit_def audit_action_def)
  have "handle_message SE token u name (MsgQuery ?sql k) cn = Some (?cn', query_message (Inr (affected 0)), other)"
    unfolding handle_message_def process_authenticated_message_def process_message_def client_message.case Let_def
      name using assms(1,2,4) e by (auto intro!: exI [of _ "Inr (affected 0)"])
  moreover have "map_of (map (\<lambda>(n, d). if n = name then (n, db) else (n, d)) ms) other = map_of ms other" for ms
    using assms(5) by (induction ms) auto
  then have "database_of ?cn' other = Some db2"
    using assms(4) by (simp add: database_of_def put_database_def)
  moreover have "cn_sessions ?cn' = cn_sessions cn" by (simp add: put_database_def)
  ultimately show ?thesis
    using assms(1)
    by (auto simp: handle_message_def process_authenticated_message_def process_message_def option.map_comp comp_def
        case_prod_unfold)
qed


theorem use_skips_login_witness:
  "\<exists>cn' reply. handle_message (sample_session_env [] (\<lambda>_. Inl [])) 1 ''ann'' ''default'' (MsgQuery (''USE '' @ ''b'') 0)
      (sample_connection\<lparr>cn_sessions := snd (create_session ''ann'' session_manager_new)\<rparr>) = Some (cn', reply, ''b'') \<and>
    database_of cn' ''b'' = Some (with_user ''eve'') \<and> \<not> user_exists (db_users (with_user ''eve'')) ''ann''"
proof -
  let ?SE = "sample_session_env [] (\<lambda>_. Inl [])"
  let ?cn = "sample_connection\<lparr>cn_sessions := snd (create_session ''ann'' session_manager_new)\<rparr>"
  have t: "verify_token (cn_sessions ?cn) 1 = Some ''ann''"
    by (simp add: verify_token_def create_session_def session_manager_new_def om_empty_def)
  have d: "database_of ?cn ''default'' = Some (with_user ''ann'')" "database_of ?cn ''b'' = Some (with_user ''eve'')"
    by (simp_all add: database_of_def sample_connection_def)
  have p: "plain ''b''" "''default'' \<noteq> ''b''" by (simp_all add: plain_def is_whitespace_def)
  have r: "refused (se_front ?SE) (''USE '' @ ''b'')"
    by (simp add: refused_def sample_session_env_def refusing_front_def)
  have "\<not> user_exists (db_users (with_user ''eve'')) ''ann''"
    by (simp add: with_user_def user_exists_def eq_ignore_ascii_case_def to_lowercase_def ascii_lower_def)
  then show ?thesis
    using use_skips_login [OF t d(1) p(1) d(2) p(2) r, of 0 "[]" 0] by blast
qed

subsection \<open>Reachable connections\<close>

text \<open>
  The streams of a connection, each with its token, user and database, take turns: a login, one
  message of a stream, the end of a stream. The number counts the logins.
\<close>

type_synonym conn_state = "connection \<times> (u64 \<times> string \<times> string) list"

inductive reachable :: "session_env \<Rightarrow> byte list option \<Rightarrow> connection \<Rightarrow> nat \<Rightarrow> conn_state \<Rightarrow> bool"
  for SE cert cn0 where
  start: "reachable SE cert cn0 0 (cn0, [])"
| login: "reachable SE cert cn0 n (cn, streams) \<Longrightarrow> database_of cn name = Some db \<Longrightarrow>
    authenticate SE cert db username password = (user, True) \<Longrightarrow> create_session user (cn_sessions cn) = (token, sm) \<Longrightarrow>
    reachable SE cert cn0 (Suc n) (cn\<lparr>cn_sessions := sm\<rparr>, streams @ [(token, user, name)])"
| message: "reachable SE cert cn0 n (cn, streams) \<Longrightarrow> i < length streams \<Longrightarrow> streams ! i = (token, user, name) \<Longrightarrow>
    handle_message SE token user name msg cn = Some (cn', reply, name') \<Longrightarrow>
    reachable SE cert cn0 n (cn', streams[i := (token, user, name')])"
| finish: "reachable SE cert cn0 n (cn, before @ s # after) \<Longrightarrow> reachable SE cert cn0 n (cn, before @ after)"

lemma map_fst_put: "map fst (cn_databases (put_database name db cn)) = map fst (cn_databases cn)"
  by (auto simp: put_database_def)

lemma put_database_sessions [simp]: "cn_sessions (put_database name db cn) = cn_sessions cn"
  by (simp add: put_database_def)

lemma audit_keeps [simp]: "cn_sessions (audit u stmt cn) = cn_sessions cn" "cn_databases (audit u stmt cn) = cn_databases cn"
  by (auto simp: audit_def split: option.splits)

lemma execute_statements_keeps:
  "execute_statements SE name u stmts lst db cn = Some (cn', r) \<Longrightarrow>
   cn_sessions cn' = cn_sessions cn \<and> map fst (cn_databases cn') = map fst (cn_databases cn)"
proof (induction stmts arbitrary: lst db cn)
  case (Cons stmt stmts)
  then show ?case
    by (cases "execute_statement (se_fuel SE) (se_worlds SE (cn_clock cn)) u stmt db")
      (fastforce simp: map_fst_put split: sum.splits)+
qed (auto simp: map_fst_put)

lemma execute_sql_keeps:
  "execute_sql_as SE sql name u db cn = Some (cn', r) \<Longrightarrow>
   cn_sessions cn' = cn_sessions cn \<and> map fst (cn_databases cn') = map fst (cn_databases cn)"
  using execute_statements_keeps
  by (fastforce simp: execute_sql_as_def split: option.splits sum.splits)

lemma handle_message_keeps:
  assumes "handle_message SE token user name msg cn = Some (cn', reply, name')"
  shows "cn_sessions cn' = cn_sessions cn \<and> map fst (cn_databases cn') = map fst (cn_databases cn) \<and>
    (name' \<noteq> name \<longrightarrow> database_of cn name' \<noteq> None)"
proof -
  have process: "cn_sessions cn'' = cn_sessions cn \<and> map fst (cn_databases cn'') = map fst (cn_databases cn)"
    if "process_authenticated_message SE msg name token user db cn = Some (cn'', r)" for db cn'' r
    using that execute_sql_keeps
    by (fastforce simp: process_authenticated_message_def process_message_def execute_structured_sql_def map_fst_put
        split: client_message.splits option.splits if_splits sum.splits)
  show ?thesis
    using assms process
    by (fastforce simp: handle_message_def Let_def split: option.splits client_message.splits if_splits)
qed

lemma database_of_cong:
  "map fst (cn_databases cn') = map fst (cn_databases cn) \<Longrightarrow> (database_of cn' name = None) = (database_of cn name = None)"
  unfolding database_of_def map_of_eq_None_iff by (metis list.set_map)

definition sessions_ok :: "nat \<Rightarrow> conn_state \<Rightarrow> bool" where
  "sessions_ok n cs = (case cs of (cn, streams) \<Rightarrow>
     om_ok (sm_active_sessions (cn_sessions cn)) \<and> sm_next_token (cn_sessions cn) = of_nat n + 1 \<and>
     om_keys (sm_active_sessions (cn_sessions cn)) = map (\<lambda>i. of_nat i + 1) [0..<n] \<and>
     distinct (map fst streams) \<and>
     (\<forall>(token, user, name) \<in> set streams.
        verify_token (cn_sessions cn) token = Some user \<and> database_of cn name \<noteq> None))"

lemma om_put_last: "\<forall>x \<in> set m. fst x < k \<Longrightarrow> om_put m k v = m @ [(k, v)]"
  for m :: "('k::linorder, 'v) omap"
  by (induction m k v rule: om_put.induct) auto

lemma token_less: "i < n \<Longrightarrow> n < 2 ^ 64 - 1 \<Longrightarrow> (of_nat i + 1 :: u64) < of_nat n + 1"
proof -
  assume i: "i < n" "n < 2 ^ 64 - 1"
  have "(of_nat (Suc i) :: u64) < of_nat (Suc n)"
    using i by (simp only: word_less_nat_alt unat_of_nat) simp
  then show ?thesis by (simp add: add.commute)
qed

lemma create_session_step:
  assumes "sessions_ok n (cn, streams)" "n < 2 ^ 64 - 1" "database_of cn name \<noteq> None"
    and "create_session user (cn_sessions cn) = (token, sm)"
  shows "sessions_ok (Suc n) (cn\<lparr>cn_sessions := sm\<rparr>, streams @ [(token, user, name)])"
proof -
  let ?m = "sm_active_sessions (cn_sessions cn)"
  have ok: "om_ok ?m" and nxt: "sm_next_token (cn_sessions cn) = of_nat n + 1"
    and keys: "om_keys ?m = map (\<lambda>i. of_nat i + 1) [0..<n]" and dist: "distinct (map fst streams)"
    and each: "\<forall>(token, user, name) \<in> set streams.
      verify_token (cn_sessions cn) token = Some user \<and> database_of cn name \<noteq> None"
    using assms(1) by (simp_all add: sessions_ok_def)
  have sm: "sm = \<lparr>sm_next_token = token + 1, sm_active_sessions = om_put ?m token user\<rparr>"
    and tok: "token = of_nat n + 1"
    using assms(4) by (auto simp: create_session_def Let_def nxt)
  have below: "\<forall>x \<in> set ?m. fst x < token"
  proof
    fix x assume "x \<in> set ?m"
    then have "fst x \<in> set (om_keys ?m)" by (simp add: om_keys_def)
    then show "fst x < token" using keys token_less [OF _ assms(2)] tok by auto
  qed
  then have put: "om_put ?m token user = ?m @ [(token, user)]" by (rule om_put_last)
  have fresh: "om_get ?m token = None"
    unfolding om_get_map_of map_of_eq_None_iff using below by force
  then have old: "t \<noteq> token" if "(t, u, d) \<in> set streams" for t u d
    using each that by (auto simp: verify_token_def)
  have get: "verify_token sm t = (if t = token then Some user else verify_token (cn_sessions cn) t)" for t
    using om.get_put [OF ok, of token user t] by (simp add: verify_token_def sm)
  have keys': "om_keys (sm_active_sessions sm) = map (\<lambda>i. of_nat i + 1) [0..<Suc n]"
    using keys put by (simp add: sm tok om_keys_def)
  have ok': "om_ok (sm_active_sessions sm)" "sm_next_token sm = of_nat (Suc n) + 1"
    using om.ok_put [OF ok] by (simp_all add: sm tok add.commute)
  have each': "\<forall>(t, u, d) \<in> set (streams @ [(token, user, name)]).
      verify_token sm t = Some u \<and> database_of cn d \<noteq> None"
    using each assms(3) old by (fastforce simp: get)
  have "token \<notin> fst ` set streams" using old by force
  then have "distinct (map fst (streams @ [(token, user, name)]))" using dist by simp
  then show ?thesis using ok' keys' each' by (simp add: sessions_ok_def database_of_def)
qed

text \<open>C24: the sessions of a connection are sound in every interleaving of its streams. As long as fewer than
  \<open>2 ^ 64 - 1\<close> logins have happened, the streams hold different tokens, each token is valid for the
  user of its stream and for no other, and each stream works on a known database; but a session is
  never removed, so that there are as many as there were logins.\<close>
theorem sessions_sound:
  assumes "reachable SE cert cn0 n (cn, streams)" "n < 2 ^ 64 - 1" "cn_sessions cn0 = session_manager_new"
  shows "distinct (map fst streams) \<and> active_count (cn_sessions cn) = n \<and>
    (\<forall>(token, user, name) \<in> set streams.
       verify_token (cn_sessions cn) token = Some user \<and> database_of cn name \<noteq> None)"
proof -
  have "n' < 2 ^ 64 - 1 \<Longrightarrow> sessions_ok n' cs" if "reachable SE cert cn0 n' cs" for n' cs
    using that
  proof (induction rule: reachable.induct)
    case start
    then show ?case
      using assms(3) om.ok_empty by (simp add: sessions_ok_def session_manager_new_def om_keys_def om_empty_def)
  next
    case (login n cn streams name db username password user token sm)
    then show ?case using create_session_step [of n cn streams name user token sm] by simp
  next
    case (message n cn streams i token user name msg cn' reply name')
    have ok: "sessions_ok n (cn, streams)" using message by simp
    note keep = handle_message_keeps [OF message.hyps(4)]
    have "database_of cn name \<noteq> None"
      using ok message.hyps(2,3) nth_mem by (fastforce simp: sessions_ok_def)
    then have name': "database_of cn name' \<noteq> None" using keep by (cases "name' = name") auto
    have tokens: "map fst (streams[i := (token, user, name')]) = map fst streams"
      using message.hyps(2,3) by (metis fst_conv list_update_id map_update nth_map)
    have "(\<forall>(t, u, d) \<in> set (streams[i := (token, user, name')]).
        verify_token (cn_sessions cn') t = Some u \<and> database_of cn' d \<noteq> None)"
    proof (clarsimp simp del: not_None_eq)
      fix t u d assume "(t, u, d) \<in> set (streams[i := (token, user, name')])"
      then have "(t, u, d) \<in> set streams \<or> (t, u, d) = (token, user, name')" using set_update_subset_insert by fastforce
      moreover have "(token, user, name) \<in> set streams" using message.hyps(2,3) nth_mem by fastforce
      ultimately have "verify_token (cn_sessions cn) t = Some u \<and> database_of cn d \<noteq> None"
        using ok name' by (fastforce simp: sessions_ok_def)
      then show "verify_token (cn_sessions cn') t = Some u \<and> database_of cn' d \<noteq> None"
        using keep database_of_cong [of cn' cn d] by simp
    qed
    then show ?case using ok keep tokens by (simp add: sessions_ok_def)
  next
    case (finish n cn before s after)
    then show ?case by (auto simp: sessions_ok_def)
  qed
  from this [OF assms(1,2)] show ?thesis
    by (auto simp: sessions_ok_def active_count_def om_keys_def dest: arg_cong [of _ _ length])
qed

theorem sessions_sound_witness:
  "reachable (sample_session_env [] (\<lambda>_. Inl [])) None sample_connection 1
     (sample_connection\<lparr>cn_sessions := snd (create_session ''ann'' session_manager_new)\<rparr>, [(1, ''ann'', ''default'')]) \<and>
   active_count (snd (create_session ''ann'' session_manager_new)) = 1"
proof -
  let ?SE = "sample_session_env [] (\<lambda>_. Inl [])"
  have db: "database_of sample_connection ''default'' = Some (with_user ''ann'')"
    by (simp add: database_of_def sample_connection_def)
  have "verify_user sample_argon (with_user ''ann'') ''ann'' ''pw''"
    unfolding verify_user_def verify_login_def with_user_def by (simp add: get_user_def, code_simp)
  then have auth: "authenticate ?SE None (with_user ''ann'') ''ann'' ''pw'' = (''ann'', True)"
    by (simp add: authenticate_def sample_session_env_def)
  have new: "cn_sessions sample_connection = session_manager_new" by (simp add: sample_connection_def)
  have "create_session ''ann'' (cn_sessions sample_connection) = (1, snd (create_session ''ann'' session_manager_new))"
    by (simp add: new create_session_def session_manager_new_def)
  from reachable.login [OF reachable.start db auth this]
  have r: "reachable ?SE None sample_connection 1
     (sample_connection\<lparr>cn_sessions := snd (create_session ''ann'' session_manager_new)\<rparr>, [(1, ''ann'', ''default'')])"
    by simp
  show ?thesis using r sessions_sound [OF r _ new] by simp
qed

end
