(* ===== verification/Service.thy ===== *)
theory Service
  imports Client Session_Props
begin

text \<open>
  The wire between client and server. Both read and write length-prefixed payloads, which is one
  more instance of the framing contract; from it follow what the message loop of a stream does with
  any part of a client's messages, and what a query of the client returns when it talks to the
  server's loop.
\<close>

subsection \<open>Payloads\<close>

definition be_frame :: "byte list \<Rightarrow> byte list" where
  "be_frame b = be_bytes 4 (length b) @ b"

definition payload_step :: "nat \<Rightarrow> byte list \<Rightarrow> byte list frame_step" where
  "payload_step off bs = (case read_frame [] bs of Inl _ \<Rightarrow> Stop | Inr (b, rest) \<Rightarrow> Got b (4 + length b))"

lemma length_be_bytes [simp]: "length (be_bytes n x) = n"
  by simp

declare be_bytes.simps [simp del]

lemma le_nat_be_bytes: "x < 2 ^ 32 \<Longrightarrow> le_nat (rev (be_bytes 4 x)) = x"
  by (simp add: be_bytes.simps le_nat_le_bytes)

lemma read_frame_whole: "length b < 2 ^ 32 \<Longrightarrow> read_frame io (be_frame b @ rest) = Inr (b, rest)"
  by (simp add: read_frame_def read_exact_def be_frame_def le_nat_be_bytes)

lemma read_frame_torn:
  assumes "length b < 2 ^ 32" "n < length (be_frame b)"
  shows "\<exists>e. read_frame io (take n (be_frame b)) = Inl e"
proof (cases "n < 4")
  case False
  then have "take n (be_frame b) = be_bytes 4 (length b) @ take (n - 4) b" by (simp add: be_frame_def)
  then show ?thesis
    using assms False by (simp add: read_frame_def read_exact_def be_frame_def le_nat_be_bytes)
qed (simp add: read_frame_def read_exact_def min_less_iff_disj)

lemma read_frame_rest:
  "read_frame io bs = Inr (b, rest) \<Longrightarrow> 4 + length b \<le> length bs \<and> rest = drop (4 + length b) bs"
  by (auto simp: read_frame_def read_exact_def add.commute split: if_splits)

function payloads :: "nat \<Rightarrow> byte list \<Rightarrow> byte list list option" where
  "payloads off bs =
     (case payload_step off bs of
        Stop \<Rightarrow> Some []
      | Panic \<Rightarrow> None
      | Skip n \<Rightarrow> None
      | Got b n \<Rightarrow> map_option (Cons b) (payloads (off + n) (drop n bs)))"
  by pat_completeness auto
termination
  by (relation "measure (\<lambda>(off, bs). length bs)")
    (auto simp: payload_step_def dest!: read_frame_rest split: sum.splits)

declare payloads.simps [simp del]

interpretation wire: framing be_frame "\<lambda>b. length b < 2 ^ 32" limit payload_step payloads for limit
proof
  show "payload_step off [] = Stop" for off by (simp add: payload_step_def read_frame_def read_exact_def)
next
  fix b :: "byte list" and off limit rest
  assume "length b < 2 ^ 32" "off + length (be_frame b) \<le> limit"
  then show "payload_step off (be_frame b @ rest) = Got b (length (be_frame b))"
    by (simp add: payload_step_def read_frame_whole) (simp add: be_frame_def)
next
  fix b :: "byte list" and off limit n
  assume "length b < 2 ^ 32" "off + length (be_frame b) \<le> limit" "n < length (be_frame b)"
  then show "payload_step off (take n (be_frame b)) = Stop"
    using read_frame_torn [of b n "[]"] by (auto simp: payload_step_def)
next
  show "payloads off bs =
      (case payload_step off bs of Stop \<Rightarrow> Some [] | Panic \<Rightarrow> None | Skip n \<Rightarrow> payloads (off + n) (drop n bs)
       | Got x n \<Rightarrow> map_option (Cons x) (payloads (off + n) (drop n bs)))" for off bs
    by (subst payloads.simps) (auto simp: payload_step_def split: sum.splits)
qed

subsection \<open>The message loop\<close>

text \<open>What a stream should answer: each message in turn, on the database of the stream at that time.\<close>

fun answer_all ::
    "session_env \<Rightarrow> u64 \<Rightarrow> string \<Rightarrow> string \<Rightarrow> client_message list \<Rightarrow> connection \<Rightarrow>
     (connection \<times> server_message list) option" where
  "answer_all SE token user name [] cn = Some (cn, [])"
| "answer_all SE token user name (msg # msgs) cn =
     (case handle_message SE token user name msg cn of
        None \<Rightarrow> None
      | Some (cn', reply, name') \<Rightarrow>
          map_option (\<lambda>(cn2, replies). (cn2, reply # replies)) (answer_all SE token user name' msgs cn'))"

definition server_frame :: "session_env \<Rightarrow> server_message \<Rightarrow> byte list" where
  "server_frame SE msg =
     (case se_encode SE msg of Inr b \<Rightarrow> be_bytes 4 (length b mod 2 ^ 32) @ b | Inl _ \<Rightarrow> [])"

lemma length_answer_all: "answer_all SE token user name msgs cn = Some (cn', replies) \<Longrightarrow> length replies = length msgs"
  by (induction msgs arbitrary: name cn cn' replies) (auto split: option.splits)

lemma send_encoded:
  assumes "se_encode SE msg = Inr b" "st_writes st = []"
  shows "send_server_message SE msg st = (st\<lparr>st_out := st_out st @ server_frame SE msg\<rparr>, Inr ())"
  using assms by (simp add: send_server_message_def write_frame_def write_all_def server_frame_def)

lemma payloads_Nil: "payloads off bs = Some [] \<Longrightarrow> \<exists>e. read_frame io bs = Inl e"
  by (subst (asm) payloads.simps)
    (auto simp: payload_step_def read_frame_def read_exact_def split: sum.splits option.splits if_splits)

lemma payloads_Cons:
  "payloads off bs = Some (b # ps) \<Longrightarrow>
   read_frame io bs = Inr (b, drop (length (be_frame b)) bs) \<and>
   payloads (off + length (be_frame b)) (drop (length (be_frame b)) bs) = Some ps"
  by (subst (asm) payloads.simps)
    (auto simp: payload_step_def read_frame_def read_exact_def be_frame_def add.commute add.left_commute
       split: sum.splits option.splits if_splits)

lemma serve_payloads:
  assumes "payloads off (st_in st) = Some ps" "map (se_decode SE) ps = map Inr msgs" "st_writes st = []"
    and "\<forall>m. \<exists>b. se_encode SE m = Inr b"
  shows "serve SE token user name st cn =
    map_option (\<lambda>(cn', replies).
      (st\<lparr>st_in := drop (length (concat (map be_frame ps))) (st_in st),
          st_out := st_out st @ concat (map (server_frame SE) replies)\<rparr>, cn', Inr ()))
      (answer_all SE token user name msgs cn)"
  using assms(1,2,3)
proof (induction ps arbitrary: off st msgs name cn)
  case Nil
  then show ?case
    using payloads_Nil [OF Nil(1), of "se_io_error SE"] by (auto simp: serve.simps read_client_message_def)
next
  case (Cons b ps)
  obtain m ms where msgs: "msgs = m # ms" and dec: "se_decode SE b = Inr m" "map (se_decode SE) ps = map Inr ms"
    using Cons.prems(2) by (cases msgs) auto
  let ?rest = "drop (length (be_frame b)) (st_in st)"
  have rd: "read_client_message SE (st_in st) = Inr (m, ?rest)"
    and next_ok: "payloads (off + length (be_frame b)) ?rest = Some ps"
    using payloads_Cons [OF Cons.prems(1)] dec(1) by (auto simp: read_client_message_def)
  show ?case
  proof (cases "handle_message SE token user name m cn")
    case None
    then show ?thesis using rd msgs by (subst serve.simps) simp
  next
    case (Some r)
    obtain cn' reply name' where r: "r = (cn', reply, name')" by (cases r)
    obtain bytes where "se_encode SE reply = Inr bytes" using assms(4) by blast
    let ?st' = "st\<lparr>st_in := ?rest, st_out := st_out st @ server_frame SE reply\<rparr>"
    have sent: "send_server_message SE reply (st\<lparr>st_in := ?rest\<rparr>) = (?st', Inr ())"
      using send_encoded [OF \<open>se_encode SE reply = Inr bytes\<close>] Cons.prems(3) by simp
    have "serve SE token user name st cn = serve SE token user name' ?st' cn'"
      using rd Some r sent by (subst serve.simps) simp
    also have "\<dots> = map_option (\<lambda>(cn', replies).
        (?st'\<lparr>st_in := drop (length (concat (map be_frame ps))) ?rest,
              st_out := st_out ?st' @ concat (map (server_frame SE) replies)\<rparr>, cn', Inr ()))
        (answer_all SE token user name' ms cn')"
      using Cons.IH [of _ ?st' ms] next_ok dec(2) Cons.prems(3) by simp
    finally show ?thesis
      using Some r msgs by (simp add: option.map_comp comp_def case_prod_unfold add.commute)
  qed
qed

text \<open>C22: the message loop answers exactly the messages that have arrived. Whatever part of the frames of a
  client's messages is in the stream, cut anywhere, the loop handles the complete ones in order, each
  on the database and state the earlier ones left, writes one frame for each, leaves the incomplete
  rest unread, and stops without an error, unless the server panics.\<close>
theorem serve_answers:
  assumes "\<forall>b \<in> set bs. length b < 2 ^ 32" "map (se_decode SE) bs = map Inr msgs"
    and "st_in st = take n (concat (map be_frame bs))" "st_writes st = []"
    and "\<forall>m. \<exists>b. se_encode SE m = Inr b" and k: "k = complete_frames be_frame n bs"
  shows "serve SE token user name st cn =
    map_option (\<lambda>(cn', replies).
      (st\<lparr>st_in := drop (length (concat (map be_frame (take k bs)))) (st_in st),
          st_out := st_out st @ concat (map (server_frame SE) replies)\<rparr>, cn', Inr ()))
      (answer_all SE token user name (take k msgs) cn) \<and>
    (\<forall>cn' replies. answer_all SE token user name (take k msgs) cn = Some (cn', replies) \<longrightarrow> length replies = k)"
proof (intro conjI allI impI)
  have "payloads 0 (st_in st) = Some (take k bs)"
    unfolding assms(3) k using assms(1) by (intro wire.loop_truncated) auto
  moreover have "map (se_decode SE) (take k bs) = map Inr (take k msgs)"
    using assms(2) by (metis take_map)
  ultimately show "serve SE token user name st cn =
    map_option (\<lambda>(cn', replies).
      (st\<lparr>st_in := drop (length (concat (map be_frame (take k bs)))) (st_in st),
          st_out := st_out st @ concat (map (server_frame SE) replies)\<rparr>, cn', Inr ()))
      (answer_all SE token user name (take k msgs) cn)"
    using serve_payloads assms(4,5) by blast
  have "length msgs = length bs" using assms(2) by (metis length_map)
  then show "answer_all SE token user name (take k msgs) cn = Some (cn', replies) \<Longrightarrow> length replies = k" for cn' replies
    using length_answer_all complete_frames_le [of be_frame n bs] k by fastforce
qed

theorem serve_answers_witness:
  "\<exists>cn' r1. serve (sample_session_env [] (\<lambda>_. Inr (MsgAuth [] [] []))) 1 ''ann'' ''default''
      \<lparr>st_in = take 7 (be_frame [1] @ be_frame [2]), st_out = [], st_writes = []\<rparr>
      (sample_connection\<lparr>cn_sessions := snd (create_session ''ann'' session_manager_new)\<rparr>) =
    Some (\<lparr>st_in = take 2 (be_frame [2]), st_out = server_frame (sample_session_env [] (\<lambda>_. Inr (MsgAuth [] [] []))) r1,
           st_writes = []\<rparr>, cn', Inr ())"
proof -
  let ?SE = "sample_session_env [] (\<lambda>_. Inr (MsgAuth [] [] []))"
  let ?cn = "sample_connection\<lparr>cn_sessions := snd (create_session ''ann'' session_manager_new)\<rparr>"
  let ?st = "\<lparr>st_in = take 7 (be_frame [1] @ be_frame [2]), st_out = [], st_writes = []\<rparr>"
  have k: "1 = complete_frames be_frame 7 [[1], [2]]" by (simp add: be_frame_def)
  have a: "answer_all ?SE 1 ''ann'' ''default'' [MsgAuth [] [] []] ?cn = Some (?cn, [SrvError ''Already authenticated''])"
    by (simp add: handle_message_def process_authenticated_message_def process_message_def database_of_def
        sample_connection_def verify_token_def create_session_def session_manager_new_def om_empty_def)
  have "serve ?SE 1 ''ann'' ''default'' ?st ?cn =
    map_option (\<lambda>(cn', replies).
      (?st\<lparr>st_in := drop (length (concat (map be_frame (take 1 [[1], [2]])))) (st_in ?st),
          st_out := st_out ?st @ concat (map (server_frame ?SE) replies)\<rparr>, cn', Inr ()))
      (answer_all ?SE 1 ''ann'' ''default'' (take 1 [MsgAuth [] [] [], MsgAuth [] [] []]) ?cn)"
    by (rule conjunct1 [OF serve_answers [OF _ _ _ _ _ k]]) (simp_all add: sample_session_env_def)
  then show ?thesis using a by (auto simp: be_frame_def)
qed

subsection \<open>Client and server together\<close>

text \<open>A message crosses the wire when one side encodes it in a frame that the other decodes.\<close>

definition crosses :: "('m \<Rightarrow> string + byte list) \<Rightarrow> (byte list \<Rightarrow> string + 'm) \<Rightarrow> 'm \<Rightarrow> bool" where
  "crosses encode decode m \<longleftrightarrow> (\<exists>b. encode m = Inr b \<and> length b < 2 ^ 32 \<and> decode b = Inr m)"

text \<open>
  A query over a reliable stream: the server reads exactly the bytes the client writes, and the
  client reads exactly the bytes the server writes.
\<close>

definition exchange ::
    "session_env \<Rightarrow> client_env \<Rightarrow> string \<Rightarrow> byte list option \<Rightarrow> client_conn \<Rightarrow> string \<Rightarrow> connection \<Rightarrow>
     byte list \<Rightarrow> connection \<Rightarrow> query_result res \<Rightarrow> bool" where
  "exchange SE CE default_database cert c sql cn answers cn' result \<longleftrightarrow>
     (\<exists>st1 st2 r. query_stream CE c sql \<lparr>st_in = answers, st_out = [], st_writes = []\<rparr> = (st1, result) \<and>
        handle_stream SE default_database cert \<lparr>st_in = st_out st1, st_out = [], st_writes = []\<rparr> cn = Some (st2, cn', r) \<and>
        st_out st2 = answers)"

lemma write_frame_fits:
  "length b < 2 ^ 32 \<Longrightarrow> st_writes st = [] \<Longrightarrow> write_frame io b st = (st\<lparr>st_out := st_out st @ be_frame b\<rparr>, Inr ())"
  by (simp add: write_frame_def write_all_def be_frame_def)

lemma crosses_up:
  assumes "crosses (ce_encode CE) (se_decode SE) m"
  obtains b where "\<And>st. st_writes st = [] \<Longrightarrow> write_message CE m st = (st\<lparr>st_out := st_out st @ be_frame b\<rparr>, Inr ())"
    and "\<And>rest. read_client_message SE (be_frame b @ rest) = Inr (m, rest)"
  using assms by (auto simp: crosses_def write_message_def write_frame_fits read_client_message_def read_frame_whole)

lemma crosses_down:
  assumes "crosses (se_encode SE) (ce_decode CE) m"
  obtains b where "\<And>st. st_writes st = [] \<Longrightarrow> send_server_message SE m st = (st\<lparr>st_out := st_out st @ be_frame b\<rparr>, Inr ())"
    and "\<And>rest. read_message CE (be_frame b @ rest) = Inr (m, rest)"
  using assms by (auto simp: crosses_def send_server_message_def write_frame_fits read_message_def read_frame_whole)

lemma send_appends: "send_server_message SE msg st = (st', r) \<Longrightarrow> \<exists>y. st_out st' = st_out st @ y"
  by (auto simp: send_server_message_def write_frame_def write_all_def split: sum.splits prod.splits list.splits if_splits)

lemma serve_appends: "serve SE token user name st cn = Some (st', cn', r) \<Longrightarrow> \<exists>y. st_out st' = st_out st @ y"
proof (induction SE token user name st cn rule: serve.induct)
  case (1 SE token user name st cn)
  show ?case
  proof (cases "read_client_message SE (st_in st)")
    case (Inr m)
    obtain msg rest where m: "m = (msg, rest)" by (cases m)
    obtain cn1 reply name1 where h: "handle_message SE token user name msg cn = Some (cn1, reply, name1)"
      using "1.prems" Inr m by (subst (asm) serve.simps) (auto split: option.splits)
    obtain st1 q where s: "send_server_message SE reply (st\<lparr>st_in := rest\<rparr>) = (st1, q)" by fastforce
    obtain y where y: "st_out st1 = st_out st @ y" using send_appends [OF s] by auto
    show ?thesis
    proof (cases q)
      case (Inl e)
      then show ?thesis using "1.prems" Inr m h s y by (subst (asm) serve.simps) simp
    next
      case q: (Inr u)
      then have "serve SE token user name1 st1 cn1 = Some (st', cn', r)"
        using "1.prems" Inr m h s by (subst (asm) serve.simps) simp
      then have "\<exists>z. st_out st' = st_out st1 @ z"
        using "1.IH" [OF Inr m [symmetric] h _ refl s [symmetric] q] by blast
      then show ?thesis using y by auto
    qed
  next
    case (Inl e)
    then show ?thesis using "1.prems" by (subst (asm) serve.simps) auto
  qed
qed

lemma ask_appends: "ask CE msg st = (st', r) \<Longrightarrow> \<exists>y. st_out st' = st_out st @ y"
  by (auto simp: ask_def write_message_def write_frame_def write_all_def
      split: sum.splits prod.splits list.splits if_splits)

lemma serve_one:
  assumes "read_client_message SE (st_in st) = Inr (msg, [])"
    and "handle_message SE token user name msg cn = Some (cn', reply, name')"
    and "send_server_message SE reply (st\<lparr>st_in := []\<rparr>) = (st', Inr ())" "st_in st' = []"
  shows "serve SE token user name st cn = Some (st', cn', Inr ())"
  using assms sample_serve_end [OF assms(4)] by (subst serve.simps) simp

lemma exchange_answered:
  fixes c :: client_conn and default_database :: string
  defines "m1 \<equiv> MsgAuth (cc_username c) (cc_password c) (cc_database c)"
    and "name \<equiv> if cc_database c = [] then default_database else cc_database c"
  assumes "database_of cn name = Some db" "authenticate SE cert db (cc_username c) (cc_password c) = (user, True)"
    and "create_session user (cn_sessions cn) = (token, sm)"
    and "crosses (ce_encode CE) (se_decode SE) m1" "crosses (ce_encode CE) (se_decode SE) (MsgQuery sql token)"
    and "crosses (se_encode SE) (ce_decode CE) (SrvAuthResult True token None)"
  shows "handle_message SE token user name (MsgQuery sql token) (cn\<lparr>cn_sessions := sm\<rparr>) = None \<Longrightarrow>
      \<not> exchange SE CE default_database cert c sql cn answers2 cn2 result"
    and "handle_message SE token user name (MsgQuery sql token) (cn\<lparr>cn_sessions := sm\<rparr>) = Some (cn', reply, name') \<Longrightarrow>
      crosses (se_encode SE) (ce_decode CE) reply \<Longrightarrow>
      \<exists>answers. \<forall>answers2 cn2 result.
        exchange SE CE default_database cert c sql cn answers2 cn2 result \<longleftrightarrow>
          answers2 = answers \<and> cn2 = cn' \<and> result = query_answer reply"
proof -
  obtain b1 where w1: "\<And>st. st_writes st = [] \<Longrightarrow> write_message CE m1 st = (st\<lparr>st_out := st_out st @ be_frame b1\<rparr>, Inr ())"
    and r1: "\<And>rest. read_client_message SE (be_frame b1 @ rest) = Inr (m1, rest)"
    using crosses_up [OF assms(6)] by blast
  obtain b2 where w2: "\<And>st. st_writes st = [] \<Longrightarrow>
      write_message CE (MsgQuery sql token) st = (st\<lparr>st_out := st_out st @ be_frame b2\<rparr>, Inr ())"
    and r2: "\<And>rest. read_client_message SE (be_frame b2 @ rest) = Inr (MsgQuery sql token, rest)"
    using crosses_up [OF assms(7)] by blast
  obtain a1 where s1: "\<And>st. st_writes st = [] \<Longrightarrow>
      send_server_message SE (SrvAuthResult True token None) st = (st\<lparr>st_out := st_out st @ be_frame a1\<rparr>, Inr ())"
    and c1: "\<And>rest. read_message CE (be_frame a1 @ rest) = Inr (SrvAuthResult True token None, rest)"
    using crosses_down [OF assms(8)] by blast
  let ?login = "cn\<lparr>cn_sessions := sm\<rparr>"
  have server: "handle_stream SE default_database cert \<lparr>st_in = be_frame b1 @ x, st_out = [], st_writes = []\<rparr> cn =
      serve SE token user name \<lparr>st_in = x, st_out = be_frame a1, st_writes = []\<rparr> ?login" for x
    using assms(3,4,5) s1 by (simp add: handle_stream_def r1 m1_def name_def [symmetric] send_auth_response_def)
  have client: "query_stream CE c sql \<lparr>st_in = be_frame a1 @ y, st_out = [], st_writes = []\<rparr> =
      (case read_message CE y of
         Inl e \<Rightarrow> (\<lparr>st_in = y, st_out = be_frame b1 @ be_frame b2, st_writes = []\<rparr>, Inl e)
       | Inr (msg, rest) \<Rightarrow>
           (\<lparr>st_in = rest, st_out = be_frame b1 @ be_frame b2, st_writes = []\<rparr>, query_answer msg))" for y
    by (auto simp: query_stream_def ask_def m1_def [symmetric] w1 w2 c1 auth_token_def split: sum.splits)
  have first: "ask CE m1 \<lparr>st_in = y, st_out = [], st_writes = []\<rparr> =
      (case read_message CE y of
         Inl e \<Rightarrow> (\<lparr>st_in = y, st_out = be_frame b1, st_writes = []\<rparr>, Inl e)
       | Inr (msg, rest) \<Rightarrow> (\<lparr>st_in = rest, st_out = be_frame b1, st_writes = []\<rparr>, Inr msg))" for y
    by (simp add: ask_def w1 split: sum.split)
  have writes: "\<exists>x. st_out st1 = be_frame b1 @ x"
    if "query_stream CE c sql \<lparr>st_in = y, st_out = [], st_writes = []\<rparr> = (st1, result)" for y st1 result
    using that by (auto simp: query_stream_def m1_def [symmetric] first split: sum.splits prod.splits dest!: ask_appends)
  have run: "\<exists>st2 r. serve SE token user name \<lparr>st_in = be_frame b2, st_out = be_frame a1, st_writes = []\<rparr> ?login =
      Some (st2, cn2, r) \<and> st_out st2 = answers2 \<and> (\<exists>y. answers2 = be_frame a1 @ y \<and>
        snd (query_stream CE c sql \<lparr>st_in = be_frame a1 @ y, st_out = [], st_writes = []\<rparr>) = result)"
    if exchanged: "exchange SE CE default_database cert c sql cn answers2 cn2 result" for answers2 cn2 result
  proof -
    obtain st1 st2 r where q: "query_stream CE c sql \<lparr>st_in = answers2, st_out = [], st_writes = []\<rparr> = (st1, result)"
      and h: "handle_stream SE default_database cert \<lparr>st_in = st_out st1, st_out = [], st_writes = []\<rparr> cn = Some (st2, cn2, r)"
      and o2: "st_out st2 = answers2"
      using exchanged by (auto simp: exchange_def)
    obtain x where x: "st_out st1 = be_frame b1 @ x" using writes [OF q] by blast
    then obtain y where y: "answers2 = be_frame a1 @ y" using serve_appends h o2 server by fastforce
    then have "st_out st1 = be_frame b1 @ be_frame b2" using q client [of y] by (auto split: sum.splits)
    then show ?thesis using h server o2 y q by auto
  qed
  show "\<not> exchange SE CE default_database cert c sql cn answers2 cn2 result"
    if none: "handle_message SE token user name (MsgQuery sql token) ?login = None"
  proof
    assume "exchange SE CE default_database cert c sql cn answers2 cn2 result"
    then obtain st2 r where "serve SE token user name \<lparr>st_in = be_frame b2, st_out = be_frame a1, st_writes = []\<rparr> ?login =
        Some (st2, cn2, r)" using run by blast
    then show False using none r2 [of "[]"] by (subst (asm) serve.simps) simp
  qed
  assume h: "handle_message SE token user name (MsgQuery sql token) ?login = Some (cn', reply, name')"
    and x: "crosses (se_encode SE) (ce_decode CE) reply"
  obtain a2 where s2: "\<And>st. st_writes st = [] \<Longrightarrow> send_server_message SE reply st = (st\<lparr>st_out := st_out st @ be_frame a2\<rparr>, Inr ())"
    and c2: "\<And>rest. read_message CE (be_frame a2 @ rest) = Inr (reply, rest)"
    using crosses_down [OF x] by blast
  have asked: "serve SE token user name \<lparr>st_in = be_frame b2, st_out = be_frame a1, st_writes = []\<rparr> ?login =
      Some (\<lparr>st_in = [], st_out = be_frame a1 @ be_frame a2, st_writes = []\<rparr>, cn', Inr ())"
    by (rule serve_one [OF _ h]) (use r2 [of "[]"] in \<open>simp_all add: s2\<close>)
  show "\<exists>answers. \<forall>answers2 cn2 result.
        exchange SE CE default_database cert c sql cn answers2 cn2 result \<longleftrightarrow>
          answers2 = answers \<and> cn2 = cn' \<and> result = query_answer reply"
  proof (intro exI [of _ "be_frame a1 @ be_frame a2"] allI iffI)
    fix answers2 cn2 result
    assume "exchange SE CE default_database cert c sql cn answers2 cn2 result"
    then show "answers2 = be_frame a1 @ be_frame a2 \<and> cn2 = cn' \<and> result = query_answer reply"
      using run [of answers2 cn2 result] asked client [of "be_frame a2"] c2 [of "[]"] by auto
  next
    fix answers2 cn2 result
    assume "answers2 = be_frame a1 @ be_frame a2 \<and> cn2 = cn' \<and> result = query_answer reply"
    then show "exchange SE CE default_database cert c sql cn answers2 cn2 result"
      using client [of "be_frame a2"] c2 [of "[]"] server [of "be_frame b2"] asked by (auto simp: exchange_def)
  qed
qed

text \<open>
  What a query text comes to: SHOW DATABASES and USE of an unknown database are answered by the session itself,
  everything else is executed. An error is the text the client sees. None is a panic of the server.
\<close>

definition query_outcome ::
    "session_env \<Rightarrow> string \<Rightarrow> string \<Rightarrow> string \<Rightarrow> database \<Rightarrow> connection \<Rightarrow> (connection \<times> (string + query_result)) option" where
  "query_outcome SE sql name user db cn =
     (let text = trim_statement sql; target = trim (drop 3 text) in
      if to_uppercase text = ''SHOW DATABASES''
      then Some (cn, Inr \<lparr>qr_columns = [''database_name''], qr_column_types = [],
             qr_rows = map (\<lambda>n. [n]) (database_names cn), qr_rows_affected = length (database_names cn)\<rparr>)
      else if starts_with ''USE '' (to_uppercase text) \<and> database_of cn target = None
      then Some (cn, Inl (''Database '' @ quoted target @ '' not found''))
      else map_option (\<lambda>(cn', r). (cn', map_sum error_display id r)) (execute_sql_as SE sql name (Some user) db cn))"

definition outcome_message :: "string + query_result \<Rightarrow> server_message" where
  "outcome_message r = (case r of
      Inr q \<Rightarrow> SrvQueryResult (qr_columns q) (qr_rows q) (of_nat (qr_rows_affected q)) None
    | Inl e \<Rightarrow> SrvError e)"

definition client_view :: "string + query_result \<Rightarrow> query_result res" where
  "client_view = map_sum Internal (\<lambda>q. q\<lparr>qr_column_types := [], qr_rows_affected := qr_rows_affected q mod 2 ^ 64\<rparr>)"

lemma outcome_query_message: "outcome_message (map_sum error_display id r) = query_message r"
  by (cases r) (simp_all add: outcome_message_def query_message_def)

lemma outcome_viewed: "query_answer (outcome_message r) = client_view r"
  by (cases r) (simp_all add: outcome_message_def query_answer_def client_view_def unat_of_nat)

lemma query_handled:
  assumes "verify_token (cn_sessions cn) token = Some user" "database_of cn name = Some db"
  shows "\<exists>name'. handle_message SE token user name (MsgQuery sql k) cn =
    map_option (\<lambda>(cn', r). (cn', outcome_message r, name')) (query_outcome SE sql name user db cn)"
proof -
  have process: "process_authenticated_message SE (MsgQuery sql k) name token user db cn =
      map_option (\<lambda>(cn', r). (cn', query_message r)) (execute_sql_as SE sql name (Some user) db cn)"
    using assms(1)
    by (cases "execute_sql_as SE sql name (Some user) db cn")
      (auto simp: process_authenticated_message_def process_message_def)
  show ?thesis
    using assms(2) outcome_query_message
    by (auto simp: handle_message_def query_outcome_def Let_def process option.map_comp comp_def case_prod_unfold
        outcome_message_def)
qed

lemma create_session_verifies:
  "om_ok (sm_active_sessions m) \<Longrightarrow> create_session user m = (token, sm) \<Longrightarrow> verify_token sm token = Some user"
  by (auto simp: create_session_def Let_def verify_token_def om.get_put)

text \<open>C21: what a query of the client returns, after a login that succeeds. Over a reliable stream, with
  messages that the other side decodes, both sides can read what the other wrote in one way at most, and the client's call
  then returns what the query text comes to on the server as the authenticated user: the rows, with the number of rows taken
  modulo \<open>2 ^ 64\<close> and without column types, or the printed error; SHOW DATABASES and USE included. There is such a run exactly when the
  server has an outcome for the text: when it does not panic and the fuel of the model is enough for its EXPLAIN ANALYZE.\<close>
theorem client_query_answered:
  fixes c :: client_conn and default_database :: string
  defines "name \<equiv> if cc_database c = [] then default_database else cc_database c"
  assumes "database_of cn name = Some db" "authenticate SE cert db (cc_username c) (cc_password c) = (user, True)"
    and "om_ok (sm_active_sessions (cn_sessions cn))" "create_session user (cn_sessions cn) = (token, sm)"
    and "crosses (ce_encode CE) (se_decode SE) (MsgAuth (cc_username c) (cc_password c) (cc_database c))"
    and "crosses (ce_encode CE) (se_decode SE) (MsgQuery sql token)"
    and "crosses (se_encode SE) (ce_decode CE) (SrvAuthResult True token None)"
    and "\<forall>cn' r. query_outcome SE sql name user db (cn\<lparr>cn_sessions := sm\<rparr>) = Some (cn', r) \<longrightarrow>
      crosses (se_encode SE) (ce_decode CE) (outcome_message r)"
  shows "(\<exists>answers. \<forall>answers2 cn2 result.
      exchange SE CE default_database cert c sql cn answers2 cn2 result \<longleftrightarrow>
        answers2 = answers \<and>
        (\<exists>r. query_outcome SE sql name user db (cn\<lparr>cn_sessions := sm\<rparr>) = Some (cn2, r) \<and> result = client_view r)) \<and>
    (\<forall>L answers cn2 result. exchange SE CE default_database cert c sql cn answers cn2 result \<longrightarrow>
      open_bi L = Inr \<lparr>st_in = answers, st_out = [], st_writes = []\<rparr> \<longrightarrow> client_query CE L c sql = result)"
proof
  have "verify_token sm token = Some user" using assms(4,5) by (rule create_session_verifies)
  moreover have "database_of (cn\<lparr>cn_sessions := sm\<rparr>) name = Some db" using assms(2) by (simp add: database_of_def)
  ultimately obtain name' where h: "handle_message SE token user name (MsgQuery sql token) (cn\<lparr>cn_sessions := sm\<rparr>) =
      map_option (\<lambda>(cn', r). (cn', outcome_message r, name')) (query_outcome SE sql name user db (cn\<lparr>cn_sessions := sm\<rparr>))"
    using query_handled [of "cn\<lparr>cn_sessions := sm\<rparr>" token user name db SE sql token] by auto
  note ex = exchange_answered [OF assms(2) [unfolded name_def] assms(3,5-8)]
  show "\<exists>answers. \<forall>answers2 cn2 result.
      exchange SE CE default_database cert c sql cn answers2 cn2 result \<longleftrightarrow>
        answers2 = answers \<and>
        (\<exists>r. query_outcome SE sql name user db (cn\<lparr>cn_sessions := sm\<rparr>) = Some (cn2, r) \<and> result = client_view r)"
  proof (cases "query_outcome SE sql name user db (cn\<lparr>cn_sessions := sm\<rparr>)")
    case None
    then show ?thesis using ex(1) h by (simp add: name_def)
  next
    case (Some x)
    obtain cn' r where x: "x = (cn', r)" by fastforce
    have "handle_message SE token user name (MsgQuery sql token) (cn\<lparr>cn_sessions := sm\<rparr>) = Some (cn', outcome_message r, name')"
      using h Some x by simp
    then obtain answers where "\<forall>answers2 cn2 result.
        exchange SE CE default_database cert c sql cn answers2 cn2 result \<longleftrightarrow>
          answers2 = answers \<and> cn2 = cn' \<and> result = query_answer (outcome_message r)"
      using ex(2) assms(9) Some x unfolding name_def by blast
    then show ?thesis using Some x by (auto simp: outcome_viewed)
  qed
  show "\<forall>L answers cn2 result. exchange SE CE default_database cert c sql cn answers cn2 result \<longrightarrow>
      open_bi L = Inr \<lparr>st_in = answers, st_out = [], st_writes = []\<rparr> \<longrightarrow> client_query CE L c sql = result"
    by (auto simp: exchange_def client_query_def)
qed

definition sample_client :: client_conn where
  "sample_client = \<lparr>cc_username = ''ann'', cc_password = ''pw'', cc_database = [],
     cc_tls = \<lparr>tc_server_check = TrustedRoots, tc_client_auth = False\<rparr>\<rparr>"

definition sample_answer :: query_result where
  "sample_answer = one_column ''table_name'' (map tb_name (db_tables (with_user ''ann''))) 0"

definition sample_client_env :: client_env where
  "sample_client_env =
     \<lparr>ce_encode = (\<lambda>m. case m of MsgAuth _ _ _ \<Rightarrow> Inr [1] | _ \<Rightarrow> Inr [2]),
      ce_decode = (\<lambda>b. if b = [3] then Inr (SrvAuthResult True 1 None) else Inr (query_message (Inr sample_answer))),
      ce_io_error = []\<rparr>"

definition sample_server_env :: session_env where
  "sample_server_env =
     (sample_session_env [] (\<lambda>b. if b = [1] then Inr (MsgAuth ''ann'' ''pw'' []) else Inr (MsgQuery ''SHOW TABLES'' 1)))
       \<lparr>se_encode := \<lambda>m. case m of SrvAuthResult _ _ _ \<Rightarrow> Inr [3] | _ \<Rightarrow> Inr [4]\<rparr>"

theorem client_query_answered_witness:
  "\<exists>answers cn'. exchange sample_server_env sample_client_env ''default'' None sample_client ''SHOW TABLES''
     sample_connection answers cn' (Inr (sample_answer\<lparr>qr_column_types := []\<rparr>))"
proof -
  let ?name = "if cc_database sample_client = [] then ''default'' else cc_database sample_client"
  let ?sm = "snd (create_session ''ann'' (cn_sessions sample_connection))"
  let ?cn = "sample_connection\<lparr>cn_sessions := ?sm\<rparr>"
  have name: "?name = ''default''" by (simp add: sample_client_def)
  have db: "database_of sample_connection ?name = Some (with_user ''ann'')"
    by (simp add: name database_of_def sample_connection_def)
  have "verify_user sample_argon (with_user ''ann'') ''ann'' ''pw''"
    unfolding verify_user_def verify_login_def with_user_def by (simp add: get_user_def, code_simp)
  then have auth: "authenticate sample_server_env None (with_user ''ann'') (cc_username sample_client)
      (cc_password sample_client) = (''ann'', True)"
    by (simp add: authenticate_def sample_server_env_def sample_session_env_def sample_client_def)
  have ok: "om_ok (sm_active_sessions (cn_sessions sample_connection))"
    using om.ok_empty by (simp add: sample_connection_def session_manager_new_def)
  have session: "create_session ''ann'' (cn_sessions sample_connection) = (1, ?sm)"
    by (simp add: sample_connection_def create_session_def session_manager_new_def)
  have sql: "to_uppercase (trim_statement ''SHOW TABLES'') \<noteq> ''SHOW DATABASES''"
    "\<not> starts_with ''USE '' (to_uppercase (trim_statement ''SHOW TABLES''))"
    by code_simp+
  have "parse refusing_front ''SHOW TABLES'' = Some (Inr [StShowTables])" by code_simp
  then obtain cn' where e: "execute_sql_as sample_server_env ''SHOW TABLES'' ?name (Some ''ann'') (with_user ''ann'') ?cn =
      Some (cn', Inr sample_answer)"
    by (simp add: execute_sql_as_def execute_statement_def name sample_server_env_def sample_session_env_def
        audit_def audit_action_def sample_answer_def)
  have out: "query_outcome sample_server_env ''SHOW TABLES'' ?name ''ann'' (with_user ''ann'') ?cn = Some (cn', Inr sample_answer)"
    using sql e by (simp add: query_outcome_def Let_def)
  have x: "crosses (ce_encode sample_client_env) (se_decode sample_server_env)
      (MsgAuth (cc_username sample_client) (cc_password sample_client) (cc_database sample_client))"
    "crosses (ce_encode sample_client_env) (se_decode sample_server_env) (MsgQuery ''SHOW TABLES'' 1)"
    "crosses (se_encode sample_server_env) (ce_decode sample_client_env) (SrvAuthResult True 1 None)"
    "crosses (se_encode sample_server_env) (ce_decode sample_client_env) (outcome_message (Inr sample_answer))"
    by (simp_all add: crosses_def sample_client_env_def sample_server_env_def sample_session_env_def sample_client_def
        query_message_def outcome_message_def)
  have y: "\<forall>c2 r. query_outcome sample_server_env ''SHOW TABLES'' ?name ''ann'' (with_user ''ann'') ?cn = Some (c2, r) \<longrightarrow>
      crosses (se_encode sample_server_env) (ce_decode sample_client_env) (outcome_message r)"
    using out x(4) by simp
  have "client_view (Inr sample_answer) = Inr (sample_answer\<lparr>qr_column_types := []\<rparr>)"
    by (simp add: client_view_def sample_answer_def one_column_def)
  then show ?thesis
    using conjunct1 [OF client_query_answered [OF db auth ok session x(1-3) y]] out by auto
qed

end
