(* ===== verification/Structured_Props.thy ===== *)
theory Structured_Props
  imports Service
begin

text \<open>
  Structured queries compared with SQL: a find without relations is the plan of a SELECT, and integers
  of a JSON object become column values by other rules than those of an INSERT.
\<close>

subsection \<open>Queries\<close>

definition select_of :: "find_many_input \<Rightarrow> expression option \<Rightarrow> select_statement" where
  "select_of input wc =
     \<lparr>ss_table_name = fm_from input,
      ss_columns = (case fm_select input of None \<Rightarrow> [Wildcard] | Some names \<Rightarrow> map (\<lambda>n. Expr (Column n)) names),
      ss_where_clause = wc, ss_order_by = map order_by_of (fm_order_by input), ss_limit = fm_take input,
      ss_offset = fm_skip input, ss_joins = []\<rparr>"

lemma resolve_known_columns:
  assumes "\<forall>n \<in> set names. column_index t n \<noteq> None"
  shows "try_map (resolve_item [(name, tb_columns t)]) (map (\<lambda>n. Expr (Column n)) names) =
    Inr (map (\<lambda>i. ([i], False)) (List.map_filter (column_index t) names))"
  using assms
  by (induction names)
    (auto simp: resolve_item_def resolve_unqualified_column_def column_position_def column_index_def)

lemma projected_known_columns:
  "projected_columns (Some names) (tb_columns t) n = List.map_filter (column_index t) names"
  by (simp add: projected_columns_def column_index_def [abs_def])

lemma resolve_selected:
  assumes "\<forall>names. sel = Some names \<longrightarrow> names \<noteq> [] \<and> (\<forall>n \<in> set names. column_index t n \<noteq> None)"
  shows "resolve_select_columns (case sel of None \<Rightarrow> [Wildcard] | Some names \<Rightarrow> map (\<lambda>n. Expr (Column n)) names)
      [(name, tb_columns t)] (length (tb_columns t)) =
    Inr (projected_columns sel (tb_columns t) (length (tb_columns t)))"
proof (cases sel)
  case None
  then show ?thesis by (simp add: resolve_select_columns_def resolve_item_def projected_columns_def)
next
  case (Some names)
  then obtain n ns i where "names = n # ns" "column_index t n = Some i" using assms by (cases names) auto
  then show ?thesis
    using Some assms resolve_known_columns [of names t name]
    by (simp add: resolve_select_columns_def projected_known_columns list_ex_iff comp_def)
qed

text \<open>The selected names that are columns of the table, and the find that selects only them.\<close>

definition known_names :: "table list \<Rightarrow> find_many_input \<Rightarrow> string list option" where
  "known_names tables input =
     (case find (\<lambda>t. tb_name t = fm_from input) tables of
        None \<Rightarrow> fm_select input
      | Some t \<Rightarrow> map_option (filter (\<lambda>n. column_index t n \<noteq> None)) (fm_select input))"

lemma map_filter_known: "List.map_filter f (filter (\<lambda>n. f n \<noteq> None) names) = List.map_filter f names"
  by (induction names) auto

lemma projected_known:
  "projected_columns (map_option (filter (\<lambda>n. column_index t n \<noteq> None)) sel) (tb_columns t) n =
   projected_columns sel (tb_columns t) n"
  by (cases sel) (simp add: projected_columns_def, simp add: projected_known_columns map_filter_known del: not_None_eq)

text \<open>A name that is no column makes a SELECT fail with the first such name.\<close>

lemma resolve_unknown:
  assumes "n \<in> set names" "column_index t n = None"
  shows "\<exists>m. try_map (resolve_item [(name, tb_columns t)]) (map (\<lambda>n. Expr (Column n)) names) = Inl (ColumnNotFound m)"
  using assms
proof (induction names)
  case (Cons x xs)
  show ?case
  proof (cases "column_index t x")
    case None
    then show ?thesis
      by (simp add: resolve_item_def resolve_unqualified_column_def column_position_def column_index_def)
  next
    case (Some i)
    then show ?thesis using Cons
      by (auto simp: resolve_item_def resolve_unqualified_column_def column_position_def column_index_def)
  qed
qed simp

lemma plan_found:
  assumes "fm_include input = []" "parse_where_clause_opt (fm_where input) = Inr wc"
    and "find (\<lambda>t. tb_name t = fm_from input) tables = Some t"
  shows "build_find_many_plan input tables = Inr (Projection
      (with_limit (fm_take input) (fm_skip input) (with_order (fm_order_by input)
        (case wc of None \<Rightarrow> bare_table_scan (fm_from input) (tb_columns t)
         | Some c \<Rightarrow> Filter (bare_table_scan (fm_from input) (tb_columns t)) c)))
      (projected_columns (fm_select input) (tb_columns t) (length (tb_columns t))) [(fm_from input, tb_columns t)])"
  using assms by (simp add: build_find_many_plan_def find_table_meta_def Let_def split: option.split)

text \<open>C28: a find without relations is the SELECT of the names it selects that are columns of its table, with the
  condition, order, limit and offset of the query, and fails with the same error when the table does not exist. The
  names that are no columns are dropped, where the SELECT of all names is refused; and when no name is left the plan
  projects onto no column at all.\<close>
theorem structured_as_select:
  assumes "fm_include input = []" "parse_where_clause_opt (fm_where input) = Inr wc"
  shows "(known_names tables input \<noteq> Some [] \<longrightarrow>
      build_find_many_plan input tables = plan_select (select_of (input\<lparr>fm_select := known_names tables input\<rparr>) wc) tables) \<and>
    (\<forall>t names n. find (\<lambda>t. tb_name t = fm_from input) tables = Some t \<longrightarrow> fm_select input = Some names \<longrightarrow>
      n \<in> set names \<longrightarrow> column_index t n = None \<longrightarrow>
      (\<exists>m. plan_select (select_of input wc) tables = Inl (ColumnNotFound m))) \<and>
    (\<forall>t. find (\<lambda>t. tb_name t = fm_from input) tables = Some t \<longrightarrow> known_names tables input = Some [] \<longrightarrow>
      (\<exists>plan. build_find_many_plan input tables = Inr (Projection plan [] [(fm_from input, tb_columns t)])))"
proof (cases "find (\<lambda>t. tb_name t = fm_from input) tables")
  case None
  then show ?thesis
    by (simp add: build_find_many_plan_def plan_select_def select_of_def find_table_meta_def Planner.find_table_def)
next
  case (Some t)
  have name: "tb_name t = fm_from input" using Some by (auto simp: find_Some_iff)
  have kn: "known_names tables input = map_option (filter (\<lambda>n. column_index t n \<noteq> None)) (fm_select input)"
    using Some by (simp add: known_names_def)
  note plan = plan_found [OF assms Some]
  have "build_find_many_plan input tables = plan_select (select_of (input\<lparr>fm_select := known_names tables input\<rparr>) wc) tables"
    if k: "known_names tables input \<noteq> Some []"
  proof -
    have "\<forall>names. known_names tables input = Some names \<longrightarrow> names \<noteq> [] \<and> (\<forall>n \<in> set names. column_index t n \<noteq> None)"
      using k kn by auto
    from resolve_selected [OF this, of "fm_from input"]
    have "resolve_select_columns (ss_columns (select_of (input\<lparr>fm_select := known_names tables input\<rparr>) wc))
        [(fm_from input, tb_columns t)] (length (tb_columns t)) =
        Inr (projected_columns (known_names tables input) (tb_columns t) (length (tb_columns t)))"
      by (simp add: select_of_def)
    also have "projected_columns (known_names tables input) (tb_columns t) (length (tb_columns t)) =
        projected_columns (fm_select input) (tb_columns t) (length (tb_columns t))"
      unfolding kn by (rule projected_known)
    finally have "resolve_select_columns (ss_columns (select_of (input\<lparr>fm_select := known_names tables input\<rparr>) wc))
        [(fm_from input, tb_columns t)] (length (tb_columns t)) =
        Inr (projected_columns (fm_select input) (tb_columns t) (length (tb_columns t)))" .
    then show ?thesis
      using Some name plan
      by (simp add: plan_select_def Planner.find_table_def select_of_def resolve_table_list_def bare_table_scan_def
          bare_scan_def with_limit_def with_order_def Let_def split: option.split)
  qed
  moreover have "\<exists>m. plan_select (select_of input wc) tables = Inl (ColumnNotFound m)"
    if n: "fm_select input = Some names" "n \<in> set names" "column_index t n = None" for names n
  proof -
    obtain m where "try_map (resolve_item [(fm_from input, tb_columns t)]) (map (\<lambda>n. Expr (Column n)) names) =
        Inl (ColumnNotFound m)"
      using resolve_unknown [OF n(2,3)] by blast
    moreover have "names \<noteq> []" using n(2) by auto
    ultimately show ?thesis using Some name n(1)
      by (simp add: plan_select_def Planner.find_table_def select_of_def resolve_table_list_def resolve_select_columns_def
          Let_def)
  qed
  moreover have "projected_columns (fm_select input) (tb_columns t) (length (tb_columns t)) = []"
    if "known_names tables input = Some []"
  proof -
    have "projected_columns (known_names tables input) (tb_columns t) (length (tb_columns t)) = []"
      unfolding that by (simp add: projected_columns_def List.map_filter_def)
    then show ?thesis unfolding kn projected_known .
  qed
  ultimately show ?thesis using Some plan by simp
qed

theorem structured_as_select_witness:
  "build_find_many_plan
     \<lparr>fm_from = ''a'', fm_where = Some (JObject [(''x'', JObject [(''gte'', JNumber (NumInt (Some 2) (Some 2) 0 ''2''))])]),
      fm_select = Some [''X''], fm_include = [], fm_order_by = [], fm_take = Some 1, fm_skip = None\<rparr>
     [int_table ''a'' ''x'' [1, 2]] =
   Inr (Projection (Limit (Filter (TableScan ''a'' [column_new ''x'' TyInteger] None None None)
     (BinaryOp (Column ''x'') OpGe (Literal (DBigInt 2)))) 1 0) [0] [(''a'', [column_new ''x'' TyInteger])])"
proof -
  let ?w = "Some (JObject [(''x'', JObject [(''gte'', JNumber (NumInt (Some 2) (Some 2) 0 ''2''))])])"
  let ?input = "\<lparr>fm_from = ''a'', fm_where = ?w, fm_select = Some [''X''], fm_include = [], fm_order_by = [],
    fm_take = Some 1, fm_skip = None\<rparr>"
  let ?c = "BinaryOp (Column ''x'') OpGe (Literal (DBigInt 2))"
  have name: "eq_ignore_ascii_case ''x'' ''X''" by code_simp
  have w: "parse_where_clause_opt (fm_where ?input) = Inr (Some ?c)"
    by (simp add: parse_where_clause_opt_def parse_where_opt.simps json_array_def parse_field_condition_def
        parse_operator_condition_def json_to_datum_def number_datum_def num_i64_or_zero_def binary_op_def
        combine_and_def combine_with_def)
  have s: "known_names [int_table ''a'' ''x'' [1, 2]] ?input = Some [''X'']"
    using name by (simp add: known_names_def int_table_def column_index_def column_new_def)
  have "?input\<lparr>fm_select := Some [''X'']\<rparr> = ?input" by simp
  then show ?thesis
    using structured_as_select [OF _ w, of "[int_table ''a'' ''x'' [1, 2]]"] name s
    by (simp add: plan_select_def select_of_def Planner.find_table_def int_table_def bare_scan_def
        resolve_table_list_def resolve_select_columns_def resolve_item_def resolve_unqualified_column_def
        column_position_def column_new_def)
qed

subsection \<open>Integers\<close>

lemma sint_low_word: "sint (ucast i :: i32) = (sint i + 2 ^ 31) mod 2 ^ 32 - 2 ^ 31" for i :: i64
proof -
  have "sint (ucast i :: i32) = signed_take_bit 31 (sint i)"
    by (simp add: sint_uint unsigned_ucast_eq signed_take_bit_take_bit take_bit_signed_take_bit)
  then show ?thesis
    by (simp add: signed_take_bit_eq_take_bit_shift take_bit_eq_mod)
qed

text \<open>integers of a JSON object. A number stored in an INTEGER column keeps its low 32 bits, so that it is
  changed when it does not fit, while the INSERT statement refuses it; stored in a BIGINT column it is
  the number itself; and a number that is no \<open>i64\<close> becomes 0.\<close>
theorem json_integers:
  "\<exists>v. json_value_to_datum (JNumber (NumInt (Some i) u d s)) TyInteger = DInteger v \<and>
      sint v = (sint i + 2 ^ 31) mod 2 ^ 32 - 2 ^ 31 \<and>
      (coerce_datum X (DBigInt i) TyInteger = Inr (DInteger v) \<longleftrightarrow> sint v = sint i) \<and>
    json_value_to_datum (JNumber (NumInt (Some i) u d s)) TyBigInt = DBigInt i \<and>
    json_value_to_datum (JNumber (NumInt None u d s)) TyBigInt = DBigInt 0 \<and>
    json_value_to_datum (JNumber (NumFloat d s)) TyInteger = DInteger 0"
proof (intro exI [of _ "ucast i :: i32"] conjI)
  let ?x = "sint i"
  have "(?x + 2 ^ 31) mod 2 ^ 32 - 2 ^ 31 = ?x \<longleftrightarrow> - (2 ^ 31) \<le> ?x \<and> ?x \<le> 2 ^ 31 - 1"
    using pos_mod_bound [of "2 ^ 32" "?x + 2 ^ 31"] pos_mod_sign [of "2 ^ 32" "?x + 2 ^ 31"]
      mod_pos_pos_trivial [of "?x + 2 ^ 31" "2 ^ 32"] by auto
  then show "coerce_datum X (DBigInt i) TyInteger = Inr (DInteger (ucast i)) \<longleftrightarrow> sint (ucast i :: i32) = ?x"
    by (simp add: coerce_datum_def sint_low_word)
qed (simp_all add: json_value_to_datum_def num_i64_or_zero_def sint_low_word)

subsection \<open>Values that no check has seen\<close>

text \<open>
  A create enters its row without \<open>validate_row\<close>, which only the planner of INSERT calls: here the key is left
  out, so the primary key is NULL. The commit accepts the row; replay refuses it, and the row with the log
  index of the next one takes its place, so that later records address other rows than they did in memory.
\<close>

lemma unvalidated_create:
  "create_values (table_new ''t'' sample_columns) ''t'' [(''mail'', JString ''a'')] = Inr [DNull, DText ''a''] \<and>
   map row_count (foldl apply_wal_record []
     [WCreateTable ''t'' sample_columns, WInsert ''t'' \<lparr>row_values = [DNull, DText ''a'']\<rparr> 1, WCommit 1]) = [0] \<and>
   map (\<lambda>e. we_row_idx e) (the (case insert_entries ''t'' [\<lparr>row_values = [DInteger 7, DText ''b'']\<rparr>]
     [set_chain 0 [new_insert 1 \<lparr>row_values = [DNull, DText ''a'']\<rparr>]
       ((table_new ''t'' sample_columns)\<lparr>tb_version_chains := [[]]\<rparr>)] of Inl e \<Rightarrow> None | Inr es \<Rightarrow> Some es)) = [1]"
  by (intro conjI; code_simp)

end
