(* ===== verification/Explain_Props.thy ===== *)
theory Explain_Props
  imports Session_Props
begin

text \<open>
  EXPLAIN ANALYZE executes the statement it holds, which can be an EXPLAIN ANALYZE again. How many of them
  stand one inside the other decides how the execution ends: the length of that chain is the fuel it needs, and the last
  statement of the chain is the one that takes effect.
\<close>

text \<open>The engine's own entry: the text behind EXPLAIN or EXPLAIN ANALYZE, of which the first statement is executed.\<close>

definition explain_with_mode ::
    "sql_front \<Rightarrow> nat \<Rightarrow> exec_plan \<Rightarrow> string \<Rightarrow> bool \<Rightarrow> string option \<Rightarrow> database \<Rightarrow> outcome" where
  "explain_with_mode F fuel XP sql analyze current_user db =
     (case parse F ((if analyze then ''EXPLAIN ANALYZE '' else ''EXPLAIN '') @ sql) of
        None \<Rightarrow> None
      | Some (Inl e) \<Rightarrow> Some (db, Inl e)
      | Some (Inr []) \<Rightarrow> Some (db, Inl (Parse ''Expected SQL statement to explain''))
      | Some (Inr (stmt # _)) \<Rightarrow> execute_statement fuel XP current_user stmt db)"

subsection \<open>Chains of EXPLAIN ANALYZE\<close>

text \<open>The plan that a plan executes inside itself.\<close>

definition analyzed :: "exec_plan \<Rightarrow> table list \<Rightarrow> logical_plan \<Rightarrow> logical_plan option" where
  "analyzed XP tables plan =
     (case plan of
        Flat (PlanExplain True v s) \<Rightarrow>
          (case explained_plan XP s tables of Some (Inr inner) \<Rightarrow> Some inner | _ \<Rightarrow> None)
      | _ \<Rightarrow> None)"

text \<open>The chain from a plan has at most so many EXPLAIN ANALYZE; the plan at the end of it.\<close>

fun chain_ends :: "exec_plan \<Rightarrow> table list \<Rightarrow> nat \<Rightarrow> logical_plan \<Rightarrow> bool" where
  "chain_ends XP tables 0 plan = (analyzed XP tables plan = None)"
| "chain_ends XP tables (Suc n) plan =
     (case analyzed XP tables plan of None \<Rightarrow> True | Some inner \<Rightarrow> chain_ends XP tables n inner)"

fun innermost :: "exec_plan \<Rightarrow> table list \<Rightarrow> nat \<Rightarrow> logical_plan \<Rightarrow> logical_plan" where
  "innermost XP tables 0 plan = plan"
| "innermost XP tables (Suc n) plan =
     (case analyzed XP tables plan of None \<Rightarrow> plan | Some inner \<Rightarrow> innermost XP tables n inner)"

text \<open>What an outcome does: a panic, or the database it leaves with the error it reports.\<close>

definition effect :: "outcome \<Rightarrow> (database \<times> helion_error option) option" where
  "effect = map_option (\<lambda>(db, r). (db, case r of Inl e \<Rightarrow> Some e | Inr _ \<Rightarrow> None))"

lemma analyzed_Some:
  "analyzed XP tables plan = Some inner \<longleftrightarrow>
     (\<exists>v s. plan = Flat (PlanExplain True v s) \<and> explained_plan XP s tables = Some (Inr inner))"
  by (auto simp: analyzed_def split: logical_plan.splits flat_plan.splits bool.splits option.splits sum.splits)

lemma execute_analyzed:
  assumes "analyzed XP (db_tables db) plan = Some inner"
  shows "execute_as 0 XP user plan db = None"
    and "\<exists>f. execute_as (Suc n) XP user plan db =
      map_option (\<lambda>(db', r). (db', and_then r (\<lambda>q. Inr (f q)))) (execute_as n XP user inner db)"
proof -
  obtain v s where "plan = Flat (PlanExplain True v s)" "explained_plan XP s (db_tables db) = Some (Inr inner)"
    using assms by (auto simp: analyzed_Some)
  then show "execute_as 0 XP user plan db = None"
    and "\<exists>f. execute_as (Suc n) XP user plan db =
      map_option (\<lambda>(db', r). (db', and_then r (\<lambda>q. Inr (f q)))) (execute_as n XP user inner db)"
    by (auto split: option.splits)
qed

lemma effect_wrapped: "effect (map_option (\<lambda>(db', r). (db', and_then r (\<lambda>q. Inr (f q)))) x) = effect x"
  by (cases x) (auto simp: effect_def and_then_def split: sum.splits)

lemma execute_plain:
  assumes "analyzed XP (db_tables db) plan = None"
  shows "execute_as fuel XP user plan db = execute_as 0 XP user plan db"
proof (cases plan)
  case (Flat p)
  then show ?thesis
    using assms by (cases p) (auto simp: analyzed_def split: option.splits sum.splits bool.splits)
qed auto

lemma execute_chain:
  "chain_ends XP (db_tables db) n plan \<Longrightarrow> n \<le> fuel \<Longrightarrow>
     execute_as fuel XP user plan db = execute_as n XP user plan db \<and>
     effect (execute_as n XP user plan db) = effect (execute_as 0 XP user (innermost XP (db_tables db) n plan) db)"
proof (induction n arbitrary: plan fuel)
  case 0
  then show ?case using execute_plain [of XP db plan fuel] by simp
next
  case (Suc n)
  show ?case
  proof (cases "analyzed XP (db_tables db) plan")
    case None
    then show ?thesis using execute_plain [OF None, of fuel user] execute_plain [OF None, of "Suc n" user] by simp
  next
    case (Some inner)
    obtain v s where p: "plan = Flat (PlanExplain True v s)" "explained_plan XP s (db_tables db) = Some (Inr inner)"
      using Some by (auto simp: analyzed_Some)
    obtain m where m: "fuel = Suc m" "n \<le> m" using Suc.prems(2) by (cases fuel) auto
    have ih: "execute_as m XP user inner db = execute_as n XP user inner db"
        "effect (execute_as n XP user inner db) = effect (execute_as 0 XP user (innermost XP (db_tables db) n inner) db)"
      using Suc.IH [OF _ m(2), of inner] Suc.prems(1) Some by simp_all
    have "execute_as fuel XP user plan db = execute_as (Suc n) XP user plan db"
      using p m ih(1) by simp
    moreover obtain f where "execute_as (Suc n) XP user plan db =
        map_option (\<lambda>(db', r). (db', and_then r (\<lambda>q. Inr (f q)))) (execute_as n XP user inner db)"
      using execute_analyzed(2) [OF Some] by blast
    ultimately show ?thesis using ih(2) Some by (simp add: effect_wrapped)
  qed
qed

lemma endless_chain: "(\<And>n. \<not> chain_ends XP (db_tables db) n plan) \<Longrightarrow> execute_as fuel XP user plan db = None"
proof (induction fuel arbitrary: plan)
  case 0
  then have "analyzed XP (db_tables db) plan \<noteq> None" using chain_ends.simps(1) by blast
  then show ?case using execute_analyzed(1) by blast
next
  case (Suc fuel)
  obtain inner where inner: "analyzed XP (db_tables db) plan = Some inner" using Suc.prems [of 0] by auto
  have "\<not> chain_ends XP (db_tables db) n inner" for n using Suc.prems [of "Suc n"] inner by simp
  then have "execute_as fuel XP user inner db = None" by (rule Suc.IH)
  then show ?case using execute_analyzed(2) [OF inner, of fuel user] by auto
qed

text \<open>C23: when EXPLAIN ANALYZE comes to an end. If the chain of statements that hold one another ends after n of
  them, execution has one outcome, the same with any fuel from n on, and its effect is that of the last statement of the
  chain executed on its own: the same database, the same error, the same panic. A statement that is no EXPLAIN ANALYZE needs no
  fuel. If the chain never ends, which only a parser that finds new statements for ever could bring about, no
  amount of fuel gives an outcome.\<close>
theorem explain_terminates:
  "(chain_ends XP (db_tables db) n plan \<longrightarrow>
     (\<exists>result. (\<forall>fuel \<ge> n. execute_as fuel XP user plan db = result) \<and>
        effect result = effect (execute_as 0 XP user (innermost XP (db_tables db) n plan) db) \<and>
        analyzed XP (db_tables db) (innermost XP (db_tables db) n plan) = None)) \<and>
   ((\<forall>a v s. plan \<noteq> Flat (PlanExplain a v s)) \<longrightarrow> chain_ends XP (db_tables db) 0 plan) \<and>
   ((\<forall>m. \<not> chain_ends XP (db_tables db) m plan) \<longrightarrow> (\<forall>fuel. execute_as fuel XP user plan db = None))"
proof (intro conjI impI)
  assume e: "chain_ends XP (db_tables db) n plan"
  have "analyzed XP (db_tables db) (innermost XP (db_tables db) n plan) = None"
    using e by (induction n arbitrary: plan) (auto split: option.splits)
  then show "\<exists>result. (\<forall>fuel \<ge> n. execute_as fuel XP user plan db = result) \<and>
        effect result = effect (execute_as 0 XP user (innermost XP (db_tables db) n plan) db) \<and>
        analyzed XP (db_tables db) (innermost XP (db_tables db) n plan) = None"
    using execute_chain [OF e] by blast
next
  assume "\<forall>a v s. plan \<noteq> Flat (PlanExplain a v s)"
  then show "chain_ends XP (db_tables db) 0 plan" by (cases "analyzed XP (db_tables db) plan") (auto simp: analyzed_Some)
next
  assume "\<forall>m. \<not> chain_ends XP (db_tables db) m plan"
  then show "\<forall>fuel. execute_as fuel XP user plan db = None" using endless_chain by blast
qed

definition explain_front :: sql_front where
  "explain_front = refusing_front\<lparr>sf_parse := \<lambda>s.
     if s = ''EXPLAIN ANALYZE SHOW TABLES'' then Inr [AstExplain True False ''SHOW TABLES''] else Inl []\<rparr>"

theorem explain_terminates_witness:
  "\<exists>q. \<forall>fuel \<ge> 2. execute_as fuel (sample_world []\<lparr>xp_front := explain_front\<rparr>) None
     (Flat (PlanExplain True False ''EXPLAIN ANALYZE SHOW TABLES'')) sample_database = Some (sample_database, Inr q)"
proof -
  let ?XP = "sample_world []\<lparr>xp_front := explain_front\<rparr>" and ?s = "''EXPLAIN ANALYZE SHOW TABLES''"
  have one: "parse explain_front ''SHOW TABLES'' = Some (Inr [StShowTables])"
    and two: "parse explain_front ?s = Some (Inr [StExplain True False ''SHOW TABLES''])" by code_simp+
  have ends: "chain_ends ?XP (db_tables sample_database) 2 (Flat (PlanExplain True False ?s))"
    by (simp add: numeral_2_eq_2 analyzed_def explained_plan_def one two)
  obtain result where r: "\<forall>fuel \<ge> 2. execute_as fuel ?XP None (Flat (PlanExplain True False ?s)) sample_database = result"
    using mp [OF conjunct1 [OF explain_terminates] ends, of None] by blast
  have "\<exists>q. execute_as 2 ?XP None (Flat (PlanExplain True False ?s)) sample_database = Some (sample_database, Inr q)"
    by (simp add: explained_plan_def one two numeral_2_eq_2)
  then show ?thesis using r by fastforce
qed

end
