(* ===== verification/Shell.thy ===== *)
theory Shell
  imports Client
begin

text \<open>
  The shell \<open>helionctl\<close> (\<open>src/src/bin/helionctl.rs\<close>, \<open>src/src/client/repl.rs\<close>, \<open>src/src/client/output.rs\<close>,
  \<open>src/src/client/cert.rs\<close>): printing results, the interactive loop with its commands, a single query, and
  the generation of certificates.

  Strings are their UTF-8 bytes, so that \<open>length\<close> is \<open>len()\<close>. What the terminal prints is a string. The
  transport, rcgen, the PEM parser and the file system are parameters; the arguments are those clap returns.
\<close>

subsection \<open>Printing results\<close>

definition bar :: string where "bar = map char_of [0xE2, 0x94, 0x82 :: nat]"
definition dash :: string where "dash = map char_of [0xE2, 0x94, 0x80 :: nat]"
definition cross :: string where "cross = map char_of [0xE2, 0x94, 0xBC :: nat]"

lemma length_marks [simp]: "length bar = 3" "length dash = 3" "length cross = 3"
  by (simp_all add: bar_def dash_def cross_def)

definition println :: "string \<Rightarrow> string" where
  "println s = s @ [CHR 0x0A]"

definition pad :: "string \<Rightarrow> nat \<Rightarrow> string" where
  "pad s width = (if length s \<ge> width then s else s @ replicate (width - length s) CHR '' '')"

definition widen :: "nat list \<Rightarrow> string list \<Rightarrow> nat list" where
  "widen widths row =
     foldl (\<lambda>ws (i, val). if i < length ws then ws[i := max (ws ! i) (length val)] else ws) widths (enumerate 0 row)"

definition column_widths :: "query_result \<Rightarrow> nat list" where
  "column_widths r = foldl widen (map length (qr_columns r)) (qr_rows r)"

definition cell :: "string \<Rightarrow> nat \<Rightarrow> string" where
  "cell s width = '' '' @ pad s width @ '' ''"

definition header_line :: "query_result \<Rightarrow> string" where
  "header_line r = '' '' @ join_with bar (map2 cell (qr_columns r) (column_widths r))"

definition separator_line :: "query_result \<Rightarrow> string" where
  "separator_line r =
     dash @ join_with cross (map (\<lambda>w. concat (replicate (w + 2) dash)) (column_widths r)) @ dash"

definition row_line :: "query_result \<Rightarrow> string list \<Rightarrow> string" where
  "row_line r row =
     '' '' @ join_with bar (map (\<lambda>i. cell (case nth_opt row i of Some s \<Rightarrow> s | None \<Rightarrow> []) (column_widths r ! i))
       [0..<length (qr_columns r)])"

definition print_table :: "query_result \<Rightarrow> string" where
  "print_table r =
     (if qr_columns r = [] then []
      else println (header_line r) @ println (separator_line r) @ concat (map (\<lambda>row. println (row_line r row)) (qr_rows r)))"

definition one_record :: "string list \<Rightarrow> nat \<Rightarrow> string list \<Rightarrow> string" where
  "one_record columns row_idx row =
     (if 0 < row_idx then println [] else []) @
     println (dash @ ''[ RECORD '' @ show_nat (row_idx + 1) @ '' ]'' @ dash) @
     concat (map (\<lambda>(col_idx, col_name).
       println (col_name @ '' | '' @ (case nth_opt row col_idx of Some s \<Rightarrow> s | None \<Rightarrow> ''NULL''))) (enumerate 0 columns))"

definition print_expanded :: "query_result \<Rightarrow> string" where
  "print_expanded r = concat (map (\<lambda>(row_idx, row). one_record (qr_columns r) row_idx row) (enumerate 0 (qr_rows r)))"

definition print_result :: "query_result \<Rightarrow> bool \<Rightarrow> string" where
  "print_result r expanded =
     (if qr_columns r = [] \<and> qr_rows r = [] \<and> qr_rows_affected r = 0 then []
      else if qr_columns r = []
      then (if qr_rows_affected r > 0 \<or> qr_rows r \<noteq> []
            then println (''INSERT 0 '' @ show_nat (if qr_rows_affected r > 0 then qr_rows_affected r else length (qr_rows r)))
            else [])
      else (if expanded then print_expanded r else print_table r) @
        println (''('' @ show_nat (length (qr_rows r)) @ '' '' @ (if length (qr_rows r) = 1 then ''row'' else ''rows'') @ '')''))"

subsection \<open>The interactive loop\<close>

record shell_env =
  sh_client :: client_env
  sh_links :: "nat \<Rightarrow> link"
  sh_dials :: "nat \<Rightarrow> dial"
  sh_ip :: string
  sh_port :: string

record repl =
  rp_conn :: client_conn
  rp_last_query :: "string option"
  rp_expanded :: bool
  rp_history :: "string list"
  rp_clock :: nat
  rp_output :: string

definition repl_new :: "client_conn \<Rightarrow> repl" where
  "repl_new conn = \<lparr>rp_conn = conn, rp_last_query = None, rp_expanded = False, rp_history = [], rp_clock = 0, rp_output = []\<rparr>"

definition print_out :: "string \<Rightarrow> repl \<Rightarrow> repl" where
  "print_out s rp = rp\<lparr>rp_output := rp_output rp @ s\<rparr>"

datatype action = Quit | Continue | ActionError string

text \<open>What \<open>readline\<close> returns; the end of the list is a user who has not typed on yet.\<close>

datatype readline = Line string | Interrupted | Eof | ReadError string

definition shell_query :: "shell_env \<Rightarrow> string \<Rightarrow> repl \<Rightarrow> repl" where
  "shell_query SH sql rp =
     (let rp1 = rp\<lparr>rp_clock := rp_clock rp + 1\<rparr> in
      case client_query (sh_client SH) (sh_links SH (rp_clock rp)) (rp_conn rp) sql of
        Inr result \<Rightarrow> print_out (print_result result (rp_expanded rp)) rp1
      | Inl e \<Rightarrow> print_out (println (''Error: '' @ error_display e)) rp1)"

definition slash :: "string \<Rightarrow> string" where
  "slash s = CHR 0x5C # s"

definition help_text :: string where
  "help_text =
     println ''HelionDB backslash commands:'' @
     println (''  '' @ slash ''q, '' @ slash ''quit    Quit the shell'') @
     println (''  '' @ slash ''?, '' @ slash ''h, '' @ slash ''help  Show this help'') @
     println (''  '' @ slash ''x           Toggle expanded (vertical) display'') @
     println (''  '' @ slash ''g           Re-run the last query'') @
     println (''  '' @ slash ''reconnect   Reconnect to the server'') @
     println [] @
     println ''All other input is treated as SQL and sent to the server.''"

definition handle_backslash :: "shell_env \<Rightarrow> string \<Rightarrow> repl \<Rightarrow> repl \<times> action" where
  "handle_backslash SH cmd rp =
     (let lower = to_lowercase cmd in
      if lower = slash ''q'' \<or> lower = slash ''quit'' then (rp, Quit)
      else if lower = slash ''?'' \<or> lower = slash ''h'' \<or> lower = slash ''help'' then (print_out help_text rp, Continue)
      else if lower = slash ''x''
      then (print_out (println (''Expanded display is '' @ (if \<not> rp_expanded rp then ''on'' else ''off'') @ ''.''))
              (rp\<lparr>rp_expanded := \<not> rp_expanded rp\<rparr>), Continue)
      else if lower = slash ''reconnect'' \<or> lower = slash ''connect''
      then (case reconnect (sh_dials SH (rp_clock rp)) of
              Inr _ \<Rightarrow> (print_out (println ''Reconnected to server.'') (rp\<lparr>rp_clock := rp_clock rp + 1\<rparr>), Continue)
            | Inl e \<Rightarrow> (rp\<lparr>rp_clock := rp_clock rp + 1\<rparr>, ActionError (''Reconnect failed: '' @ error_display e)))
      else if lower = slash ''g''
      then (case rp_last_query rp of
              Some sql \<Rightarrow> (shell_query SH sql rp, Continue)
            | None \<Rightarrow> (print_out (println ''No previous query.'') rp, Continue))
      else (rp, ActionError (''Unknown command: '' @ cmd @ ''. Try '' @ slash ''? for help.'')))"

definition type_line :: "shell_env \<Rightarrow> string \<Rightarrow> repl \<Rightarrow> repl \<times> bool" where
  "type_line SH line rp =
     (let trimmed = trim line in
      if trimmed = [] then (rp, False)
      else if hd trimmed = CHR 0x5C
      then (case handle_backslash SH trimmed rp of
              (rp1, Quit) \<Rightarrow> (rp1, True)
            | (rp1, Continue) \<Rightarrow> (rp1, False)
            | (rp1, ActionError msg) \<Rightarrow> (print_out (println (''Error: '' @ msg)) rp1, False))
      else (shell_query SH trimmed (rp\<lparr>rp_history := rp_history rp @ [line], rp_last_query := Some trimmed\<rparr>), False))"

text \<open>The flag tells whether the loop has ended, with the lines it has not read.\<close>

fun repl_loop :: "shell_env \<Rightarrow> readline list \<Rightarrow> repl \<Rightarrow> repl \<times> bool \<times> readline list" where
  "repl_loop SH [] rp = (rp, False, [])"
| "repl_loop SH (Line line # inputs) rp =
     (case type_line SH line rp of
        (rp1, True) \<Rightarrow> (rp1, True, inputs)
      | (rp1, False) \<Rightarrow> repl_loop SH inputs rp1)"
| "repl_loop SH (Interrupted # inputs) rp = repl_loop SH inputs (print_out (println (slash ''q to quit'')) rp)"
| "repl_loop SH (Eof # inputs) rp = (print_out (println []) rp, True, inputs)"
| "repl_loop SH (ReadError e # inputs) rp = (print_out (println (''Readline error: '' @ e)) rp, True, inputs)"

definition repl_run :: "shell_env \<Rightarrow> readline list \<Rightarrow> repl \<Rightarrow> repl \<times> bool \<times> readline list" where
  "repl_run SH inputs rp =
     repl_loop SH inputs
       (print_out (println (''HelionDB interactive shell ('' @ sh_ip SH @ '':'' @ sh_port SH @ '')'') @
          println (''Type '' @ slash ''? for help, '' @ slash ''q to quit.'' @ [CHR 0x0A])) rp)"

definition join_path :: "string \<Rightarrow> string \<Rightarrow> string" where
  "join_path base name =
     (if name \<noteq> [] \<and> hd name = CHR ''/'' \<or> base = [] then name
      else if last base = CHR ''/'' then base @ name else base @ ''/'' @ name)"

definition history_path :: "string option \<Rightarrow> string" where
  "history_path home = join_path (case home of Some h \<Rightarrow> h | None \<Rightarrow> ''.'') ''.helionctl_history''"

end
