(* ===== verification/Helionctl.thy ===== *)
theory Helionctl
  imports Shell
begin

text \<open>
  The commands of \<open>helionctl\<close> (\<open>src/src/bin/helionctl.rs\<close>): the shell, a single query, and the
  certificates of \<open>src/src/client/cert.rs\<close> with the files they are written to.

  An error of the anyhow crate is its text. Key generation, signing and PEM parsing are parameters;
  the file system is a map from paths to contents and one from paths to permission bits, with a plan
  of the operations that fail.
\<close>

subsection \<open>Files\<close>

record filesys =
  fs_files :: "string \<rightharpoonup> string"
  fs_modes :: "string \<rightharpoonup> nat"

record file_faults =
  ff_read :: "string \<Rightarrow> string"
  ff_write :: "string \<Rightarrow> string option"
  ff_chmod :: "string \<Rightarrow> string option"

text \<open>A new file gets the permissions of the process's umask, here \<open>0644\<close>; a file that exists keeps its own.\<close>

definition default_mode :: nat where "default_mode = 420"

definition owner_only :: nat where "owner_only = 384"

definition write_path :: "file_faults \<Rightarrow> string \<Rightarrow> string \<Rightarrow> filesys \<Rightarrow> filesys \<times> (string + unit)" where
  "write_path FF path contents s =
     (case ff_write FF path of
        Some e \<Rightarrow> (s, Inl e)
      | None \<Rightarrow>
          (s\<lparr>fs_files := (fs_files s)(path \<mapsto> contents),
             fs_modes := (if fs_files s path = None then (fs_modes s)(path \<mapsto> default_mode) else fs_modes s)\<rparr>, Inr ()))"

definition set_permissions :: "file_faults \<Rightarrow> string \<Rightarrow> nat \<Rightarrow> filesys \<Rightarrow> filesys \<times> (string + unit)" where
  "set_permissions FF path mode s =
     (case ff_chmod FF path of
        Some e \<Rightarrow> (s, Inl e)
      | None \<Rightarrow> (s\<lparr>fs_modes := (fs_modes s)(path \<mapsto> mode)\<rparr>, Inr ()))"

definition read_path :: "file_faults \<Rightarrow> string \<Rightarrow> filesys \<Rightarrow> string + string" where
  "read_path FF path s = (case fs_files s path of None \<Rightarrow> Inl (ff_read FF path) | Some c \<Rightarrow> Inr c)"

subsection \<open>Certificates\<close>

datatype key_usage = KeyCertSign | CrlSign | DigitalSignature | KeyEncipherment

datatype extended_usage = ServerAuth | ClientAuth

record cert_params =
  xp_names :: "string list"
  xp_common_name :: "string option"
  xp_is_ca :: bool
  xp_key_usages :: "key_usage list"
  xp_extended :: "extended_usage list"

record key_pair_pem =
  kp_cert_pem :: string
  kp_key_pem :: string

text \<open>rcgen: the fresh key, the check of the names, signing, and reading keys and certificates back.\<close>

record rcgen =
  rg_generate :: "string + string"
  rg_check :: "string list \<Rightarrow> string option"
  rg_self_signed :: "cert_params \<Rightarrow> string \<Rightarrow> string + string"
  rg_signed_by :: "cert_params \<Rightarrow> string \<Rightarrow> string \<Rightarrow> string \<Rightarrow> string + string"
  rg_key_pem :: "string \<Rightarrow> string"
  rg_read_key :: "string \<Rightarrow> string + string"
  rg_read_ca :: "string \<Rightarrow> string + cert_params"

definition cert_params_new :: "rcgen \<Rightarrow> string list \<Rightarrow> string + cert_params" where
  "cert_params_new RG names =
     (case rg_check RG names of
        Some e \<Rightarrow> Inl e
      | None \<Rightarrow> Inr \<lparr>xp_names = names, xp_common_name = None, xp_is_ca = False, xp_key_usages = [], xp_extended = []\<rparr>)"

definition generate_ca :: "rcgen \<Rightarrow> string \<Rightarrow> string + key_pair_pem" where
  "generate_ca RG common_name =
     and_then (rg_generate RG) (\<lambda>key.
     and_then (cert_params_new RG [common_name]) (\<lambda>params.
     and_then (rg_self_signed RG (params\<lparr>xp_common_name := Some common_name, xp_is_ca := True,
         xp_key_usages := [KeyCertSign, CrlSign]\<rparr>) key) (\<lambda>cert.
     Inr \<lparr>kp_cert_pem = cert, kp_key_pem = rg_key_pem RG key\<rparr>)))"

definition labelled :: "string \<Rightarrow> string + 'a \<Rightarrow> string + 'a" where
  "labelled what r = (case r of Inl e \<Rightarrow> Inl (what @ e) | Inr x \<Rightarrow> Inr x)"

definition load_ca :: "rcgen \<Rightarrow> string \<Rightarrow> string \<Rightarrow> string + (string \<times> string)" where
  "load_ca RG ca_cert_pem ca_key_pem =
     and_then (labelled ''Failed to parse CA key: '' (rg_read_key RG ca_key_pem)) (\<lambda>ca_key.
     and_then (labelled ''Failed to parse CA cert: '' (rg_read_ca RG ca_cert_pem)) (\<lambda>ca_params.
     and_then (labelled ''Failed to reconstruct CA cert: '' (rg_self_signed RG ca_params ca_key)) (\<lambda>ca_cert.
     Inr (ca_key, ca_cert))))"

definition generate_server :: "rcgen \<Rightarrow> string \<Rightarrow> string list \<Rightarrow> string \<Rightarrow> string \<Rightarrow> string + key_pair_pem" where
  "generate_server RG cn sans ca_cert_pem ca_key_pem =
     and_then (load_ca RG ca_cert_pem ca_key_pem) (\<lambda>(ca_key, ca_cert).
     and_then (rg_generate RG) (\<lambda>key.
     and_then (cert_params_new RG sans) (\<lambda>params.
     and_then (rg_signed_by RG (params\<lparr>xp_common_name := Some cn, xp_extended := [ServerAuth],
         xp_key_usages := [DigitalSignature, KeyEncipherment]\<rparr>) key ca_cert ca_key) (\<lambda>cert.
     Inr \<lparr>kp_cert_pem = cert, kp_key_pem = rg_key_pem RG key\<rparr>))))"

definition generate_client :: "rcgen \<Rightarrow> string \<Rightarrow> string \<Rightarrow> string \<Rightarrow> string + key_pair_pem" where
  "generate_client RG cn ca_cert_pem ca_key_pem =
     (if length cn > 255 then Inl (''Common Name too long ('' @ show_nat (length cn) @ '' chars, max 255)'')
      else if cn = [] then Inl ''Common Name cannot be empty''
      else
        and_then (load_ca RG ca_cert_pem ca_key_pem) (\<lambda>(ca_key, ca_cert).
        and_then (rg_generate RG) (\<lambda>key.
        and_then (cert_params_new RG [cn]) (\<lambda>params.
        and_then (rg_signed_by RG (params\<lparr>xp_common_name := Some cn, xp_extended := [ClientAuth],
            xp_key_usages := [DigitalSignature]\<rparr>) key ca_cert ca_key) (\<lambda>cert.
        Inr \<lparr>kp_cert_pem = cert, kp_key_pem = rg_key_pem RG key\<rparr>)))))"

definition write_key_pair :: "file_faults \<Rightarrow> string \<Rightarrow> string \<Rightarrow> key_pair_pem \<Rightarrow> filesys \<Rightarrow> filesys \<times> (string + unit)" where
  "write_key_pair FF cert_path key_path kp s =
     (case write_path FF cert_path (kp_cert_pem kp) s of
        (s1, Inl e) \<Rightarrow> (s1, Inl e)
      | (s1, Inr _) \<Rightarrow>
          (case write_path FF key_path (kp_key_pem kp) s1 of
             (s2, Inl e) \<Rightarrow> (s2, Inl e)
           | (s2, Inr _) \<Rightarrow> set_permissions FF key_path owner_only s2))"

datatype cert_action =
    CertCa string string string
  | CertServer string string string "string list" string string
  | CertClient string string string string string

definition store_pair ::
    "file_faults \<Rightarrow> string \<Rightarrow> string \<Rightarrow> string + key_pair_pem \<Rightarrow> string \<Rightarrow> filesys \<Rightarrow> filesys \<times> (string + string)" where
  "store_pair FF out key_out kp message s =
     (case kp of
        Inl e \<Rightarrow> (s, Inl e)
      | Inr pair \<Rightarrow>
          (case write_key_pair FF out key_out pair s of
             (s1, Inl e) \<Rightarrow> (s1, Inl e)
           | (s1, Inr _) \<Rightarrow> (s1, Inr message)))"

definition dq :: "string \<Rightarrow> string" where
  "dq s = CHR 0x22 # s @ [CHR 0x22]"

definition run_cert :: "rcgen \<Rightarrow> file_faults \<Rightarrow> string \<Rightarrow> cert_action \<Rightarrow> filesys \<Rightarrow> filesys \<times> (string + string)" where
  "run_cert RG FF program action s = (case action of
      CertCa cn out key_out \<Rightarrow>
        store_pair FF out key_out (generate_ca RG cn)
          (println (''CA certificate written to '' @ out) @ println (''CA key written to '' @ key_out) @ println [] @
           println ''WARNING: The CA private key is the root of trust for all'' @
           println ''certificates signed by it. Keep it secure and offline.'' @ println [] @
           println ''Next steps:'' @
           println (''  '' @ program @ '' cert server --ca '' @ out @ '' --ca-key '' @ key_out @ '' --cn heliondb.local'') @
           println (''  '' @ program @ '' cert client --ca '' @ out @ '' --ca-key '' @ key_out @ '' --cn <username>'')) s
    | CertServer ca ca_key cn san out key_out \<Rightarrow>
        store_pair FF out key_out
          (and_then (read_path FF ca s) (\<lambda>ca_pem. and_then (read_path FF ca_key s) (\<lambda>ca_key_pem.
             generate_server RG cn (if san = [] then [cn, ''localhost''] else san) ca_pem ca_key_pem)))
          (println (''Server certificate written to '' @ out) @ println (''Server key written to '' @ key_out) @ println [] @
           println ''Configure the server:'' @ println ''  [tls]'' @
           println (''  cert_path = '' @ dq out) @ println (''  key_path = '' @ dq key_out)) s
    | CertClient ca ca_key cn out key_out \<Rightarrow>
        store_pair FF out key_out
          (and_then (read_path FF ca s) (\<lambda>ca_pem. and_then (read_path FF ca_key s) (\<lambda>ca_key_pem.
             generate_client RG cn ca_pem ca_key_pem)))
          (println (''Client certificate written to '' @ out) @ println (''Client key written to '' @ key_out) @ println [] @
           println (''CN '' @ quoted cn @ '' can be used as the database username.'') @ println [] @
           println ''Connect with:'' @
           println (''  '' @ program @ '' --user '' @ cn @ '' --client-cert '' @ out @ '' --client-key '' @ key_out)) s)"

subsection \<open>Connecting\<close>

record connection_args =
  ca_host :: string
  ca_user :: string
  ca_password :: string
  ca_server_name :: string
  ca_database :: string
  ca_insecure :: bool
  ca_client_cert :: "string option"
  ca_client_key :: "string option"

definition default_args :: connection_args where
  "default_args = \<lparr>ca_host = ''127.0.0.1:9613'', ca_user = ''helion'', ca_password = [], ca_server_name = ''heliondb.local'',
     ca_database = ''default'', ca_insecure = False, ca_client_cert = None, ca_client_key = None\<rparr>"

record pem_reader =
  pm_certs :: "string \<Rightarrow> string + byte list list"
  pm_private_key :: "string \<Rightarrow> string + byte list option"

definition load_client_certs ::
    "pem_reader \<Rightarrow> file_faults \<Rightarrow> filesys \<Rightarrow> string option \<Rightarrow> string option \<Rightarrow> string + (byte list list \<times> byte list) option" where
  "load_client_certs PM FF s cert_path key_path = (case (cert_path, key_path) of
      (Some cert, Some key) \<Rightarrow>
        and_then (read_path FF cert s) (\<lambda>cert_bytes.
        and_then (read_path FF key s) (\<lambda>key_bytes.
        and_then (labelled ''Failed to parse client cert: '' (pm_certs PM cert_bytes)) (\<lambda>certs.
        and_then (labelled ''Failed to parse client key: '' (pm_private_key PM key_bytes)) (\<lambda>k.
        case k of None \<Rightarrow> Inl ''No private key found in client key file'' | Some private_key \<Rightarrow> Inr (Some (certs, private_key))))))
    | _ \<Rightarrow> Inr None)"

text \<open>The dial is that of the host and server name asked for.\<close>

record ctl_env =
  ct_shell :: shell_env
  ct_dial :: "string \<Rightarrow> string \<Rightarrow> dial"
  ct_pem :: pem_reader
  ct_faults :: file_faults
  ct_rcgen :: rcgen
  ct_program :: string

definition open_connection :: "ctl_env \<Rightarrow> filesys \<Rightarrow> connection_args \<Rightarrow> string + client_conn" where
  "open_connection CT s args =
     and_then (load_client_certs (ct_pem CT) (ct_faults CT) s (ca_client_cert args) (ca_client_key args)) (\<lambda>certs.
       case connect (ct_dial CT (ca_host args) (ca_server_name args)) (ca_user args) (ca_password args)
              (ca_database args) (ca_insecure args) (certs \<noteq> None) of
         Inl e \<Rightarrow> Inl (error_display e)
       | Inr conn \<Rightarrow> Inr conn)"

text \<open>What a run leaves: its standard output and its error output with the exit code 1.\<close>

record ctl_result =
  cr_output :: string
  cr_error :: "string option"

definition run_query :: "ctl_env \<Rightarrow> filesys \<Rightarrow> connection_args \<Rightarrow> string \<Rightarrow> ctl_result" where
  "run_query CT s args sql =
     (case open_connection CT s args of
        Inl e \<Rightarrow> \<lparr>cr_output = [], cr_error = Some (println (''Error: '' @ e))\<rparr>
      | Inr conn \<Rightarrow>
          (case client_query (sh_client (ct_shell CT)) (sh_links (ct_shell CT) 0) conn sql of
             Inr result \<Rightarrow> \<lparr>cr_output = print_result result False, cr_error = None\<rparr>
           | Inl e \<Rightarrow> \<lparr>cr_output = [], cr_error = Some (println (''Error: '' @ error_display e))\<rparr>))"

definition run_shell :: "ctl_env \<Rightarrow> filesys \<Rightarrow> connection_args \<Rightarrow> readline list \<Rightarrow> ctl_result" where
  "run_shell CT s args inputs =
     (case open_connection CT s args of
        Inl e \<Rightarrow> \<lparr>cr_output = [], cr_error = Some (println (''Error: '' @ e))\<rparr>
      | Inr conn \<Rightarrow> \<lparr>cr_output = rp_output (fst (repl_run (ct_shell CT) inputs (repl_new conn))), cr_error = None\<rparr>)"

datatype ctl_command = CtlShell connection_args | CtlQuery connection_args string | CtlCert cert_action

definition helionctl :: "ctl_env \<Rightarrow> ctl_command option \<Rightarrow> readline list \<Rightarrow> filesys \<Rightarrow> filesys \<times> ctl_result" where
  "helionctl CT command inputs s = (case command of
      Some (CtlCert action) \<Rightarrow>
        (case run_cert (ct_rcgen CT) (ct_faults CT) (ct_program CT) action s of
           (s1, Inl e) \<Rightarrow> (s1, \<lparr>cr_output = [], cr_error = Some (println (''Error: '' @ e))\<rparr>)
         | (s1, Inr output) \<Rightarrow> (s1, \<lparr>cr_output = output, cr_error = None\<rparr>))
    | Some (CtlQuery args sql) \<Rightarrow> (s, run_query CT s args sql)
    | Some (CtlShell args) \<Rightarrow> (s, run_shell CT s args inputs)
    | None \<Rightarrow> (s, run_shell CT s default_args inputs))"

end
