(* ===== verification/Startup.thy ===== *)
theory Startup
  imports Helionctl
begin

text \<open>
  Starting the server (\<open>src/src/main.rs\<close>, \<open>src/src/config.rs\<close>, \<open>src/src/server/quic.rs\<close>, \<open>src/src/metrics.rs\<close>):
  the configuration file and the command line, the databases that are opened, the TLS settings of the endpoint,
  and the text of the metrics page.

  The TOML parser, the PEM parser, rustls and quinn are parameters. An opened directory is its log files, its
  catalog file and the tables of the disk engine. The intervals of the checkpoint loop are only passed on.
\<close>

subsection \<open>Configuration\<close>

record server_section =
  sc_listen :: string
  sc_default_database :: string
  sc_max_streams :: u32
  sc_idle_timeout :: u64

record tls_section =
  tl_cert_path :: "string option"
  tl_key_path :: "string option"
  tl_client_ca :: "string option"
  tl_client_cert_required :: bool

record storage_section =
  so_data_dir :: string
  so_default_engine :: string
  so_durability :: string
  so_checkpoint_interval :: u64

record database_config =
  dc_name :: string
  dc_path :: string
  dc_engine :: "string option"

record server_configuration =
  cf_server :: server_section
  cf_tls :: tls_section
  cf_storage :: storage_section
  cf_metrics_port :: u16
  cf_database :: "database_config list"

definition server_default :: server_section where
  "server_default = \<lparr>sc_listen = ''127.0.0.1:9613'', sc_default_database = ''default'', sc_max_streams = 100, sc_idle_timeout = 30\<rparr>"

definition tls_default :: tls_section where
  "tls_default = \<lparr>tl_cert_path = None, tl_key_path = None, tl_client_ca = None, tl_client_cert_required = False\<rparr>"

definition storage_default :: storage_section where
  "storage_default = \<lparr>so_data_dir = ''./data'', so_default_engine = ''disk'', so_durability = ''async'', so_checkpoint_interval = 60\<rparr>"

definition config_default :: server_configuration where
  "config_default = \<lparr>cf_server = server_default, cf_tls = tls_default, cf_storage = storage_default, cf_metrics_port = 0, cf_database = []\<rparr>"

text \<open>A file that is missing or does not parse gives the defaults; both are only logged.\<close>

definition config_load ::
    "(string \<Rightarrow> string option) \<Rightarrow> (string \<Rightarrow> string + server_configuration) \<Rightarrow> string option \<Rightarrow> server_configuration" where
  "config_load read_file parse_toml path =
     (case read_file (case path of Some p \<Rightarrow> p | None \<Rightarrow> ''heliondb.toml'') of
        Some content \<Rightarrow> (case parse_toml content of Inr cfg \<Rightarrow> cfg | Inl _ \<Rightarrow> config_default)
      | None \<Rightarrow> config_default)"

definition or_else :: "string \<Rightarrow> string option \<Rightarrow> string" where
  "or_else d v = (case v of Some s \<Rightarrow> s | None \<Rightarrow> d)"

definition em_dash :: string where "em_dash = map char_of [0xE2, 0x80, 0x94 :: nat]"

definition config_display :: "server_configuration \<Rightarrow> string" where
  "config_display cfg =
     println ''Server:'' @
     println (''  listen:                  '' @ sc_listen (cf_server cfg)) @
     println (''  default_database:        '' @ sc_default_database (cf_server cfg)) @
     println (''  max_concurrent_streams:  '' @ show_nat (unat (sc_max_streams (cf_server cfg)))) @
     println (''  idle_timeout_seconds:    '' @ show_nat (unat (sc_idle_timeout (cf_server cfg)))) @
     println ''TLS:'' @
     println (''  cert_path:               '' @ or_else ''(auto)'' (tl_cert_path (cf_tls cfg))) @
     println (''  key_path:                '' @ or_else ''(auto)'' (tl_key_path (cf_tls cfg))) @
     println (''  client_ca_cert_path:     '' @ or_else ''(none)'' (tl_client_ca (cf_tls cfg))) @
     println (''  client_cert_required:    '' @ show_bool (tl_client_cert_required (cf_tls cfg))) @
     println ''Observability:'' @
     println (''  metrics_port:            '' @ show_nat (unat (cf_metrics_port cfg))) @
     println ''Storage:'' @
     println (''  data_dir:                '' @ so_data_dir (cf_storage cfg)) @
     println (''  default_engine:          '' @ so_default_engine (cf_storage cfg)) @
     println (''  durability:              '' @ so_durability (cf_storage cfg)) @
     println (''  checkpoint_interval:     '' @ show_nat (unat (so_checkpoint_interval (cf_storage cfg))) @ ''s'') @
     (if cf_database cfg = [] then println (''Databases: (single '' @ em_dash @ '' uses storage.data_dir)'')
      else println ''Databases:'' @
        concat (map (\<lambda>d. println (''  - '' @ dc_name d @ '' -> '' @ dc_path d @ '' (engine: '' @
          or_else (so_default_engine (cf_storage cfg)) (dc_engine d) @ '')'')) (cf_database cfg)))"

record cli_options =
  cl_config :: "string option"
  cl_data_dir :: "string option"
  cl_listen :: "string option"
  cl_cert :: "string option"
  cl_key :: "string option"
  cl_durability :: "string option"
  cl_default_engine :: "string option"
  cl_databases :: "string option"
  cl_default_database :: "string option"

record settings =
  sg_data_dir :: string
  sg_listen :: string
  sg_default_engine :: string
  sg_default_database :: string
  sg_durability :: string
  sg_cert_path :: "string option"
  sg_key_path :: "string option"

definition option_or :: "'a option \<Rightarrow> 'a option \<Rightarrow> 'a option" where
  "option_or a b = (case a of Some x \<Rightarrow> Some x | None \<Rightarrow> b)"

definition merge_settings :: "cli_options \<Rightarrow> server_configuration \<Rightarrow> settings" where
  "merge_settings cli cfg =
     \<lparr>sg_data_dir = or_else (so_data_dir (cf_storage cfg)) (cl_data_dir cli),
      sg_listen = or_else (sc_listen (cf_server cfg)) (cl_listen cli),
      sg_default_engine = or_else (so_default_engine (cf_storage cfg)) (cl_default_engine cli),
      sg_default_database = or_else (sc_default_database (cf_server cfg)) (cl_default_database cli),
      sg_durability = or_else (so_durability (cf_storage cfg)) (cl_durability cli),
      sg_cert_path = option_or (cl_cert cli) (tl_cert_path (cf_tls cfg)),
      sg_key_path = option_or (cl_key cli) (tl_key_path (cf_tls cfg))\<rparr>"

subsection \<open>The databases\<close>

text \<open>What a directory holds; its disk tables are those the disk engine loads from it.\<close>

record directory =
  di_files :: wal_files
  di_tables :: "string list"
  di_disk :: "string \<rightharpoonup> disk_dir"
  di_catalog :: "(string \<times> table_meta list) option"

record host =
  ho_codec :: codec
  ho_argon :: argon
  ho_password :: "string option"
  ho_salt :: "string \<Rightarrow> string"
  ho_faults :: "string \<Rightarrow> string \<Rightarrow> fault"
  ho_directory :: "string \<Rightarrow> string + directory"

text \<open>None is the panic of the replay.\<close>

definition open_with_durability :: "host \<Rightarrow> string \<Rightarrow> string \<Rightarrow> string \<Rightarrow> database res option" where
  "open_with_durability H path default_engine durability =
     (case ho_directory H path of
        Inl e \<Rightarrow> Some (Inl (Io e))
      | Inr d \<Rightarrow>
          open_database (ho_codec H) (ho_argon H) (ho_password H) (ho_salt H path) (ho_faults H path) (di_files d) durability
            (catalog_open (disk_open (di_tables d) (di_disk d)) (di_catalog d) default_engine))"

text \<open>Insertion into the map of databases, and \<open>split_once\<close>.\<close>

definition put_named :: "string \<Rightarrow> 'a \<Rightarrow> (string \<times> 'a) list \<Rightarrow> (string \<times> 'a) list" where
  "put_named name x xs = filter (\<lambda>(n, _). n \<noteq> name) xs @ [(name, x)]"

definition split_once :: "char \<Rightarrow> string \<Rightarrow> (string \<times> string) option" where
  "split_once c s =
     (case position (\<lambda>x. x = c) s of None \<Rightarrow> None | Some i \<Rightarrow> Some (take i s, drop (Suc i) s))"

fun open_all ::
    "host \<Rightarrow> string \<Rightarrow> (string \<times> string \<times> string) list \<Rightarrow> (string \<times> database) list \<Rightarrow> (string \<times> database) list res option" where
  "open_all H durability [] dbs = Some (Inr dbs)"
| "open_all H durability ((name, path, engine) # entries) dbs =
     (case open_with_durability H path engine durability of
        None \<Rightarrow> None
      | Some (Inl e) \<Rightarrow> Some (Inl e)
      | Some (Inr db) \<Rightarrow> open_all H durability entries (put_named name db dbs))"

text \<open>\<open>--databases\<close>: an entry without an equals sign is passed over.\<close>

definition cli_entry :: "string \<Rightarrow> string \<Rightarrow> (string \<times> string \<times> string) option" where
  "cli_entry default_engine entry =
     map_option (\<lambda>(name, path). (trim name, trim path, default_engine)) (split_once (CHR ''='') (trim entry))"

definition database_entries :: "cli_options \<Rightarrow> server_configuration \<Rightarrow> (string \<times> string \<times> string) list" where
  "database_entries cli cfg =
     (let sg = merge_settings cli cfg in
      case cl_databases cli of
        Some db_config \<Rightarrow> List.map_filter (cli_entry (sg_default_engine sg)) (split_char (CHR '','') db_config)
      | None \<Rightarrow>
          (if cf_database cfg \<noteq> []
           then map (\<lambda>d. (dc_name d, dc_path d, or_else (sg_default_engine sg) (dc_engine d))) (cf_database cfg)
           else [(''default'', sg_data_dir sg, sg_default_engine sg)]))"

subsection \<open>The endpoint\<close>

datatype client_auth = NoClientAuth | OptionalClientAuth "byte list list" | RequiredClientAuth "byte list list"

record endpoint =
  ep_address :: string
  ep_chain :: "byte list list"
  ep_key :: "byte list"
  ep_client_auth :: client_auth
  ep_max_streams :: u32
  ep_idle_seconds :: u64

text \<open>
  rustls and quinn: the accepted root certificates, the verifier, a chain with its key, the QUIC settings, the
  longest idle time, the parser of addresses, and binding; each reports an error or none. \<open>tw_generate\<close> is the
  self-signed certificate of rcgen for the names given.
\<close>

record tls_world =
  tw_pem :: pem_reader
  tw_faults :: file_faults
  tw_add_root :: "byte list \<Rightarrow> string option"
  tw_verifier :: "bool \<Rightarrow> byte list list \<Rightarrow> string option"
  tw_single_cert :: "byte list list \<Rightarrow> byte list \<Rightarrow> string option"
  tw_quic :: "string option"
  tw_idle_ok :: "u64 \<Rightarrow> bool"
  tw_address :: "string \<Rightarrow> string option"
  tw_bind :: "string \<Rightarrow> string option"
  tw_bound :: "string option"
  tw_generate :: "string list \<Rightarrow> string + (byte list \<times> byte list)"

record quic_server =
  qs_databases :: "(string \<times> database) list"
  qs_default_database :: string
  qs_addr :: string
  qs_cert_path :: "string option"
  qs_key_path :: "string option"
  qs_client_ca :: "string option"
  qs_client_cert_required :: bool
  qs_max_streams :: u32
  qs_idle_timeout :: u64

definition quic_server_new :: "database \<Rightarrow> string \<Rightarrow> string option \<Rightarrow> string option \<Rightarrow> quic_server" where
  "quic_server_new engine addr cert_path key_path =
     \<lparr>qs_databases = [(''default'', engine)], qs_default_database = ''default'', qs_addr = addr, qs_cert_path = cert_path,
      qs_key_path = key_path, qs_client_ca = None, qs_client_cert_required = False, qs_max_streams = 100, qs_idle_timeout = 30\<rparr>"

definition with_databases ::
    "(string \<times> database) list \<Rightarrow> string \<Rightarrow> string \<Rightarrow> string option \<Rightarrow> string option \<Rightarrow> string option \<Rightarrow> bool \<Rightarrow> u32 \<Rightarrow> u64 \<Rightarrow>
     quic_server" where
  "with_databases databases default_database addr cert_path key_path client_ca required max_streams idle_timeout =
     \<lparr>qs_databases = databases, qs_default_database = default_database, qs_addr = addr, qs_cert_path = cert_path,
      qs_key_path = key_path, qs_client_ca = client_ca, qs_client_cert_required = required, qs_max_streams = max_streams,
      qs_idle_timeout = idle_timeout\<rparr>"

definition generate_self_signed_cert :: "tls_world \<Rightarrow> (byte list list \<times> byte list) res" where
  "generate_self_signed_cert TW =
     (case tw_generate TW [''heliondb.local'', ''localhost''] of
        Inl e \<Rightarrow> Inl (Protocol (''Cert generation error: '' @ e))
      | Inr (cert_der, key_der) \<Rightarrow> Inr ([cert_der], key_der))"

definition as_io :: "string + 'a \<Rightarrow> 'a res" where
  "as_io r = (case r of Inl e \<Rightarrow> Inl (Io e) | Inr x \<Rightarrow> Inr x)"

definition load_or_generate_certs :: "tls_world \<Rightarrow> filesys \<Rightarrow> quic_server \<Rightarrow> (byte list list \<times> byte list) res" where
  "load_or_generate_certs TW s Q = (case (qs_cert_path Q, qs_key_path Q) of
      (Some cert_path, Some key_path) \<Rightarrow>
        (if fs_files s cert_path \<noteq> None \<and> fs_files s key_path \<noteq> None
         then
           and_then (as_io (read_path (tw_faults TW) cert_path s)) (\<lambda>cert_bytes.
           and_then (as_io (read_path (tw_faults TW) key_path s)) (\<lambda>key_bytes.
           and_then (as_io (pm_certs (tw_pem TW) cert_bytes)) (\<lambda>certs.
           and_then (as_io (pm_private_key (tw_pem TW) key_bytes)) (\<lambda>k.
           case k of None \<Rightarrow> Inl (Protocol ''No private key found'') | Some key \<Rightarrow> Inr (certs, key)))))
         else generate_self_signed_cert TW)
    | _ \<Rightarrow> generate_self_signed_cert TW)"

definition protocol_step :: "string \<Rightarrow> string option \<Rightarrow> unit res" where
  "protocol_step what failure = (case failure of Some e \<Rightarrow> Inl (Protocol (what @ e)) | None \<Rightarrow> Inr ())"

text \<open>The outer None is the panic of an idle timeout that quinn cannot represent.\<close>

definition make_server_config ::
    "tls_world \<Rightarrow> filesys \<Rightarrow> quic_server \<Rightarrow> byte list list \<Rightarrow> byte list \<Rightarrow> endpoint res option" where
  "make_server_config TW s Q cert key =
     (if \<not> tw_idle_ok TW (qs_idle_timeout Q) then None
      else Some (
        let finish = (\<lambda>auth.
              and_then (protocol_step ''TLS config error: '' (tw_single_cert TW cert key)) (\<lambda>_.
              and_then (protocol_step ''QUIC config error: '' (tw_quic TW)) (\<lambda>_.
              Inr \<lparr>ep_address = qs_addr Q, ep_chain = cert, ep_key = key, ep_client_auth = auth,
                   ep_max_streams = qs_max_streams Q, ep_idle_seconds = qs_idle_timeout Q\<rparr>))) in
        case qs_client_ca Q of
          None \<Rightarrow> finish NoClientAuth
        | Some ca_path \<Rightarrow>
            and_then (as_io (read_path (tw_faults TW) ca_path s)) (\<lambda>ca_bytes.
            and_then (as_io (pm_certs (tw_pem TW) ca_bytes)) (\<lambda>ca_certs.
            and_then (try_fold (\<lambda>_ c. protocol_step ''CA cert error: '' (tw_add_root TW c)) () ca_certs) (\<lambda>_.
            and_then (protocol_step ''Client verifier error: '' (tw_verifier TW (qs_client_cert_required Q) ca_certs)) (\<lambda>_.
            finish (if qs_client_cert_required Q then RequiredClientAuth ca_certs else OptionalClientAuth ca_certs)))))))"

definition bind_endpoint :: "tls_world \<Rightarrow> filesys \<Rightarrow> quic_server \<Rightarrow> endpoint res option" where
  "bind_endpoint TW s Q =
     (case protocol_step ''Invalid listen address: '' (tw_address TW (qs_addr Q)) of
        Inl e \<Rightarrow> Some (Inl e)
      | Inr _ \<Rightarrow>
          (case load_or_generate_certs TW s Q of
             Inl e \<Rightarrow> Some (Inl e)
           | Inr (cert, key) \<Rightarrow>
               map_option (\<lambda>r. and_then r (\<lambda>ep.
                   and_then (protocol_step ''Failed to bind: '' (tw_bind TW (qs_addr Q))) (\<lambda>_.
                   and_then (protocol_step ''Failed to get bound address: '' (tw_bound TW)) (\<lambda>_. Inr ep))))
                 (make_server_config TW s Q cert key)))"

subsection \<open>Starting\<close>

record service =
  sv_databases :: "(string \<times> database) list"
  sv_default_database :: string
  sv_endpoint :: endpoint

text \<open>A new connection to the service, before its first stream.\<close>

definition accept_connection :: "service \<Rightarrow> connection" where
  "accept_connection sv =
     \<lparr>cn_databases = sv_databases sv, cn_sessions = session_manager_new, cn_prepared = om_empty, cn_audit = [], cn_clock = 0\<rparr>"

definition server_start :: "tls_world \<Rightarrow> filesys \<Rightarrow> quic_server \<Rightarrow> service res option" where
  "server_start TW s Q =
     map_option (\<lambda>r. and_then r (\<lambda>ep.
         Inr \<lparr>sv_databases = qs_databases Q, sv_default_database = qs_default_database Q, sv_endpoint = ep\<rparr>))
       (bind_endpoint TW s Q)"

definition start_service ::
    "host \<Rightarrow> tls_world \<Rightarrow> filesys \<Rightarrow> cli_options \<Rightarrow> server_configuration \<Rightarrow> service res option" where
  "start_service H TW s cli cfg =
     (let sg = merge_settings cli cfg in
      case open_all H (sg_durability sg) (database_entries cli cfg) [] of
        None \<Rightarrow> None
      | Some (Inl e) \<Rightarrow> Some (Inl e)
      | Some (Inr databases) \<Rightarrow>
          server_start TW s
            (with_databases databases (sg_default_database sg) (sg_listen sg) (sg_cert_path sg) (sg_key_path sg)
               (tl_client_ca (cf_tls cfg)) (tl_client_cert_required (cf_tls cfg))
               (sc_max_streams (cf_server cfg)) (sc_idle_timeout (cf_server cfg))))"

subsection \<open>Stopping\<close>

text \<open>
  The task that waits for signals: after \<open>ctrl_c\<close> it installs a handler for SIGTERM and waits for that signal too,
  then it shuts all databases down and ends the process. A SIGTERM that comes before has no handler and kills the process.
\<close>

datatype signal = SigInt | SigTerm

datatype process = Serving | Interrupted1 | Stopped | Killed

fun on_signal :: "process \<Rightarrow> signal \<Rightarrow> process" where
  "on_signal Serving SigInt = Interrupted1"
| "on_signal Serving SigTerm = Killed"
| "on_signal Interrupted1 SigInt = Interrupted1"
| "on_signal Interrupted1 SigTerm = Stopped"
| "on_signal Stopped _ = Stopped"
| "on_signal Killed _ = Killed"

text \<open>An engine whose shutdown fails is only logged.\<close>

definition shutdown_all ::
    "codec \<Rightarrow> (string \<Rightarrow> shutdown_plan) \<Rightarrow> (string \<times> database) list \<Rightarrow> (string \<times> database \<times> wal_files) list" where
  "shutdown_all C plans databases =
     map (\<lambda>(name, db). case shutdown C (plans name) db of (db', files, _) \<Rightarrow> (name, db', files)) databases"

definition stop_service ::
    "codec \<Rightarrow> (string \<Rightarrow> shutdown_plan) \<Rightarrow> service \<Rightarrow> signal list \<Rightarrow> (string \<times> database \<times> wal_files) list option" where
  "stop_service C plans sv signals =
     (if foldl on_signal Serving signals = Stopped then Some (shutdown_all C plans (sv_databases sv)) else None)"

subsection \<open>Metrics\<close>

record metrics_registry =
  mt_connections_total :: u64
  mt_connections_active :: u64
  mt_queries_total :: u64
  mt_queries_select :: u64
  mt_queries_insert :: u64
  mt_queries_update :: u64
  mt_queries_delete :: u64
  mt_queries_ddl :: u64
  mt_mvcc_conflicts_total :: u64
  mt_wal_size_bytes :: u64
  mt_checkpoint_duration_seconds :: u64

definition metrics_new :: metrics_registry where
  "metrics_new = \<lparr>mt_connections_total = 0, mt_connections_active = 0, mt_queries_total = 0, mt_queries_select = 0,
     mt_queries_insert = 0, mt_queries_update = 0, mt_queries_delete = 0, mt_queries_ddl = 0,
     mt_mvcc_conflicts_total = 0, mt_wal_size_bytes = 0, mt_checkpoint_duration_seconds = 0\<rparr>"

definition metric :: "string \<Rightarrow> string \<Rightarrow> string \<Rightarrow> u64 \<Rightarrow> string" where
  "metric name help kind v =
     println (''# HELP heliondb_'' @ name @ '' '' @ help) @ println (''# TYPE heliondb_'' @ name @ '' '' @ kind) @
     println (''heliondb_'' @ name @ '' '' @ show_nat (unat v))"

definition metrics_text :: "metrics_registry \<Rightarrow> string" where
  "metrics_text reg =
     metric ''connections_total'' ''Total connections established'' ''counter'' (mt_connections_total reg) @
     metric ''connections_active'' ''Currently active connections'' ''gauge'' (mt_connections_active reg) @
     metric ''queries_total'' ''Total queries executed'' ''counter'' (mt_queries_total reg) @
     metric ''queries_select'' ''SELECT queries'' ''counter'' (mt_queries_select reg) @
     metric ''queries_insert'' ''INSERT queries'' ''counter'' (mt_queries_insert reg) @
     metric ''queries_update'' ''UPDATE queries'' ''counter'' (mt_queries_update reg) @
     metric ''queries_delete'' ''DELETE queries'' ''counter'' (mt_queries_delete reg) @
     metric ''queries_ddl'' ''DDL queries'' ''counter'' (mt_queries_ddl reg) @
     metric ''mvcc_conflicts_total'' ''MVCC conflict count'' ''counter'' (mt_mvcc_conflicts_total reg) @
     metric ''wal_size_bytes'' ''Current WAL file size'' ''gauge'' (mt_wal_size_bytes reg)"

definition crlf :: string where "crlf = [CHR 0x0D, CHR 0x0A]"

definition metrics_response :: "metrics_registry \<Rightarrow> string" where
  "metrics_response reg =
     ''HTTP/1.1 200 OK'' @ crlf @ ''Content-Type: text/plain; version=0.0.4'' @ crlf @
     ''Content-Length: '' @ show_nat (length (metrics_text reg)) @ crlf @ ''Connection: close'' @ crlf @ crlf @ metrics_text reg"

end
