(* ===== verification/Shell_Props.thy ===== *)
theory Shell_Props
  imports Startup Service
begin

text \<open>
  What the user of the shell sees: every value of a printed table stands in full under the header of
  its column, and what the loop remembers of the lines typed.
\<close>

subsection \<open>Tables\<close>

lemma length_join_with:
  "xs \<noteq> [] \<Longrightarrow> length (join_with sep xs) + length sep = sum_list (map (\<lambda>x. length x + length sep) xs)"
  by (induction sep xs rule: join_with.induct) auto

lemma join_with_Cons: "xs \<noteq> [] \<Longrightarrow> join_with sep (x # xs) = x @ sep @ join_with sep xs"
  by (cases xs) auto

lemma join_with_part:
  "i < length xs \<Longrightarrow>
     take (length (xs ! i)) (drop (sum_list (map (\<lambda>x. length x + length sep) (take i xs))) (join_with sep xs)) = xs ! i"
proof (induction i arbitrary: xs)
  case 0
  then show ?case by (cases xs rule: remdups_adj.cases) auto
next
  case (Suc i)
  then obtain x ys where xs: "xs = x # ys" by (cases xs) auto
  then have ys: "i < length ys" "ys \<noteq> []" using Suc.prems by auto
  show ?case using Suc.IH [OF ys(1)] by (simp add: xs join_with_Cons [OF ys(2)] add.assoc)
qed

lemma widen_step:
  assumes "ws' = foldl (\<lambda>ws (i, val). if i < length ws then ws[i := max (ws ! i) (length val)] else ws) ws (enumerate k row)"
  shows "length ws' = length ws \<and> (\<forall>i < length ws. ws ! i \<le> ws' ! i) \<and>
    (\<forall>i < length row. k + i < length ws \<longrightarrow> length (row ! i) \<le> ws' ! (k + i))"
  using assms
proof (induction row arbitrary: ws k)
  case (Cons v row)
  let ?w1 = "if k < length ws then ws[k := max (ws ! k) (length v)] else ws"
  have len: "length ?w1 = length ws" by simp
  have mono: "\<forall>i < length ws. ws ! i \<le> ?w1 ! i" by (auto simp: nth_list_update)
  have first: "k < length ws \<Longrightarrow> length v \<le> ?w1 ! k" by simp
  have IH: "length ws' = length ?w1 \<and> (\<forall>i < length ?w1. ?w1 ! i \<le> ws' ! i) \<and>
      (\<forall>i < length row. Suc k + i < length ?w1 \<longrightarrow> length (row ! i) \<le> ws' ! (Suc k + i))"
    by (rule Cons.IH) (use Cons.prems in simp)
  show ?case
  proof (intro conjI allI impI)
    show "length ws' = length ws" using IH len by simp
    show "ws ! i \<le> ws' ! i" if "i < length ws" for i
    proof -
      have "ws ! i \<le> ?w1 ! i" "?w1 ! i \<le> ws' ! i" using IH mono len that by simp_all
      then show ?thesis by (rule order_trans)
    qed
    show "length ((v # row) ! i) \<le> ws' ! (k + i)" if "i < length (v # row)" "k + i < length ws" for i
    proof (cases i)
      case 0
      then have k: "k < length ws" using that by simp
      have "?w1 ! k \<le> ws' ! k" using IH k unfolding len by blast
      then show ?thesis using k 0 by simp
    next
      case (Suc j)
      then show ?thesis using IH len that by simp
    qed
  qed
qed simp

lemma widen_props:
  "length (widen ws row) = length ws"
  "i < length ws \<Longrightarrow> ws ! i \<le> widen ws row ! i"
  "i < length ws \<Longrightarrow> i < length row \<Longrightarrow> length (row ! i) \<le> widen ws row ! i"
  using widen_step [of "widen ws row" ws 0 row] by (simp_all add: widen_def)

lemma widen_all:
  assumes "i < length ws"
  shows "length (foldl widen ws rows) = length ws \<and> ws ! i \<le> foldl widen ws rows ! i \<and>
    (\<forall>row \<in> set rows. i < length row \<longrightarrow> length (row ! i) \<le> foldl widen ws rows ! i)"
  using assms
proof (induction rows arbitrary: ws)
  case (Cons row rows)
  have IH: "length (foldl widen (widen ws row) rows) = length ws \<and> widen ws row ! i \<le> foldl widen (widen ws row) rows ! i \<and>
      (\<forall>row' \<in> set rows. i < length row' \<longrightarrow> length (row' ! i) \<le> foldl widen (widen ws row) rows ! i)"
    using Cons.IH [of "widen ws row"] Cons.prems by (simp add: widen_props(1))
  show ?case
    using IH widen_props(2,3) [of i ws row] Cons.prems by (auto intro: order_trans)
qed simp

lemma length_foldl_widen: "length (foldl widen ws rows) = length ws"
  by (induction rows arbitrary: ws) (simp_all add: widen_props(1))

lemma length_column_widths [simp]: "length (column_widths r) = length (qr_columns r)"
  by (simp add: column_widths_def length_foldl_widen)

lemma column_widths_fit:
  assumes "i < length (qr_columns r)"
  shows "length (qr_columns r ! i) \<le> column_widths r ! i"
    "row \<in> set (qr_rows r) \<Longrightarrow> i < length row \<Longrightarrow> length (row ! i) \<le> column_widths r ! i"
  using widen_all [of i "map length (qr_columns r)" "qr_rows r"] assms by (simp_all add: column_widths_def)

lemma length_pad: "length s \<le> w \<Longrightarrow> length (pad s w) = w"
  by (auto simp: pad_def)

lemma length_cell: "length s \<le> w \<Longrightarrow> length (cell s w) = w + 2"
  by (simp add: cell_def length_pad)

text \<open>The text of a row in a column, and where the column begins in a line.\<close>

definition row_value :: "string list \<Rightarrow> nat \<Rightarrow> string" where
  "row_value row i = (case nth_opt row i of Some s \<Rightarrow> s | None \<Rightarrow> [])"

definition column_start :: "query_result \<Rightarrow> nat \<Rightarrow> nat" where
  "column_start r i = 2 + sum_list (map (\<lambda>w. w + 5) (take i (column_widths r)))"

lemma line_of_cells:
  assumes "length vs = length ws" "\<And>i. i < length ws \<Longrightarrow> length (vs ! i) \<le> ws ! i"
  shows "map length (map2 cell vs ws) = map (\<lambda>w. w + 2) ws"
  using assms by (intro nth_equalityI) (auto simp: length_cell)

lemma line_cell:
  assumes "length vs = length ws" "\<And>i. i < length ws \<Longrightarrow> length (vs ! i) \<le> ws ! i" "i < length ws"
  shows "take (ws ! i) (drop (2 + sum_list (map (\<lambda>w. w + 5) (take i ws))) ('' '' @ join_with bar (map2 cell vs ws))) =
      pad (vs ! i) (ws ! i)"
    and "length ('' '' @ join_with bar (map2 cell vs ws)) + 2 = sum_list (map (\<lambda>w. w + 5) ws)"
proof -
  let ?cs = "map2 cell vs ws"
  have lens: "map length ?cs = map (\<lambda>w. w + 2) ws" by (rule line_of_cells [OF assms(1,2)])
  have sums: "map (\<lambda>x. length x + length bar) (take k ?cs) = map (\<lambda>w. w + 5) (take k ws)" for k
  proof -
    have "map (\<lambda>n. n + 3) (take k (map length ?cs)) = map (\<lambda>n. n + 3) (take k (map (\<lambda>w. w + 2) ws))" using lens by simp
    then show ?thesis by (simp add: take_map comp_def)
  qed
  have i: "i < length ?cs" "?cs ! i = cell (vs ! i) (ws ! i)" using assms by simp_all
  have part: "take (ws ! i + 2) (drop (sum_list (map (\<lambda>w. w + 5) (take i ws))) (join_with bar ?cs)) = cell (vs ! i) (ws ! i)"
    using join_with_part [OF i(1), of bar] i(2) sums length_cell [OF assms(2) [OF assms(3)]] by simp
  let ?d = "drop (sum_list (map (\<lambda>w. w + 5) (take i ws))) (join_with bar ?cs)"
  have "take (ws ! i) (drop 1 ?d) = take (ws ! i) (drop 1 (take (ws ! i + 2) ?d))" by (simp add: drop_take)
  also have "\<dots> = pad (vs ! i) (ws ! i)"
    unfolding part using length_pad [OF assms(2) [OF assms(3)]] by (simp add: cell_def)
  finally show "take (ws ! i) (drop (2 + sum_list (map (\<lambda>w. w + 5) (take i ws))) ('' '' @ join_with bar ?cs)) =
      pad (vs ! i) (ws ! i)"
    by (simp add: add.commute)
  have "?cs \<noteq> []" using i(1) by auto
  then have "length (join_with bar ?cs) + 3 = sum_list (map (\<lambda>x. length x + length bar) (take (length ws) ?cs))"
    using length_join_with [of ?cs bar] assms(1) by simp
  also have "\<dots> = sum_list (map (\<lambda>w. w + 5) ws)" unfolding sums by simp
  finally have "length (join_with bar ?cs) + 3 = sum_list (map (\<lambda>w. w + 5) ws)" .
  then show "length ('' '' @ join_with bar ?cs) + 2 = sum_list (map (\<lambda>w. w + 5) ws)" by simp
qed

lemma row_line_cells:
  "row_line r row = '' '' @ join_with bar (map2 cell (map (row_value row) [0..<length (qr_columns r)]) (column_widths r))"
proof -
  have "map (\<lambda>i. cell (row_value row i) (column_widths r ! i)) [0..<length (qr_columns r)] =
      map2 cell (map (row_value row) [0..<length (qr_columns r)]) (column_widths r)"
    by (intro nth_equalityI) simp_all
  then show ?thesis by (simp add: row_line_def row_value_def)
qed

lemma pad_starts: "length s \<le> w \<Longrightarrow> take (length s) (pad s w) = s"
  by (simp add: pad_def)

text \<open>A printed table can be read: the header and all rows have lines of one length, and from the position
  where a column begins a line holds the name of the column, or the value of the row, in full and then blanks up to
  the width of the column.\<close>

theorem print_table_readable:
  assumes "row \<in> set (qr_rows r)" "i < length (qr_columns r)"
  shows "length (row_line r row) = length (header_line r) \<and>
    take (column_widths r ! i) (drop (column_start r i) (header_line r)) = pad (qr_columns r ! i) (column_widths r ! i) \<and>
    take (column_widths r ! i) (drop (column_start r i) (row_line r row)) = pad (row_value row i) (column_widths r ! i) \<and>
    take (length (row_value row i)) (drop (column_start r i) (row_line r row)) = row_value row i"
proof -
  let ?ws = "column_widths r"
  let ?vs = "map (row_value row) [0..<length (qr_columns r)]"
  have fits: "length (row_value row j) \<le> ?ws ! j" if "j < length ?ws" for j
    using column_widths_fit(2) [OF _ assms(1), of j] that by (auto simp: row_value_def split: option.splits)
  have vs: "length ?vs = length ?ws" "\<And>j. j < length ?ws \<Longrightarrow> length (?vs ! j) \<le> ?ws ! j" using fits by auto
  have cs: "length (qr_columns r) = length ?ws" "\<And>j. j < length ?ws \<Longrightarrow> length (qr_columns r ! j) \<le> ?ws ! j"
    using column_widths_fit(1) by auto
  have i: "i < length ?ws" "?vs ! i = row_value row i" using assms(2) by simp_all
  have row: "take (?ws ! i) (drop (column_start r i) (row_line r row)) = pad (row_value row i) (?ws ! i)"
    using line_cell(1) [OF vs i(1)] by (simp only: row_line_cells column_start_def i(2))
  have "take (length (row_value row i)) (drop (column_start r i) (row_line r row)) =
      take (length (row_value row i)) (take (?ws ! i) (drop (column_start r i) (row_line r row)))"
    using fits [OF i(1)] by (simp add: min_def)
  then have whole: "take (length (row_value row i)) (drop (column_start r i) (row_line r row)) = row_value row i"
    using row pad_starts [OF fits [OF i(1)]] by simp
  show ?thesis
    using line_cell(1) [OF cs i(1)] line_cell(2) [OF vs i(1)] line_cell(2) [OF cs i(1)] row whole
    unfolding column_start_def header_line_def row_line_cells by (metis add_right_cancel)
qed

definition sample_result :: query_result where
  "sample_result = \<lparr>qr_columns = [''id'', ''name''], qr_column_types = [], qr_rows = [[''1'', ''Alice''], [''22'']], qr_rows_affected = 0\<rparr>"

theorem print_table_readable_witness:
  "length (row_line sample_result [''1'', ''Alice'']) = length (header_line sample_result) \<and>
   take 5 (drop (column_start sample_result 1) (row_line sample_result [''1'', ''Alice''])) = ''Alice''"
proof -
  have "[''1'', ''Alice''] \<in> set (qr_rows sample_result)" "1 < length (qr_columns sample_result)"
    by (simp_all add: sample_result_def)
  moreover have "row_value [''1'', ''Alice''] 1 = ''Alice''" by (simp add: row_value_def nth_opt_def)
  ultimately show ?thesis using print_table_readable [of "[''1'', ''Alice'']" sample_result 1] by (simp add: numeral_eq_Suc)
qed

subsection \<open>The lines typed\<close>

definition is_sql :: "string \<Rightarrow> bool" where
  "is_sql line \<longleftrightarrow> trim line \<noteq> [] \<and> hd (trim line) \<noteq> CHR 0x5C"

definition is_toggle :: "string \<Rightarrow> bool" where
  "is_toggle line \<longleftrightarrow> to_lowercase (trim line) = slash ''x''"

definition typed :: "readline list \<Rightarrow> string list" where
  "typed inputs = List.map_filter (\<lambda>i. case i of Line l \<Rightarrow> Some l | _ \<Rightarrow> None) inputs"

lemma typed_simps [simp]:
  "typed [] = []" "typed (Line l # is) = l # typed is" "typed (Interrupted # is) = typed is"
  "typed (Eof # is) = typed is" "typed (ReadError e # is) = typed is"
  by (simp_all add: typed_def map_filter_simps)

lemma print_out_simps [simp]:
  "rp_history (print_out s rp) = rp_history rp" "rp_last_query (print_out s rp) = rp_last_query rp"
  "rp_expanded (print_out s rp) = rp_expanded rp" "rp_conn (print_out s rp) = rp_conn rp"
  by (simp_all add: print_out_def)

lemma shell_query_simps [simp]:
  "rp_history (shell_query SH sql rp) = rp_history rp" "rp_last_query (shell_query SH sql rp) = rp_last_query rp"
  "rp_expanded (shell_query SH sql rp) = rp_expanded rp" "rp_conn (shell_query SH sql rp) = rp_conn rp"
  by (simp_all add: shell_query_def Let_def split: sum.splits)

lemma handle_backslash_frame:
  assumes "handle_backslash SH cmd rp = (rp', a)"
  shows "rp_history rp' = rp_history rp" "rp_last_query rp' = rp_last_query rp" "rp_conn rp' = rp_conn rp"
    "rp_expanded rp' = (rp_expanded rp \<noteq> (to_lowercase cmd = slash ''x''))"
  using assms
  by (auto simp: handle_backslash_def Let_def slash_def split: if_splits sum.splits option.splits)

lemma lower_backslash: "to_lowercase s = CHR 0x5C # t \<Longrightarrow> s \<noteq> [] \<and> hd s = CHR 0x5C"
proof -
  assume eq: "to_lowercase s = CHR 0x5C # t"
  then obtain c u where s: "s = c # u" "ascii_lower c = CHR 0x5C" by (cases s) (auto simp: to_lowercase_def)
  have "c = CHR 0x5C"
  proof (cases "65 \<le> (of_char c :: nat) \<and> (of_char c :: nat) \<le> 90")
    case True
    then have "ascii_lower c = char_of ((of_char c :: nat) + 32)" by (simp add: ascii_lower_def Let_def)
    then have "(of_char (ascii_lower c) :: nat) = (of_char c + 32) mod 256" by simp
    then have "(of_char (ascii_lower c) :: nat) = of_char c + 32" using True by simp
    then show ?thesis using True s(2) by simp
  qed (use s(2) in \<open>auto simp: ascii_lower_def Let_def split: if_splits\<close>)
  then show ?thesis using s by simp
qed

lemma type_line_frame:
  assumes "type_line SH line rp = (rp', quit)"
  shows "rp_history rp' = rp_history rp @ filter is_sql [line]"
    "rp_last_query rp' = (if is_sql line then Some (trim line) else rp_last_query rp)"
    "rp_expanded rp' = (rp_expanded rp \<noteq> is_toggle line)"
    "rp_conn rp' = rp_conn rp"
proof -
  have no: "to_lowercase (trim line) \<noteq> slash ''x''" if "trim line = [] \<or> hd (trim line) \<noteq> CHR 0x5C"
    using that lower_backslash [of "trim line"] by (auto simp: slash_def)
  obtain rp1 a where hb: "handle_backslash SH (trim line) rp = (rp1, a)" by fastforce
  note frame = handle_backslash_frame [OF hb]
  show "rp_history rp' = rp_history rp @ filter is_sql [line]"
    "rp_last_query rp' = (if is_sql line then Some (trim line) else rp_last_query rp)"
    "rp_expanded rp' = (rp_expanded rp \<noteq> is_toggle line)"
    "rp_conn rp' = rp_conn rp"
    using assms hb frame no
    by (cases a; auto simp: type_line_def Let_def is_sql_def is_toggle_def split: if_splits)+
qed

text \<open>What the loop remembers of the lines it has read.\<close>

definition remembers :: "repl \<Rightarrow> repl \<Rightarrow> string list \<Rightarrow> bool" where
  "remembers rp rp' lines \<longleftrightarrow>
     rp_history rp' = rp_history rp @ filter is_sql lines \<and>
     rp_last_query rp' = (if filter is_sql lines = [] then rp_last_query rp else Some (trim (last (filter is_sql lines)))) \<and>
     rp_expanded rp' = (rp_expanded rp \<noteq> odd (length (filter is_toggle lines))) \<and>
     rp_conn rp' = rp_conn rp"

lemma remembers_trans: "remembers rp rp1 xs \<Longrightarrow> remembers rp1 rp2 ys \<Longrightarrow> remembers rp rp2 (xs @ ys)"
  by (auto simp: remembers_def)

lemma remembers_print: "remembers rp (print_out s rp) []"
  by (simp add: remembers_def)

lemma remembers_line: "type_line SH line rp = (rp', quit) \<Longrightarrow> remembers rp rp' [line]"
  using type_line_frame by (fastforce simp: remembers_def)

lemma typed_append [simp]: "typed (xs @ ys) = typed xs @ typed ys"
  by (induction xs) (auto simp: typed_def map_filter_def)

lemma repl_loop_reads:
  "repl_loop SH inputs rp = (rp', ended, rest) \<Longrightarrow>
     \<exists>read. inputs = read @ rest \<and> (\<not> ended \<longrightarrow> rest = []) \<and> remembers rp rp' (typed read)"
proof (induction SH inputs rp rule: repl_loop.induct)
  case (1 SH rp)
  then show ?case by (simp add: remembers_def)
next
  case (2 SH line inputs rp)
  obtain rp1 quit where t: "type_line SH line rp = (rp1, quit)" by fastforce
  note one = remembers_line [OF t]
  show ?case
  proof (cases quit)
    case True
    then have "rp' = rp1" "ended" "rest = inputs" using 2(2) t by simp_all
    then show ?thesis using one by (intro exI [of _ "[Line line]"]) simp
  next
    case False
    then have rest: "repl_loop SH inputs rp1 = (rp', ended, rest)" using 2(2) t by simp
    obtain more where more: "inputs = more @ rest" "\<not> ended \<longrightarrow> rest = []" "remembers rp1 rp' (typed more)"
      using 2(1) [OF t [symmetric] _ rest] False by auto
    then show ?thesis using remembers_trans [OF one more(3)] by (intro exI [of _ "Line line # more"]) simp
  qed
next
  case (3 SH inputs rp)
  then obtain more where more: "inputs = more @ rest" "\<not> ended \<longrightarrow> rest = []"
      "remembers (print_out (println (slash ''q to quit'')) rp) rp' (typed more)"
    by auto
  then show ?case using remembers_trans [OF remembers_print more(3)] by (intro exI [of _ "Interrupted # more"]) simp
next
  case (4 SH inputs rp)
  then have "rp' = print_out (println []) rp" "ended" "rest = inputs" by simp_all
  then show ?case using remembers_print by (intro exI [of _ "[Eof]"]) simp
next
  case (5 SH e inputs rp)
  then have "rp' = print_out (println (''Readline error: '' @ e)) rp" "ended" "rest = inputs" by simp_all
  then show ?case using remembers_print by (intro exI [of _ "[ReadError e]"]) simp
qed

text \<open>The interactive loop reads its lines from the left until \<open>\q\<close>, the end of the input or a read error; of the
  lines it has read it remembers the statements as its history and the last of them for \<open>\g\<close>, expanded output is on
  after an odd number of \<open>\x\<close>, and the login is that of the start.\<close>

theorem repl_remembers:
  assumes "repl_loop SH inputs rp = (rp', ended, rest)"
  shows "\<exists>read. inputs = read @ rest \<and> (\<not> ended \<longrightarrow> rest = []) \<and>
    rp_history rp' = rp_history rp @ filter is_sql (typed read) \<and>
    rp_last_query rp' = (if filter is_sql (typed read) = [] then rp_last_query rp
       else Some (trim (last (filter is_sql (typed read))))) \<and>
    rp_expanded rp' = (rp_expanded rp \<noteq> odd (length (filter is_toggle (typed read)))) \<and>
    rp_conn rp' = rp_conn rp"
  using repl_loop_reads [OF assms] unfolding remembers_def .

definition sample_inputs :: "readline list" where
  "sample_inputs = [Line ''select 1'', Line (slash ''X''), Line (slash ''q''), Line ''select 2'']"

lemma sample_lines:
  "is_sql ''select 1'' \<and> trim ''select 1'' = ''select 1'' \<and> \<not> is_toggle ''select 1''"
  "\<not> is_sql (slash ''X'') \<and> is_toggle (slash ''X'')"
  "\<not> is_sql (slash ''q'') \<and> \<not> is_toggle (slash ''q'')"
  by code_simp+

lemma sample_quits:
  "type_line SH (slash ''q'') rp = (rp, True)"
  "snd (type_line SH ''select 1'' rp) = False"
  "snd (type_line SH (slash ''X'') rp) = False"
proof -
  have a: "trim (slash ''q'') = slash ''q''" "trim (slash ''X'') = slash ''X''" "trim ''select 1'' = ''select 1''"
    "to_lowercase (slash ''q'') = slash ''q''" "to_lowercase (slash ''X'') = slash ''x''"
    by code_simp+
  show "type_line SH (slash ''q'') rp = (rp, True)" "snd (type_line SH ''select 1'' rp) = False"
    "snd (type_line SH (slash ''X'') rp) = False"
    unfolding type_line_def Let_def a
    by (simp_all add: handle_backslash_def Let_def a) (simp_all add: slash_def)
qed

theorem repl_remembers_witness:
  "\<forall>SH conn. \<exists>rp'. repl_loop SH sample_inputs (repl_new conn) = (rp', True, [Line ''select 2'']) \<and>
     rp_history rp' = [''select 1''] \<and> rp_last_query rp' = Some ''select 1'' \<and> rp_expanded rp' \<and> rp_conn rp' = conn"
proof (intro allI)
  fix SH conn
  obtain r1 q1 where t1: "type_line SH ''select 1'' (repl_new conn) = (r1, q1)" by fastforce
  obtain r2 q2 where t2: "type_line SH (slash ''X'') r1 = (r2, q2)" by fastforce
  have run: "repl_loop SH sample_inputs (repl_new conn) = (r2, True, [Line ''select 2''])"
    using t1 t2 sample_quits(2) [of SH "repl_new conn"] sample_quits(3) [of SH r1] sample_quits(1) [of SH r2]
    by (simp add: sample_inputs_def)
  obtain read where read: "sample_inputs = read @ [Line ''select 2'']"
      "rp_history r2 = rp_history (repl_new conn) @ filter is_sql (typed read)"
      "rp_last_query r2 = (if filter is_sql (typed read) = [] then rp_last_query (repl_new conn)
         else Some (trim (last (filter is_sql (typed read)))))"
      "rp_expanded r2 = (rp_expanded (repl_new conn) \<noteq> odd (length (filter is_toggle (typed read))))"
      "rp_conn r2 = rp_conn (repl_new conn)"
    using repl_remembers [OF run] by blast
  have "read = [Line ''select 1'', Line (slash ''X''), Line (slash ''q'')]"
    using read(1) [symmetric] append_same_eq [of read "[Line ''select 2'']" "[Line ''select 1'', Line (slash ''X''), Line (slash ''q'')]"]
    unfolding sample_inputs_def by (simp only: append.simps simp_thms)
  then show "\<exists>rp'. repl_loop SH sample_inputs (repl_new conn) = (rp', True, [Line ''select 2'']) \<and>
     rp_history rp' = [''select 1''] \<and> rp_last_query rp' = Some ''select 1'' \<and> rp_expanded rp' \<and> rp_conn rp' = conn"
    using run read(2-5) sample_lines by (simp add: repl_new_def)
qed

subsection \<open>The databases of the server\<close>

lemma put_named_simps:
  "map_of (put_named name x xs) n = (if n = name then Some x else map_of xs n)"
  "distinct (map fst xs) \<Longrightarrow> distinct (map fst (put_named name x xs))"
proof -
  have keep: "map_of (filter (\<lambda>(n, _). n \<noteq> name) xs) n = (if n = name then None else map_of xs n)" for n
    by (induction xs) auto
  show "map_of (put_named name x xs) n = (if n = name then Some x else map_of xs n)"
    using keep [of n] by (cases "n = name") (simp_all add: put_named_def map_add_def split: option.splits)
  show "distinct (map fst xs) \<Longrightarrow> distinct (map fst (put_named name x xs))"
    by (induction xs) (auto simp: put_named_def)
qed

text \<open>The last entry with a name.\<close>

definition last_entry :: "(string \<times> string \<times> string) list \<Rightarrow> string \<Rightarrow> (string \<times> string) option" where
  "last_entry entries name = map_of (rev entries) name"

lemma open_all_names:
  assumes "open_all H durability entries dbs = Some (Inr dbs')" "distinct (map fst dbs)"
  shows "distinct (map fst dbs') \<and>
    (\<forall>name. map_of dbs' name = (case last_entry entries name of
        None \<Rightarrow> map_of dbs name
      | Some (path, engine) \<Rightarrow>
          (case open_with_durability H path engine durability of Some (Inr db) \<Rightarrow> Some db | _ \<Rightarrow> None)))"
  using assms
proof (induction entries arbitrary: dbs)
  case Nil
  then show ?case by (simp add: last_entry_def)
next
  case (Cons e es)
  obtain name path engine where e: "e = (name, path, engine)" by (cases e) auto
  obtain db where db: "open_with_durability H path engine durability = Some (Inr db)"
    and rest: "open_all H durability es (put_named name db dbs) = Some (Inr dbs')"
    using Cons.prems(1) e by (auto split: option.splits sum.splits)
  have IH: "distinct (map fst dbs')" "map_of dbs' n = (case last_entry es n of
        None \<Rightarrow> map_of (put_named name db dbs) n
      | Some (path, engine) \<Rightarrow>
          (case open_with_durability H path engine durability of Some (Inr db) \<Rightarrow> Some db | _ \<Rightarrow> None))" for n
    using Cons.IH [OF rest put_named_simps(2) [OF Cons.prems(2)]] by auto
  have "last_entry (e # es) n = (case last_entry es n of Some pe \<Rightarrow> Some pe | None \<Rightarrow> if n = name then Some (path, engine) else None)" for n
    by (auto simp: last_entry_def e map_add_def split: option.splits)
  then show ?case using IH db by (auto simp: put_named_simps(1) split: option.splits)
qed

lemma start_service_cases:
  assumes "start_service H TW s cli cfg = Some (Inr sv)"
  obtains ep where "open_all H (sg_durability (merge_settings cli cfg)) (database_entries cli cfg) [] = Some (Inr (sv_databases sv))"
    "sv_default_database sv = sg_default_database (merge_settings cli cfg)" "sv_endpoint sv = ep"
  using assms unfolding start_service_def server_start_def with_databases_def Let_def
  by (auto split: option.splits sum.splits simp: and_then_eq_Inr)

text \<open>The name of the default database has no part in the start.\<close>

lemma default_name_settings:
  "merge_settings (cli\<lparr>cl_default_database := Some d\<rparr>) cfg = (merge_settings cli cfg)\<lparr>sg_default_database := d\<rparr>"
  by (simp add: merge_settings_def or_else_def)

lemma default_name_entries:
  "database_entries (cli\<lparr>cl_default_database := Some d\<rparr>) cfg = database_entries cli cfg"
  by (cases "cl_databases cli") (simp_all add: database_entries_def default_name_settings Let_def)

lemma bind_any_default: "bind_endpoint TW s (Q\<lparr>qs_default_database := d\<rparr>) = bind_endpoint TW s Q"
proof -
  have certs: "load_or_generate_certs TW s (Q\<lparr>qs_default_database := d\<rparr>) = load_or_generate_certs TW s Q"
    by (cases "qs_cert_path Q"; cases "qs_key_path Q") (simp_all add: load_or_generate_certs_def)
  have make: "make_server_config TW s (Q\<lparr>qs_default_database := d\<rparr>) cert key = make_server_config TW s Q cert key" for cert key
    by (cases "qs_client_ca Q") (simp_all add: make_server_config_def)
  have addr: "qs_addr (Q\<lparr>qs_default_database := d\<rparr>) = qs_addr Q" by simp
  show ?thesis unfolding bind_endpoint_def certs make addr ..
qed

lemma start_any_default:
  assumes "start_service H TW s cli cfg = Some (Inr sv)"
  shows "start_service H TW s (cli\<lparr>cl_default_database := Some d\<rparr>) cfg = Some (Inr (sv\<lparr>sv_default_database := d\<rparr>))"
proof -
  let ?sg = "merge_settings cli cfg"
  obtain dbs where dbs: "open_all H (sg_durability ?sg) (database_entries cli cfg) [] = Some (Inr dbs)"
    using assms by (auto simp: start_service_def Let_def split: option.splits sum.splits)
  let ?Q = "with_databases dbs (sg_default_database ?sg) (sg_listen ?sg) (sg_cert_path ?sg) (sg_key_path ?sg)
    (tl_client_ca (cf_tls cfg)) (tl_client_cert_required (cf_tls cfg)) (sc_max_streams (cf_server cfg)) (sc_idle_timeout (cf_server cfg))"
  have start: "server_start TW s ?Q = Some (Inr sv)" using assms dbs by (simp add: start_service_def Let_def)
  then obtain ep where ep: "bind_endpoint TW s ?Q = Some (Inr ep)"
      "sv = \<lparr>sv_databases = dbs, sv_default_database = sg_default_database ?sg, sv_endpoint = ep\<rparr>"
    by (auto simp: server_start_def and_then_eq_Inr with_databases_def)
  have "with_databases dbs d (sg_listen ?sg) (sg_cert_path ?sg) (sg_key_path ?sg)
    (tl_client_ca (cf_tls cfg)) (tl_client_cert_required (cf_tls cfg)) (sc_max_streams (cf_server cfg)) (sc_idle_timeout (cf_server cfg)) =
    ?Q\<lparr>qs_default_database := d\<rparr>" by (simp add: with_databases_def)
  then show ?thesis
    using dbs ep bind_any_default [of TW s d ?Q]
    by (simp add: start_service_def Let_def default_name_settings default_name_entries server_start_def) (simp add: with_databases_def)
qed

text \<open>C35: A server that starts serves exactly the databases its settings name, each opened from the last entry with
  its name. No step of the start checks the default database: with any other name for it the same service starts, and
  a stream that names no database is refused when the default database is not among those served.\<close>
theorem startup_databases:
  assumes "start_service H TW s cli cfg = Some (Inr sv)"
  shows "distinct (map fst (sv_databases sv)) \<and>
    (\<forall>name. database_of (accept_connection sv) name = (case last_entry (database_entries cli cfg) name of
        None \<Rightarrow> None
      | Some (path, engine) \<Rightarrow>
          (case open_with_durability H path engine (sg_durability (merge_settings cli cfg)) of
             Some (Inr db) \<Rightarrow> Some db | _ \<Rightarrow> None))) \<and>
    (\<forall>d. start_service H TW s (cli\<lparr>cl_default_database := Some d\<rparr>) cfg = Some (Inr (sv\<lparr>sv_default_database := d\<rparr>))) \<and>
    (\<forall>SE st rest username password.
       sv_default_database sv \<notin> fst ` set (database_entries cli cfg) \<longrightarrow>
       read_client_message SE (st_in st) = Inr (MsgAuth username password [], rest) \<longrightarrow>
       (\<forall>cert. \<exists>e. handle_stream SE (sv_default_database sv) cert st (accept_connection sv) =
          Some (st\<lparr>st_in := rest\<rparr>, accept_connection sv, Inl e)))"
proof -
  have opened: "open_all H (sg_durability (merge_settings cli cfg)) (database_entries cli cfg) [] = Some (Inr (sv_databases sv))"
    using start_service_cases [OF assms] by blast
  have all: "distinct (map fst (sv_databases sv)) \<and>
    (\<forall>name. map_of (sv_databases sv) name = (case last_entry (database_entries cli cfg) name of
        None \<Rightarrow> None
      | Some (path, engine) \<Rightarrow>
          (case open_with_durability H path engine (sg_durability (merge_settings cli cfg)) of
             Some (Inr db) \<Rightarrow> Some db | _ \<Rightarrow> None)))"
    using open_all_names [OF opened, unfolded map_of.simps] by simp
  have none: "last_entry (database_entries cli cfg) name = None" if "name \<notin> fst ` set (database_entries cli cfg)" for name
    using that by (simp add: last_entry_def map_of_eq_None_iff)
  have "handle_stream SE (sv_default_database sv) cert st (accept_connection sv) =
      Some (st\<lparr>st_in := rest\<rparr>, accept_connection sv,
        Inl (Protocol (''Database '' @ quoted (sv_default_database sv) @ '' not found'')))"
    if "sv_default_database sv \<notin> fst ` set (database_entries cli cfg)"
      "read_client_message SE (st_in st) = Inr (MsgAuth username password [], rest)" for SE st rest username password cert
    using that all none [OF that(1)] by (simp add: handle_stream_def Let_def accept_connection_def database_of_def)
  then show ?thesis using all start_any_default [OF assms] by (auto simp: accept_connection_def database_of_def)
qed

definition empty_directory :: directory where
  "empty_directory = \<lparr>di_files = \<lparr>wf_old = None, wf_current = None\<rparr>, di_tables = [], di_disk = Map.empty, di_catalog = None\<rparr>"

definition sample_host :: host where
  "sample_host = \<lparr>ho_codec = list_codec [], ho_argon = sample_argon, ho_password = None, ho_salt = (\<lambda>_. []),
     ho_faults = (\<lambda>_ _. None), ho_directory = (\<lambda>_. Inr empty_directory)\<rparr>"

definition sample_tls :: tls_world where
  "sample_tls = \<lparr>tw_pem = \<lparr>pm_certs = (\<lambda>_. Inl []), pm_private_key = (\<lambda>_. Inl [])\<rparr>,
     tw_faults = \<lparr>ff_read = (\<lambda>_. []), ff_write = (\<lambda>_. None), ff_chmod = (\<lambda>_. None)\<rparr>,
     tw_add_root = (\<lambda>_. None), tw_verifier = (\<lambda>_ _. None), tw_single_cert = (\<lambda>_ _. None), tw_quic = None,
     tw_idle_ok = (\<lambda>s. unat s * 1000 < 2 ^ 62), tw_address = (\<lambda>_. None), tw_bind = (\<lambda>_. None), tw_bound = None,
     tw_generate = (\<lambda>_. Inr ([1], [2]))\<rparr>"

definition sample_cli :: cli_options where
  "sample_cli = \<lparr>cl_config = None, cl_data_dir = None, cl_listen = None, cl_cert = None, cl_key = None, cl_durability = None,
     cl_default_engine = None, cl_databases = Some ''a = x, b'', cl_default_database = None\<rparr>"

lemma sample_entries: "database_entries sample_cli config_default = [(''a'', ''x'', ''disk'')]"
  by code_simp

lemma sample_opens: "\<exists>db. open_with_durability sample_host path engine durability = Some (Inr db)"
  by (simp add: open_with_durability_def sample_host_def empty_directory_def open_database_def replay_wal_def
      restore_tables_to_engines_def bootstrap_default_user_def user_count_def replay_users_from_wal_def)

lemma sample_endpoint:
  "\<exists>ep. bind_endpoint sample_tls s \<lparr>qs_databases = dbs, qs_default_database = d, qs_addr = a, qs_cert_path = None, qs_key_path = None,
     qs_client_ca = None, qs_client_cert_required = b, qs_max_streams = m, qs_idle_timeout = 30\<rparr> = Some (Inr ep)"
  by (simp add: bind_endpoint_def sample_tls_def protocol_step_def load_or_generate_certs_def generate_self_signed_cert_def
      make_server_config_def)

theorem startup_databases_witness:
  "\<forall>s. \<exists>sv. start_service sample_host sample_tls s sample_cli config_default = Some (Inr sv) \<and>
     database_of (accept_connection sv) ''a'' \<noteq> None \<and> database_of (accept_connection sv) ''default'' = None \<and>
     (\<exists>e. handle_stream (sample_session_env [] (\<lambda>_. Inr (MsgAuth ''ann'' ''pw'' []))) ''default'' None sample_stream
        (accept_connection sv) = Some (sample_stream\<lparr>st_in := []\<rparr>, accept_connection sv, Inl e))"
proof
  fix s
  let ?SE = "sample_session_env [] (\<lambda>_. Inr (MsgAuth ''ann'' ''pw'' []))"
  obtain db where db: "open_with_durability sample_host ''x'' ''disk'' ''async'' = Some (Inr db)" using sample_opens by blast
  have sg: "sg_durability (merge_settings sample_cli config_default) = ''async''"
    "sg_default_database (merge_settings sample_cli config_default) = ''default''" by code_simp+
  have "\<exists>sv. start_service sample_host sample_tls s sample_cli config_default = Some (Inr sv)"
    using sample_endpoint [of s "put_named ''a'' db []" "''default''" "''127.0.0.1:9613''" False 100]
    by (simp add: start_service_def server_start_def with_databases_def Let_def sample_entries sg db)
       (auto simp: merge_settings_def sample_cli_def config_default_def server_default_def tls_default_def storage_default_def
         or_else_def option_or_def)
  then obtain sv where sv: "start_service sample_host sample_tls s sample_cli config_default = Some (Inr sv)" by blast
  note all = startup_databases [OF sv, unfolded sample_entries sg]
  have default: "sv_default_database sv = ''default''" using start_service_cases [OF sv] sg(2) by metis
  have a: "last_entry [(''a'', ''x'', ''disk'')] ''a'' = Some (''x'', ''disk'')"
    "last_entry [(''a'', ''x'', ''disk'')] ''default'' = None" by (simp_all add: last_entry_def)
  have "read_client_message ?SE (st_in sample_stream) = Inr (MsgAuth ''ann'' ''pw'' [], [])"
    by (simp add: read_client_message_def read_frame_def read_exact_def sample_session_env_def sample_stream_def)
  then have refused: "\<exists>e. handle_stream ?SE ''default'' None sample_stream (accept_connection sv) =
      Some (sample_stream\<lparr>st_in := []\<rparr>, accept_connection sv, Inl e)"
    using all unfolding default by simp
  show "\<exists>sv. start_service sample_host sample_tls s sample_cli config_default = Some (Inr sv) \<and>
     database_of (accept_connection sv) ''a'' \<noteq> None \<and> database_of (accept_connection sv) ''default'' = None \<and>
     (\<exists>e. handle_stream ?SE ''default'' None sample_stream
        (accept_connection sv) = Some (sample_stream\<lparr>st_in := []\<rparr>, accept_connection sv, Inl e))"
    using sv refused all a db by (intro exI [of _ sv]) simp
qed

subsection \<open>Client certificates\<close>

text \<open>A server that starts demands client certificates exactly when one is required and a file of accepted
  authorities is configured; without the file the requirement is passed over.\<close>

theorem client_certificates:
  assumes "start_service H TW s cli cfg = Some (Inr sv)"
  shows "((\<exists>roots. ep_client_auth (sv_endpoint sv) = RequiredClientAuth roots) \<longleftrightarrow>
      tl_client_cert_required (cf_tls cfg) \<and> tl_client_ca (cf_tls cfg) \<noteq> None) \<and>
    (ep_client_auth (sv_endpoint sv) = NoClientAuth \<longleftrightarrow> tl_client_ca (cf_tls cfg) = None)"
  using assms
  by (auto simp: start_service_def server_start_def with_databases_def Let_def bind_endpoint_def make_server_config_def and_then_eq_Inr
      split: option.splits sum.splits if_splits)

subsection \<open>Signals\<close>

lemma on_signal_fixed: "foldl on_signal Stopped signals = Stopped" "foldl on_signal Killed signals = Killed"
  by (induction signals) auto

lemma on_signal_interrupted: "foldl on_signal Interrupted1 signals = Stopped \<longleftrightarrow> SigTerm \<in> set signals"
proof (induction signals)
  case (Cons a signals)
  then show ?case by (cases a) (auto simp: on_signal_fixed)
qed simp

text \<open>The databases are shut down exactly when the first signal is SIGINT and a SIGTERM follows: neither signal
  does it alone, however often it is sent.\<close>

theorem stop_needs_both_signals:
  "stop_service C plans sv signals =
     (case signals of
        SigInt # later \<Rightarrow> (if SigTerm \<in> set later then Some (shutdown_all C plans (sv_databases sv)) else None)
      | _ \<Rightarrow> None)"
  by (cases signals rule: list.exhaust; (simp add: stop_service_def)?)
    (auto simp: stop_service_def on_signal_interrupted on_signal_fixed split: signal.splits)

end
