(* ===== verification/History.thy ===== *)
theory History
  imports Statements Admin
begin

text \<open>
  Whole histories of a database: statements one after the other, checkpoints, shutdowns, and
  openings at any point between them, after a shutdown or after a crash. The invariant ties the log
  files to the tables in memory; from it follows that nothing a settled statement reported as done is lost. Users
  and grants have no such guarantee: the second shutdown drops their records.
\<close>

subsection \<open>The invariant\<close>

text \<open>The records in the two log files, those of the file that was rotated away first.\<close>

definition logs :: "codec \<Rightarrow> wal_record list \<Rightarrow> database \<Rightarrow> bool" where
  "logs C rs db \<longleftrightarrow> all_serializable C rs \<and>
     (\<exists>ro rc. rs = ro @ rc \<and> ww_file (db_wal db) = log_of C rc \<and>
       (case db_old_wal db of None \<Rightarrow> ro = [] | Some b \<Rightarrow> b = log_of C ro))"

text \<open>Every version was written by a transaction before the next identifier.\<close>

definition ids_below :: "u64 \<Rightarrow> table list \<Rightarrow> bool" where
  "ids_below n tables \<longleftrightarrow> (\<forall>v \<in> set (all_versions tables). rv_txid_min v \<noteq> 0 \<and> rv_txid_min v < n)"

abbreviation next_id :: "database \<Rightarrow> u64" where
  "next_id db \<equiv> mv_next_txid (db_mvcc db)"

definition durable :: "codec \<Rightarrow> wal_record list \<Rightarrow> database \<Rightarrow> bool" where
  "durable C rs db \<longleftrightarrow> logs C rs db \<and> tables_logged rs (db_tables db) \<and> distinct (map tb_name (db_tables db)) \<and>
     (\<forall>t \<in> set (db_tables db). chains_ok t) \<and> ids_below (next_id db) (db_tables db) \<and> 0 < next_id db"

lemma core_versions: "map table_core ts = map table_core us \<Longrightarrow> all_versions ts = all_versions us"
proof -
  assume "map table_core ts = map table_core us"
  then have "map tb_version_chains ts = map tb_version_chains us"
    by (induction ts us rule: list_induct2') (simp_all add: table_core_def)
  then show ?thesis by (simp add: all_versions_def)
qed

lemma core_chains_ok:
  "map table_core ts = map table_core us \<Longrightarrow> (\<forall>t \<in> set ts. chains_ok t) \<longleftrightarrow> (\<forall>t \<in> set us. chains_ok t)"
  by (induction ts us rule: list_induct2') (auto simp: table_core_def chains_ok_def)

text \<open>A change of indexes, users, grants, catalog or identifiers keeps the invariant.\<close>

lemma durable_core:
  assumes "durable C rs db" "map table_core (db_tables db') = map table_core (db_tables db)"
    and "db_wal db' = db_wal db" "db_old_wal db' = db_old_wal db" "next_id db \<le> next_id db'"
  shows "durable C rs db'"
  using assms core_names [OF assms(2)] core_versions [OF assms(2)] core_chains_ok [OF assms(2)]
  by (auto simp: durable_def logs_def tables_logged_def ids_below_def)

lemma durable_frame:
  assumes "durable C rs db" "db_tables db' = db_tables db"
    and "db_wal db' = db_wal db" "db_old_wal db' = db_old_wal db" "next_id db \<le> next_id db'"
  shows "durable C rs db'"
  using durable_core [OF assms(1)] assms(2-5) by simp

subsection \<open>Appending to the log\<close>

lemma log_append_frame: "log_append C fault r db = (db', res) \<Longrightarrow> db' = db\<lparr>db_wal := db_wal db'\<rparr>"
  by (auto simp: log_append_def split: prod.splits)

lemma log_append_frame_simps:
  assumes "log_append C fault r db = (db', res)"
  shows "db_tables db' = db_tables db" "db_old_wal db' = db_old_wal db" "db_mvcc db' = db_mvcc db"
    "db_users db' = db_users db" "db_permissions db' = db_permissions db" "db_catalog db' = db_catalog db"
  using assms by (auto simp: log_append_def split: prod.splits)

lemma log_append_keeps:
  "log_append C fault r db = (db', res) \<Longrightarrow> db_old_wal db' = db_old_wal db \<and> db_mvcc db' = db_mvcc db"
  using log_append_frame_simps by blast

lemma logs_append:
  assumes "codec_ok C" "log_append C fault r db = (db', Inr u)" "logs C rs db"
  shows "logs C (rs @ [r]) db'"
proof -
  obtain w where w: "wal_append C fault r (db_wal db) = (w, Inr u)" "db' = db\<lparr>db_wal := w\<rparr>"
    by (rule log_append_Inr [OF assms(2)])
  obtain b where b: "cd_serialize C r = Inr b" "ww_file w = ww_file (db_wal db) @ wal_frame C b"
    using wal_append_Inr [OF w(1)] by metis
  then have "serializable C r" "record_frame C r = wal_frame C b"
    using assms(1) by (auto simp: serializable_codec_ok record_frame_def)
  moreover obtain ro rc where "rs = ro @ rc" "ww_file (db_wal db) = log_of C rc"
      "case db_old_wal db of None \<Rightarrow> ro = [] | Some b \<Rightarrow> b = log_of C ro" "all_serializable C rs"
    using assms(3) by (auto simp: logs_def)
  ultimately show ?thesis
    unfolding logs_def using w(2) b(2)
    by (intro conjI exI [of _ ro] exI [of _ "rc @ [r]"]) (auto simp: all_serializable_def)
qed

lemma logs_append_all:
  "codec_ok C \<Longrightarrow> log_append_all C faults i rs db = (db', Inr u) \<Longrightarrow> logs C rs0 db \<Longrightarrow> logs C (rs0 @ rs) db'"
proof (induction rs arbitrary: i db rs0)
  case (Cons r rs)
  obtain d1 u1 where d1: "log_append C (faults i) r db = (d1, Inr u1)"
    and rest: "log_append_all C faults (Suc i) rs d1 = (db', Inr u)"
    using Cons.prems(2) by (auto split: prod.splits sum.splits)
  show ?case using Cons.IH [OF Cons.prems(1) rest logs_append [OF Cons.prems(1) d1 Cons.prems(3)]] by simp
qed simp

text \<open>A record that changes no table.\<close>

lemma durable_note:
  assumes "codec_ok C" "durable C rs db" "log_append C fault r db1 = (db2, Inr u)"
    and "db_tables db1 = db_tables db" "db_wal db1 = db_wal db" "db_old_wal db1 = db_old_wal db" "next_id db \<le> next_id db1"
    and "\<And>ts. apply_wal_record ts r = ts"
  shows "durable C (rs @ [r]) db2"
proof -
  have "durable C rs db1" using assms(2,4-7) by (intro durable_frame [OF assms(2)]) simp_all
  then show ?thesis
    using logs_append [OF assms(1,3)] log_append_frame_simps [OF assms(3)] assms(8)
    by (simp add: durable_def tables_logged_def)
qed

subsection \<open>Commit\<close>

lemma apply_change_ids:
  "v \<in> set (concat (apply_change txid cs (i, w))) \<Longrightarrow>
     rv_txid_min v = rv_txid_min w \<or> (\<exists>v0 \<in> set (concat cs). rv_txid_min v0 = rv_txid_min v)"
proof -
  have push: "rv_txid_min v = rv_txid_min w \<or> (\<exists>v0 \<in> set c. rv_txid_min v0 = rv_txid_min v)"
    if "v \<in> set (push_version txid w c)" for c
    using that by (cases c rule: rev_cases) auto
  assume v: "v \<in> set (concat (apply_change txid cs (i, w)))"
  show ?thesis
  proof (cases "i < length cs")
    case True
    then have "v \<in> set (push_version txid w (cs ! i)) \<or> v \<in> set (concat cs)"
      using v by (auto simp: apply_change_def dest!: set_update_subset_insert [THEN subsetD])
    then show ?thesis using push [of "cs ! i"] nth_mem [OF True] by auto
  qed (use v in \<open>auto simp: apply_change_def\<close>)
qed

lemma version_of_min [simp]: "rv_txid_min (version_of t txid e) = txid"
  by (simp add: version_of_def new_insert_def new_update_def new_delete_def split: write_op.splits)

lemma apply_entries_ids:
  "v \<in> set (concat (foldl (apply_entry t txid) cs es)) \<Longrightarrow>
     rv_txid_min v = txid \<or> (\<exists>v0 \<in> set (concat cs). rv_txid_min v0 = rv_txid_min v)"
proof (induction es arbitrary: cs)
  case (Cons e es)
  then have "rv_txid_min v = txid \<or> (\<exists>v0 \<in> set (concat (apply_entry t txid cs e)). rv_txid_min v0 = rv_txid_min v)"
    by simp
  then show ?case
    unfolding apply_entry_def using apply_change_ids [of _ txid cs "we_row_idx e" "version_of t txid e"]
    by (metis version_of_min)
qed auto

lemma commit_cores:
  assumes "commit X C plan tx db = (tx', db', Inr u)" "distinct (map tb_name (db_tables db))"
    and "\<forall>t \<in> set (db_tables db). chains_ok t" "statement_ok (db_tables db) (tx_write_set tx)" "plan_covers plan (tx_write_set tx)"
  shows "map table_core (db_tables db') = map (core_after (tx_id tx) (tx_write_set tx)) (db_tables db)"
proof -
  let ?snap = "tables_snapshot (db_tables db)" and ?ws = "tx_write_set tx"
  let ?chs = "apply_write_set ?ws ?snap (tx_id tx)"
  have inst: "install_tables X ?snap ?ws ?chs (cp_table_order plan) (db_tables db) = (db_tables db', Inr ())"
    by (rule commit_Inr [OF assms(1)])
  have dist: "distinct (cp_table_order plan)" using assms(5) by (simp add: plan_covers_def)
  have chs: "?chs (tb_name t) = (if entries_of (tb_name t) ?ws = [] then None
       else Some (foldl (apply_entry t (tx_id tx)) (tb_version_chains t) (entries_of (tb_name t) ?ws)))"
    if "t \<in> set (db_tables db)" for t
    using that assms(2-4)
    by (intro apply_write_set_entries [of _ _ _ "length (tb_version_chains t)" "{}"])
      (auto simp: tables_snapshot_Some chains_ok_def statement_ok_def)
  have "table_core (if tb_name t \<in> set (cp_table_order plan) then fst (installed X ?snap ?ws ?chs t) else t) =
      core_after (tx_id tx) ?ws t" if t: "t \<in> set (db_tables db)" for t
  proof (cases "tb_name t \<in> set (cp_table_order plan)")
    case True
    then show ?thesis using chs [OF t] by (simp add: table_core_def core_after_def split: option.splits)
  next
    case False
    then have "entries_of (tb_name t) ?ws = []" using assms(5) by (auto simp: plan_covers_def filter_empty_conv)
    then show ?thesis using False by (simp add: table_core_def core_after_def)
  qed
  then show ?thesis using install_tables_Inr [OF inst assms(2) dist] by simp
qed

lemma applied_versions:
  assumes "t \<in> set tables" "chains_ok t" "statement_ok tables ws" "x \<noteq> 0" "x \<noteq> u64_MAX"
    and "\<forall>v \<in> set (concat (tb_version_chains t)). rv_txid_min v \<noteq> 0 \<and> rv_txid_min v < x"
    and "tb_version_chains t' = foldl (apply_entry t x) (tb_version_chains t) (entries_of (tb_name t) ws)"
  shows "chains_ok t' \<and> (\<forall>v \<in> set (concat (tb_version_chains t')). rv_txid_min v \<noteq> 0 \<and> rv_txid_min v \<le> x)"
proof
  have ok: "\<forall>c \<in> set (tb_version_chains t). c \<noteq> [] \<and> chain_ok c" using assms(2) by (auto simp: chains_ok_def)
  have "writable_at x (tb_version_chains t) e" for e
  proof -
    have "rv_txid_min (last (tb_version_chains t ! i)) \<le> x" if "i < length (tb_version_chains t)" for i
      using assms(6) ok that nth_mem [OF that] last_in_set by (metis UN_I less_imp_le set_concat)
    then show ?thesis by (simp add: writable_at_def)
  qed
  then show "chains_ok t'"
    using fold_entries [of t _ "{}" "entries_of (tb_name t) ws" "tb_version_chains t" x, OF _ refl le_refl _ ok assms(5)]
      assms(1,3,7) by (simp add: statement_ok_def chains_ok_def)
  show "\<forall>v \<in> set (concat (tb_version_chains t')). rv_txid_min v \<noteq> 0 \<and> rv_txid_min v \<le> x"
  proof
    fix v assume "v \<in> set (concat (tb_version_chains t'))"
    then have "rv_txid_min v = x \<or> (\<exists>v0 \<in> set (concat (tb_version_chains t)). rv_txid_min v0 = rv_txid_min v)"
      using apply_entries_ids [of v t x "tb_version_chains t" "entries_of (tb_name t) ws"] assms(7) by simp
    then show "rv_txid_min v \<noteq> 0 \<and> rv_txid_min v \<le> x" using assms(4,6) by (metis less_imp_le order_refl)
  qed
qed

lemma durable_commit:
  assumes "codec_ok C" "durable C rs db" "commit X C plan tx db = (tx', db', Inr u)"
    and "statement_ok (db_tables db) (tx_write_set tx)" "plan_covers plan (tx_write_set tx)"
    and "ids_below (tx_id tx) (db_tables db)" "tx_id tx \<noteq> 0" "tx_id tx \<noteq> u64_MAX" "tx_id tx < next_id db"
  shows "\<exists>rs'. durable C rs' db'"
proof -
  let ?ws = "tx_write_set tx" and ?id = "tx_id tx"
  let ?recs = "map (wal_record_of ?id) ?ws @ [WCommit ?id]"
  have inv: "logs C rs db" "tables_logged rs (db_tables db)" "distinct (map tb_name (db_tables db))"
    "\<forall>t \<in> set (db_tables db). chains_ok t"
    using assms(2) by (auto simp: durable_def)
  obtain db1 cat where
    l: "log_append_all C (cp_wal plan) 0 ?recs db = (db1, Inr ())"
    and db': "db' = db\<lparr>db_wal := db_wal db1, db_catalog := cat, db_tables := db_tables db',
       db_mvcc := commit_transaction tx (db_mvcc db)\<rparr>"
    by (rule commit_Inr [OF assms(3)])
  have fr: "db_wal db' = db_wal db1" "db_old_wal db' = db_old_wal db" "next_id db' = next_id db"
    by (subst db', simp)+
  have old: "db_old_wal db1 = db_old_wal db" by (subst log_append_all_frame [OF l]) simp
  have log: "logs C (rs @ ?recs) db'"
    using logs_append_all [OF assms(1) l inv(1)] fr old by (simp add: logs_def)
  have cores: "map table_core (db_tables db') = map (core_after ?id ?ws) (db_tables db)"
    by (rule commit_cores [OF assms(3) inv(3,4) assms(4,5)])
  have logged: "tables_logged (rs @ ?recs) (db_tables db')"
    using replay_write_set [OF inv(2-4) assms(4), of ?id] cores by (simp add: tables_logged_def)
  have "map tb_name (db_tables db') = map tb_name (db_tables db)"
    using arg_cong [OF cores, of "map fst"] by (simp add: table_core_def core_after_def comp_def)
  then have dist: "distinct (map tb_name (db_tables db'))" using inv(3) by simp
  have each: "chains_ok t' \<and> (\<forall>v \<in> set (concat (tb_version_chains t')). rv_txid_min v \<noteq> 0 \<and> rv_txid_min v \<le> ?id)"
    if "t' \<in> set (db_tables db')" for t'
  proof -
    have "table_core t' \<in> set (map (core_after ?id ?ws) (db_tables db))" unfolding cores [symmetric] using that by simp
    then obtain t where t: "t \<in> set (db_tables db)"
        "tb_version_chains t' = foldl (apply_entry t ?id) (tb_version_chains t) (entries_of (tb_name t) ?ws)"
      by (auto simp: table_core_def core_after_def)
    have "\<forall>v \<in> set (concat (tb_version_chains t)). rv_txid_min v \<noteq> 0 \<and> rv_txid_min v < ?id"
      using assms(6) t(1) by (auto simp: ids_below_def all_versions_def)
    then show ?thesis using applied_versions [OF t(1) _ assms(4,7,8) _ t(2)] inv(4) t(1) by blast
  qed
  then have chains: "\<forall>t' \<in> set (db_tables db'). chains_ok t'" by blast
  have "rv_txid_min v \<noteq> 0 \<and> rv_txid_min v < next_id db'" if "v \<in> set (all_versions (db_tables db'))" for v
  proof -
    have "\<exists>t' \<in> set (db_tables db'). v \<in> set (concat (tb_version_chains t'))"
      using that by (auto simp: all_versions_def)
    then show ?thesis using each assms(9) fr(3) by (auto intro: le_less_trans)
  qed
  moreover have "0 < next_id db'" using assms(2) fr(3) by (simp add: durable_def)
  ultimately show ?thesis using log logged dist chains unfolding durable_def ids_below_def by blast
qed

lemma commit_frame:
  assumes "commit X C plan tx db = (tx', db', r)"
  shows "db_old_wal db' = db_old_wal db \<and> next_id db' = next_id db"
proof -
  let ?recs = "map (wal_record_of (tx_id tx)) (tx_write_set tx) @ [WCommit (tx_id tx)]"
  obtain db1 r1 where l: "log_append_all C (cp_wal plan) 0 ?recs db = (db1, r1)" by fastforce
  have "db_old_wal db1 = db_old_wal db" "db_mvcc db1 = db_mvcc db" by (subst log_append_all_frame [OF l], simp)+
  then show ?thesis
    using assms l by (auto simp: commit_def Let_def split: if_splits sum.splits prod.splits)
qed

lemma add_writes [simp]:
  "tx_write_set (foldl (\<lambda>tx e. add_write e tx) tx es) = tx_write_set tx @ es"
  "tx_id (foldl (\<lambda>tx e. add_write e tx) tx es) = tx_id tx"
  by (induction es arbitrary: tx) (simp_all add: add_write_def)

lemma write_entries_commit:
  assumes "write_entries XP es db = (db', r)"
  obtains tx' where "commit (xp_ext XP) (xp_codec XP) (xp_commit XP)
      (foldl (\<lambda>tx e. add_write e tx) (fst (begin_txn db)) es) (snd (begin_txn db)) = (tx', db', r)"
proof -
  obtain tx' db2 r2 where c: "commit (xp_ext XP) (xp_codec XP) (xp_commit XP)
      (foldl (\<lambda>tx e. add_write e tx) (fst (begin_txn db)) es) (snd (begin_txn db)) = (tx', db2, r2)"
    using prod_cases3 by blast
  then have "db2 = db'" "r2 = r" using assms by (simp_all add: write_entries_def with_write_txn_def split_beta)
  then show ?thesis using that c by blast
qed

lemma write_entries_frame:
  "write_entries XP es db = (db', r) \<Longrightarrow> db_old_wal db' = db_old_wal db \<and> next_id db' = next_id db + 1"
  by (erule write_entries_commit) (auto dest!: commit_frame)

text \<open>Identifiers for one statement, which begins at most two transactions.\<close>

definition room :: "database \<Rightarrow> bool" where
  "room db \<longleftrightarrow> next_id db \<noteq> u64_MAX \<and> next_id db + 1 \<noteq> u64_MAX"

lemma room_next:
  assumes "room db"
  shows "next_id db < next_id db + 1" "next_id db + 1 < next_id db + 2" "next_id db < next_id db + 2"
proof -
  show a: "next_id db < next_id db + 1" using assms u64_less_succ by (simp add: room_def)
  have "next_id db + 1 < next_id db + 1 + 1"
    using assms u64_less_succ [of "next_id db + 1"] unfolding room_def by blast
  then show b: "next_id db + 1 < next_id db + 2" by (simp add: add.assoc)
  show "next_id db < next_id db + 2" by (rule less_trans [OF a b])
qed

lemma durable_write:
  assumes "codec_ok C" "durable C rs db" "write_entries XP es db = (db', Inr u)" "xp_codec XP = C"
    and "statement_ok (db_tables db) es" "plan_covers (xp_commit XP) es" "next_id db \<noteq> u64_MAX"
  shows "\<exists>rs'. durable C rs' db'"
proof -
  let ?tx = "foldl (\<lambda>tx e. add_write e tx) (fst (begin_txn db)) es" and ?db1 = "snd (begin_txn db)"
  obtain tx' where c: "commit (xp_ext XP) C (xp_commit XP) ?tx ?db1 = (tx', db', Inr u)"
    using write_entries_commit [OF assms(3)] assms(4) by metis
  have less: "next_id db < next_id db + 1" using u64_less_succ [OF assms(7)] .
  have d1: "durable C rs ?db1"
    by (rule durable_frame [OF assms(2)]) (use less in simp_all)
  have tx: "tx_id ?tx = next_id db" "tx_write_set ?tx = es" "db_tables ?db1 = db_tables db" "next_id ?db1 = next_id db + 1"
    by simp_all
  have "ids_below (tx_id ?tx) (db_tables ?db1)" "tx_id ?tx \<noteq> 0" using assms(2) tx by (auto simp: durable_def)
  then show ?thesis
    using durable_commit [OF assms(1) d1 c] assms(5-7) less tx by simp
qed

subsection \<open>The write sets of statements\<close>

lemma inserted_entries_ok:
  assumes "\<forall>r \<in> set rows. validate_row t r = Inr ()"
  shows "entries_ok t (n + k) seen (map (\<lambda>(i, r). entry_for name (n + i) (Insert r)) (enumerate k rows))"
  using assms by (induction rows arbitrary: k) (auto simp: entry_for_def simp flip: add_Suc_right)

lemma changed_entries_ok:
  assumes "distinct (map we_row_idx es)"
    and "\<forall>e \<in> set es. we_row_idx e < length (tb_version_chains t) \<and> we_row_idx e \<notin> seen \<and> \<not> is_insert e"
  shows "entries_ok t n seen es"
  using assms
proof (induction es arbitrary: seen)
  case (Cons e es)
  have "entries_ok t n (insert (we_row_idx e) seen) es" by (rule Cons.IH) (use Cons.prems in \<open>auto simp: image_iff\<close>)
  then show ?case using Cons.prems by (cases "we_operation e") (auto simp: is_insert_def)
qed simp

lemma statement_ok_one:
  assumes "distinct (map tb_name tables)" "find_table_named tables name = Inr t" "\<forall>e \<in> set es. we_table_name e = name"
    and "entries_ok t (length (tb_version_chains t)) {} es"
  shows "statement_ok tables es"
proof -
  have t: "t \<in> set tables" "tb_name t = name"
    using assms(2) by (auto simp: find_table_named_def split: option.splits dest: find_SomeD)
  have "entries_ok u (length (tb_version_chains u)) {} (entries_of (tb_name u) es)" if "u \<in> set tables" for u
  proof (cases "tb_name u = name")
    case True
    then have "u = t" using assms(1) that t by (auto simp: distinct_map dest: inj_onD)
    moreover have "entries_of name es = es" using assms(3) by simp
    ultimately show ?thesis using assms(4) t(2) by simp
  next
    case False
    then have "entries_of (tb_name u) es = []" using assms(3) by (auto simp: filter_empty_conv)
    then show ?thesis by simp
  qed
  then show ?thesis by (simp add: statement_ok_def)
qed

lemma insert_statement_ok:
  assumes "distinct (map tb_name tables)" "insert_entries name rows tables = Inr es"
    and "\<And>t. find_table_named tables name = Inr t \<Longrightarrow> \<forall>r \<in> set rows. validate_row t r = Inr ()"
  shows "statement_ok tables es \<and> we_table_name ` set es \<subseteq> tb_name ` set tables"
proof -
  obtain t where t: "find_table_named tables name = Inr t"
      "es = map (\<lambda>(i, r). entry_for name (row_count t + i) (Insert r)) (enumerate 0 rows)"
    using assms(2) by (auto simp: insert_entries_def and_then_eq_Inr)
  have "entries_ok t (length (tb_version_chains t)) {} es"
    using inserted_entries_ok [OF assms(3) [OF t(1)], of "length (tb_version_chains t)" 0] t(2) by (simp add: row_count_def)
  moreover have names: "\<forall>e \<in> set es. we_table_name e = name" using t(2) by (auto simp: entry_for_def)
  moreover have "name \<in> tb_name ` set tables"
    using t(1) by (auto simp: find_table_named_def split: option.splits dest: find_SomeD)
  ultimately show ?thesis using statement_ok_one [OF assms(1) t(1)] by auto
qed

lemma visible_in_range: "(i, r) \<in> set (scan_visible t s A) \<Longrightarrow> i < length (tb_version_chains t)"
  by (auto simp: scan_visible_iff get_visible_version_def bind_eq_Some_conv nth_opt_def split: if_splits)

lemma matching_rows_sorted: "sorted_wrt (<) (map fst (matching_rows XE t snap columns wc))"
  unfolding matching_rows_def using scan_visible_sorted
  by (metis (no_types) sorted_wrt_filter filter_map sorted_wrt_map)

lemma change_statement_ok:
  assumes "distinct (map tb_name tables)" "find_table_named tables name = Inr t"
    and "map we_row_idx es = map fst (matching_rows XE t snap columns wc)"
    and "\<forall>e \<in> set es. we_table_name e = name \<and> \<not> is_insert e"
  shows "statement_ok tables es \<and> we_table_name ` set es \<subseteq> tb_name ` set tables"
proof -
  have dist: "distinct (map we_row_idx es)"
    unfolding assms(3) using matching_rows_sorted strict_sorted_iff by blast
  have "we_row_idx e < length (tb_version_chains t)" if "e \<in> set es" for e
  proof -
    have "we_row_idx e \<in> set (map fst (matching_rows XE t snap columns wc))"
      using that assms(3) by (metis image_eqI set_map)
    then show ?thesis using visible_in_range by (auto simp: matching_rows_def)
  qed
  then have "entries_ok t (length (tb_version_chains t)) {} es"
    using assms(4) dist by (intro changed_entries_ok) auto
  moreover have "name \<in> tb_name ` set tables"
    using assms(2) by (auto simp: find_table_named_def split: option.splits dest: find_SomeD)
  ultimately show ?thesis using statement_ok_one [OF assms(1,2)] assms(4) by auto
qed

lemma those_Some: "those xs = Some ys \<Longrightarrow> list_all2 (\<lambda>x y. x = Some y) xs ys"
proof (induction xs arbitrary: ys)
  case (Cons x xs)
  then have xs: "None \<notin> set (x # xs)" "those xs = Some (map the xs)" "ys = the x # map the xs"
    by (auto simp: those_def split: if_splits)
  then have "x = Some (the x)" by (cases x) auto
  then show ?case unfolding xs(3) using Cons.IH [OF xs(2)] by (rule list.rel_intros(2))
qed (simp add: those_def)

lemma update_entries_shape:
  assumes "update_entries XE name set_indices set_values wc columns t snap = Some es"
  shows "map we_row_idx es = map fst (matching_rows XE t snap columns wc) \<and>
    (\<forall>e \<in> set es. we_table_name e = name \<and> \<not> is_insert e)"
proof -
  have "list_all2 (\<lambda>p e. we_row_idx e = fst p \<and> we_table_name e = name \<and> \<not> is_insert e)
      (matching_rows XE t snap columns wc) es"
    using those_Some [OF assms [unfolded update_entries_def]]
    by (auto simp: list_all2_map1 entry_for_def is_insert_def elim!: list_all2_mono)
  then show ?thesis by (induction rule: list_all2_induct) auto
qed

lemma delete_entries_shape:
  "map we_row_idx (delete_entries XE name wc columns t snap) = map fst (matching_rows XE t snap columns wc) \<and>
    (\<forall>e \<in> set (delete_entries XE name wc columns t snap). we_table_name e = name \<and> \<not> is_insert e)"
  by (auto simp: delete_entries_def entry_for_def is_insert_def)

subsection \<open>Statements\<close>

text \<open>A log without I/O faults; it can still refuse a record that does not serialize, and is then unchanged.\<close>

definition log_works :: "exec_plan \<Rightarrow> bool" where
  "log_works XP \<longleftrightarrow> xp_wal XP = None \<and> dp_wal (xp_ddl XP) = None"

lemma log_append_works:
  assumes "log_append C None r db = (db', Inl e)"
  shows "db' = db \<and> (\<exists>m. e = Serialization m)"
  using assms by (auto simp: log_append_def wal_append_def Let_def split: sum.splits if_splits prod.splits)

text \<open>
  A statement in the order of the tables' names: DROP TABLE names its table as it was created, the order of the
  hash map lists every table once, and rows to insert are valid, as the planner leaves them.
\<close>

definition plan_fits :: "exec_plan \<Rightarrow> table list \<Rightarrow> flat_plan \<Rightarrow> bool" where
  "plan_fits XP tables p \<longleftrightarrow>
     log_works XP \<and> distinct (cp_table_order (xp_commit XP)) \<and> tb_name ` set tables \<subseteq> set (cp_table_order (xp_commit XP)) \<and>
     (case p of
        PlanDropTable name _ \<Rightarrow> \<forall>t \<in> set tables. same_name name t \<longrightarrow> tb_name t = name
      | PlanInsert name rows \<Rightarrow> \<forall>t. find_table_named tables name = Inr t \<longrightarrow> (\<forall>r \<in> set rows. validate_row t r = Inr ())
      | PlanExplain _ _ _ \<Rightarrow> False
      | _ \<Rightarrow> True)"

text \<open>A statement that fails has left the tables and the log as they were.\<close>

definition settled :: "database \<Rightarrow> database \<Rightarrow> 'a res \<Rightarrow> bool" where
  "settled db db' r \<longleftrightarrow> (case r of Inl _ \<Rightarrow> db_tables db' = db_tables db \<and> db_wal db' = db_wal db | Inr _ \<Rightarrow> True)"

lemma settled_frame:
  assumes "settled db db' r" "r = Inl e" "durable C rs db" "db_old_wal db' = db_old_wal db" "next_id db \<le> next_id db'"
  shows "durable C rs db'"
  using assms(1,2) by (intro durable_frame [OF assms(3)]) (simp_all add: settled_def assms(4,5))

lemma create_table_frame:
  "create_table C P name columns engine db = (db', r) \<Longrightarrow> db_old_wal db' = db_old_wal db \<and> db_mvcc db' = db_mvcc db"
  by (auto simp: create_table_def Let_def set_catalog_def set_tables_def
      split: if_splits prod.splits sum.splits dest!: log_append_keeps)

lemma durable_create_table:
  assumes "codec_ok C" "durable C rs db" "create_table C P name columns engine db = (db', Inr u)"
  shows "\<exists>rs'. durable C rs' db'"
proof -
  have fresh: "\<not> list_ex (same_name name) (db_tables db)" using assms(3) by (auto simp: create_table_def split: if_splits)
  obtain c1 db2 where l: "log_append C (dp_wal P) (WCreateTable name columns)
        (set_tables (db_tables db @ [table_new name columns]) (set_catalog c1 db)) = (db2, Inr ())"
    and db': "db' = db2 \<or> (\<exists>p. db' = db2\<lparr>db_permissions := p\<rparr>)"
    using assms(3) fresh by (auto simp: create_table_def Let_def split: prod.splits sum.splits if_splits)
  have fr: "db_tables db' = db_tables db @ [table_new name columns]" "db_wal db' = db_wal db2"
    "db_old_wal db' = db_old_wal db2" "next_id db' = next_id db"
    using db' log_append_frame_simps [OF l] by (auto simp: set_tables_def set_catalog_def)
  have "logs C rs (set_tables (db_tables db @ [table_new name columns]) (set_catalog c1 db))"
    using assms(2) by (simp add: durable_def logs_def set_tables_def set_catalog_def)
  from logs_append [OF assms(1) l this] have log: "logs C (rs @ [WCreateTable name columns]) db'"
    using fr by (simp add: logs_def)
  have new: "name \<notin> tb_name ` set (db_tables db)" using fresh by (auto simp: list_ex_iff)
  let ?ts = "foldl apply_wal_record [] rs"
  have core: "map table_core ?ts = map table_core (db_tables db)" using assms(2) by (simp add: durable_def tables_logged_def)
  then have "\<not> list_ex (\<lambda>t. tb_name t = name) ?ts" using new core_names [OF core] by (auto simp: list_ex_iff) (metis image_eqI set_map)
  then have "tables_logged (rs @ [WCreateTable name columns]) (db_tables db')" using core by (simp add: tables_logged_def fr)
  moreover have "chains_ok (table_new name columns)" "all_versions (db_tables db') = all_versions (db_tables db)"
    by (simp_all add: chains_ok_def all_versions_def fr)
  ultimately have "durable C (rs @ [WCreateTable name columns]) db'"
    using assms(2) log new fr by (auto simp: durable_def ids_below_def)
  then show ?thesis by blast
qed

lemma drop_table_frame:
  "drop_table C P name db = (db', r) \<Longrightarrow> db_old_wal db' = db_old_wal db \<and> db_mvcc db' = db_mvcc db"
  by (auto simp: drop_table_def Let_def set_catalog_def set_tables_def
      split: if_splits prod.splits sum.splits option.splits dest!: log_append_keeps)

lemma filter_versions: "v \<in> set (all_versions (filter P ts)) \<Longrightarrow> v \<in> set (all_versions ts)"
  by (auto simp: all_versions_def)

lemma durable_drop_table:
  assumes "codec_ok C" "durable C rs db" "drop_table C P name db = (db', Inr u)"
    and "\<forall>t \<in> set (db_tables db). same_name name t \<longrightarrow> tb_name t = name"
  shows "\<exists>rs'. durable C rs' db'"
proof -
  obtain c1 db2 where l: "log_append C (dp_wal P) (WDropTable name)
        (set_tables (filter (\<lambda>t. \<not> same_name name t) (db_tables db)) (set_catalog c1 db)) = (db2, Inr ())"
    and db': "db' = db2\<lparr>db_permissions := remove_table name (db_permissions db2)\<rparr>"
    using assms(3) by (auto simp: drop_table_def Let_def split: prod.splits sum.splits option.splits)
  have same: "filter (\<lambda>t. \<not> same_name name t) (db_tables db) = filter (\<lambda>t. tb_name t \<noteq> name) (db_tables db)"
    using assms(4) by (intro filter_cong) auto
  have fr: "db_tables db' = filter (\<lambda>t. tb_name t \<noteq> name) (db_tables db)" "db_wal db' = db_wal db2"
    "db_old_wal db' = db_old_wal db2" "next_id db' = next_id db"
    using db' log_append_frame_simps [OF l] same by (auto simp: set_tables_def set_catalog_def)
  have "logs C rs (set_tables (filter (\<lambda>t. \<not> same_name name t) (db_tables db)) (set_catalog c1 db))"
    using assms(2) by (simp add: durable_def logs_def set_tables_def set_catalog_def)
  from logs_append [OF assms(1) l this] have log: "logs C (rs @ [WDropTable name]) db'"
    using fr by (simp add: logs_def)
  let ?ts = "foldl apply_wal_record [] rs"
  have core: "map table_core ?ts = map table_core (db_tables db)" using assms(2) by (simp add: durable_def tables_logged_def)
  have "map table_core (filter (\<lambda>t. tb_name t \<noteq> name) ts) = filter (\<lambda>c. fst c \<noteq> name) (map table_core ts)" for ts
    by (induction ts) (simp_all add: table_core_def)
  then have "tables_logged (rs @ [WDropTable name]) (db_tables db')" using core by (simp add: tables_logged_def fr)
  moreover have "ids_below (next_id db') (db_tables db')"
    using assms(2) filter_versions unfolding durable_def ids_below_def fr by blast
  moreover have "distinct (map tb_name (db_tables db'))" "\<forall>t \<in> set (db_tables db'). chains_ok t" "0 < next_id db'"
    using assms(2) by (simp_all add: durable_def fr distinct_map_filter)
  ultimately have "durable C (rs @ [WDropTable name]) db'" using log by (simp add: durable_def)
  then show ?thesis by blast
qed

text \<open>Users and grants add a record that changes no table.\<close>

lemma note_or_keep:
  assumes "codec_ok C" "durable C rs db" "log_append C None r db1 = (db2, res)"
    and "db_tables db1 = db_tables db" "db_wal db1 = db_wal db" "db_old_wal db1 = db_old_wal db" "db_mvcc db1 = db_mvcc db"
    and "\<And>ts. apply_wal_record ts r = ts"
  shows "\<exists>rs'. durable C rs' db2"
proof (cases res)
  case (Inl e)
  then have "db2 = db1" using log_append_works assms(3) by blast
  then show ?thesis using durable_frame [OF assms(2), of db2] assms(4-7) by auto
next
  case (Inr u)
  then show ?thesis using durable_note [OF assms(1,2), of None r db1 db2 u] assms(3-8) by auto
qed

lemma durable_permissions: "durable C rs (db\<lparr>db_permissions := p\<rparr>) = durable C rs db"
  by (simp add: durable_def logs_def)

lemma durable_create_user:
  assumes "codec_ok C" "durable C rs db" "db_create_user C K salt None username password db = (db', r)"
  shows "\<exists>rs'. durable C rs' db'"
proof -
  have keep: "durable C rs (db\<lparr>db_users := us\<rparr>)" for us using assms(2) by (simp add: durable_def logs_def)
  show ?thesis
    using assms(3) keep assms(2) note_or_keep [OF assms(1,2), of "WCreateUser _ _" "db\<lparr>db_users := _\<rparr>" db' r]
    by (auto simp: db_create_user_def Let_def split: sum.splits option.splits)
qed

lemma durable_alter_user:
  assumes "codec_ok C" "durable C rs db" "alter_user_password C K salt None username password db = (db', r)"
  shows "\<exists>rs'. durable C rs' db'"
proof -
  have keep: "durable C rs (db\<lparr>db_users := us\<rparr>)" for us using assms(2) by (simp add: durable_def logs_def)
  show ?thesis
    using assms(3) keep assms(2) note_or_keep [OF assms(1,2), of "WCreateUser _ _" "db\<lparr>db_users := _\<rparr>" db' r]
    by (auto simp: alter_user_password_def Let_def split: sum.splits option.splits)
qed

lemma durable_drop_user:
  assumes "codec_ok C" "durable C rs db" "db_drop_user C None username db = (db', r)"
  shows "\<exists>rs'. durable C rs' db'"
proof (cases "drop_user username (db_users db)")
  case (Inl e)
  then show ?thesis using assms by (auto simp: db_drop_user_def)
next
  case (Inr us)
  obtain db1 r1 where l: "log_append C None (WDropUser username) (db\<lparr>db_users := us\<rparr>) = (db1, r1)" by fastforce
  obtain rs' where "durable C rs' db1" using note_or_keep [OF assms(1,2) l] by auto
  moreover have "db' = db1 \<or> (\<exists>p. db' = db1\<lparr>db_permissions := p\<rparr>)"
    using assms(3) Inr l by (auto simp: db_drop_user_def split: sum.splits)
  ultimately show ?thesis using durable_permissions by auto
qed

lemma durable_grant:
  assumes "codec_ok C" "durable C rs db" "grant_permission C None username tbl p db = (db', r)"
  shows "\<exists>rs'. durable C rs' db'"
  using assms(3,2) note_or_keep [OF assms(1,2), of "WGrant _ _ _" "db\<lparr>db_permissions := _\<rparr>" db' r]
  by (auto simp: grant_permission_def split: if_splits)

lemma durable_revoke:
  assumes "codec_ok C" "durable C rs db" "revoke_permission C None username tbl p db = (db', r)"
  shows "\<exists>rs'. durable C rs' db'"
  using assms(3) note_or_keep [OF assms(1,2), of "WRevoke _ _ _" "db\<lparr>db_permissions := _\<rparr>" db' r]
  by (auto simp: revoke_permission_def)

text \<open>Index statements change the indexes of one table.\<close>

lemma update_first_cores:
  assumes "\<And>t. t \<in> set ts \<Longrightarrow> P t \<Longrightarrow> table_core (f t) = table_core t"
  shows "map table_core (update_first P f ts) = map table_core ts"
  using assms by (induction ts) auto

lemma durable_reindexed:
  assumes "durable C rs db" "distinct (map tb_name (db_tables db))" "t \<in> set (db_tables db)" "table_core t' = table_core t"
    and "tb_name t = name"
  shows "durable C rs (set_tables (update_first (\<lambda>u. tb_name u = name) (\<lambda>_. t') (db_tables db)) db)"
proof -
  have "u = t" if "u \<in> set (db_tables db)" "tb_name u = name" for u
    using assms(2,3,5) that by (auto simp: distinct_map dest: inj_onD)
  then have "map table_core (update_first (\<lambda>u. tb_name u = name) (\<lambda>_. t') (db_tables db)) = map table_core (db_tables db)"
    using assms(4) by (intro update_first_cores) auto
  then show ?thesis by (intro durable_core [OF assms(1)]) (simp_all add: set_tables_def)
qed

lemma add_index_core: "add_index X t name cols u = Inr t' \<Longrightarrow> table_core t' = table_core t"
  by (auto simp: add_index_def Let_def and_then_eq_Inr push_index_def table_core_def split: if_splits)

lemma drop_index_core: "drop_index t name = Inr t' \<Longrightarrow> table_core t' = table_core t"
  by (auto simp: drop_index_def table_core_def split: option.splits)

lemma durable_create_index:
  assumes "durable C rs db" "execute_create_index XP name tbl cols uniq ine db = Some (db', r)"
  shows "durable C rs db'"
proof (cases "find_table_named (db_tables db) tbl")
  case (Inl e)
  then show ?thesis using assms by (simp add: execute_create_index_def)
next
  case (Inr t)
  then have t: "t \<in> set (db_tables db)" "tb_name t = tbl"
    by (auto simp: find_table_named_def split: option.splits dest: find_SomeD)
  have dist: "distinct (map tb_name (db_tables db))" using assms(1) by (simp add: durable_def)
  show ?thesis
    using assms Inr durable_reindexed [OF assms(1) dist t(1) _ t(2)] add_index_core
    by (auto simp: execute_create_index_def and_then_eq_Inr split: if_splits sum.splits)
qed

lemma durable_drop_index:
  assumes "durable C rs db" "execute_drop_index name tbl if_exists db = Some (db', r)"
  shows "durable C rs db'"
proof (cases "find (\<lambda>t. tb_name t = tbl) (db_tables db)")
  case None
  then show ?thesis using assms by (simp add: execute_drop_index_def)
next
  case (Some t)
  then have t: "t \<in> set (db_tables db)" "tb_name t = tbl" by (auto dest: find_SomeD)
  have dist: "distinct (map tb_name (db_tables db))" using assms(1) by (simp add: durable_def)
  show ?thesis
    using assms Some durable_reindexed [OF assms(1) dist t(1) _ t(2)] drop_index_core
    by (auto simp: execute_drop_index_def split: sum.splits)
qed

lemma take_snapshot_frame [simp]:
  "db_tables (snd (take_snapshot db)) = db_tables db" "db_wal (snd (take_snapshot db)) = db_wal db"
  "db_old_wal (snd (take_snapshot db)) = db_old_wal db" "next_id (snd (take_snapshot db)) = next_id db + 1"
  by (simp_all add: take_snapshot_def split_beta)

lemma durable_snapshot:
  assumes "durable C rs db" "room db"
  shows "durable C rs (snd (take_snapshot db))"
  using room_next(1) [OF assms(2)] by (intro durable_frame [OF assms(1)]) simp_all

lemma durable_query:
  assumes "durable C rs db" "room db" "execute_query XP user plan db = Some (db', r)"
  shows "durable C rs db'"
proof -
  have "db' = snd (take_snapshot db)" using assms(3) by (simp add: execute_query_def split_beta)
  then show ?thesis using durable_snapshot [OF assms(1,2)] by simp
qed

text \<open>The second half of a statement that writes, from a state with the same tables.\<close>

lemma durable_written:
  assumes "codec_ok C" "durable C rs db" "durable C rs db1" "next_id db \<le> next_id db1" "next_id db1 \<noteq> u64_MAX"
    and "db_old_wal db1 = db_old_wal db" "xp_codec XP = C"
    and "statement_ok (db_tables db1) es" "plan_covers (xp_commit XP) es"
    and "of_unit n (write_entries XP es db1) = Some (db', r)" "settled db db' r"
  shows "\<exists>rs'. durable C rs' db'"
proof -
  obtain db2 u where w: "write_entries XP es db1 = (db2, u)" by fastforce
  then have db': "db' = db2" "r = and_then u (\<lambda>_. Inr (affected n))" using assms(10) by (auto simp: of_unit_def)
  note fr = write_entries_frame [OF w]
  show ?thesis
  proof (cases u)
    case (Inl e)
    have "next_id db \<le> next_id db'" using fr db' assms(4) u64_less_succ [OF assms(5)] by (auto intro: order.trans less_imp_le)
    then show ?thesis using settled_frame [OF assms(11) _ assms(2)] fr db' Inl assms(6) by auto
  next
    case (Inr v)
    then show ?thesis using durable_write [OF assms(1,3) _ assms(7,8,9,5)] w db' by auto
  qed
qed

lemma names_covered:
  "distinct (cp_table_order plan) \<Longrightarrow> tb_name ` set tables \<subseteq> set (cp_table_order plan) \<Longrightarrow>
     we_table_name ` set es \<subseteq> tb_name ` set tables \<Longrightarrow> plan_covers plan es"
  by (auto simp: plan_covers_def)

lemma durable_insert:
  assumes "codec_ok C" "durable C rs db" "room db" "xp_codec XP = C" "plan_fits XP (db_tables db) (PlanInsert name rows)"
    and "execute_insert XP user name rows db = Some (db', r)" "settled db db' r"
  shows "\<exists>rs'. durable C rs' db'"
proof (cases "and_then (check_user user (\<lambda>u. check_insert db u name
    (case rows of [] \<Rightarrow> [] | r # _ \<Rightarrow> replicate (length (row_values r)) []))) (\<lambda>_. insert_entries name rows (db_tables db))")
  case (Inl e)
  then show ?thesis using assms(2,6) by (auto simp: execute_insert_def Let_def)
next
  case (Inr es)
  then have es: "insert_entries name rows (db_tables db) = Inr es" by (auto simp: and_then_eq_Inr)
  have fits: "distinct (cp_table_order (xp_commit XP))" "tb_name ` set (db_tables db) \<subseteq> set (cp_table_order (xp_commit XP))"
    "\<And>t. find_table_named (db_tables db) name = Inr t \<Longrightarrow> \<forall>r \<in> set rows. validate_row t r = Inr ()"
    using assms(5) by (auto simp: plan_fits_def)
  have dist: "distinct (map tb_name (db_tables db))" using assms(2) by (simp add: durable_def)
  note ok = insert_statement_ok [OF dist es fits(3)]
  have "of_unit (length rows) (write_entries XP es db) = Some (db', r)" using assms(6) Inr by (simp add: execute_insert_def Let_def)
  then show ?thesis
    using durable_written [OF assms(1,2,2) order_refl _ refl assms(4) _ _ _ assms(7)] ok names_covered [OF fits(1,2)] assms(3)
    by (auto simp: room_def)
qed

lemma durable_change:
  assumes "codec_ok C" "durable C rs db" "room db" "xp_codec XP = C" "plan_fits XP (db_tables db) p"
    and "find_table_named (db_tables db) name = Inr t"
    and "map we_row_idx es = map fst (matching_rows XE t snap columns wc)"
    and "\<forall>e \<in> set es. we_table_name e = name \<and> \<not> is_insert e"
    and "write_if_any XP es (snd (take_snapshot db)) = Some (db', r)" "settled db db' r"
  shows "\<exists>rs'. durable C rs' db'"
proof -
  have fits: "distinct (cp_table_order (xp_commit XP))" "tb_name ` set (db_tables db) \<subseteq> set (cp_table_order (xp_commit XP))"
    using assms(5) by (auto simp: plan_fits_def)
  have dist: "distinct (map tb_name (db_tables db))" using assms(2) by (simp add: durable_def)
  note ok = change_statement_ok [OF dist assms(6-8)]
  note snap = durable_snapshot [OF assms(2,3)]
  show ?thesis
  proof (cases "es = []")
    case True
    then show ?thesis using assms(9) snap by (auto simp: write_if_any_def)
  next
    case False
    then have "of_unit (length es) (write_entries XP es (snd (take_snapshot db))) = Some (db', r)"
      using assms(9) by (simp add: write_if_any_def)
    moreover have "next_id db \<le> next_id (snd (take_snapshot db))" "next_id (snd (take_snapshot db)) \<noteq> u64_MAX"
      using room_next(1) [OF assms(3)] assms(3) by (simp_all add: room_def)
    moreover have "statement_ok (db_tables (snd (take_snapshot db))) es" "plan_covers (xp_commit XP) es"
      using ok names_covered [OF fits] by simp_all
    ultimately show ?thesis
      using durable_written [OF assms(1,2) snap _ _ _ assms(4) _ _ _ assms(10)] by simp
  qed
qed

lemma durable_update:
  assumes "codec_ok C" "durable C rs db" "room db" "xp_codec XP = C" "plan_fits XP (db_tables db) p"
    and "execute_update XP user name set_indices set_values wc columns db = Some (db', r)" "settled db db' r"
  shows "\<exists>rs'. durable C rs' db'"
proof -
  let ?check = "and_then (check_user user (\<lambda>u. check_update db u name (map (\<lambda>i. cm_name (columns ! i)) set_indices)))
    (\<lambda>_. find_table_named (db_tables db) name)"
  show ?thesis
  proof (cases ?check)
    case (Inl e)
    then show ?thesis using assms(2,6) by (auto simp: execute_update_def split: if_splits)
  next
    case (Inr t)
    then have t: "find_table_named (db_tables db) name = Inr t" by (auto simp: and_then_eq_Inr)
    obtain es where es: "update_entries (xp_exec XP) name set_indices set_values wc columns t (fst (take_snapshot db)) = Some es"
      "write_if_any XP es (snd (take_snapshot db)) = Some (db', r)"
      using assms(6) Inr by (auto simp: execute_update_def split_beta bind_eq_Some_conv split: if_splits)
    show ?thesis
      using durable_change [OF assms(1-5) t _ _ es(2) assms(7)] update_entries_shape [OF es(1)] by blast
  qed
qed

lemma durable_delete:
  assumes "codec_ok C" "durable C rs db" "room db" "xp_codec XP = C" "plan_fits XP (db_tables db) p"
    and "execute_delete XP user name wc columns db = Some (db', r)" "settled db db' r"
  shows "\<exists>rs'. durable C rs' db'"
proof (cases "and_then (check_user user (\<lambda>u. check_delete db u name)) (\<lambda>_. find_table_named (db_tables db) name)")
  case (Inl e)
  then show ?thesis using assms(2,6) by (auto simp: execute_delete_def)
next
  case (Inr t)
  then have t: "find_table_named (db_tables db) name = Inr t" by (auto simp: and_then_eq_Inr)
  let ?es = "delete_entries (xp_exec XP) name wc columns t (fst (take_snapshot db))"
  have "write_if_any XP ?es (snd (take_snapshot db)) = Some (db', r)"
    using assms(6) Inr by (simp add: execute_delete_def split_beta)
  then show ?thesis using durable_change [OF assms(1-5) t _ _ _ assms(7), of ?es] delete_entries_shape by blast
qed

lemma drop_table_not_found:
  assumes "drop_table C P name db = (db', Inl (TableNotFound n))" "dp_wal P = None"
  shows "db_tables db' = db_tables db \<and> db_wal db' = db_wal db"
  using assms
  by (auto simp: drop_table_def Let_def set_catalog_def set_tables_def dest!: log_append_works
      split: option.splits prod.splits sum.splits)

lemma durable_execute_drop_table:
  assumes "codec_ok C" "durable C rs db" "xp_codec XP = C" "plan_fits XP (db_tables db) (PlanDropTable name if_exists)"
    and "execute_drop_table XP name if_exists db = Some (db', r)" "settled db db' r"
  shows "\<exists>rs'. durable C rs' db'"
proof -
  obtain db1 u where d: "drop_table C (xp_ddl XP) name db = (db1, u)" by fastforce
  note fr = drop_table_frame [OF d]
  have db': "db' = db1" using assms(3,5) d by (auto simp: execute_drop_table_def of_unit_def split: sum.splits helion_error.splits)
  show ?thesis
  proof (cases u)
    case (Inr v)
    then show ?thesis using durable_drop_table [OF assms(1,2)] d db' assms(4) by (auto simp: plan_fits_def)
  next
    case (Inl e)
    show ?thesis
    proof (cases "\<exists>n. e = TableNotFound n")
      case True
      then have "db_tables db' = db_tables db \<and> db_wal db' = db_wal db"
        using drop_table_not_found d Inl db' assms(4) by (auto simp: plan_fits_def log_works_def)
      then have "durable C rs db'" using fr db' by (intro durable_frame [OF assms(2)]) simp_all
      then show ?thesis by blast
    next
      case False
      then have "r = Inl e"
        using assms(3,5) d Inl by (auto simp: execute_drop_table_def of_unit_def split: helion_error.splits)
      then show ?thesis using settled_frame [OF assms(6) _ assms(2)] fr db' by auto
    qed
  qed
qed

lemma durable_flat:
  assumes "codec_ok C" "durable C rs db" "room db" "xp_codec XP = C" "plan_fits XP (db_tables db) p"
    and "execute_flat XP user p db = Some (db', r)" "settled db db' r"
  shows "\<exists>rs'. durable C rs' db'"
proof (cases p)
  case (PlanCreateTable name columns engine)
  obtain db1 u where c: "create_table C (xp_ddl XP) name columns engine db = (db1, u)" by fastforce
  have db': "db' = db1" "r = and_then u (\<lambda>_. Inr (affected 0))" using assms(4,6) c by (auto simp: PlanCreateTable of_unit_def)
  show ?thesis
  proof (cases u)
    case (Inl e)
    then show ?thesis using settled_frame [OF assms(7) _ assms(2)] create_table_frame [OF c] db' by auto
  next
    case (Inr v)
    then show ?thesis using durable_create_table [OF assms(1,2)] c db' by auto
  qed
next
  case (PlanAlterTableEngine name engine)
  obtain c u where "alter_table_engine (xp_migration XP) (dp_now (xp_ddl XP)) name engine db = (set_catalog c db, u)"
    by (simp add: alter_table_engine_def split_beta)
  then have "db' = set_catalog c db" using assms(6) by (simp add: PlanAlterTableEngine of_unit_def)
  then show ?thesis using assms(2) by (auto simp: durable_def logs_def set_catalog_def)
next
  case (PlanCreateUser username password)
  then show ?thesis
    using assms(4-6) durable_create_user [OF assms(1,2)] by (auto simp: of_unit_def plan_fits_def log_works_def) (metis prod.collapse)
next
  case (PlanAlterUser username password)
  then show ?thesis
    using assms(4-6) durable_alter_user [OF assms(1,2)] by (auto simp: of_unit_def plan_fits_def log_works_def) (metis prod.collapse)
next
  case (PlanDropUser username if_exists)
  obtain db1 u where d: "db_drop_user C None username db = (db1, u)" by fastforce
  then have "db' = db1"
    using assms(4-6) by (auto simp: PlanDropUser execute_drop_user_def plan_fits_def log_works_def split: sum.splits)
  then show ?thesis using durable_drop_user [OF assms(1,2) d] by simp
next
  case (PlanGrant username tbl columns q)
  then show ?thesis
    using assms(4-6) durable_grant [OF assms(1,2)] by (auto simp: of_unit_def plan_fits_def log_works_def) (metis prod.collapse)
next
  case (PlanRevoke username tbl columns q)
  then show ?thesis
    using assms(4-6) durable_revoke [OF assms(1,2)] by (auto simp: of_unit_def plan_fits_def log_works_def) (metis prod.collapse)
next
  case (PlanExplain analyze verbose stmt)
  then show ?thesis using assms(6) by simp
next
  case (PlanInsert name rows)
  then show ?thesis using durable_insert [OF assms(1-4)] assms(5-7) by auto
next
  case (PlanUpdate name set_indices set_values wc columns)
  then show ?thesis using durable_update [OF assms(1-5)] assms(6,7) by auto
next
  case (PlanDelete name wc columns)
  then show ?thesis using durable_delete [OF assms(1-5)] assms(6,7) by auto
next
  case (PlanDropTable name if_exists)
  then show ?thesis using durable_execute_drop_table [OF assms(1,2,4)] assms(5-7) by auto
next
  case (PlanCreateIndex name tbl columns uniq if_not_exists)
  then have "execute_create_index XP name tbl columns uniq if_not_exists db = Some (db', r)" using assms(6) by simp
  then show ?thesis using durable_create_index [OF assms(2)] by blast
next
  case (PlanDropIndex name tbl if_exists)
  then have "execute_drop_index name tbl if_exists db = Some (db', r)" using assms(6) by simp
  then show ?thesis using durable_drop_index [OF assms(2)] by blast
qed (use assms(2,6) in auto)

subsection \<open>Histories\<close>

text \<open>What a statement may assume of its surroundings; EXPLAIN is left out, since it executes what it explains.\<close>

definition orderly :: "exec_plan \<Rightarrow> table list \<Rightarrow> logical_plan \<Rightarrow> bool" where
  "orderly XP tables plan \<longleftrightarrow>
     log_works XP \<and> distinct (cp_table_order (xp_commit XP)) \<and> tb_name ` set tables \<subseteq> set (cp_table_order (xp_commit XP)) \<and>
     (case plan of
        Flat (PlanDropTable name _) \<Rightarrow> \<forall>t \<in> set tables. same_name name t \<longrightarrow> tb_name t = name
      | Flat (PlanExplain _ _ _) \<Rightarrow> False
      | _ \<Rightarrow> True)"

text \<open>Files that replay can address.\<close>

definition small :: "database \<Rightarrow> bool" where
  "small db \<longleftrightarrow> length (ww_file (db_wal db)) \<le> 2 ^ 63 \<and> (case db_old_wal db of None \<Rightarrow> True | Some b \<Rightarrow> length b \<le> 2 ^ 63)"

inductive history :: "codec \<Rightarrow> database \<Rightarrow> bool" for C where
  created: "open_database C K env salt faults \<lparr>wf_old = None, wf_current = None\<rparr> durability cat = Some (Inr db) \<Longrightarrow>
    history C db"
| executed: "history C db \<Longrightarrow> xp_codec XP = C \<Longrightarrow> room db \<Longrightarrow>
    plan_statement (xp_ext XP) stmt (db_tables db) = Inr plan \<Longrightarrow> orderly XP (db_tables db) plan \<Longrightarrow>
    execute_statement fuel XP user stmt db = Some (db', r) \<Longrightarrow> settled db db' r \<Longrightarrow> history C db'"
| checkpointed: "history C db \<Longrightarrow> write_checkpoint C fault db = (db', Inr u) \<Longrightarrow> history C db'"
| stopped: "history C db \<Longrightarrow> shutdown C P db = (db', files, Inr u) \<Longrightarrow> sp_rotate P \<noteq> Some RotateOpenFails \<Longrightarrow> history C db'"
| reopened: "history C db \<Longrightarrow> small db \<Longrightarrow>
    open_database C K env salt faults (files_of db) durability cat = Some (Inr db') \<Longrightarrow> history C db'"

text \<open>The planner has validated the rows of an INSERT.\<close>

lemma planned_rows_valid:
  assumes "plan_statement X stmt tables = Inr (Flat (PlanInsert name rows))" "find_table_named tables name = Inr t"
  shows "\<forall>r \<in> set rows. validate_row t r = Inr ()"
proof -
  obtain cols vals idxs where "try_map (insert_row X t idxs) vals = Inr rows"
    using assms
    by (cases stmt) (auto simp: and_then_eq_Inr Planner.find_table_def find_table_named_def plan_select_def optimize_def Let_def
        split: option.splits if_splits)
  then have "list_all2 (\<lambda>v r. insert_row X t idxs v = Inr r) vals rows" by (simp add: try_map_Inr_iff)
  then have "\<forall>r \<in> set rows. \<exists>v. insert_row X t idxs v = Inr r" by (induction rule: list_all2_induct) auto
  then show ?thesis by (auto simp: insert_row_def and_then_eq_Inr Let_def)
qed

lemma planned_fits:
  assumes "plan_statement X stmt tables = Inr (Flat p)" "orderly XP tables (Flat p)"
  shows "plan_fits XP tables p"
  using assms planned_rows_valid by (cases p) (auto simp: orderly_def plan_fits_def)

lemma durable_executed:
  assumes "codec_ok C" "durable C rs db" "xp_codec XP = C" "room db"
    and "plan_statement (xp_ext XP) stmt (db_tables db) = Inr plan" "orderly XP (db_tables db) plan"
    and "execute_statement fuel XP user stmt db = Some (db', r)" "settled db db' r"
  shows "\<exists>rs'. durable C rs' db'"
proof -
  have run: "execute_as fuel XP user plan db = Some (db', r)" using assms(5,7) by (simp add: execute_statement_def)
  show ?thesis
  proof (cases "\<exists>p. plan = Flat p")
    case True
    then obtain p where p: "plan = Flat p" by blast
    have "execute_flat XP user p db = Some (db', r)"
      using run assms(6) by (cases p) (auto simp: p orderly_def)
    then show ?thesis using durable_flat [OF assms(1,2,4,3) planned_fits _ assms(8)] assms(5,6) p by blast
  next
    case False
    then have "execute_query XP user plan db = Some (db', r)" using run by (cases plan) auto
    then show ?thesis using durable_query [OF assms(2,4)] by blast
  qed
qed

text \<open>A checkpoint makes the records before it superfluous.\<close>

lemma checkpoint_cores:
  "map table_core (apply_wal_record ts (WCheckpoint n (map (\<lambda>t. (tb_name t, tb_columns t, tb_version_chains t)) tables))) =
     map table_core tables"
  by (simp add: table_core_def restored_table_def)

lemma checkpoint_logged:
  "tables_logged (rs @ [WCheckpoint n (map (\<lambda>t. (tb_name t, tb_columns t, tb_version_chains t)) tables)]) tables"
  using checkpoint_cores by (simp add: tables_logged_def)

lemma durable_checkpoint:
  assumes "codec_ok C" "durable C rs db" "write_checkpoint C fault db = (db', Inr u)"
  shows "durable C (rs @ [WCheckpoint (of_nat (length (db_tables db)))
    (map (\<lambda>t. (tb_name t, tb_columns t, tb_version_chains t)) (db_tables db))]) db' \<and> db_tables db' = db_tables db"
  using assms(2) logs_append [OF assms(1) assms(3) [unfolded write_checkpoint_def]] checkpoint_logged
    log_append_frame_simps [OF assms(3) [unfolded write_checkpoint_def]]
  by (simp add: durable_def)

lemma logsI:
  "all_serializable C (ro @ rc) \<Longrightarrow> ww_file (db_wal db) = log_of C rc \<Longrightarrow>
     (case db_old_wal db of None \<Rightarrow> ro = [] | Some b \<Rightarrow> b = log_of C ro) \<Longrightarrow> logs C (ro @ rc) db"
  unfolding logs_def by blast

lemma log_append_file:
  assumes "codec_ok C" "log_append C fault r db = (db', Inr u)"
  shows "serializable C r" "ww_file (db_wal db') = ww_file (db_wal db) @ record_frame C r"
proof -
  obtain w where w: "wal_append C fault r (db_wal db) = (w, Inr u)" "db' = db\<lparr>db_wal := w\<rparr>"
    by (rule log_append_Inr [OF assms(2)])
  obtain b where b: "cd_serialize C r = Inr b" "ww_file w = ww_file (db_wal db) @ wal_frame C b"
    using wal_append_Inr [OF w(1)] by metis
  then show "serializable C r" "ww_file (db_wal db') = ww_file (db_wal db) @ record_frame C r"
    using assms(1) w(2) by (auto simp: serializable_codec_ok record_frame_def)
qed

text \<open>Whatever becomes of the older file, the current one ends in a checkpoint that says it all.\<close>

lemma durable_rotated:
  assumes "codec_ok C" "durable C rs db" "write_checkpoint C fault db = (db1, Inr u)"
    and "rotate_log f db1 = (db2, d)" "f \<noteq> Some RotateOpenFails"
  shows "\<exists>rs'. durable C rs' db2 \<and> d = files_of db2"
proof -
  let ?ck = "WCheckpoint (of_nat (length (db_tables db)))
    (map (\<lambda>t. (tb_name t, tb_columns t, tb_version_chains t)) (db_tables db))"
  note app = assms(3) [unfolded write_checkpoint_def]
  note db1 = log_append_frame_simps [OF app]
  have one: "durable C (rs @ [?ck]) db1" using durable_checkpoint [OF assms(1-3)] by blast
  obtain ro rc where rs: "rs = ro @ rc" "ww_file (db_wal db) = log_of C rc" "all_serializable C rs"
    using assms(2) by (auto simp: durable_def logs_def)
  have current: "ww_file (db_wal db1) = log_of C (rc @ [?ck])" using log_append_file [OF assms(1) app] rs(2) by simp
  have ser: "all_serializable C (rc @ [?ck])"
    using rs(1,3) log_append_file(1) [OF assms(1) app] by (auto simp: all_serializable_def)
  have two: "durable C (rc @ [?ck]) db2"
    if "db_tables db2 = db_tables db1" "db_mvcc db2 = db_mvcc db1" "logs C (rc @ [?ck]) db2"
    using one that checkpoint_logged [of rc] db1(1) by (simp add: durable_def)
  consider "f = None" | "f = Some RotateSyncFails" | "f = Some RotateRenameFails"
    using assms(5) by (metis option.exhaust rotate_fault.exhaust)
  then show ?thesis
  proof cases
    case 1
    then have db2: "db2 = db1\<lparr>db_wal := (db_wal db1)\<lparr>ww_file := [], ww_synced := 0\<rparr>, db_old_wal := Some (log_of C (rc @ [?ck]))\<rparr>"
      "d = files_of db2"
      using assms(4) current by (auto simp: rotate_log_def wal_rotate_def Let_def files_of_def)
    have "logs C (rc @ [?ck]) db2" using logsI [of C "rc @ [?ck]" "[]" db2] ser db2 by simp
    then show ?thesis using two db2 by auto
  next
    case 2
    then show ?thesis using one assms(4) by (auto simp: rotate_log_def)
  next
    case 3
    then have db2: "db2 = db1\<lparr>db_old_wal := None\<rparr>" "d = files_of db2"
      using assms(4) by (auto simp: rotate_log_def Let_def)
    have "logs C (rc @ [?ck]) db2" using logsI [of C "[]" "rc @ [?ck]" db2] ser db2 current by simp
    then show ?thesis using two db2 by auto
  qed
qed

lemma wal_flush_file [simp]: "wal_flush fault w = (w', r) \<Longrightarrow> ww_file w' = ww_file w"
  by (auto simp: wal_flush_def sync_all_def split: option.splits io_fault.splits)

lemma durable_stopped:
  assumes "codec_ok C" "durable C rs db" "shutdown C P db = (db', d, Inr u)" "sp_rotate P \<noteq> Some RotateOpenFails"
  shows "\<exists>rs'. durable C rs' db' \<and> d = files_of db'"
proof -
  obtain db1 u1 where c: "write_checkpoint C (sp_checkpoint P) db = (db1, Inr u1)"
    using assms(3) by (auto simp: shutdown_def split: prod.splits sum.splits)
  obtain db2 d2 where r: "rotate_log (sp_rotate P) db1 = (db2, d2)" by fastforce
  obtain rs' where rs': "durable C rs' db2" "d2 = files_of db2"
    using durable_rotated [OF assms(1,2) c r assms(4)] by blast
  obtain cat w where db': "db' = (set_catalog cat db2)\<lparr>db_wal := w\<rparr>" "d = d2" "ww_file w = ww_file (db_wal db2)"
    using assms(3) c r by (auto simp: shutdown_def split: prod.splits sum.splits)
  have "durable C rs' db'" using rs' db' by (simp add: durable_def logs_def set_catalog_def)
  moreover have "d = files_of db'" using rs' db' by (simp add: files_of_def set_catalog_def)
  ultimately show ?thesis by blast
qed

subsection \<open>Opening\<close>

lemma durable_created:
  assumes "open_database C K env salt faults \<lparr>wf_old = None, wf_current = None\<rparr> durability cat = Some (Inr db)"
  shows "durable C [] db"
proof -
  have "replay_wal C \<lparr>wf_old = None, wf_current = None\<rparr> = Some ([], [])" by (simp add: replay_wal_def)
  then have "db_tables db = []" "db_mvcc db = with_start_id (start_id [])" "ww_file (db_wal db) = []" "db_old_wal db = None"
    using assms by (auto simp: open_database_def and_then_eq_Inr Let_def wal_open_def dest!: bootstrap_frame)
  then show ?thesis
    by (auto simp: durable_def logs_def all_serializable_def tables_logged_def ids_below_def all_versions_def with_start_id_def
        less_max_iff_disj)
qed

lemma durable_files_log: "durable C rs db \<Longrightarrow> small db \<Longrightarrow> files_log C rs (files_of db)"
proof -
  assume d: "durable C rs db" "small db"
  obtain ro rc where "all_serializable C rs" "rs = ro @ rc" "ww_file (db_wal db) = log_of C rc"
      "case db_old_wal db of None \<Rightarrow> ro = [] | Some b \<Rightarrow> b = log_of C ro"
    using d(1) by (auto simp: durable_def logs_def)
  then show ?thesis
    unfolding files_log_def files_of_def using d(2)
    by (intro exI [of _ ro] exI [of _ rc]) (auto simp: small_def split: option.splits)
qed

lemma rebuilt_cores [simp]: "map (table_core \<circ> rebuild_if_needed) ts = map table_core ts"
  by (simp add: table_core_def)

lemma below_max: "n < m \<Longrightarrow> n \<noteq> (u64_MAX :: u64)" for n m :: u64
  using word_le_def by auto

lemma durable_reopened:
  assumes "codec_ok C" "durable C rs db" "small db"
    and "open_database C K env salt faults (files_of db) durability cat = Some (Inr db')"
  shows "durable C rs db'"
proof -
  let ?ts = "foldl apply_wal_record [] rs"
  have core: "map table_core ?ts = map table_core (db_tables db)" using assms(2) by (simp add: durable_def tables_logged_def)
  have db': "db_tables db' = map rebuild_if_needed ?ts" "db_mvcc db' = with_start_id (start_id ?ts)" "files_of db' = files_of db"
    using open_database_cases [OF durable_files_log [OF assms(2,3)], of K env salt faults durability cat] assms(4) by auto
  have same: "map table_core (db_tables db') = map table_core (db_tables db)" using db'(1) core by simp
  have ids: "\<forall>v \<in> set (all_versions ?ts). rv_txid_min v \<noteq> 0 \<and> rv_txid_min v \<noteq> u64_MAX"
    using assms(2) core_versions [OF core] below_max by (auto simp: durable_def ids_below_def)
  have "ids_below (next_id db') (db_tables db')"
    using start_id_fresh [of ?ts] ids db'(2) core_versions [OF same] core_versions [OF core]
    by (auto simp: ids_below_def below_def)
  moreover have "logs C rs db'"
    using assms(2) db'(3) by (auto simp: durable_def logs_def files_of_def)
  moreover have "0 < next_id db'" by (simp add: db'(2) with_start_id_def less_max_iff_disj)
  ultimately show ?thesis
    using assms(2) same core_names [OF same] core_chains_ok [OF same] by (simp add: durable_def tables_logged_def)
qed

lemma history_durable_log:
  assumes "codec_ok C"
  shows "history C db \<Longrightarrow> \<exists>rs. durable C rs db"
proof (induction rule: history.induct)
  case (created K env salt faults durability cat db)
  then show ?case using durable_created by blast
next
  case (executed db XP stmt plan fuel user db' r)
  then show ?case using durable_executed [OF assms] by blast
next
  case (checkpointed db fault db' u)
  then show ?case using durable_checkpoint [OF assms] by blast
next
  case (stopped db P db' files u)
  then show ?case using durable_stopped [OF assms] by blast
next
  case (reopened db K env salt faults durability cat db')
  then show ?case using durable_reopened [OF assms] by blast
qed

end
