(* ===== verification/History_Props.thy ===== *)
theory History_Props
  imports History
begin

text \<open>
  What histories of a database come to: a data directory can be opened after every step of its history and
  gives the tables as the last statement left them; users and grants are forgotten by the second shutdown.
\<close>

subsection \<open>Users over two shutdowns\<close>

text \<open>A shutdown whose rotation succeeds leaves one file with a checkpoint behind its records, and an empty one.\<close>

lemma shutdown_files:
  assumes "codec_ok C" "shutdown C P db = (db', d, Inr u)" "sp_rotate P = None"
  shows "wf_current d = Some [] \<and> files_of db' = d \<and>
    (\<exists>n tables. serializable C (WCheckpoint n tables) \<and>
      wf_old d = Some (ww_file (db_wal db) @ record_frame C (WCheckpoint n tables)))"
proof -
  obtain db1 u1 where c: "write_checkpoint C (sp_checkpoint P) db = (db1, Inr u1)"
    using assms(2) by (auto simp: shutdown_def split: prod.splits sum.splits)
  obtain db2 d2 where r: "rotate_log None db1 = (db2, d2)" by fastforce
  obtain cat w where "db' = (set_catalog cat db2)\<lparr>db_wal := w\<rparr>" "d = d2" "ww_file w = ww_file (db_wal db2)"
    using assms(2,3) c r by (auto simp: shutdown_def split: prod.splits sum.splits)
  moreover have "wf_current d2 = Some []" "wf_old d2 = Some (ww_file (db_wal db1))" "d2 = files_of db2"
    using r by (auto simp: rotate_log_def wal_rotate_def Let_def files_of_def)
  ultimately show ?thesis
    using log_append_file [OF assms(1) c [unfolded write_checkpoint_def]]
    by (auto simp: files_of_def set_catalog_def)
qed

lemma opened_file:
  "open_database C K env salt faults files durability cat = Some (Inr db) \<Longrightarrow>
     ww_file (db_wal db) = (case wf_current files of None \<Rightarrow> [] | Some b \<Rightarrow> b)"
  by (auto simp: open_database_def and_then_eq_Inr Let_def wal_open_def dest!: bootstrap_frame split: option.splits)

text \<open>Replay knows a user only from the record of a creation or of a new password.\<close>

definition recorded_user :: "wal_record list \<Rightarrow> string \<Rightarrow> bool" where
  "recorded_user rs name \<longleftrightarrow> (\<exists>n h. WCreateUser n h \<in> set rs \<and> eq_ignore_ascii_case n name)"

lemma replayed_names:
  "user_exists (foldl replay_user_record us rs) name \<Longrightarrow> user_exists us name \<or> recorded_user rs name"
proof (induction rs arbitrary: us)
  case (Cons r rs)
  have "user_exists (replay_user_record us r) name \<Longrightarrow> user_exists us name \<or> recorded_user [r] name"
    by (cases r) (auto simp: replay_user_record_def insert_user_def drop_user_def Let_def user_exists_def list_ex_iff recorded_user_def
        split: sum.splits if_splits)
  then show ?case using Cons by (auto simp: recorded_user_def)
qed simp

lemma bootstrapped_users:
  assumes "bootstrap_default_user env K salt db = Inr db'" "user_exists (db_users db') name"
  shows "user_exists (db_users db) name \<or> (env \<noteq> None \<and> eq_ignore_ascii_case ''helion'' name)"
proof (cases "user_count (db_users db) \<noteq> 0 \<or> env = None")
  case False
  then obtain password where env: "env = Some password" "db_users db = []" by (auto simp: user_count_def)
  then obtain us where us: "create_user K salt ''helion'' password [] = Inr us" and db': "db_users db' = us"
    using assms(1) by (auto simp: bootstrap_default_user_def user_count_def and_then_eq_Inr)
  obtain u where "us = [u]" "us_username u = ''helion''"
    using us by (auto simp: create_user_def and_then_eq_Inr user_new_simps split: if_splits)
  then show ?thesis using env db' assms(2) by (simp add: user_exists_def)
qed (use assms bootstrap_frame [OF assms(1)] in \<open>auto simp: user_count_def\<close>)

lemma opened_users:
  assumes "files_log C rs files" "open_database C K env salt faults files durability cat = Some (Inr db)"
    and "user_exists (db_users db) name"
  shows "recorded_user rs name \<or> (env \<noteq> None \<and> eq_ignore_ascii_case ''helion'' name)"
proof -
  obtain d where d: "bootstrap_default_user env K salt d = Inr db" "db_users d = replay_users_from_wal rs"
    using replay_files_log [OF assms(1)] assms(2) by (auto simp: open_database_def and_then_eq_Inr Let_def)
  show ?thesis
    using bootstrapped_users [OF d(1) assms(3)] replayed_names [of "[]" rs name] d(2)
    by (auto simp: replay_users_from_wal_def user_exists_def)
qed

text \<open>The files of a shutdown, from the records its session had written.\<close>

lemma stopped_files_log:
  assumes "codec_ok C" "shutdown C P db = (db', d, Inr u)" "sp_rotate P = None" "small db'"
    and "all_serializable C rs" "ww_file (db_wal db) = log_of C rs"
  shows "\<exists>n tables. files_log C (rs @ [WCheckpoint n tables]) d"
proof -
  obtain n tables where ck: "serializable C (WCheckpoint n tables)" "wf_current d = Some []" "files_of db' = d"
      "wf_old d = Some (log_of C (rs @ [WCheckpoint n tables]))"
    using shutdown_files [OF assms(1-3)] assms(6) by auto
  moreover have "length (log_of C (rs @ [WCheckpoint n tables])) \<le> 2 ^ 63"
    using assms(4) ck(3,4) by (auto simp: small_def files_of_def)
  moreover have "all_serializable C (rs @ [WCheckpoint n tables])" using assms(5) ck(1) by (auto simp: all_serializable_def)
  ultimately have "files_log C (rs @ [WCheckpoint n tables]) d"
    unfolding files_log_def by (intro exI [of _ "rs @ [WCheckpoint n tables]"] exI [of _ "[]"]) simp
  then show ?thesis by blast
qed

lemma checkpoint_forgets:
  "replay_users_from_wal (rs @ [WCheckpoint n tables]) = replay_users_from_wal rs"
  "replay_permissions_from_wal (rs @ [WCheckpoint n tables]) = replay_permissions_from_wal rs"
  "recorded_user (rs @ [WCheckpoint n tables]) name = recorded_user rs name"
  by (auto simp: replay_users_from_wal_def replay_permissions_from_wal_def replay_user_record_def
      replay_permission_record_def recorded_user_def)

subsection \<open>A small history\<close>

text \<open>A new data directory, then a table, then a row.\<close>

definition first_records :: "wal_record list" where
  "first_records = [WCreateTable ''t'' sample_columns, WInsert ''t'' \<lparr>row_values = [DInteger 7, DText ''a'']\<rparr> 1, WCommit 1]"

abbreviation first_codec :: codec where
  "first_codec \<equiv> list_codec first_records"

definition first_catalog :: catalog where
  "first_catalog = catalog_open disk_empty None ''memory''"

definition first_database :: database where
  "first_database =
     \<lparr>db_tables = [], db_catalog = first_catalog, db_mvcc = \<lparr>mv_next_txid = 1, mv_active_txns = {0}\<rparr>,
      db_wal = wal_open ''async'' [], db_old_wal = None, db_users = [], db_permissions = permission_store_new\<rparr>"

definition first_plan :: exec_plan where
  "first_plan = \<lparr>xp_exec = \<lparr>xe_env = \<lparr>ee_ext = sample_ext, ee_float = \<lparr>fe_nan = 0, fe_powi10 = (\<lambda>_. 0), fe_sum_zero = 0\<rparr>\<rparr>,
       xe_supply = (\<lambda>_ _. []), xe_hash_order = (\<lambda>h. h), xe_perm_order = (\<lambda>m. m)\<rparr>,
     xp_codec = first_codec, xp_commit = sample_plan,
     xp_ddl = \<lparr>dp_now = 0, dp_engine = None, dp_save = None, dp_wal = None, dp_undo_engine = None,
       dp_undo_save = None, dp_undo_restore = None\<rparr>,
     xp_migration = \<lparr>mf_create = None, mf_restore = None, mf_undo = None, mf_save = None, mf_old = None\<rparr>,
     xp_wal = None, xp_argon = sample_argon, xp_salt = [],
     xp_front = \<lparr>sf_parse = (\<lambda>_. Inl []), sf_show = (\<lambda>_. []), sf_debug = (\<lambda>_. []), sf_debug_statement = (\<lambda>_. []),
       sf_uuid = (\<lambda>_. [])\<rparr>,
     xp_render = (\<lambda>_ _. [])\<rparr>"

lemma first_plan_simps [simp]:
  "xp_codec first_plan = first_codec" "xp_commit first_plan = sample_plan" "xp_wal first_plan = None"
  "dp_wal (xp_ddl first_plan) = None" "dp_now (xp_ddl first_plan) = 0" "dp_engine (xp_ddl first_plan) = None"
  "dp_save (xp_ddl first_plan) = None" "xp_ext first_plan = sample_ext"
  by (simp_all add: first_plan_def)

lemma first_serializes: "r \<in> set first_records \<Longrightarrow> \<exists>b. cd_serialize first_codec r = Inr b"
  by (rule list_codec_serializes)

lemma first_opens:
  "open_database first_codec sample_argon None [] (\<lambda>_. None) \<lparr>wf_old = None, wf_current = None\<rparr> ''async'' first_catalog =
     Some (Inr first_database)"
  by (simp add: open_database_def replay_wal_def restore_tables_to_engines_def bootstrap_default_user_def first_database_def
      start_id_def compute_max_txid_def with_start_id_def wal_open_def replay_users_from_wal_def
      replay_permissions_from_wal_def user_count_def)

text \<open>The table is created, with both records of its row still to come.\<close>

definition with_table :: catalog where
  "with_table = fst (catalog_create_table None None 0 ''t'' sample_columns (Some ''memory'') first_catalog)"

lemma with_table: "catalog_create_table None None 0 ''t'' sample_columns (Some ''memory'') first_catalog = (with_table, Inr ())"
proof -
  have "snd (catalog_create_table None None 0 ''t'' sample_columns (Some ''memory'') first_catalog) = Inr ()" by code_simp
  then show ?thesis by (simp add: with_table_def prod_eq_iff)
qed

lemma first_engine: "ct_default_engine first_catalog = ''memory''"
  by code_simp

lemma first_created:
  "\<exists>db. execute_statement 0 first_plan None (StCreateTable ''t'' sample_columns None) first_database = Some (db, Inr (affected 0)) \<and>
     db_tables db = [table_new ''t'' sample_columns] \<and> db_catalog db = with_table \<and> db_mvcc db = db_mvcc first_database \<and>
     db_old_wal db = None \<and> writer_log first_codec [WCreateTable ''t'' sample_columns] (db_wal db)"
proof -
  let ?db1 = "set_tables [table_new ''t'' sample_columns] (set_catalog with_table first_database)"
  let ?r = "WCreateTable ''t'' sample_columns"
  obtain db where db: "log_append_all first_codec (\<lambda>_. None) 0 [?r] ?db1 = (db, Inr ())"
    using log_append_all_ok [of "\<lambda>_. None" "[?r]" first_codec 0 ?db1] first_serializes
    by (auto simp: first_records_def simp del: log_append_all.simps) (metis prod.collapse)
  then have a: "log_append first_codec None ?r ?db1 = (db, Inr ())" by (auto split: prod.splits sum.splits)
  have "writer_log first_codec [] (db_wal ?db1)"
    by (simp add: set_tables_def set_catalog_def first_database_def writer_log_def writer_ok_def wal_open_def)
  then have "writer_log first_codec [?r] (db_wal db)" using log_append_all_log [OF db, of "[]"] by simp
  moreover have "create_table first_codec (xp_ddl first_plan) ''t'' sample_columns None first_database = (db, Inr ())"
    using a log_append_frame_simps(4) [OF a] with_table
    by (simp add: create_table_def first_database_def Let_def first_engine set_tables_def set_catalog_def user_exists_def)
  ultimately show ?thesis
    using log_append_frame_simps [OF a]
    by (simp add: execute_statement_def of_unit_def affected_def set_tables_def set_catalog_def first_database_def)
qed

text \<open>The row of the second statement, as the planner and the executor see it.\<close>

definition first_row :: row where
  "first_row = \<lparr>row_values = [DInteger 7, DText ''a'']\<rparr>"

abbreviation first_insert :: helion_statement where
  "first_insert \<equiv> StInsert ''t'' [] [[DInteger 7, DText ''a'']]"

definition first_writer :: transaction where
  "first_writer = (transaction_new 1 \<lparr>sn_txid = 1, sn_active = {0}\<rparr>)\<lparr>tx_write_set := [entry_for ''t'' 0 (Insert first_row)]\<rparr>"

lemma first_planned:
  "plan_statement sample_ext first_insert [table_new ''t'' sample_columns] = Inr (Flat (PlanInsert ''t'' [first_row]))"
  by code_simp

lemma first_entries:
  "insert_entries ''t'' [first_row] [table_new ''t'' sample_columns] = Inr [entry_for ''t'' 0 (Insert first_row)]"
  by code_simp

lemma first_writer_simps [simp]:
  "tx_status first_writer = InProgress" "tx_id first_writer = 1"
  "tx_write_set first_writer = [entry_for ''t'' 0 (Insert first_row)]"
  by (simp_all add: first_writer_def transaction_new_def)

lemma first_written:
  "[WCreateTable ''t'' sample_columns] @
     map (wal_record_of (tx_id first_writer)) (tx_write_set first_writer) @ [WCommit (tx_id first_writer)] = first_records"
  "set (map (wal_record_of (tx_id first_writer)) (tx_write_set first_writer) @ [WCommit (tx_id first_writer)]) \<subseteq> set first_records"
  by (simp_all add: first_records_def wal_record_of_def entry_for_def first_row_def)

lemma first_begun:
  assumes "db_mvcc db = db_mvcc first_database"
  shows "foldl (\<lambda>tx e. add_write e tx) (fst (begin_txn db)) [entry_for ''t'' 0 (Insert first_row)] = first_writer"
  using assms
  by (simp add: begin_txn_def begin_transaction_def fetch_txid_def Let_def read_active_def first_database_def
      first_writer_def add_write_def transaction_new_def split_beta)

lemma first_commit:
  assumes "db_tables db = [table_new ''t'' sample_columns]" "db_catalog db = with_table"
  shows "\<exists>tx' db'. commit sample_ext first_codec sample_plan first_writer db = (tx', db', Inr ())"
proof (rule commit_succeeds)
  let ?ts = "[table_new ''t'' sample_columns]"
  show "tx_status first_writer = InProgress" by simp
  show "check_conflicts first_writer (tables_snapshot (db_tables db)) = Inr ()" unfolding assms by code_simp
  show "\<forall>e \<in> set (tx_write_set first_writer). check_entry_unique sample_ext (tables_snapshot (db_tables db)) e = Inr ()"
    unfolding assms first_writer_simps by code_simp
  show "snd (engine_writes (cp_engine sample_plan)
      (collect_changes (tx_write_set first_writer) (tables_snapshot (db_tables db)) (tx_id first_writer))
      (cp_engine_order sample_plan) (db_catalog db)) = Inr ()"
    unfolding assms by code_simp
  show "snd (install_tables sample_ext (tables_snapshot (db_tables db)) (tx_write_set first_writer)
       (apply_write_set (tx_write_set first_writer) (tables_snapshot (db_tables db)) (tx_id first_writer))
       (cp_table_order sample_plan) (db_tables db)) = Inr ()"
    unfolding assms by code_simp
  show "snd (log_append_all first_codec (cp_wal sample_plan) 0
      (map (wal_record_of (tx_id first_writer)) (tx_write_set first_writer) @ [WCommit (tx_id first_writer)]) db) = Inr ()"
    using first_written first_serializes by (intro log_append_all_ok) auto
qed

definition first_core :: "string \<times> column_meta list \<times> row_version list list" where
  "first_core = (''t'', sample_columns, [[new_insert 1 first_row]])"

lemma first_core_after: "core_after 1 [entry_for ''t'' 0 (Insert first_row)] (table_new ''t'' sample_columns) = first_core"
  unfolding core_after_def first_core_def by code_simp

lemma first_ok:
  "chains_ok (table_new ''t'' sample_columns)"
  "statement_ok [table_new ''t'' sample_columns] [entry_for ''t'' 0 (Insert first_row)]"
  "plan_covers sample_plan [entry_for ''t'' 0 (Insert first_row)]"
proof -
  have "validate_row (table_new ''t'' sample_columns) first_row = Inr ()" by code_simp
  then show "statement_ok [table_new ''t'' sample_columns] [entry_for ''t'' 0 (Insert first_row)]"
    by (simp add: statement_ok_def entry_for_def)
qed (simp_all add: chains_ok_def plan_covers_def entry_for_def)

lemma first_inserted:
  assumes "db_tables db = [table_new ''t'' sample_columns]" "db_catalog db = with_table" "db_mvcc db = db_mvcc first_database"
    and "db_old_wal db = None" "writer_log first_codec [WCreateTable ''t'' sample_columns] (db_wal db)"
  shows "\<exists>db'. execute_statement 0 first_plan None first_insert db = Some (db', Inr (affected 1)) \<and>
     map table_core (db_tables db') = [first_core] \<and> db_old_wal db' = None \<and> ww_file (db_wal db') = log_of first_codec first_records"
proof -
  let ?db1 = "snd (begin_txn db)"
  have db1: "db_tables ?db1 = db_tables db" "db_catalog ?db1 = db_catalog db" "db_wal ?db1 = db_wal db" "db_old_wal ?db1 = db_old_wal db"
    by (simp_all add: begin_txn_def split_beta)
  obtain tx' db' where c: "commit sample_ext first_codec sample_plan first_writer ?db1 = (tx', db', Inr ())"
    using first_commit [of ?db1] assms(1,2) db1 by auto
  have w: "write_entries first_plan [entry_for ''t'' 0 (Insert first_row)] db = (db', Inr ())"
    using c first_begun [OF assms(3)] by (simp add: write_entries_def with_write_txn_def split_beta)
  have run: "execute_statement 0 first_plan None first_insert db = Some (db', Inr (affected 1))"
    using w first_planned first_entries assms(1)
    by (simp add: execute_statement_def execute_insert_def Let_def of_unit_def check_user_def first_row_def)
  obtain db2 where
    l: "log_append_all first_codec (cp_wal sample_plan) 0 (map (wal_record_of (tx_id first_writer)) (tx_write_set first_writer) @
          [WCommit (tx_id first_writer)]) ?db1 = (db2, Inr ())"
    and db': "db_wal db' = db_wal db2"
    by (rule commit_Inr [OF c]) (metis database.select_convs(4) database.surjective database.update_convs)
  have "writer_log first_codec first_records (db_wal db2)"
    using log_append_all_log [OF l, of "[WCreateTable ''t'' sample_columns]"] assms(5) unfolding first_written(1) db1(3) by blast
  then have "ww_file (db_wal db') = log_of first_codec first_records" by (simp add: writer_log_def db')
  moreover have "map table_core (db_tables db') = [first_core]"
    using commit_cores [OF c] first_core_after first_ok db1(1) assms(1) by simp
  ultimately show ?thesis using run commit_frame [OF c] db1 assms(4) by auto
qed

lemma first_history: "\<exists>db. history first_codec db \<and> small db \<and> map table_core (db_tables db) = [first_core]"
proof -
  have name: "tb_name (table_new ''t'' sample_columns) = ''t''" by simp
  have start: "history first_codec first_database" by (rule history.created [OF first_opens])
  obtain db where run1: "execute_statement 0 first_plan None (StCreateTable ''t'' sample_columns None) first_database =
      Some (db, Inr (affected 0))"
    and db: "db_tables db = [table_new ''t'' sample_columns]" "db_catalog db = with_table" "db_mvcc db = db_mvcc first_database"
      "db_old_wal db = None" "writer_log first_codec [WCreateTable ''t'' sample_columns] (db_wal db)"
    using first_created by blast
  have room: "room first_database" "room db" by (simp_all add: room_def db first_database_def)
  have "plan_statement (xp_ext first_plan) (StCreateTable ''t'' sample_columns None) (db_tables first_database) =
      Inr (Flat (PlanCreateTable ''t'' sample_columns None))" by simp
  moreover have "orderly first_plan (db_tables first_database) (Flat (PlanCreateTable ''t'' sample_columns None))"
    by (simp add: orderly_def log_works_def first_database_def)
  ultimately have "history first_codec db"
    by (rule history.executed [OF start first_plan_simps(1) room(1) _ _ run1]) (simp add: settled_def)
  moreover obtain db2 where run2: "execute_statement 0 first_plan None first_insert db = Some (db2, Inr (affected 1))"
    and db2: "map table_core (db_tables db2) = [first_core]" "db_old_wal db2 = None" "ww_file (db_wal db2) = log_of first_codec first_records"
    using first_inserted [OF db] by (elim exE conjE) (rule that)
  moreover have "orderly first_plan (db_tables db) (Flat (PlanInsert ''t'' [first_row]))"
    by (simp add: orderly_def log_works_def db name)
  ultimately have "history first_codec db2"
    using first_planned db(1) by (intro history.executed [OF _ _ room(2) _ _ run2]) (simp_all add: settled_def)
  moreover have "length (log_of first_codec first_records) \<le> 2 ^ 63"
    using list_codec_length [of first_records first_records] by (simp add: first_records_def)
  ultimately show ?thesis using db2 by (auto simp: small_def)
qed

lemma same_cores:
  "list_all2 (\<lambda>t t2. table_core t2 = table_core t \<and> Q t t2) ts us \<Longrightarrow> map table_core us = map table_core ts"
  by (induction rule: list_all2_induct) auto

subsection \<open>Properties\<close>

text \<open>C1: what settled statements did is recovered. A history of a data directory is: its creation, then one after the
  other SQL statements (queries, INSERT, UPDATE, DELETE, tables, indexes, users, grants), checkpoints, shutdowns and
  openings. Its statements are settled: the log takes what is written to it, a statement that failed has left tables
  and log as they were, DROP TABLE names its table as it was created, and EXPLAIN does not occur (statements that
  fail half way, or drop a table under another spelling, are lost or come back). After each of its steps, with or without a
  shutdown, opening the files as they are never panics as long as they are within the 2^63 bytes replay can address;
  if it succeeds, every table has the name, columns and version chains it had in memory, its indexes
  agree with the rows, and the first transaction sees the current row of every chain and has an identifier above
  all that wrote. States within a statement are the subject of C5, C11 and C13.\<close>
theorem history_recovers:
  assumes "codec_ok C" "history C db" "small db"
  shows "\<exists>r. open_database C K env salt faults (files_of db) durability cat = Some r \<and>
    (\<forall>db2. r = Inr db2 \<longrightarrow>
      list_all2 (\<lambda>t t2. table_core t2 = table_core t \<and> table_synced t2 \<and>
          (\<forall>i < row_count t. map_option rv_row (get_visible_version t2 i (tx_id (fst (begin_txn db2)))
              (sn_active (tx_snapshot (fst (begin_txn db2))))) = head_row (tb_version_chains t ! i)))
        (db_tables db) (db_tables db2) \<and>
      (\<forall>v \<in> set (all_versions (db_tables db2)). below (tx_id (fst (begin_txn db2))) v))"
proof -
  obtain rs where d: "durable C rs db" using history_durable_log [OF assms(1,2)] by blast
  have "database_logged C rs db"
    using durable_files_log [OF d assms(3)] d by (simp add: database_logged_def durable_def)
  moreover have "\<forall>t \<in> set (db_tables db). chains_ok t" using d by (simp add: durable_def)
  moreover have "\<forall>v \<in> set (all_versions (db_tables db)). rv_txid_min v \<noteq> 0 \<and> rv_txid_min v \<noteq> u64_MAX"
    using d below_max by (auto simp: durable_def ids_below_def)
  ultimately obtain r where r: "open_database C K env salt faults (files_of db) durability cat = Some r"
    and o: "\<And>db2. r = Inr db2 \<Longrightarrow> list_all2 (\<lambda>t t2. table_core t2 = table_core t \<and> table_synced t2 \<and>
          map ix_meta (tb_indexes t2) = map ix_meta (tb_indexes (table_new (tb_name t) (tb_columns t))) \<and>
          (\<forall>i < row_count t. map_option rv_row (get_visible_version t2 i (tx_id (fst (begin_txn db2)))
              (sn_active (tx_snapshot (fst (begin_txn db2))))) = head_row (tb_version_chains t ! i)))
        (db_tables db) (db_tables db2) \<and>
      (\<forall>v \<in> set (all_versions (db_tables db2)). below (tx_id (fst (begin_txn db2))) v)"
    using opened_tables [of C rs db K env salt faults durability cat] by blast
  show ?thesis
  proof (intro exI [of _ r] conjI allI impI)
    fix db2 assume "r = Inr db2"
    then show "list_all2 (\<lambda>t t2. table_core t2 = table_core t \<and> table_synced t2 \<and>
          (\<forall>i < row_count t. map_option rv_row (get_visible_version t2 i (tx_id (fst (begin_txn db2)))
              (sn_active (tx_snapshot (fst (begin_txn db2))))) = head_row (tb_version_chains t ! i)))
        (db_tables db) (db_tables db2)"
      by (rule list_all2_mono [OF conjunct1 [OF o]]) (elim conjE, intro conjI)
  qed (use r o in blast)+
qed

theorem history_recovers_witness:
  "\<exists>db. history first_codec db \<and> (\<forall>K salt faults cat. \<exists>r.
     open_database first_codec K None salt faults (files_of db) ''async'' cat = Some r \<and>
     (\<forall>db2. r = Inr db2 \<longrightarrow> map table_core (db_tables db2) = [first_core]))"
proof -
  obtain db where db: "history first_codec db" "small db" "map table_core (db_tables db) = [first_core]"
    using first_history by (elim exE conjE) (rule that)
  have "\<exists>r. open_database first_codec K None salt faults (files_of db) ''async'' cat = Some r \<and>
     (\<forall>db2. r = Inr db2 \<longrightarrow> map table_core (db_tables db2) = [first_core])" for K salt faults cat
  proof -
    obtain r where r: "open_database first_codec K None salt faults (files_of db) ''async'' cat = Some r"
      and o: "\<forall>db2. r = Inr db2 \<longrightarrow>
        list_all2 (\<lambda>t t2. table_core t2 = table_core t \<and> table_synced t2 \<and>
          (\<forall>i < row_count t. map_option rv_row (get_visible_version t2 i (tx_id (fst (begin_txn db2)))
              (sn_active (tx_snapshot (fst (begin_txn db2))))) = head_row (tb_version_chains t ! i)))
        (db_tables db) (db_tables db2) \<and>
        (\<forall>v \<in> set (all_versions (db_tables db2)). below (tx_id (fst (begin_txn db2))) v)"
      using history_recovers [OF list_codec_ok db(1,2), of K None salt faults "''async''" cat] by (elim exE conjE) (rule that)
    have "map table_core (db_tables db2) = map table_core (db_tables db)" if "r = Inr db2" for db2
      by (rule same_cores [OF conjunct1 [OF mp [OF spec [OF o] that]]])
    then show ?thesis using r db(3) by (intro exI [of _ r]) simp
  qed
  then show ?thesis using db(1) by blast
qed

text \<open>C15: users and grants do not survive the second shutdown. The first keeps their records in the rotated file and
  the next start finds them there; the second rotates only what the session between them has written, so the start
  after it knows the users and grants of the records \<open>rs\<close> of that session and no others: a user who was neither
  created nor given a password in it is gone, unless it is the \<open>helion\<close> that HELION_PASSWORD creates, and
  without that variable users and grants are exactly those of \<open>rs\<close> (none when the session wrote none). Both
  shutdowns rotate without an I/O error, and the files are within the range of replay.\<close>
theorem second_shutdown_forgets_users:
  assumes "codec_ok C"
    and "shutdown C P1 db = (db1, f1, Inr u1)" "sp_rotate P1 = None"
    and "open_database C K env salt faults f1 durability cat = Some (Inr db2)"
    and "all_serializable C rs" "ww_file (db_wal db3) = ww_file (db_wal db2) @ log_of C rs"
    and "shutdown C P2 db3 = (db4, f4, Inr u2)" "sp_rotate P2 = None" "small db4"
    and "open_database C K' env' salt' faults' f4 durability' cat' = Some (Inr db5)"
  shows "(\<forall>name. user_exists (db_users db5) name \<longrightarrow>
      recorded_user rs name \<or> (env' \<noteq> None \<and> eq_ignore_ascii_case ''helion'' name)) \<and>
    (env' = None \<longrightarrow> db_users db5 = replay_users_from_wal rs \<and> db_permissions db5 = replay_permissions_from_wal rs) \<and>
    (env' = None \<longrightarrow> rs = [] \<longrightarrow> db_users db5 = [] \<and> db_permissions db5 = permission_store_new)"
proof -
  have "ww_file (db_wal db3) = log_of C rs"
    using opened_file [OF assms(4)] shutdown_files [OF assms(1-3)] assms(6) by simp
  then obtain n tables where l: "files_log C (rs @ [WCheckpoint n tables]) f4"
    using stopped_files_log [OF assms(1,7-9,5)] by blast
  have "db_users db5 = replay_users_from_wal rs \<and> db_permissions db5 = replay_permissions_from_wal rs" if "env' = None"
    using open_database_cases [OF l, of K' env' salt' faults' durability' cat'] assms(10) that
    by (auto simp: checkpoint_forgets)
  moreover have "recorded_user rs name \<or> (env' \<noteq> None \<and> eq_ignore_ascii_case ''helion'' name)"
    if "user_exists (db_users db5) name" for name
    using opened_users [OF l assms(10) that] by (simp add: checkpoint_forgets)
  ultimately show ?thesis by (simp add: replay_users_from_wal_def replay_permissions_from_wal_def)
qed

text \<open>The log of a new database with one user.\<close>

definition user_records :: "wal_record list" where
  "user_records = [WCreateUser ''ann'' ''$pw'', WCheckpoint 0 []]"

abbreviation user_codec :: codec where
  "user_codec \<equiv> list_codec user_records"

definition user_database :: database where
  "user_database = first_database\<lparr>db_wal := wal_open ''async'' (log_of user_codec [WCreateUser ''ann'' ''$pw'']),
     db_users := [\<lparr>us_username = ''ann'', us_password_hash = ''$pw''\<rparr>]\<rparr>"

definition clean_stop :: shutdown_plan where
  "clean_stop = \<lparr>sp_checkpoint = None, sp_rotate = None, sp_engine = (\<lambda>_. None), sp_tables = [], sp_flush = None\<rparr>"

lemma clean_stop_simps [simp]:
  "sp_checkpoint clean_stop = None" "sp_rotate clean_stop = None" "sp_engine clean_stop = (\<lambda>_. None)"
  "sp_tables clean_stop = []" "sp_flush clean_stop = None"
  by (simp_all add: clean_stop_def)

lemma user_stops:
  assumes "db_tables db = []" "db_catalog db = first_catalog"
  shows "\<exists>db' d. shutdown user_codec clean_stop db = (db', d, Inr ()) \<and> small db' = (length (ww_file (db_wal db) @
    record_frame user_codec (WCheckpoint 0 [])) \<le> 2 ^ 63) \<and> wf_current d = Some [] \<and>
    wf_old d = Some (ww_file (db_wal db) @ record_frame user_codec (WCheckpoint 0 []))"
proof -
  obtain b where b: "cd_serialize user_codec (WCheckpoint 0 []) = Inr b"
    using list_codec_serializes [of "WCheckpoint 0 []" user_records] by (auto simp: user_records_def)
  have "snd (write_checkpoint user_codec None db) = Inr ()"
    using b assms by (simp add: write_checkpoint_def log_append_def wal_append_def Let_def)
  then obtain db1 where w: "write_checkpoint user_codec None db = (db1, Inr ())" by (metis prod.collapse)
  have "snd (catalog_flush (\<lambda>_. None) [] first_catalog) = Inr ()" by code_simp
  then obtain c' where c: "catalog_flush (\<lambda>_. None) [] first_catalog = (c', Inr ())" by (metis prod.collapse)
  note app = w [unfolded write_checkpoint_def]
  have full: "ww_file (db_wal db1) = ww_file (db_wal db) @ record_frame user_codec (WCheckpoint 0 [])"
    using log_append_file(2) [OF list_codec_ok app] assms(1) by simp
  let ?db2 = "db1\<lparr>db_wal := (db_wal db1)\<lparr>ww_file := [], ww_synced := 0\<rparr>, db_old_wal := Some (ww_file (db_wal db1))\<rparr>"
  have rot: "rotate_log None db1 = (?db2, files_of ?db2)"
    by (simp add: rotate_log_def wal_rotate_def Let_def files_of_def)
  have cat: "db_catalog ?db2 = first_catalog" using assms(2) log_append_frame_simps(6) [OF app] by simp
  have stop: "shutdown user_codec clean_stop db = ((set_catalog c' ?db2)\<lparr>db_wal := sync_all (db_wal ?db2)\<rparr>, files_of ?db2, Inr ())"
    unfolding shutdown_def clean_stop_simps w prod.case sum.case rot cat c
    by (simp add: wal_flush_def)
  have files: "wf_current (files_of ?db2) = Some []" "wf_old (files_of ?db2) = Some (ww_file (db_wal db1))"
    by (simp_all add: files_of_def)
  have size: "small ((set_catalog c' ?db2)\<lparr>db_wal := sync_all (db_wal ?db2)\<rparr>) = (length (ww_file (db_wal db1)) \<le> 2 ^ 63)"
    by (simp add: small_def set_catalog_def sync_all_def)
  show ?thesis using stop files size unfolding full by (intro exI conjI)
qed

lemma user_starts:
  assumes "files_log C rs d" "foldl apply_wal_record [] rs = []"
  shows "\<exists>db. open_database C K None salt faults d durability cat = Some (Inr db) \<and> db_tables db = [] \<and>
    db_catalog db = cat \<and> db_users db = replay_users_from_wal rs \<and>
    ww_file (db_wal db) = (case wf_current d of None \<Rightarrow> [] | Some b \<Rightarrow> b)"
  using replay_files_log [OF assms(1)] assms(2)
  by (simp add: open_database_def restore_tables_to_engines_def bootstrap_default_user_def wal_open_def)

lemma user_files:
  assumes "wf_current d = Some []" "wf_old d = Some (log_of user_codec rs)" "set rs \<subseteq> set user_records" "length rs \<le> 2"
  shows "files_log user_codec rs d"
proof -
  have "all_serializable user_codec rs"
    using assms(3) list_codec_serializes by (auto simp: all_serializable_def serializable_codec_ok [OF list_codec_ok])
  moreover have "length (log_of user_codec rs) \<le> length rs * 14"
    using list_codec_length [of user_records rs] by (simp add: user_records_def)
  then have "length (log_of user_codec rs) \<le> 2 ^ 63" using assms(4) by simp
  ultimately show ?thesis
    unfolding files_log_def using assms(1,2) by (intro exI [of _ rs] exI [of _ "[]"]) simp
qed

theorem second_shutdown_forgets_users_witness:
  "\<exists>db1 f1 db2 db3 f3 db4.
     shutdown user_codec clean_stop user_database = (db1, f1, Inr ()) \<and>
     open_database user_codec sample_argon None [] (\<lambda>_. None) f1 ''async'' first_catalog = Some (Inr db2) \<and>
     user_exists (db_users db2) ''ann'' \<and>
     shutdown user_codec clean_stop db2 = (db3, f3, Inr ()) \<and>
     open_database user_codec sample_argon None [] (\<lambda>_. None) f3 ''async'' first_catalog = Some (Inr db4) \<and>
     db_users db4 = []"
proof -
  let ?ck = "WCheckpoint 0 []" and ?ann = "WCreateUser ''ann'' ''$pw''"
  have none: "foldl apply_wal_record [] [?ann, ?ck] = []" "foldl apply_wal_record [] [?ck] = []" by simp_all
  have "db_tables user_database = []" "db_catalog user_database = first_catalog"
      "ww_file (db_wal user_database) = record_frame user_codec ?ann"
    by (simp_all add: user_database_def first_database_def wal_open_def)
  then obtain db1 f1 where s1: "shutdown user_codec clean_stop user_database = (db1, f1, Inr ())"
    "wf_current f1 = Some []" "wf_old f1 = Some (log_of user_codec [?ann, ?ck])"
    using user_stops [of user_database] by auto
  have l1: "files_log user_codec [?ann, ?ck] f1" by (rule user_files [OF s1(2,3)]) (simp_all add: user_records_def)
  obtain db2 where o1: "open_database user_codec sample_argon None [] (\<lambda>_. None) f1 ''async'' first_catalog = Some (Inr db2)"
    and db2: "db_tables db2 = []" "db_catalog db2 = first_catalog" "db_users db2 = replay_users_from_wal [?ann, ?ck]"
      "ww_file (db_wal db2) = []"
    using user_starts [OF l1 none(1), of sample_argon "[]" "\<lambda>_. None" "''async''" first_catalog] s1(2) by auto
  have len: "length (record_frame user_codec ?ck) \<le> 2 ^ 63"
    using list_codec_length [of user_records "[?ck]"] by (simp add: user_records_def)
  obtain db3 f3 where s2: "shutdown user_codec clean_stop db2 = (db3, f3, Inr ())" "small db3"
    "wf_current f3 = Some []" "wf_old f3 = Some (log_of user_codec [?ck])"
    using user_stops [OF db2(1,2)] db2(4) len by auto
  have l2: "files_log user_codec [?ck] f3" by (rule user_files [OF s2(3,4)]) (simp_all add: user_records_def)
  obtain db4 where o2: "open_database user_codec sample_argon None [] (\<lambda>_. None) f3 ''async'' first_catalog = Some (Inr db4)"
    using user_starts [OF l2 none(2), of sample_argon "[]" "\<lambda>_. None" "''async''" first_catalog] by auto
  have "db_users db4 = []"
    using second_shutdown_forgets_users [where rs = "[]", OF list_codec_ok s1(1) _ o1 _ _ s2(1) _ s2(2) o2]
    by (simp add: all_serializable_def replay_users_from_wal_def)
  moreover have "user_exists (db_users db2) ''ann''"
    unfolding db2(3) by code_simp
  ultimately show ?thesis using s1(1) o1 s2(1) o2 by (intro exI conjI)
qed

end
