(* ===== verification/Active_Ids.thy ===== *)
theory Active_Ids
  imports History
begin

text \<open>
  The active set over the life of a server. A transaction takes its own identifier out of the set when it
  commits, rolls back or conflicts, and nothing else takes an identifier out: one that is left behind stays
  until the next start.
\<close>

text \<open>Identifiers that were handed out stay as they are in the set.\<close>

definition ids_kept :: "mvcc_store \<Rightarrow> mvcc_store \<Rightarrow> bool" where
  "ids_kept m m' \<longleftrightarrow> mv_next_txid m \<le> mv_next_txid m' \<and>
     (\<forall>x. x \<in> mv_active_txns m \<longrightarrow> x < mv_next_txid m \<longrightarrow> x \<in> mv_active_txns m')"

lemma ids_kept_refl [simp]: "ids_kept m m"
  by (simp add: ids_kept_def)

lemma ids_kept_trans: "ids_kept m1 m2 \<Longrightarrow> ids_kept m2 m3 \<Longrightarrow> ids_kept m1 m3"
  unfolding ids_kept_def by (meson order.trans less_le_trans)

lemma begun_kept: "next_id db \<noteq> u64_MAX \<Longrightarrow> ids_kept (db_mvcc db) (db_mvcc (snd (begin_txn db)))"
  using u64_less_succ [of "next_id db"] by (simp add: ids_kept_def begin_txn_def split_beta)

text \<open>A transaction that began at \<open>m\<close> removes at most its own identifier.\<close>

definition own_removed :: "u64 \<Rightarrow> mvcc_store \<Rightarrow> mvcc_store \<Rightarrow> bool" where
  "own_removed x m m' \<longleftrightarrow> m' = m \<or> m' = m\<lparr>mv_active_txns := mv_active_txns m - {x}\<rparr>"

lemma commit_own:
  assumes "commit X C plan tx db = (tx', db', r)"
  shows "own_removed (tx_id tx) (db_mvcc db) (db_mvcc db')"
proof -
  let ?recs = "map (wal_record_of (tx_id tx)) (tx_write_set tx) @ [WCommit (tx_id tx)]"
  obtain db1 r1 where l: "log_append_all C (cp_wal plan) 0 ?recs db = (db1, r1)" by fastforce
  have "db_mvcc db1 = db_mvcc db" by (subst log_append_all_frame [OF l]) simp
  then show ?thesis
    using assms l
    by (auto simp: own_removed_def commit_def Let_def commit_transaction_def rollback_transaction_def
        split: if_splits sum.splits prod.splits)
qed

lemma own_kept:
  assumes "next_id db \<noteq> u64_MAX" "own_removed (next_id db) (db_mvcc (snd (begin_txn db))) m"
  shows "ids_kept (db_mvcc db) m"
  using u64_less_succ [OF assms(1)] assms(2)
  by (auto simp: ids_kept_def own_removed_def begin_txn_def split_beta)

lemma read_txn_kept:
  assumes "next_id db \<noteq> u64_MAX" "with_read_txn f db = (db', r)"
  shows "ids_kept (db_mvcc db) (db_mvcc db')"
  using assms(2)
  by (intro own_kept [OF assms(1)])
    (auto simp: own_removed_def with_read_txn_def commit_transaction_def split_beta split: sum.splits)

lemma write_txn_kept:
  assumes "next_id db \<noteq> u64_MAX" "with_write_txn X C plan g db = (db', r)"
  shows "ids_kept (db_mvcc db) (db_mvcc db')"
proof (rule own_kept [OF assms(1)], cases "g (fst (begin_txn db)) (db_tables (snd (begin_txn db)))")
  case (Inl e)
  then show "own_removed (next_id db) (db_mvcc (snd (begin_txn db))) (db_mvcc db')"
    using assms(2) by (auto simp: own_removed_def with_write_txn_def split_beta)
next
  case (Inr es)
  obtain tx' db2 r2 where c: "commit X C plan (foldl (\<lambda>tx e. add_write e tx) (fst (begin_txn db)) es) (snd (begin_txn db)) = (tx', db2, r2)"
    using prod_cases3 by blast
  then have "db' = db2" using assms(2) Inr by (simp add: with_write_txn_def split_beta)
  then show "own_removed (next_id db) (db_mvcc (snd (begin_txn db))) (db_mvcc db')"
    using commit_own [OF c] by simp
qed

lemma snapshot_kept: "next_id db \<noteq> u64_MAX \<Longrightarrow> ids_kept (db_mvcc db) (db_mvcc (snd (take_snapshot db)))"
  by (intro own_kept) (auto simp: own_removed_def take_snapshot_def commit_transaction_def split_beta)

subsection \<open>Statements\<close>

lemma of_unit_state: "of_unit n o1 = Some (db', r) \<Longrightarrow> db' = fst o1"
  by (cases o1) (auto simp: of_unit_def)

lemma write_entries_kept: "next_id db \<noteq> u64_MAX \<Longrightarrow> ids_kept (db_mvcc db) (db_mvcc (fst (write_entries XP es db)))"
  unfolding write_entries_def by (metis write_txn_kept prod.collapse)

lemma write_if_any_kept:
  assumes "room db" "write_if_any XP es (snd (take_snapshot db)) = Some (db', r)"
  shows "ids_kept (db_mvcc db) (db_mvcc db')"
proof -
  have "next_id db \<noteq> u64_MAX" "next_id (snd (take_snapshot db)) \<noteq> u64_MAX" using assms(1) by (simp_all add: room_def)
  then show ?thesis
    using assms(2) snapshot_kept ids_kept_trans [OF snapshot_kept write_entries_kept]
    by (auto simp: write_if_any_def dest!: of_unit_state split: if_splits)
qed

lemma note_kept: "db_mvcc (fst (log_append C fault r db)) = db_mvcc db"
  by (simp add: log_append_def split_beta)

lemma ddl_kept:
  "db_mvcc (fst (create_table C P name columns engine db)) = db_mvcc db"
  "db_mvcc (fst (drop_table C P name db)) = db_mvcc db"
  using create_table_frame drop_table_frame by (metis prod.collapse)+

lemma users_kept:
  "db_mvcc (fst (db_create_user C K salt fault username password db)) = db_mvcc db"
  "db_mvcc (fst (alter_user_password C K salt fault username password db)) = db_mvcc db"
  "db_mvcc (fst (db_drop_user C fault username db)) = db_mvcc db"
  "db_mvcc (fst (grant_permission C fault username tbl p db)) = db_mvcc db"
  "db_mvcc (fst (revoke_permission C fault username tbl p db)) = db_mvcc db"
  by (auto simp: db_create_user_def alter_user_password_def db_drop_user_def grant_permission_def revoke_permission_def
      Let_def note_kept split: sum.split option.split prod.split dest!: log_append_keeps)

lemma flat_kept:
  assumes "room db" "execute_flat XP user p db = Some (db', r)"
  shows "ids_kept (db_mvcc db) (db_mvcc db')"
proof -
  have max: "next_id db \<noteq> u64_MAX" using assms(1) by (simp add: room_def)
  have same: "db_mvcc db' = db_mvcc db \<Longrightarrow> ?thesis" by simp
  show ?thesis
  proof (cases p)
    case (PlanInsert name rows)
    then show ?thesis
      using assms(2) write_entries_kept [OF max]
      by (auto simp: execute_insert_def Let_def dest!: of_unit_state split: sum.splits)
  next
    case (PlanUpdate name set_indices set_values wc columns)
    then show ?thesis
      using assms(2) write_if_any_kept [OF assms(1)]
      by (auto simp: execute_update_def split_beta bind_eq_Some_conv split: if_splits sum.splits)
  next
    case (PlanDelete name wc columns)
    then show ?thesis
      using assms(2) write_if_any_kept [OF assms(1)] by (auto simp: execute_delete_def split_beta split: sum.splits)
  next
    case (PlanDropTable name if_exists)
    then have "db' = fst (drop_table (xp_codec XP) (xp_ddl XP) name db)"
      using assms(2) by (auto simp: execute_drop_table_def of_unit_def split: prod.splits sum.splits helion_error.splits)
    then show ?thesis using same ddl_kept(2) by simp
  next
    case (PlanDropUser username if_exists)
    then have "db' = fst (db_drop_user (xp_codec XP) (xp_wal XP) username db)"
      using assms(2) by (auto simp: execute_drop_user_def split: prod.splits sum.splits)
    then show ?thesis using same users_kept(3) by simp
  next
    case (PlanCreateIndex name tbl columns uniq if_not_exists)
    then show ?thesis
      using assms(2) by (intro same) (auto simp: execute_create_index_def set_tables_def split: sum.splits if_splits)
  next
    case (PlanDropIndex name tbl if_exists)
    then show ?thesis
      using assms(2) by (intro same) (auto simp: execute_drop_index_def set_tables_def split: option.splits sum.splits)
  next
    case (PlanAlterTableEngine name engine)
    then show ?thesis
      using assms(2) by (intro same) (auto simp: alter_table_engine_def set_catalog_def split_beta dest!: of_unit_state)
  qed (use assms(2) in \<open>auto simp: ddl_kept users_kept dest!: of_unit_state\<close>)
qed

abbreviation is_explain :: "flat_plan \<Rightarrow> bool" where
  "is_explain p \<equiv> (case p of PlanExplain _ _ _ \<Rightarrow> True | _ \<Rightarrow> False)"

lemma is_explainE: "is_explain p \<Longrightarrow> (\<And>a v s. p = PlanExplain a v s \<Longrightarrow> thesis) \<Longrightarrow> thesis"
  by (cases p) simp_all

lemma execute_as_flat:
  "\<not> is_explain p \<Longrightarrow> execute_as fuel XP user (Flat p) db = execute_flat XP user p db"
  by (cases p) simp_all

lemma plan_step:
  assumes "room db" "execute_as fuel XP user plan db = Some (db', r)"
    and "\<And>n inner r'. fuel = Suc n \<Longrightarrow> execute_as n XP user inner db = Some (db', r') \<Longrightarrow> ids_kept (db_mvcc db) (db_mvcc db')"
  shows "ids_kept (db_mvcc db) (db_mvcc db')"
proof -
  consider p where "plan = Flat p" "is_explain p" | p where "plan = Flat p" "\<not> is_explain p" | "\<forall>p. plan \<noteq> Flat p"
    by blast
  then show ?thesis
  proof cases
    case 1
    then obtain a v s where "plan = Flat (PlanExplain a v s)" by (metis is_explainE)
    then show ?thesis
      using assms(2,3) by (cases fuel) (auto split: option.splits sum.splits if_splits)
  next
    case 2
    then show ?thesis using assms(2) flat_kept [OF assms(1)] execute_as_flat by metis
  next
    case 3
    then have "execute_query XP user plan db = Some (db', r)" using assms(2) by (cases plan) auto
    then show ?thesis using snapshot_kept assms(1) by (auto simp: execute_query_def split_beta room_def)
  qed
qed

lemma plan_kept:
  "room db \<Longrightarrow> execute_as fuel XP user plan db = Some (db', r) \<Longrightarrow> ids_kept (db_mvcc db) (db_mvcc db')"
proof (induction fuel arbitrary: plan r)
  case 0
  then show ?case using plan_step by blast
next
  case (Suc n)
  show ?case by (rule plan_step [OF Suc.prems]) (use Suc.IH [OF Suc.prems(1)] in auto)
qed

subsection \<open>Up to the next start\<close>

text \<open>The states of one server: plans of SQL statements and structured queries, with any result, transactions of
  callers of the engine, and checkpoints.\<close>

inductive serves :: "database \<Rightarrow> database \<Rightarrow> bool" for db where
  served_start: "serves db db"
| served_plan: "serves db d1 \<Longrightarrow> room d1 \<Longrightarrow> execute_as fuel XP user plan d1 = Some (d2, r) \<Longrightarrow> serves db d2"
| served_statement: "serves db d1 \<Longrightarrow> room d1 \<Longrightarrow> execute_statement fuel XP user stmt d1 = Some (d2, r) \<Longrightarrow> serves db d2"
| served_begin: "serves db d1 \<Longrightarrow> room d1 \<Longrightarrow> serves db (snd (begin_txn d1))"
| served_write: "serves db d1 \<Longrightarrow> room d1 \<Longrightarrow> with_write_txn X C plan g d1 = (d2, r) \<Longrightarrow> serves db d2"
| served_checkpoint: "serves db d1 \<Longrightarrow> write_checkpoint C fault d1 = (d2, r) \<Longrightarrow> serves db d2"

lemma statement_kept:
  "room db \<Longrightarrow> execute_statement fuel XP user stmt db = Some (db', r) \<Longrightarrow> ids_kept (db_mvcc db) (db_mvcc db')"
  using plan_kept by (auto simp: execute_statement_def split: sum.splits)

lemma serves_kept: "serves db d \<Longrightarrow> ids_kept (db_mvcc db) (db_mvcc d)"
proof (induction rule: serves.induct)
  case (served_plan d1 fuel XP user plan d2 r)
  then show ?case using ids_kept_trans plan_kept by blast
next
  case (served_statement d1 fuel XP user stmt d2 r)
  then show ?case using ids_kept_trans statement_kept by blast
next
  case (served_begin d1)
  then show ?case using ids_kept_trans begun_kept unfolding room_def by blast
next
  case (served_write d1 X C plan g d2 r)
  then show ?case using ids_kept_trans write_txn_kept unfolding room_def by blast
next
  case (served_checkpoint d1 C fault d2 r)
  then show ?case using log_append_keeps by (simp add: write_checkpoint_def)
qed simp

lemma serves_active:
  assumes "serves db d" "x \<in> mv_active_txns (db_mvcc db)" "x < next_id db"
  shows "x \<in> sn_active (tx_snapshot (fst (begin_txn d)))"
  using serves_kept [OF assms(1)] assms(2,3) by (simp add: ids_kept_def)

subsection \<open>Properties\<close>

text \<open>C40: a failed transaction stays active until the next start. When a read transaction fails, or a write
  transaction fails for another reason than a conflict (its statement, a unique key, the log, an engine,
  an index), its identifier is not taken out of the active set, and nothing takes it out later: whatever the
  server then runs, statements with any outcome, transactions and checkpoints, every transaction starts with it in its
  snapshot, as long as identifiers do not run out. After a conflict the commit has removed it itself.\<close>
theorem failed_transaction_stays_active:
  assumes "x = next_id db" "x \<noteq> u64_MAX"
  shows "(with_read_txn f db = (db1, Inl e1) \<longrightarrow>
      (\<forall>d. serves db1 d \<longrightarrow> x \<in> sn_active (tx_snapshot (fst (begin_txn d))))) \<and>
    (with_write_txn X C plan g db = (db2, Inl e2) \<and> e2 \<noteq> Conflict x \<longrightarrow>
      (\<forall>d. serves db2 d \<longrightarrow> x \<in> sn_active (tx_snapshot (fst (begin_txn d)))))"
proof -
  obtain tx db0 where b: "begin_txn db = (tx, db0)" by fastforce
  have tx: "tx_id tx = x" "x \<in> mv_active_txns (db_mvcc db0)" "x < next_id db0"
    using begin_txn_simps [of db] b assms u64_less_succ by auto
  have commit: "db_mvcc d = db_mvcc db0"
    if c: "commit X C plan tx' db0 = (tx'', d, Inl e)" and "tx_id tx' = x" "e \<noteq> Conflict x" for tx' tx'' d e
  proof -
    let ?recs = "map (wal_record_of (tx_id tx')) (tx_write_set tx') @ [WCommit (tx_id tx')]"
    obtain d1 r1 where l: "log_append_all C (cp_wal plan) 0 ?recs db0 = (d1, r1)" by fastforce
    have "db_mvcc d1 = db_mvcc db0" by (subst log_append_all_frame [OF l]) simp
    then show ?thesis using that l by (auto simp: commit_def Let_def split: if_splits sum.splits prod.splits)
  qed
  have "with_read_txn f db = (db1, Inl e1) \<Longrightarrow> db_mvcc db1 = db_mvcc db0"
    using b by (auto simp: with_read_txn_def split: sum.splits)
  moreover have "with_write_txn X C plan g db = (db2, Inl e2) \<Longrightarrow> e2 \<noteq> Conflict x \<Longrightarrow> db_mvcc db2 = db_mvcc db0"
    using b tx commit by (auto simp: with_write_txn_def split: sum.splits prod.splits)
  ultimately show ?thesis using serves_active tx by metis
qed

theorem failed_transaction_stays_active_witness:
  "\<exists>db2 d. with_write_txn sample_ext sample_codec sample_plan (\<lambda>_ _. Inl (Io [])) sample_database = (db2, Inl (Io [])) \<and>
     serves db2 d \<and> next_id d = 8 \<and> 6 \<in> sn_active (tx_snapshot (fst (begin_txn d)))"
proof -
  obtain tx db0 where b: "begin_txn sample_database = (tx, db0)" by fastforce
  then have w: "with_write_txn sample_ext sample_codec sample_plan (\<lambda>_ _. Inl (Io [])) sample_database = (db0, Inl (Io []))"
    by (simp add: with_write_txn_def)
  have n: "next_id db0 = 7" using begin_txn_simps [of sample_database] b by simp
  then have run: "serves db0 (snd (begin_txn db0))" by (intro served_begin served_start) (simp add: room_def)
  moreover have "6 = next_id sample_database" "6 \<noteq> u64_MAX" by simp_all
  note failed_transaction_stays_active [OF this, of "\<lambda>_ _. Inl (Io [])" db0 "Io []" sample_ext sample_codec sample_plan
      "\<lambda>_ _. Inl (Io [])" db0 "Io []"]
  from conjunct2 [OF this] have "\<forall>d. serves db0 d \<longrightarrow> 6 \<in> sn_active (tx_snapshot (fst (begin_txn d)))"
    by (rule mp) (simp add: w)
  then have "6 \<in> sn_active (tx_snapshot (fst (begin_txn (snd (begin_txn db0)))))" using run by blast
  moreover have "next_id (snd (begin_txn db0)) = 8" using n by simp
  ultimately show ?thesis using w by blast
qed

end
