(* ===== verification/Spec2Isabelle.thy ===== *)
theory Spec2Isabelle
  imports Structured_Props Explain_Props Shell_Props History_Props Active_Ids
begin

text \<open>
  HelionDB is a SQL database with a QUIC server, multi-version concurrency control and a
  write-ahead log, written in Rust under \<open>src/src\<close>. This development models its storage, its SQL
  front end, the executor, the server's sessions, the client and the shell, and proves what they
  guarantee and where they do not keep what they promise.

  \<^bold>\<open>The program.\<close> A client (\<open>client/conn.rs\<close>) opens a stream to the server, logs in and sends SQL.
  The server (\<open>server/session.rs\<close>) checks the login against the users of the database, parses the text
  (\<open>sql/parser.rs\<close>), plans each statement against the tables in memory (\<open>sql/planner.rs\<close>) and executes the plan
  (\<open>executor/ops.rs\<close>, \<open>executor/eval.rs\<close>). Structured queries in JSON (\<open>protocol/structured.rs\<close>) become the
  same plans. The engine (\<open>storage/engine.rs\<close>) keeps the tables with their version chains and indexes
  (\<open>storage/table.rs\<close>, \<open>storage/btree.rs\<close>), hands out transactions with snapshots (\<open>storage/mvcc.rs\<close>), writes every
  change to the log first (\<open>storage/wal.rs\<close>) and then to a storage engine chosen by the catalog
  (\<open>storage/catalog.rs\<close>, \<open>storage/engines\<close>). Opening a directory replays the log.

  \<^bold>\<open>The theories\<close>, in the order of their imports:

  \<^item> \<open>Prelude\<close>: machine integers, the string functions of the standard library, results as sums with the
    loops that stop at the first error, list access. \<open>Ordered_Map\<close>: \<open>BTreeMap\<close> as an association list in key
    order. \<open>Framing\<close>: length-prefixed frames; its locale \<open>framing\<close> is the contract of a reader and a writer
    and is interpreted on the log (\<open>Wal\<close>) and on the wire between client and server (\<open>Service\<close>).
  \<^item> \<open>Helion_Types\<close>: \<open>storage/types.rs\<close> and \<open>error.rs\<close> (types, values, their order, coercion, printing, errors).
  \<^item> \<open>Btree_Index\<close>, \<open>Table\<close>, \<open>Mvcc\<close>: \<open>btree.rs\<close>, \<open>table.rs\<close>, \<open>mvcc.rs\<close>. A row is a chain of versions; visibility,
    constraints, conflicts, what a write set makes of the chains; the three unguarded steps of
    \<open>begin_transaction\<close> as a step relation over threads.
  \<^item> \<open>Permissions\<close>, \<open>Users\<close>: \<open>permissions.rs\<close>, \<open>users.rs\<close>.
  \<^item> \<open>Wal\<close>: \<open>wal.rs\<close> over bytes: records, writer, durability modes, rotation, replay.
  \<^item> \<open>Storage_Engine\<close>, \<open>Catalog\<close>: \<open>engine_trait.rs\<close>, \<open>engines/memory.rs\<close>, \<open>engines/disk.rs\<close>, \<open>catalog.rs\<close>. The locale
    \<open>storage_engine\<close> is the trait with the laws its users rely on, interpreted on both engines
    and on their sum.
  \<^item> \<open>Engine\<close>, \<open>Admin\<close>: \<open>engine.rs\<close>, \<open>checkpoint.rs\<close>: the record \<open>database\<close> is \<open>DatabaseEngine\<close>; commit,
    rollback, recovery; tables, users, grants, checkpoint, shutdown.
  \<^item> \<open>Commit\<close>, \<open>Recovery\<close>, \<open>History\<close>, \<open>History_Props\<close>, \<open>Active_Ids\<close>: what a commit guarantees, what the log is worth, the
    durability of whole histories of statements, shutdowns and restarts, and the active set over the life of a server.
  \<^item> \<open>Floats\<close>, \<open>Eval\<close>, \<open>Eval_Props\<close>: \<open>eval.rs\<close>; IEEE arithmetic on bit patterns; both evaluators, LIKE against a
    declarative reading, typing of expressions and its soundness.
  \<^item> \<open>Planner\<close>, \<open>Pushdown\<close>, \<open>Joins\<close>, \<open>Index_Scans\<close>: \<open>planner.rs\<close>; its passes against the unoptimised plan.
  \<^item> \<open>Executor\<close>, \<open>Statements\<close>, \<open>Explain_Props\<close>: \<open>ops.rs\<close>; plans evaluated over a snapshot, statements over a
    database; the chains of EXPLAIN ANALYZE.
  \<^item> \<open>Sql_Text\<close>, \<open>Sql_Convert\<close>, \<open>Sql_Props\<close>: \<open>parser.rs\<close>; its own parsers and the conversion of syntax trees.
  \<^item> \<open>Structured\<close>, \<open>Structured_Props\<close>: \<open>structured.rs\<close>.
  \<^item> \<open>Session\<close>, \<open>Session_Props\<close>: \<open>session.rs\<close>, \<open>protocol/auth.rs\<close>, \<open>protocol/messages.rs\<close>; the streams of a
    connection interleave in a step relation.
  \<^item> \<open>Client\<close>, \<open>Service\<close>: \<open>client/conn.rs\<close>, and client and server loop joined by the wire.
  \<^item> \<open>Shell\<close>, \<open>Helionctl\<close>, \<open>Startup\<close>, \<open>Shell_Props\<close>: \<open>client/repl.rs\<close>, \<open>client/output.rs\<close>, \<open>client/cert.rs\<close>,
    \<open>bin/helionctl.rs\<close>, \<open>config.rs\<close>, \<open>main.rs\<close>, \<open>server/quic.rs\<close>, \<open>metrics.rs\<close>.

  \<^bold>\<open>How the code is modelled.\<close> A struct is a record, an enum a datatype, \<open>u64\<close> and its like are words,
  \<open>usize\<close> is \<open>nat\<close>, a string its bytes, \<open>f64\<close> its bit pattern. \<open>Result\<close> is a sum with the error on the left; an
  operation that mutates returns the new state beside its result, since the code does not undo what it did
  before an error. In results of type option, None is a panic or, for \<open>execute_as\<close>, the end of the fuel. Case
  conversion and trimming are those of ASCII text, and LIKE matches bytes, which is the code's matching of characters
  for ASCII text. A read that fails leaves a partial frame unread where \<open>read_exact\<close> has consumed it; the loop ends there
  in both. The databases of a start are opened each from the directory as it was at the start. A hash map's order of iteration is an argument where the
  result depends on it. An operation of the engine runs alone: the lock guards that the code drops between its
  steps are modelled only where a step relation says so (\<open>begin_transaction\<close>, the streams of a connection, and
  the two halves of UPDATE and DELETE).

  \<^bold>\<open>Parameters.\<close> Third-party code is an argument: bincode and crc32 (\<open>codec\<close>), argon2 (\<open>argon\<close>), the sqlparser
  crate and the debug printing that Rust derives (\<open>sql_front\<close>), JSON texts (\<open>json_text\<close>), dates (\<open>ext\<close>), \<open>powi\<close> and
  the NaN pattern (\<open>float_env\<close>), fresh identifiers, rustls, quinn, rcgen, clap and TOML. Faults of the file
  system and of the transport are plans that name the operation that fails. Hypotheses on them state what their
  documentation promises (\<open>codec_ok\<close>: decoding undoes encoding; \<open>argon_ok\<close>: a hash verifies its password), and each
  property that uses one is applied at a concrete instance in its witness.

  \<^bold>\<open>Bounds and fuel.\<close> Only \<open>execute_as\<close> takes fuel, for EXPLAIN ANALYZE inside EXPLAIN ANALYZE;
  \<open>explain_terminates\<close> shows that fuel for the length of the chain is enough, that more changes nothing, and that a chain
  without an end has no outcome. All
  other loops are structural or have a termination proof (replay by the bytes left, the message loop by the
  unread input). Properties about transactions assume that identifiers have not reached the largest \<open>u64\<close>, those
  about log files that a file has at most 2 to the 63 bytes. The histories of C1 are those of SQL statements other than
  EXPLAIN in which the log accepts what is written to it, a failed statement has left tables and log as they were, and DROP TABLE
  names its table as it was created; findings show what happens otherwise.

  \<^bold>\<open>What is shown.\<close> C1: what settled statements did is recovered over whole histories of statements, shutdowns and restarts, by
  an invariant between the log files and the tables (\<open>History\<close>). C2 to C11 and C40: what a transaction sees and does, on every
  table, chain and index, and in every interleaving of the identifiers; C5, C6 and C12 to C15: what the log is worth, under
  truncation, after opening, and for users; C16 to C20, C31, C32 and C37 to C39: evaluation, types, planning, joins and
  indexes against reference definitions; C21 to C29: wire, sessions, login, prepared statements, structured
  queries, SQL texts; C30 and C33 to C36: grants, storage engines, startup. The remaining theorems
  of the theories show flaws on concrete or general inputs; the manifest lists them as findings: lost updates (\<open>Mvcc.lost_update\<close>), torn transactions
  (\<open>Recovery.torn_transaction_replayed\<close>), conditions
  that pushdown moves below a left join (\<open>Pushdown.pushdown_breaks_left_join\<close>), hash joins that swap keys
  (\<open>Joins.hash_join_swaps_keys\<close>), and more.

  \<^bold>\<open>Not modelled.\<close> The sockets and timers of the accept loop, of the metrics listener and of the checkpoint loop; the
  interleaving of two commits between their lock guards; log messages; the unit tests inside the source files;
  the module files, which hold declarations only.
\<close>

end
